(* ===== verification/Mina_Prelude.thy ===== *)
theory Mina_Prelude
  imports "HOL-Library.Word" "HOL-Library.Finite_Map"
begin

text \<open>
  Shared vocabulary of the development: machine integers, Rust results with panics, byte
  strings, and the generic lemmas the components use.

  A Rust call that returns \<open>Result\<close> has three outcomes here: \<open>Ok\<close>, \<open>Err\<close> and
  \<open>Panic\<close>; an index or slice out of range, an \<open>unwrap\<close> of an error and a
  \<open>copy_from_slice\<close> between slices of different lengths are \<open>Panic\<close>. A Rust string
  is the list of its UTF-8 bytes, as in the language; \<open>usize\<close> is \<open>nat\<close> and \<open>uN\<close>
  is \<open>N word\<close>.
\<close>

section \<open>Machine integers\<close>

type_synonym u8 = "8 word"
type_synonym u16 = "16 word"
type_synonym u32 = "32 word"
type_synonym u64 = "64 word"
type_synonym bytes = "u8 list"

named_theorems outcome_simps \<open>how the outcome combinators compute\<close>
named_theorems wire_simps \<open>byte-level encodings\<close>

section \<open>Results and panics\<close>

datatype ('e, 'a) outcome = Ok 'a | Err 'e | Panic

fun obind :: "('e, 'a) outcome \<Rightarrow> ('a \<Rightarrow> ('e, 'b) outcome) \<Rightarrow> ('e, 'b) outcome" where
  "obind (Ok a) f = f a"
| "obind (Err e) f = Err e"
| "obind Panic f = Panic"

fun omap :: "('a \<Rightarrow> 'b) \<Rightarrow> ('e, 'a) outcome \<Rightarrow> ('e, 'b) outcome" where
  "omap f (Ok a) = Ok (f a)"
| "omap f (Err e) = Err e"
| "omap f Panic = Panic"

fun map_err :: "('e \<Rightarrow> 'f) \<Rightarrow> ('e, 'a) outcome \<Rightarrow> ('f, 'a) outcome" where
  "map_err f (Ok a) = Ok a"
| "map_err f (Err e) = Err (f e)"
| "map_err f Panic = Panic"

fun unwrap :: "('e, 'a) outcome \<Rightarrow> ('f, 'a) outcome" where
  "unwrap (Ok a) = Ok a"
| "unwrap (Err e) = Panic"
| "unwrap Panic = Panic"

fun ok_or :: "'e \<Rightarrow> 'a option \<Rightarrow> ('e, 'a) outcome" where
  "ok_or e (Some a) = Ok a"
| "ok_or e None = Err e"

fun omap_list :: "('a \<Rightarrow> ('e, 'b) outcome) \<Rightarrow> 'a list \<Rightarrow> ('e, 'b list) outcome" where
  "omap_list f [] = Ok []"
| "omap_list f (x # xs) = obind (f x) (\<lambda>y. obind (omap_list f xs) (\<lambda>ys. Ok (y # ys)))"

lemma obind_Ok_iff [outcome_simps]:
  "obind r f = Ok b \<longleftrightarrow> (\<exists>a. r = Ok a \<and> f a = Ok b)"
  by (cases r) auto

lemma obind_Err_iff [outcome_simps]:
  "obind r f = Err e \<longleftrightarrow> r = Err e \<or> (\<exists>a. r = Ok a \<and> f a = Err e)"
  by (cases r) auto

lemma obind_Panic_iff [outcome_simps]:
  "obind r f = Panic \<longleftrightarrow> r = Panic \<or> (\<exists>a. r = Ok a \<and> f a = Panic)"
  by (cases r) auto

lemma omap_Ok_iff [outcome_simps]: "omap f r = Ok b \<longleftrightarrow> (\<exists>a. r = Ok a \<and> b = f a)"
  by (cases r) auto

lemma map_err_Ok_iff [outcome_simps]: "map_err f r = Ok a \<longleftrightarrow> r = Ok a"
  by (cases r) auto

lemma unwrap_Ok_iff [outcome_simps]: "unwrap r = Ok a \<longleftrightarrow> r = Ok a"
  by (cases r) auto

lemma ok_or_Ok_iff [outcome_simps]: "ok_or e m = Ok a \<longleftrightarrow> m = Some a"
  by (cases m) auto

lemma omap_list_Ok_length: "omap_list f xs = Ok ys \<Longrightarrow> length ys = length xs"
  by (induction xs arbitrary: ys) (auto simp: outcome_simps)

lemma omap_list_all_Ok:
  assumes "\<And>x. x \<in> set xs \<Longrightarrow> f x = Ok (g x)"
  shows "omap_list f xs = Ok (map g xs)"
  using assms by (induction xs) auto

definition returns :: "('e, 'a) outcome \<Rightarrow> bool" where
  "returns r \<longleftrightarrow> (\<exists>a. r = Ok a)"

lemma returns_simps [simp]:
  "returns (Ok a)" "\<not> returns (Err e)" "\<not> returns Panic"
  "returns (unwrap r) \<longleftrightarrow> returns r" "returns (omap f r) \<longleftrightarrow> returns r"
  by (cases r; simp add: returns_def)+

lemma returns_obind: "returns (obind r f) \<longleftrightarrow> (\<exists>a. r = Ok a \<and> returns (f a))"
  by (cases r) simp_all

lemma returns_obind_const:
  assumes "\<And>a. r = Ok a \<Longrightarrow> returns (f a) \<longleftrightarrow> Q"
  shows "returns (obind r f) \<longleftrightarrow> returns r \<and> Q"
  using assms by (cases r) simp_all

lemma returnsE: "returns r \<Longrightarrow> (\<And>a. r = Ok a \<Longrightarrow> thesis) \<Longrightarrow> thesis"
  by (auto simp: returns_def)

section \<open>Checked list access\<close>

definition idx :: "'a list \<Rightarrow> nat \<Rightarrow> ('e, 'a) outcome" where
  "idx xs i = (if i < length xs then Ok (xs ! i) else Panic)"

definition slice :: "'a list \<Rightarrow> nat \<Rightarrow> nat \<Rightarrow> ('e, 'a list) outcome" where
  "slice xs i j = (if i \<le> j \<and> j \<le> length xs then Ok (take (j - i) (drop i xs)) else Panic)"

definition copy_from_slice :: "'a list \<Rightarrow> 'a list \<Rightarrow> ('e, 'a list) outcome" where
  "copy_from_slice dst src = (if length dst = length src then Ok src else Panic)"

lemma idx_Ok_iff [outcome_simps]: "idx xs i = Ok x \<longleftrightarrow> i < length xs \<and> x = xs ! i"
  by (auto simp: idx_def)

lemma idx_Ok [simp]: "i < length xs \<Longrightarrow> idx xs i = Ok (xs ! i)"
  by (simp add: idx_def)

lemma slice_Ok [simp]: "i \<le> j \<Longrightarrow> j \<le> length xs \<Longrightarrow> slice xs i j = Ok (take (j - i) (drop i xs))"
  by (simp add: slice_def)

section \<open>Little-endian bytes\<close>

fun le_bytes :: "nat \<Rightarrow> nat \<Rightarrow> bytes" where
  "le_bytes 0 x = []"
| "le_bytes (Suc n) x = word_of_nat (x mod 256) # le_bytes n (x div 256)"

fun le_value :: "bytes \<Rightarrow> nat" where
  "le_value [] = 0"
| "le_value (b # bs) = unat b + 256 * le_value bs"

lemma length_le_bytes [simp, wire_simps]: "length (le_bytes n x) = n"
  by (induction n arbitrary: x) auto

lemma unat_u8_less [simp]: "unat (b :: u8) < 256"
  using unsigned_less [of b, where ?'a = nat] by simp

lemma unat_byte_of_mod [simp]: "unat (word_of_nat (x mod 256) :: u8) = x mod 256"
  by (simp add: unat_of_nat)

lemma le_value_le_bytes [wire_simps]: "le_value (le_bytes n x) = x mod 256 ^ n"
proof (induction n arbitrary: x)
  case (Suc n)
  have "x mod (256 * 256 ^ n) = 256 * (x div 256 mod 256 ^ n) + x mod 256"
    by (rule mod_mult2_eq)
  then show ?case by (simp add: Suc)
qed simp

lemma le_value_bound: "le_value bs < 256 ^ length bs"
proof (induction bs)
  case (Cons b bs)
  have "unat b < 256" by simp
  with Cons have "unat b + 256 * le_value bs < 256 + 256 * (256 ^ length bs - 1)"
    by (intro add_less_le_mono) (auto simp: Suc_le_eq[symmetric] le_diff_conv2)
  also have "256 + 256 * (256 ^ length bs - 1) = 256 * (256::nat) ^ length bs"
    by (simp add: algebra_simps)
  finally show ?case by simp
qed simp

lemma le_bytes_le_value [wire_simps]: "le_bytes (length bs) (le_value bs) = bs"
proof (induction bs)
  case (Cons b bs)
  have "unat b < 256" by simp
  then show ?case using Cons by simp
qed simp

lemma le_value_inject: "length xs = length ys \<Longrightarrow> le_value xs = le_value ys \<longleftrightarrow> xs = ys"
  by (metis le_bytes_le_value)

lemma le_bytes_inject: "x < 256 ^ n \<Longrightarrow> y < 256 ^ n \<Longrightarrow> le_bytes n x = le_bytes n y \<longleftrightarrow> x = y"
  by (metis le_value_le_bytes mod_less)

section \<open>Strings\<close>

type_synonym rstr = bytes

definition lit :: "string \<Rightarrow> rstr" where
  "lit s = map of_char s"

lemma lit_simps [simp]:
  "lit [] = []" "lit (c # cs) = of_char c # lit cs"
  by (simp_all add: lit_def)

text \<open>Bytes \<open>10xxxxxx\<close> continue a character; every other byte of a string starts one.\<close>

definition is_cont :: "u8 \<Rightarrow> bool" where
  "is_cont b \<longleftrightarrow> 0x80 \<le> b \<and> b < 0xC0"

definition char_count :: "rstr \<Rightarrow> nat" where
  "char_count s = length (filter (\<lambda>b. \<not> is_cont b) s)"

fun take_chars :: "nat \<Rightarrow> rstr \<Rightarrow> rstr" where
  "take_chars n [] = []"
| "take_chars n (b # bs) =
     (if is_cont b then b # take_chars n bs
      else (case n of 0 \<Rightarrow> [] | Suc m \<Rightarrow> b # take_chars m bs))"

definition ascii :: "rstr \<Rightarrow> bool" where
  "ascii s \<longleftrightarrow> (\<forall>b \<in> set s. b < 0x80)"

lemma ascii_not_cont: "ascii s \<Longrightarrow> b \<in> set s \<Longrightarrow> \<not> is_cont b"
  by (auto simp: ascii_def is_cont_def)

lemma char_count_ascii: "ascii s \<Longrightarrow> char_count s = length s"
  unfolding char_count_def by (subst filter_True) (auto simp: ascii_not_cont)

lemma char_count_le: "char_count s \<le> length s"
  by (simp add: char_count_def)

lemma take_chars_ascii: "ascii s \<Longrightarrow> take_chars n s = take n s"
proof (induction s arbitrary: n)
  case (Cons b s)
  then have "\<not> is_cont b" "ascii s" by (auto simp: ascii_def is_cont_def)
  with Cons show ?case by (cases n) auto
qed simp

text \<open>
  \<open>core::str::from_utf8\<close>: the well-formed byte sequences of the Unicode standard.
  \<open>utf8_seq a bs\<close> is what is left of \<open>bs\<close> after the character that starts with \<open>a\<close>.
\<close>

definition in_range :: "u8 \<Rightarrow> u8 \<Rightarrow> u8 \<Rightarrow> bool" where
  "in_range lo hi b \<longleftrightarrow> lo \<le> b \<and> b \<le> hi"

definition utf8_tail :: "(u8 \<Rightarrow> bool) list \<Rightarrow> bytes \<Rightarrow> bytes option" where
  "utf8_tail ps bs =
     (if length ps \<le> length bs \<and> list_all2 (\<lambda>p b. p b) ps (take (length ps) bs)
      then Some (drop (length ps) bs) else None)"

definition utf8_seq :: "u8 \<Rightarrow> bytes \<Rightarrow> bytes option" where
  "utf8_seq a bs =
     (if a < 0x80 then Some bs
      else if in_range 0xC2 0xDF a then utf8_tail [is_cont] bs
      else if a = 0xE0 then utf8_tail [in_range 0xA0 0xBF, is_cont] bs
      else if in_range 0xE1 0xEC a then utf8_tail [is_cont, is_cont] bs
      else if a = 0xED then utf8_tail [in_range 0x80 0x9F, is_cont] bs
      else if in_range 0xEE 0xEF a then utf8_tail [is_cont, is_cont] bs
      else if a = 0xF0 then utf8_tail [in_range 0x90 0xBF, is_cont, is_cont] bs
      else if in_range 0xF1 0xF3 a then utf8_tail [is_cont, is_cont, is_cont] bs
      else if a = 0xF4 then utf8_tail [in_range 0x80 0x8F, is_cont, is_cont] bs
      else None)"

lemma utf8_tail_length: "utf8_tail ps bs = Some r \<Longrightarrow> length r \<le> length bs"
  by (auto simp: utf8_tail_def split: if_splits)

lemma utf8_seq_length: "utf8_seq a bs = Some r \<Longrightarrow> length r \<le> length bs"
  unfolding utf8_seq_def by (simp split: if_split_asm add: utf8_tail_length)

function utf8_valid :: "bytes \<Rightarrow> bool" where
  "utf8_valid [] = True"
| "utf8_valid (a # bs) = (case utf8_seq a bs of None \<Rightarrow> False | Some r \<Rightarrow> utf8_valid r)"
  by pat_completeness auto
termination
  by (relation "measure length") (auto dest: utf8_seq_length)

lemma utf8_valid_ascii: "ascii s \<Longrightarrow> utf8_valid s"
  by (induction s) (auto simp: ascii_def utf8_seq_def)

lemma utf8_tail_cont:
  "utf8_tail (p # ps) bs = Some r \<Longrightarrow> (\<And>b. p b \<Longrightarrow> is_cont b) \<Longrightarrow> \<exists>b \<in> set bs. is_cont b"
  by (cases bs) (auto simp: utf8_tail_def split: if_splits)

lemma in_range_cont: "in_range lo hi b \<Longrightarrow> 0x80 \<le> lo \<Longrightarrow> hi < 0xC0 \<Longrightarrow> is_cont b"
  by (auto simp: in_range_def is_cont_def)

lemma utf8_seq_cont: "utf8_seq a bs = Some r \<Longrightarrow> \<not> a < 0x80 \<Longrightarrow> \<exists>b \<in> set bs. is_cont b"
  unfolding utf8_seq_def
  by (auto split: if_split_asm elim!: utf8_tail_cont dest: in_range_cont)

lemma utf8_no_cont_ascii: "utf8_valid s \<Longrightarrow> list_all (\<lambda>b. \<not> is_cont b) s \<longleftrightarrow> ascii s"
proof (induction s rule: utf8_valid.induct)
  case (2 a bs)
  show ?case
  proof (cases "a < 0x80")
    case True
    then have "utf8_seq a bs = Some bs" by (simp add: utf8_seq_def)
    then have "list_all (\<lambda>b. \<not> is_cont b) bs \<longleftrightarrow> ascii bs" using 2 by simp
    moreover have "\<not> is_cont a" using True by (auto simp: is_cont_def)
    ultimately show ?thesis using True by (simp add: ascii_def)
  next
    case False
    obtain r where "utf8_seq a bs = Some r" using "2.prems" by (auto split: option.splits)
    from utf8_seq_cont[OF this False] show ?thesis using False by (auto simp: ascii_def list_all_iff)
  qed
qed (simp add: ascii_def)

section \<open>Decimal numbers\<close>

text \<open>\<open>to_string\<close> of an unsigned integer, and \<open>str::parse\<close> of one of \<open>w\<close> bits.\<close>

fun show_nat :: "nat \<Rightarrow> rstr" where
  "show_nat n = (if n < 10 then [word_of_nat (48 + n)]
                 else show_nat (n div 10) @ [word_of_nat (48 + n mod 10)])"

declare show_nat.simps [simp del]

definition is_digit :: "u8 \<Rightarrow> bool" where
  "is_digit b \<longleftrightarrow> 48 \<le> b \<and> b \<le> 57"

definition digits_value :: "rstr \<Rightarrow> nat" where
  "digits_value s = foldl (\<lambda>acc b. acc * 10 + (unat b - 48)) 0 s"

definition strip_plus :: "rstr \<Rightarrow> rstr" where
  "strip_plus s = (case s of [] \<Rightarrow> [] | b # bs \<Rightarrow> if b = 43 then bs else s)"

definition parse_uint :: "nat \<Rightarrow> rstr \<Rightarrow> nat option" where
  "parse_uint w s =
     (let d = strip_plus s in
      if d \<noteq> [] \<and> list_all is_digit d \<and> digits_value d < 2 ^ w then Some (digits_value d) else None)"

lemma unat_digit: "d < 10 \<Longrightarrow> unat (word_of_nat (48 + d) :: u8) = 48 + d"
  by (simp add: unat_of_nat del: of_nat_add)

lemma is_digit_of: "d < 10 \<Longrightarrow> is_digit (word_of_nat (48 + d))"
  by (simp add: is_digit_def word_le_nat_alt unat_digit del: of_nat_add)

lemma show_nat_digits: "list_all is_digit (show_nat n) \<and> show_nat n \<noteq> []"
proof (induction n rule: show_nat.induct)
  case (1 n)
  then show ?case
    by (subst (1 2) show_nat.simps) (auto simp: is_digit_of simp del: of_nat_add)
qed

lemma digits_value_show_nat: "digits_value (show_nat n) = n"
proof (induction n rule: show_nat.induct)
  case (1 n)
  then show ?case
    by (subst show_nat.simps) (auto simp: digits_value_def unat_digit simp del: of_nat_add)
qed

lemma strip_plus_show_nat: "strip_plus (show_nat n) = show_nat n"
  using show_nat_digits[of n]
  by (cases "show_nat n") (auto simp: strip_plus_def is_digit_def word_le_nat_alt)

lemma parse_show_nat [wire_simps]: "n < 2 ^ w \<Longrightarrow> parse_uint w (show_nat n) = Some n"
  using show_nat_digits[of n]
  by (simp add: parse_uint_def Let_def strip_plus_show_nat digits_value_show_nat)

lemma parse_uint_bound: "parse_uint w s = Some n \<Longrightarrow> n < 2 ^ w"
  by (auto simp: parse_uint_def Let_def split: if_splits)

section \<open>The contract of an encoder and its decoder\<close>

text \<open>
  Every wire format of the code is a pair of functions that must agree: a value that is
  written can be read back. What the clients use is that the encoding is injective and
  that lists can be encoded element by element.
\<close>

locale wire_codec =
  fixes enc :: "'a \<Rightarrow> 'w"
    and dec :: "'w \<Rightarrow> ('e, 'a) outcome"
    and wf :: "'a \<Rightarrow> bool"
  assumes dec_enc: "wf x \<Longrightarrow> dec (enc x) = Ok x"
begin

lemma enc_inject: "wf x \<Longrightarrow> wf y \<Longrightarrow> enc x = enc y \<longleftrightarrow> x = y"
  by (metis dec_enc outcome.inject(1))

lemma dec_enc_list: "list_all wf xs \<Longrightarrow> omap_list dec (map enc xs) = Ok xs"
  by (induction xs) (auto simp: dec_enc)

lemma enc_list_inject:
  assumes "list_all wf xs" and "list_all wf ys" and "map enc xs = map enc ys"
  shows "xs = ys"
  using assms dec_enc_list by (metis outcome.inject(1))

lemma inj_on_enc: "inj_on enc {x. wf x}"
  by (auto simp: inj_on_def enc_inject)

end

end
