(* ===== verification/Collector.thy ===== *)
theory Collector
  imports Mina_Prelude
begin

text \<open>
  The pattern every round of the client's protocols follows: messages arrive, each acceptable
  one puts an entry into a map, later entries of the same sender replace earlier ones, and
  the phase ends with the first message that makes the map complete. The locale states the
  contract of such a phase of a state machine; the coordinator's two rounds and the rounds of
  the key generation are interpretations of it.
\<close>

type_synonym ('k, 'v) hash_map = "('k, 'v) fmap"

abbreviation map_len :: "('k, 'v) hash_map \<Rightarrow> nat" where
  "map_len m \<equiv> fcard (fmdom m)"

datatype session_error = Eyre rstr | Serde

record 'pk msg =
  msg_sender :: 'pk
  msg_bytes :: bytes

section \<open>Collecting entries\<close>

definition add_entry :: "('m \<Rightarrow> ('id \<times> 'v) option) \<Rightarrow> ('id, 'v) fmap \<Rightarrow> 'm \<Rightarrow> ('id, 'v) fmap" where
  "add_entry accept m msg = (case accept msg of None \<Rightarrow> m | Some (i, v) \<Rightarrow> fmupd i v m)"

definition add_entries :: "('m \<Rightarrow> ('id \<times> 'v) option) \<Rightarrow> ('id, 'v) fmap \<Rightarrow> 'm list \<Rightarrow> ('id, 'v) fmap" where
  "add_entries accept = foldl (add_entry accept)"

lemma add_entries_simps [simp]:
  "add_entries accept m [] = m"
  "add_entries accept m (msg # msgs) = add_entries accept (add_entry accept m msg) msgs"
  "add_entries accept m (xs @ ys) = add_entries accept (add_entries accept m xs) ys"
  by (simp_all add: add_entries_def)

lemma add_entry_simps [simp]:
  "accept msg = None \<Longrightarrow> add_entry accept m msg = m"
  "accept msg = Some (i, v) \<Longrightarrow> add_entry accept m msg = fmupd i v m"
  by (simp_all add: add_entry_def)

text \<open>The values a list of messages brings for a key; the last one is the entry.\<close>

definition values_for :: "('m \<Rightarrow> ('id \<times> 'v) option) \<Rightarrow> 'id \<Rightarrow> 'm list \<Rightarrow> 'v list" where
  "values_for accept i msgs =
     concat (map (\<lambda>msg. case accept msg of Some (j, v) \<Rightarrow> if j = i then [v] else [] | None \<Rightarrow> []) msgs)"

lemma values_for_simps [simp]:
  "values_for accept i [] = []"
  "values_for accept i (xs @ ys) = values_for accept i xs @ values_for accept i ys"
  by (simp_all add: values_for_def)

lemma in_values_for:
  "v \<in> set (values_for accept i msgs) \<longleftrightarrow> (\<exists>msg \<in> set msgs. accept msg = Some (i, v))"
  by (induction msgs) (auto simp: values_for_def split: option.splits if_splits)

lemma add_entries_lookup:
  "fmlookup (add_entries accept m msgs) i =
    (if values_for accept i msgs = [] then fmlookup m i else Some (last (values_for accept i msgs)))"
proof (induction msgs rule: rev_induct)
  case (snoc msg msgs)
  then show ?case
    by (cases "accept msg") (auto simp: values_for_def split: prod.splits)
qed simp

lemma add_entries_source:
  "fmlookup (add_entries accept m msgs) i = Some v \<Longrightarrow>
    fmlookup m i = Some v \<or> (\<exists>msg \<in> set msgs. accept msg = Some (i, v))"
  using in_values_for[of v accept i msgs] last_in_set[of "values_for accept i msgs"]
  by (auto simp: add_entries_lookup split: if_splits)

lemma fmdom_add_entry:
  "fmdom (add_entry accept m msg) = fmdom m |\<union>| (case accept msg of Some (i, v) \<Rightarrow> {|i|} | None \<Rightarrow> {||})"
  by (auto simp: add_entry_def split: option.splits)

lemma fmember_add_entries:
  "i |\<in>| fmdom (add_entries accept m msgs) \<longleftrightarrow>
    i |\<in>| fmdom m \<or> (\<exists>msg \<in> set msgs. \<exists>v. accept msg = Some (i, v))"
  by (induction msgs arbitrary: m) (auto simp: fmdom_add_entry split: option.splits)

text \<open>A message that is accepted and completes the map.\<close>

definition finishing ::
  "('m \<Rightarrow> ('id \<times> 'v) option) \<Rightarrow> (('id, 'v) fmap \<Rightarrow> bool) \<Rightarrow> ('id, 'v) fmap \<Rightarrow> 'm \<Rightarrow> bool" where
  "finishing accept complete m msg \<longleftrightarrow> accept msg \<noteq> None \<and> complete (add_entry accept m msg)"

lemma map_len_empty [simp]: "map_len fmempty = 0"
  by (simp add: fcard.rep_eq)

lemma card_reached:
  assumes "fcard (fmdom m) < k" and "k \<le> fcard (fmdom (add_entries accept m msgs))"
  shows "\<exists>xs y ys. msgs = xs @ y # ys \<and>
    finishing accept (\<lambda>m. fcard (fmdom m) = k) (add_entries accept m xs) y"
  using assms
proof (induction msgs arbitrary: m)
  case (Cons msg msgs)
  show ?case
  proof (cases "finishing accept (\<lambda>m. fcard (fmdom m) = k) m msg")
    case True
    then show ?thesis by (intro exI[of _ "[]"] exI[of _ msg] exI[of _ msgs]) simp
  next
    case False
    have less: "fcard (fmdom (add_entry accept m msg)) < k"
      using False Cons.prems(1)
      by (cases "accept msg") (auto simp: finishing_def fcard_finsert_if split: if_splits)
    obtain xs y ys where "msgs = xs @ y # ys"
      "finishing accept (\<lambda>m. fcard (fmdom m) = k) (add_entries accept (add_entry accept m msg) xs) y"
      using Cons.IH[OF less] Cons.prems(2) by auto
    then show ?thesis by (intro exI[of _ "msg # xs"] exI[of _ y] exI[of _ ys]) simp
  qed
qed simp

lemma dom_reached:
  assumes "fmdom m |\<subset>| D" and "D |\<subseteq>| fmdom (add_entries accept m msgs)"
    and "\<And>msg i v. accept msg = Some (i, v) \<Longrightarrow> i |\<in>| D"
  shows "\<exists>xs y ys. msgs = xs @ y # ys \<and>
    finishing accept (\<lambda>m. fmdom m = D) (add_entries accept m xs) y"
  using assms(1,2)
proof (induction msgs arbitrary: m)
  case (Cons msg msgs)
  show ?case
  proof (cases "finishing accept (\<lambda>m. fmdom m = D) m msg")
    case True
    then show ?thesis by (intro exI[of _ "[]"] exI[of _ msg] exI[of _ msgs]) simp
  next
    case False
    have less: "fmdom (add_entry accept m msg) |\<subset>| D"
      using False Cons.prems(1) assms(3)[of msg]
      by (cases "accept msg") (auto simp: finishing_def)
    obtain xs y ys where "msgs = xs @ y # ys"
      "finishing accept (\<lambda>m. fmdom m = D) (add_entries accept (add_entry accept m msg) xs) y"
      using Cons.IH[OF less] Cons.prems(2) by auto
    then show ?thesis by (intro exI[of _ "msg # xs"] exI[of _ y] exI[of _ ys]) simp
  qed
qed auto

lemma fmdom_psubset: "m \<noteq> fmempty \<Longrightarrow> fmdom fmempty |\<subset>| fmdom m"
proof -
  assume "m \<noteq> fmempty"
  moreover have "m = fmempty" if "fmdom m = {||}"
    using that by (intro fmap_ext) (simp add: fmdom_notD)
  ultimately show ?thesis by auto
qed

section \<open>The contract of a phase\<close>

locale collecting_phase =
  fixes step :: "'s \<Rightarrow> 'm \<Rightarrow> 's"
    and collecting :: "'s \<Rightarrow> ('id, 'v) fmap option"
    and finished :: "'s \<Rightarrow> ('id, 'v) fmap option"
    and accept :: "'m \<Rightarrow> ('id \<times> 'v) option"
    and complete :: "('id, 'v) fmap \<Rightarrow> bool"
  assumes refuse: "collecting s = Some m \<Longrightarrow> accept msg = None \<Longrightarrow> collecting (step s msg) = Some m"
    and insert_more: "collecting s = Some m \<Longrightarrow> accept msg = Some (i, v) \<Longrightarrow>
      \<not> complete (fmupd i v m) \<Longrightarrow> collecting (step s msg) = Some (fmupd i v m)"
    and insert_last: "collecting s = Some m \<Longrightarrow> accept msg = Some (i, v) \<Longrightarrow>
      complete (fmupd i v m) \<Longrightarrow> finished (step s msg) = Some (fmupd i v m)"
begin

abbreviation run :: "'s \<Rightarrow> 'm list \<Rightarrow> 's" where
  "run s msgs \<equiv> foldl step s msgs"

lemma step_collecting:
  "collecting s = Some m \<Longrightarrow> \<not> finishing accept complete m msg \<Longrightarrow> collecting (step s msg) = Some (add_entry accept m msg)"
  using refuse[of s m msg] insert_more[of s m msg] by (cases "accept msg") (auto simp: finishing_def)

lemma step_finished:
  "collecting s = Some m \<Longrightarrow> finishing accept complete m msg \<Longrightarrow> finished (step s msg) = Some (add_entry accept m msg)"
  using insert_last[of s m msg] by (auto simp: finishing_def)

text \<open>
  Either no message completes the map and the phase has collected all entries, or the phase is
  left with the first message that completes it, having collected all entries up to it.
\<close>

lemma phase_run:
  assumes "collecting s = Some m"
  obtains (waiting) "\<And>xs y ys. msgs = xs @ y # ys \<Longrightarrow> \<not> finishing accept complete (add_entries accept m xs) y"
      and "collecting (run s msgs) = Some (add_entries accept m msgs)"
  | (left) xs y ys where "msgs = xs @ y # ys"
      and "collecting (run s xs) = Some (add_entries accept m xs)"
      and "finishing accept complete (add_entries accept m xs) y"
      and "finished (run s (xs @ [y])) = Some (add_entries accept m (xs @ [y]))"
proof -
  have "(\<forall>xs y ys. msgs = xs @ y # ys \<longrightarrow> \<not> finishing accept complete (add_entries accept m xs) y) \<and>
      collecting (run s msgs) = Some (add_entries accept m msgs) \<or>
    (\<exists>xs y ys. msgs = xs @ y # ys \<and> collecting (run s xs) = Some (add_entries accept m xs) \<and>
      finishing accept complete (add_entries accept m xs) y \<and>
      finished (run s (xs @ [y])) = Some (add_entries accept m (xs @ [y])))"
    using assms
  proof (induction msgs arbitrary: s m)
    case (Cons msg msgs)
    show ?case
    proof (cases "finishing accept complete m msg")
      case True
      then show ?thesis
        using Cons.prems step_finished by (intro disjI2 exI[of _ "[]"] exI[of _ msg] exI[of _ msgs]) auto
    next
      case False
      from Cons.IH[OF step_collecting[OF Cons.prems False]] show ?thesis
      proof (elim disjE conjE exE)
        assume no: "\<forall>xs y ys. msgs = xs @ y # ys \<longrightarrow>
            \<not> finishing accept complete (add_entries accept (add_entry accept m msg) xs) y"
          and c: "collecting (run (step s msg) msgs) = Some (add_entries accept (add_entry accept m msg) msgs)"
        have "\<not> finishing accept complete (add_entries accept m xs) y" if "msg # msgs = xs @ y # ys" for xs y ys
          using that no False by (cases xs) auto
        then show ?thesis using c by auto
      next
        fix xs y ys
        assume "msgs = xs @ y # ys"
          "collecting (run (step s msg) xs) = Some (add_entries accept (add_entry accept m msg) xs)"
          "finishing accept complete (add_entries accept (add_entry accept m msg) xs) y"
          "finished (run (step s msg) (xs @ [y])) = Some (add_entries accept (add_entry accept m msg) (xs @ [y]))"
        then show ?thesis by (intro disjI2 exI[of _ "msg # xs"] exI[of _ y] exI[of _ ys]) auto
      qed
    qed
  qed simp
  then show ?thesis using that by blast
qed

text \<open>A phase whose messages complete the map is left.\<close>

lemma phase_leaves:
  assumes "collecting s = Some m" and "msgs = xs @ y # ys" and "finishing accept complete (add_entries accept m xs) y"
  shows "\<exists>xs' y' ys'. msgs = xs' @ y' # ys' \<and>
    finished (run s (xs' @ [y'])) = Some (add_entries accept m (xs' @ [y']))"
  using phase_run[OF assms(1), of msgs] assms(2,3) by metis

end

end
