(* ===== verification/Api.thy ===== *)
theory Api
  imports Collector
begin

text \<open>
  The server API of \<^verbatim>\<open>mina-frost-client/src/api.rs\<close> and its client
  \<^verbatim>\<open>mina-frost-client/src/client.rs\<close>. Public keys and UUIDs are type variables \<open>'pk\<close>
  and \<open>'u\<close>; the server and the network are a world \<open>'w\<close> that every call may change, with
  HTTP itself as a parameter. A computation that talks to the server has no result while it
  still waits; the polling loops carry an explicit number of polls.
\<close>

definition MAX_MSG_SIZE :: nat where "MAX_MSG_SIZE = 65535"

section \<open>Messages of the API\<close>

record ('pk, 'u) login_args =
  login_challenge :: 'u
  login_pubkey :: 'pk
  login_signature :: bytes

record 'pk create_new_session_args =
  create_pubkeys :: "'pk list"
  create_message_count :: u8

record 'pk session_info_output =
  info_message_count :: u8
  info_pubkeys :: "'pk list"
  info_coordinator_pubkey :: 'pk

record ('pk, 'u) send_args =
  send_session_id :: 'u
  send_recipients :: "'pk list"
  send_msg :: bytes

record 'u receive_args =
  receive_session_id :: 'u
  as_coordinator :: bool

record 'sp send_signing_package_args =
  signing_package :: "'sp list"
  aux_msg :: bytes

section \<open>Server errors\<close>

datatype api_error = InvalidArgument rstr | Unauthorized | SessionNotFound | NotCoordinator
  | NotInSession | Unknown

definition INVALID_ARGUMENT :: nat where "INVALID_ARGUMENT = 1"
definition UNAUTHORIZED :: nat where "UNAUTHORIZED = 2"
definition SESSION_NOT_FOUND :: nat where "SESSION_NOT_FOUND = 3"
definition NOT_COORDINATOR :: nat where "NOT_COORDINATOR = 4"
definition NOT_IN_SESSION :: nat where "NOT_IN_SESSION = 5"
definition UNKNOWN :: nat where "UNKNOWN = 255"

fun error_code :: "api_error \<Rightarrow> nat" where
  "error_code (InvalidArgument _) = INVALID_ARGUMENT"
| "error_code Unauthorized = UNAUTHORIZED"
| "error_code SessionNotFound = SESSION_NOT_FOUND"
| "error_code NotCoordinator = NOT_COORDINATOR"
| "error_code NotInSession = NOT_IN_SESSION"
| "error_code Unknown = UNKNOWN"

fun display_api_error :: "api_error \<Rightarrow> rstr" where
  "display_api_error (InvalidArgument s) = lit ''invalid or missing argument: '' @ s"
| "display_api_error Unauthorized = lit ''client did not provide proper authorization credentials''"
| "display_api_error SessionNotFound = lit ''session was not found''"
| "display_api_error NotCoordinator = lit ''user is not the coordinator''"
| "display_api_error NotInSession = lit ''user is not part of the given session''"
| "display_api_error Unknown = lit ''unknown error''"

record low_error =
  low_code :: nat
  low_msg :: rstr
  low_error :: api_error

definition low_error_of :: "api_error \<Rightarrow> low_error" where
  "low_error_of err = \<lparr>low_code = error_code err, low_msg = display_api_error err, low_error = err\<rparr>"

definition api_error_of_low :: "low_error \<Rightarrow> api_error" where
  "api_error_of_low err = low_error err"

lemmas code_defs = INVALID_ARGUMENT_def UNAUTHORIZED_def SESSION_NOT_FOUND_def NOT_COORDINATOR_def
  NOT_IN_SESSION_def UNKNOWN_def

text \<open>A code tells which error it was, up to the argument's text.\<close>

lemma error_code_inject:
  "error_code a = error_code b \<longleftrightarrow> a = b \<or> (\<exists>s t. a = InvalidArgument s \<and> b = InvalidArgument t)"
  by (cases a; cases b) (auto simp: code_defs)

lemma low_error_roundtrip: "api_error_of_low (low_error_of e) = e"
  by (simp add: api_error_of_low_def low_error_of_def)

section \<open>The client\<close>

datatype client_error = ServerError api_error | ConnectionError | JsonError

text \<open>
  A response has a status and a body, as JSON of an abstract type \<open>'j\<close> or as text. What the
  client makes of it is \<open>interpret_response\<close>.
\<close>

record response =
  status_success :: bool
  status_internal_error :: bool
  response_body :: rstr

record ('w, 'u, 'j) http_ext =
  http_post :: "rstr \<Rightarrow> 'u option \<Rightarrow> 'j \<Rightarrow> 'w \<Rightarrow> response option \<times> 'w"
  parse_low_error :: "rstr \<Rightarrow> low_error option"

record 'u client =
  host_port :: rstr
  access_token :: "'u option"

definition client_new :: "rstr \<Rightarrow> 'u client" where
  "client_new host = \<lparr>host_port = host, access_token = None\<rparr>"

definition interpret_response ::
  "('w, 'u, 'j) http_ext \<Rightarrow> (rstr \<Rightarrow> 'o option) \<Rightarrow> response \<Rightarrow> (client_error, 'o) outcome" where
  "interpret_response H parse response =
     (if \<not> status_success response then
        (if status_internal_error response then
           (case parse_low_error H (response_body response) of
              None \<Rightarrow> Err ConnectionError
            | Some err \<Rightarrow> Err (ServerError (api_error_of_low err)))
         else Err ConnectionError)
      else
        (let body = response_body response;
             json_str = (if body = [] then lit ''null'' else body)
         in ok_or JsonError (parse json_str)))"

definition client_call ::
  "('w, 'u, 'j) http_ext \<Rightarrow> (rstr \<Rightarrow> 'o option) \<Rightarrow> 'u client \<Rightarrow> rstr \<Rightarrow> 'j \<Rightarrow> 'w \<Rightarrow>
    (client_error, 'o) outcome \<times> 'w" where
  "client_call H parse c name args w =
     (case http_post H (host_port c @ lit ''/'' @ name) (access_token c) args w of
        (None, w') \<Rightarrow> (Err ConnectionError, w')
      | (Some response, w') \<Rightarrow> (interpret_response H parse response, w'))"

definition client_login ::
  "('w, 'u, 'j) http_ext \<Rightarrow> (rstr \<Rightarrow> 'u option) \<Rightarrow> 'u client \<Rightarrow> 'j \<Rightarrow> 'w \<Rightarrow>
    (client_error, 'u) outcome \<times> 'u client \<times> 'w" where
  "client_login H parse_token c args w =
     (case client_call H parse_token c (lit ''login'') args w of
        (Ok token, w') \<Rightarrow> (Ok token, c\<lparr>access_token := Some token\<rparr>, w')
      | (r, w') \<Rightarrow> (r, c, w'))"

definition client_logout ::
  "('w, 'u, 'j) http_ext \<Rightarrow> (rstr \<Rightarrow> unit option) \<Rightarrow> 'u client \<Rightarrow> 'j \<Rightarrow> 'w \<Rightarrow>
    (client_error, unit) outcome \<times> 'u client \<times> 'w" where
  "client_logout H parse_unit c args w =
     (case client_call H parse_unit c (lit ''logout'') args w of
        (Ok _, w') \<Rightarrow> (Ok (), c\<lparr>access_token := None\<rparr>, w')
      | (r, w') \<Rightarrow> (r, c, w'))"

lemma client_login_cases:
  "client_call H parse c (lit ''login'') args w = (r, w') \<Longrightarrow>
     client_login H parse c args w =
       (r, (case r of Ok token \<Rightarrow> c\<lparr>access_token := Some token\<rparr> | _ \<Rightarrow> c), w')"
  by (cases r) (simp_all add: client_login_def)

lemma client_logout_cases:
  "client_call H parse c (lit ''logout'') args w = (r, w') \<Longrightarrow>
     client_logout H parse c args w =
       (r, (case r of Ok _ \<Rightarrow> c\<lparr>access_token := None\<rparr> | _ \<Rightarrow> c), w')"
  by (cases r) (simp_all add: client_logout_def)

text \<open>
  The client holds a token exactly between a successful login and a successful logout: a
  login sets the token it was given, a logout clears it, and a call that fails changes nothing.
\<close>

theorem client_token_lifecycle:
  "(case client_login H parse_token c args w of
      (r, c', _) \<Rightarrow> access_token c' = (case r of Ok t \<Rightarrow> Some t | _ \<Rightarrow> access_token c) \<and>
        host_port c' = host_port c) \<and>
   (case client_logout H parse_unit c args w of
      (r, c', _) \<Rightarrow> access_token c' = (case r of Ok _ \<Rightarrow> None | _ \<Rightarrow> access_token c) \<and>
        host_port c' = host_port c)"
proof (intro conjI)
  show "case client_login H parse_token c args w of
      (r, c', _) \<Rightarrow> access_token c' = (case r of Ok t \<Rightarrow> Some t | _ \<Rightarrow> access_token c) \<and>
        host_port c' = host_port c"
  proof (cases "client_call H parse_token c (lit ''login'') args w")
    case (Pair r w')
    then show ?thesis by (cases r) (simp_all add: client_login_cases)
  qed
  show "case client_logout H parse_unit c args w of
      (r, c', _) \<Rightarrow> access_token c' = (case r of Ok _ \<Rightarrow> None | _ \<Rightarrow> access_token c) \<and>
        host_port c' = host_port c"
  proof (cases "client_call H parse_unit c (lit ''logout'') args w")
    case (Pair r w')
    then show ?thesis by (cases r) (simp_all add: client_logout_cases)
  qed
qed

section \<open>Computations that talk to the server\<close>

text \<open>
  A computation changes a state, which holds the world, and returns an outcome; no outcome
  means that it is still polling.
\<close>

type_synonym ('s, 'e, 'a) io = "'s \<Rightarrow> ('e, 'a) outcome option \<times> 's"

definition io_pure :: "('e, 'a) outcome \<Rightarrow> ('s, 'e, 'a) io" where
  "io_pure r s = (Some r, s)"

definition io_bind :: "('s, 'e, 'a) io \<Rightarrow> ('a \<Rightarrow> ('s, 'e, 'b) io) \<Rightarrow> ('s, 'e, 'b) io" where
  "io_bind m f s =
     (case m s of
        (Some (Ok a), s') \<Rightarrow> f a s'
      | (Some (Err e), s') \<Rightarrow> (Some (Err e), s')
      | (Some Panic, s') \<Rightarrow> (Some Panic, s')
      | (None, s') \<Rightarrow> (None, s'))"

definition io_get :: "('s \<Rightarrow> ('e, 'a) outcome) \<Rightarrow> ('s, 'e, 'a) io" where
  "io_get f s = (Some (f s), s)"

definition io_set :: "('s \<Rightarrow> 's) \<Rightarrow> ('s, 'e, unit) io" where
  "io_set f s = (Some (Ok ()), f s)"

fun io_for :: "('a \<Rightarrow> ('s, 'e, unit) io) \<Rightarrow> 'a list \<Rightarrow> ('s, 'e, unit) io" where
  "io_for f [] = io_pure (Ok ())"
| "io_for f (x # xs) = io_bind (f x) (\<lambda>_. io_for f xs)"

text \<open>\<open>loop { body; if finished { break } }\<close>, for a number of rounds.\<close>

fun io_poll :: "nat \<Rightarrow> ('s, 'e, unit) io \<Rightarrow> ('s \<Rightarrow> bool) \<Rightarrow> ('s, 'e, unit) io" where
  "io_poll 0 body finished = (\<lambda>s. (None, s))"
| "io_poll (Suc n) body finished =
     io_bind body (\<lambda>_ s. if finished s then (Some (Ok ()), s) else io_poll n body finished s)"

lemma io_simps [simp]:
  "io_pure r s = (Some r, s)"
  "io_get f s = (Some (f s), s)"
  "io_set g s = (Some (Ok ()), g s)"
  by (simp_all add: io_pure_def io_get_def io_set_def)

lemma io_bind_simps [simp]:
  "m s = (Some (Ok a), s') \<Longrightarrow> io_bind m f s = f a s'"
  "m s = (Some (Err e), s') \<Longrightarrow> io_bind m f s = (Some (Err e), s')"
  "m s = (Some Panic, s') \<Longrightarrow> io_bind m f s = (Some Panic, s')"
  "m s = (None, s') \<Longrightarrow> io_bind m f s = (None, s')"
  by (simp_all add: io_bind_def)

lemma io_bind_cases:
  obtains (Ok) a s' where "m s = (Some (Ok a), s')" "io_bind m f s = f a s'"
  | (Err) e s' where "m s = (Some (Err e), s')" "io_bind m f s = (Some (Err e), s')"
  | (Panic) s' where "m s = (Some Panic, s')" "io_bind m f s = (Some Panic, s')"
  | (Polling) s' where "m s = (None, s')" "io_bind m f s = (None, s')"
proof (cases "m s")
  case (Pair r s')
  show ?thesis
  proof (cases r)
    case None
    then show ?thesis using Pair Polling by simp
  next
    case (Some x)
    then show ?thesis using Pair Ok Err Panic by (cases x) simp_all
  qed
qed

lemma io_bind_Ok:
  "io_bind m f s = (Some (Ok b), t) \<longleftrightarrow> (\<exists>a s'. m s = (Some (Ok a), s') \<and> f a s' = (Some (Ok b), t))"
  by (cases rule: io_bind_cases[of m s f]) auto

text \<open>An invariant of the state that every step keeps is kept by loops.\<close>

definition io_keeps :: "('s \<Rightarrow> bool) \<Rightarrow> ('s, 'e, 'a) io \<Rightarrow> bool" where
  "io_keeps I m \<longleftrightarrow> (\<forall>s. I s \<longrightarrow> I (snd (m s)))"

lemma io_keepsD: "io_keeps I m \<Longrightarrow> I s \<Longrightarrow> m s = (r, s') \<Longrightarrow> I s'"
  unfolding io_keeps_def by (metis snd_conv)

lemma io_keeps_bind: "io_keeps I m \<Longrightarrow> (\<And>a. io_keeps I (f a)) \<Longrightarrow> io_keeps I (io_bind m f)"
  unfolding io_keeps_def
proof (intro allI impI)
  fix s
  assume m: "\<forall>s. I s \<longrightarrow> I (snd (m s))" and f: "\<And>a. \<forall>s. I s \<longrightarrow> I (snd (f a s))" and "I s"
  then have "I (snd (m s))" by blast
  then show "I (snd (io_bind m f s))" using f by (cases rule: io_bind_cases[of m s f]) auto
qed

lemma io_keeps_for: "(\<And>x. x \<in> set xs \<Longrightarrow> io_keeps I (f x)) \<Longrightarrow> io_keeps I (io_for f xs)"
proof (induction xs)
  case (Cons x xs)
  then show ?case by (simp add: io_keeps_bind)
qed (simp add: io_keeps_def)

lemma io_keeps_poll: "io_keeps I body \<Longrightarrow> io_keeps I (io_poll n body finished)"
proof (induction n)
  case (Suc n)
  then have "io_keeps I (\<lambda>s. if finished s then (Some (Ok ()), s) else io_poll n body finished s)"
    by (simp add: io_keeps_def)
  then show ?case using Suc.prems by (simp add: io_keeps_bind)
qed (simp add: io_keeps_def)

lemma io_poll_Ok: "io_poll n body finished s = (Some (Ok ()), s') \<Longrightarrow> finished s'"
proof (induction n arbitrary: s)
  case (Suc n)
  then show ?case by (auto simp: io_bind_Ok split: if_splits)
qed simp

lemma io_poll_never:
  assumes "\<And>s r s'. I s \<Longrightarrow> body s = (r, s') \<Longrightarrow> r = Some (Ok ()) \<Longrightarrow> I s' \<and> \<not> finished s'"
  shows "I s \<Longrightarrow> fst (io_poll n body finished s) \<noteq> Some (Ok ())"
proof (induction n arbitrary: s)
  case (Suc n)
  then show ?case using assms[OF Suc.prems]
    by (cases rule: io_bind_cases[of body s "\<lambda>_ s. if finished s then (Some (Ok ()), s) else io_poll n body finished s"]) auto
qed simp

lemma io_poll_idle:
  assumes "\<And>s. I s \<Longrightarrow> \<exists>s'. body s = (Some (Ok ()), s') \<and> I s' \<and> \<not> finished s'"
  shows "I s \<Longrightarrow> fst (io_poll n body finished s) = None"
proof (induction n arbitrary: s)
  case (Suc n)
  from assms[OF Suc.prems] obtain s' where "body s = (Some (Ok ()), s')" "I s'" "\<not> finished s'" by blast
  with Suc.IH[of s'] show ?case by (simp add: io_bind_def)
qed simp

text \<open>What holds of the value and the state when a computation succeeds.\<close>

definition ensures :: "('s \<Rightarrow> bool) \<Rightarrow> ('s, 'e, 'a) io \<Rightarrow> ('a \<Rightarrow> 's \<Rightarrow> bool) \<Rightarrow> bool" where
  "ensures P m Q \<longleftrightarrow> (\<forall>s a s'. P s \<longrightarrow> m s = (Some (Ok a), s') \<longrightarrow> Q a s')"

lemma ensuresD: "ensures P m Q \<Longrightarrow> P s \<Longrightarrow> m s = (Some (Ok a), s') \<Longrightarrow> Q a s'"
  unfolding ensures_def by blast

lemma ensures_bind:
  "ensures P m R \<Longrightarrow> (\<And>a. ensures (R a) (f a) Q) \<Longrightarrow> ensures P (io_bind m f) Q"
  unfolding ensures_def io_bind_Ok by blast

lemma ensures_pure: "(\<And>s a. P s \<Longrightarrow> r = Ok a \<Longrightarrow> Q a s) \<Longrightarrow> ensures P (io_pure r) Q"
  by (auto simp: ensures_def)

lemma ensures_get: "(\<And>s a. P s \<Longrightarrow> f s = Ok a \<Longrightarrow> Q a s) \<Longrightarrow> ensures P (io_get f) Q"
  by (auto simp: ensures_def)

lemma ensures_set: "(\<And>s. P s \<Longrightarrow> Q () (f s)) \<Longrightarrow> ensures P (io_set f) Q"
  by (auto simp: ensures_def)

lemma ensures_weaken: "ensures P m Q \<Longrightarrow> (\<And>a s. Q a s \<Longrightarrow> R a s) \<Longrightarrow> ensures P m R"
  unfolding ensures_def by blast

lemma ensures_for:
  "(\<And>x. x \<in> set xs \<Longrightarrow> ensures I (f x) (\<lambda>_. I)) \<Longrightarrow> ensures I (io_for f xs) (\<lambda>_. I)"
proof (induction xs)
  case (Cons x xs)
  then have "ensures I (f x) (\<lambda>_. I)" "ensures I (io_for f xs) (\<lambda>_. I)" by simp_all
  then show ?case by (simp add: ensures_bind)
qed (simp add: ensures_pure)

lemma ensures_poll:
  "ensures I body (\<lambda>_. I) \<Longrightarrow> ensures I (io_poll n body finished) (\<lambda>_ s. I s \<and> finished s)"
proof (induction n)
  case (Suc n)
  then have rest: "ensures I (io_poll n body finished) (\<lambda>_ s. I s \<and> finished s)" by simp
  have "ensures I (\<lambda>s. if finished s then (Some (Ok ()), s) else io_poll n body finished s)
      (\<lambda>_ s. I s \<and> finished s)"
    unfolding ensures_def
  proof (intro allI impI)
    fix s a s'
    assume "I s" and run: "(if finished s then (Some (Ok ()), s) else io_poll n body finished s) = (Some (Ok a), s')"
    then show "I s' \<and> finished s'" using ensuresD[OF rest \<open>I s\<close>] by (cases "finished s") simp_all
  qed
  with Suc.prems show ?case unfolding io_poll.simps by (rule ensures_bind)
qed (simp add: ensures_def)

text \<open>The session calls the protocols make, each of which may fail and change the world.\<close>

record ('w, 'pk, 'u) server_ext =
  srv_challenge :: "'w \<Rightarrow> (client_error, 'u) outcome \<times> 'w"
  srv_login :: "('pk, 'u) login_args \<Rightarrow> 'w \<Rightarrow> (client_error, 'u) outcome \<times> 'w"
  srv_logout :: "'w \<Rightarrow> (client_error, unit) outcome \<times> 'w"
  srv_create_new_session :: "'pk create_new_session_args \<Rightarrow> 'w \<Rightarrow> (client_error, 'u) outcome \<times> 'w"
  srv_list_sessions :: "'w \<Rightarrow> (client_error, 'u list) outcome \<times> 'w"
  srv_get_session_info :: "'u \<Rightarrow> 'w \<Rightarrow> (client_error, 'pk session_info_output) outcome \<times> 'w"
  srv_send :: "('pk, 'u) send_args \<Rightarrow> 'w \<Rightarrow> (client_error, unit) outcome \<times> 'w"
  srv_receive :: "'u receive_args \<Rightarrow> 'w \<Rightarrow> (client_error, 'pk msg list) outcome \<times> 'w"
  srv_close_session :: "'u \<Rightarrow> 'w \<Rightarrow> (client_error, unit) outcome \<times> 'w"

end
