(* ===== verification/Cipher.thy ===== *)
theory Cipher
  imports Api
begin

text \<open>
  The message cipher of \<^verbatim>\<open>mina-frost-client/src/cipher.rs\<close>: one Noise session per peer
  and direction. The Noise handshake and transport states are the \<open>snow\<close> crate's, hence type
  variables \<open>'hs\<close> and \<open>'ts\<close> with their operations in a record; what is modelled is how the
  program drives them, with the states in which its \<open>panic!\<close> is reached.
\<close>

section \<open>The interface to snow\<close>

datatype 'se cipher_error = SnowError 'se | UnkownRecipient | UnkownSender | InvalidPrivateKey

text \<open>
  A message operation takes a payload and an output buffer; it returns the number of bytes
  written, the buffer and the state afterwards.
\<close>

type_synonym ('st, 'se) message_op = "'st \<Rightarrow> bytes \<Rightarrow> bytes \<Rightarrow> ('se, nat) outcome \<times> bytes \<times> 'st"

record ('hs, 'ts, 'pk, 'se) snow_ext =
  hs_write :: "('hs, 'se) message_op"
  hs_read :: "('hs, 'se) message_op"
  hs_finished :: "'hs \<Rightarrow> bool"
  into_transport_mode :: "'hs \<Rightarrow> ('se, 'ts) outcome"
  ts_write :: "('ts, 'se) message_op"
  ts_read :: "('ts, 'se) message_op"
  build_initiator :: "bytes \<Rightarrow> 'pk \<Rightarrow> ('se, 'hs) outcome"
  build_responder :: "bytes \<Rightarrow> 'pk \<Rightarrow> ('se, 'hs) outcome"

text \<open>No operation of snow panics, and a finished handshake converts.\<close>

definition snow_total :: "('hs, 'ts, 'pk, 'se) snow_ext \<Rightarrow> bool" where
  "snow_total N \<longleftrightarrow>
     (\<forall>hs p b. fst (hs_write N hs p b) \<noteq> Panic \<and> fst (hs_read N hs p b) \<noteq> Panic) \<and>
     (\<forall>ts p b. fst (ts_write N ts p b) \<noteq> Panic \<and> fst (ts_read N ts p b) \<noteq> Panic) \<and>
     (\<forall>hs. into_transport_mode N hs \<noteq> Panic \<and> (hs_finished N hs \<longrightarrow> (\<exists>ts. into_transport_mode N hs = Ok ts))) \<and>
     (\<forall>sk pk. build_initiator N sk pk \<noteq> Panic \<and> build_responder N sk pk \<noteq> Panic)"

text \<open>
  Signing a challenge with a communication key; the XEdDSA signature draws randomness from the
  world.
\<close>

definition private_key_sign ::
  "(bytes \<Rightarrow> bytes \<Rightarrow> 'w \<Rightarrow> bytes \<times> 'w) \<Rightarrow> bytes \<Rightarrow> bytes \<Rightarrow> 'w \<Rightarrow>
    ('se cipher_error, bytes) outcome \<times> 'w" where
  "private_key_sign xed_sign key msg w =
     (if length key = 32 then (case xed_sign key msg w of (signature, w) \<Rightarrow> (Ok signature, w))
      else (Err InvalidPrivateKey, w))"

section \<open>A Noise session\<close>

record ('hs, 'ts) noise =
  handshake_state :: "'hs option"
  transport_state :: "'ts option"

definition noise_new :: "'hs \<Rightarrow> ('hs, 'ts) noise" where
  "noise_new hs = \<lparr>handshake_state = Some hs, transport_state = None\<rparr>"

text \<open>
  The common shape of \<open>write_message\<close> and \<open>read_message\<close>. Taking the handshake state out
  happens before the conversion can fail, so a failed conversion leaves neither state.
\<close>

definition noise_message ::
  "('hs, 'ts, 'pk, 'se) snow_ext \<Rightarrow> ('hs, 'se) message_op \<Rightarrow> ('ts, 'se) message_op \<Rightarrow>
    ('hs, 'ts) noise \<Rightarrow> bytes \<Rightarrow> bytes \<Rightarrow> ('se, nat) outcome \<times> bytes \<times> ('hs, 'ts) noise" where
  "noise_message N hs_op ts_op n payload message =
     (case handshake_state n of
        Some hs \<Rightarrow>
          (case hs_op hs payload message of (r, message, hs) \<Rightarrow>
             if hs_finished N hs then
               (let n = n\<lparr>handshake_state := None\<rparr> in
                case into_transport_mode N hs of
                  Ok ts \<Rightarrow> (r, message, n\<lparr>transport_state := Some ts\<rparr>)
                | Err e \<Rightarrow> (Err e, message, n)
                | Panic \<Rightarrow> (Panic, message, n))
             else (r, message, n\<lparr>handshake_state := Some hs\<rparr>))
      | None \<Rightarrow>
          (case transport_state n of
             Some ts \<Rightarrow>
               (case ts_op ts payload message of (r, message, ts) \<Rightarrow>
                  (r, message, n\<lparr>transport_state := Some ts\<rparr>))
           | None \<Rightarrow> (Panic, message, n)))"

definition write_message ::
  "('hs, 'ts, 'pk, 'se) snow_ext \<Rightarrow> ('hs, 'ts) noise \<Rightarrow> bytes \<Rightarrow> bytes \<Rightarrow>
    ('se, nat) outcome \<times> bytes \<times> ('hs, 'ts) noise" where
  "write_message N = noise_message N (hs_write N) (ts_write N)"

definition read_message ::
  "('hs, 'ts, 'pk, 'se) snow_ext \<Rightarrow> ('hs, 'ts) noise \<Rightarrow> bytes \<Rightarrow> bytes \<Rightarrow>
    ('se, nat) outcome \<times> bytes \<times> ('hs, 'ts) noise" where
  "read_message N = noise_message N (hs_read N) (ts_read N)"

text \<open>Exactly one of the two states is there.\<close>

definition noise_ok :: "('hs, 'ts) noise \<Rightarrow> bool" where
  "noise_ok n \<longleftrightarrow> (handshake_state n = None) \<noteq> (transport_state n = None)"

lemma noise_ok_new: "noise_ok (noise_new hs)"
  by (simp add: noise_ok_def noise_new_def)

lemma noise_message_ok:
  assumes "snow_total N" and "noise_ok n"
    and "\<And>hs. fst (hs_op hs p b) \<noteq> Panic" and "\<And>ts. fst (ts_op ts p b) \<noteq> Panic"
  shows "fst (noise_message N hs_op ts_op n p b) \<noteq> Panic"
    and "noise_ok (snd (snd (noise_message N hs_op ts_op n p b)))"
proof -
  have "fst (noise_message N hs_op ts_op n p b) \<noteq> Panic \<and>
      noise_ok (snd (snd (noise_message N hs_op ts_op n p b)))"
  proof (cases "handshake_state n")
    case None
    then obtain ts where ts: "transport_state n = Some ts" using assms(2) by (auto simp: noise_ok_def)
    obtain r m ts' where op: "ts_op ts p b = (r, m, ts')" by (cases "ts_op ts p b") auto
    moreover have "r \<noteq> Panic" using assms(4)[of ts] op by simp
    ultimately show ?thesis using None ts by (simp add: noise_message_def noise_ok_def)
  next
    case (Some hs)
    then have none: "transport_state n = None" using assms(2) by (auto simp: noise_ok_def)
    obtain r m hs' where op: "hs_op hs p b = (r, m, hs')" by (cases "hs_op hs p b") auto
    have "r \<noteq> Panic" using assms(3)[of hs] op by simp
    moreover have "hs_finished N hs' \<Longrightarrow> \<exists>ts. into_transport_mode N hs' = Ok ts"
      using assms(1) by (simp add: snow_total_def)
    ultimately show ?thesis using Some none op
      by (cases "hs_finished N hs'") (auto simp: noise_message_def noise_ok_def)
  qed
  then show "fst (noise_message N hs_op ts_op n p b) \<noteq> Panic"
    and "noise_ok (snd (snd (noise_message N hs_op ts_op n p b)))" by simp_all
qed

lemma write_message_ok:
  "snow_total N \<Longrightarrow> noise_ok n \<Longrightarrow> fst (write_message N n p b) \<noteq> Panic \<and> noise_ok (snd (snd (write_message N n p b)))"
  unfolding write_message_def by (rule conjI) (rule noise_message_ok; simp add: snow_total_def)+

lemma read_message_ok:
  "snow_total N \<Longrightarrow> noise_ok n \<Longrightarrow> fst (read_message N n p b) \<noteq> Panic \<and> noise_ok (snd (snd (read_message N n p b)))"
  unfolding read_message_def by (rule conjI) (rule noise_message_ok; simp add: snow_total_def)+

section \<open>The cipher\<close>

record ('hs, 'ts, 'pk) cipher =
  send_noise_map :: "('pk, ('hs, 'ts) noise) hash_map"
  recv_noise_map :: "('pk, ('hs, 'ts) noise) hash_map"

fun cipher_add_peers ::
  "('hs, 'ts, 'pk, 'se) snow_ext \<Rightarrow> bytes \<Rightarrow> 'pk list \<Rightarrow> ('hs, 'ts, 'pk) cipher \<Rightarrow>
    ('se cipher_error, ('hs, 'ts, 'pk) cipher) outcome" where
  "cipher_add_peers N private_key [] c = Ok c"
| "cipher_add_peers N private_key (pubkey # pubkeys) c =
     obind (map_err SnowError (build_initiator N private_key pubkey)) (\<lambda>send_noise.
     obind (map_err SnowError (build_responder N private_key pubkey)) (\<lambda>recv_noise.
     cipher_add_peers N private_key pubkeys
       (c\<lparr>send_noise_map := fmupd pubkey (noise_new send_noise) (send_noise_map c),
          recv_noise_map := fmupd pubkey (noise_new recv_noise) (recv_noise_map c)\<rparr>)))"

definition cipher_new ::
  "('hs, 'ts, 'pk, 'se) snow_ext \<Rightarrow> bytes \<Rightarrow> 'pk list \<Rightarrow>
    ('se cipher_error, ('hs, 'ts, 'pk) cipher) outcome" where
  "cipher_new N private_key peers =
     cipher_add_peers N private_key peers \<lparr>send_noise_map = fmempty, recv_noise_map = fmempty\<rparr>"

definition the_recipient ::
  "('hs, 'ts, 'pk) cipher \<Rightarrow> 'pk option \<Rightarrow> ('se cipher_error, 'pk) outcome" where
  "the_recipient c recipient =
     (case recipient of
        Some pk \<Rightarrow> Ok pk
      | None \<Rightarrow> if map_len (send_noise_map c) = 1
                then Ok (the_elem (fset (fmdom (send_noise_map c))))
                else Panic)"

definition encrypt ::
  "('hs, 'ts, 'pk, 'se) snow_ext \<Rightarrow> ('hs, 'ts, 'pk) cipher \<Rightarrow> 'pk option \<Rightarrow> bytes \<Rightarrow>
    ('se cipher_error, bytes) outcome \<times> ('hs, 'ts, 'pk) cipher" where
  "encrypt N c recipient msg =
     (case the_recipient c recipient of
        Ok recipient \<Rightarrow>
          (case fmlookup (send_noise_map c) recipient of
             None \<Rightarrow> (Err UnkownRecipient, c)
           | Some noise \<Rightarrow>
               (case write_message N noise msg (replicate MAX_MSG_SIZE 0) of
                  (r, encrypted, noise) \<Rightarrow>
                    (map_err SnowError (omap (\<lambda>len. take len encrypted) r),
                     c\<lparr>send_noise_map := fmupd recipient noise (send_noise_map c)\<rparr>)))
      | Err e \<Rightarrow> (Err e, c)
      | Panic \<Rightarrow> (Panic, c))"

definition decrypt ::
  "('hs, 'ts, 'pk, 'se) snow_ext \<Rightarrow> ('hs, 'ts, 'pk) cipher \<Rightarrow> 'pk msg \<Rightarrow>
    ('se cipher_error, 'pk msg) outcome \<times> ('hs, 'ts, 'pk) cipher" where
  "decrypt N c msg =
     (case fmlookup (recv_noise_map c) (msg_sender msg) of
        None \<Rightarrow> (Err UnkownSender, c)
      | Some noise \<Rightarrow>
          (case read_message N noise (msg_bytes msg) (replicate MAX_MSG_SIZE 0) of
             (r, decrypted, noise) \<Rightarrow>
               (map_err SnowError (omap (\<lambda>len. \<lparr>msg_sender = msg_sender msg, msg_bytes = take len decrypted\<rparr>) r),
                c\<lparr>recv_noise_map := fmupd (msg_sender msg) noise (recv_noise_map c)\<rparr>)))"

section \<open>The invariant of a cipher\<close>

definition cipher_ok :: "('hs, 'ts, 'pk) cipher \<Rightarrow> bool" where
  "cipher_ok c \<longleftrightarrow> fmpred (\<lambda>_. noise_ok) (send_noise_map c) \<and> fmpred (\<lambda>_. noise_ok) (recv_noise_map c)"

lemma cipher_add_peers_Ok:
  "cipher_add_peers N sk pks c = Ok c' \<Longrightarrow> cipher_ok c \<Longrightarrow>
    cipher_ok c' \<and> fmdom (send_noise_map c') = fmdom (send_noise_map c) |\<union>| fset_of_list pks \<and>
    fmdom (recv_noise_map c') = fmdom (recv_noise_map c) |\<union>| fset_of_list pks"
proof (induction pks arbitrary: c)
  case (Cons pk pks)
  from Cons.prems(1) obtain i r where ir: "cipher_add_peers N sk pks
      (c\<lparr>send_noise_map := fmupd pk (noise_new i) (send_noise_map c),
         recv_noise_map := fmupd pk (noise_new r) (recv_noise_map c)\<rparr>) = Ok c'"
    by (auto simp: outcome_simps)
  have "cipher_ok (c\<lparr>send_noise_map := fmupd pk (noise_new i) (send_noise_map c),
      recv_noise_map := fmupd pk (noise_new r) (recv_noise_map c)\<rparr>)"
    using Cons.prems(2) by (auto simp: cipher_ok_def noise_ok_new intro!: fmpred_upd)
  from Cons.IH[OF ir this] show ?case by simp
qed simp

lemma cipher_new_ok:
  assumes "cipher_new N sk pks = Ok c"
  shows "cipher_ok c" and "fmdom (send_noise_map c) = fset_of_list pks"
    and "fmdom (recv_noise_map c) = fset_of_list pks"
proof -
  have "cipher_ok \<lparr>send_noise_map = fmempty, recv_noise_map = fmempty\<rparr>" by (simp add: cipher_ok_def)
  from cipher_add_peers_Ok[OF assms[unfolded cipher_new_def] this]
  show "cipher_ok c" and "fmdom (send_noise_map c) = fset_of_list pks"
    and "fmdom (recv_noise_map c) = fset_of_list pks" by simp_all
qed

lemma encrypt_to:
  "fmlookup (send_noise_map c) pk = Some n \<Longrightarrow>
    write_message N n msg (replicate MAX_MSG_SIZE 0) = (r, m, n') \<Longrightarrow>
    encrypt N c (Some pk) msg = (map_err SnowError (omap (\<lambda>len. take len m) r),
      c\<lparr>send_noise_map := fmupd pk n' (send_noise_map c)\<rparr>)"
  by (simp add: encrypt_def the_recipient_def)

lemma encrypt_unknown:
  "fmlookup (send_noise_map c) pk = None \<Longrightarrow> encrypt N c (Some pk) msg = (Err UnkownRecipient, c)"
  by (simp add: encrypt_def the_recipient_def)

lemma decrypt_from:
  "fmlookup (recv_noise_map c) (msg_sender msg) = Some n \<Longrightarrow>
    read_message N n (msg_bytes msg) (replicate MAX_MSG_SIZE 0) = (r, m, n') \<Longrightarrow>
    decrypt N c msg = (map_err SnowError (omap (\<lambda>len. \<lparr>msg_sender = msg_sender msg, msg_bytes = take len m\<rparr>) r),
      c\<lparr>recv_noise_map := fmupd (msg_sender msg) n' (recv_noise_map c)\<rparr>)"
  by (simp add: decrypt_def)

lemma outcome_not_Panic [simp]:
  "map_err f r = Panic \<longleftrightarrow> r = Panic" "omap g r = Panic \<longleftrightarrow> r = Panic"
  by (cases r; simp)+

text \<open>Encryption panics only for want of a recipient; the set of peers never changes.\<close>

lemma encrypt_ok:
  assumes "snow_total N" and "cipher_ok c"
  shows "fst (encrypt N c recipient msg) = Panic \<longleftrightarrow> recipient = None \<and> map_len (send_noise_map c) \<noteq> 1"
    and "cipher_ok (snd (encrypt N c recipient msg))"
    and "fmdom (send_noise_map (snd (encrypt N c recipient msg))) = fmdom (send_noise_map c)"
proof -
  let ?r = "encrypt N c recipient msg"
  have "(fst ?r = Panic \<longleftrightarrow> the_recipient c recipient = (Panic :: ('d cipher_error, 'c) outcome)) \<and> cipher_ok (snd ?r) \<and>
      fmdom (send_noise_map (snd ?r)) = fmdom (send_noise_map c)"
  proof (cases "the_recipient c recipient :: ('d cipher_error, 'c) outcome")
    case (Ok pk)
    show ?thesis
    proof (cases "fmlookup (send_noise_map c) pk")
      case None
      then show ?thesis using assms Ok by (simp add: encrypt_def)
    next
      case (Some n)
      obtain r m n' where w: "write_message N n msg (replicate MAX_MSG_SIZE 0) = (r, m, n')"
        by (cases "write_message N n msg (replicate MAX_MSG_SIZE 0)") auto
      have "noise_ok n" using assms(2) Some by (auto simp: cipher_ok_def dest: fmpredD)
      from write_message_ok[OF assms(1) this, of msg "replicate MAX_MSG_SIZE 0"]
      have "r \<noteq> Panic" "noise_ok n'" by (simp_all add: w)
      then show ?thesis using assms(2) Ok Some w
        by (auto simp: encrypt_def cipher_ok_def fmdomI intro!: fmpred_upd)
    qed
  qed (use assms in \<open>simp_all add: encrypt_def\<close>)
  moreover have "the_recipient c recipient = (Panic :: ('d cipher_error, 'c) outcome) \<longleftrightarrow>
      recipient = None \<and> map_len (send_noise_map c) \<noteq> 1"
    by (simp add: the_recipient_def split: option.split)
  ultimately show "fst ?r = Panic \<longleftrightarrow> recipient = None \<and> map_len (send_noise_map c) \<noteq> 1"
    and "cipher_ok (snd ?r)" and "fmdom (send_noise_map (snd ?r)) = fmdom (send_noise_map c)" by simp_all
qed

lemma decrypt_ok:
  assumes "snow_total N" and "cipher_ok c"
  shows "fst (decrypt N c msg) \<noteq> Panic \<and> cipher_ok (snd (decrypt N c msg))"
proof (cases "fmlookup (recv_noise_map c) (msg_sender msg)")
  case None
  then show ?thesis using assms by (simp add: decrypt_def)
next
  case (Some n)
  obtain r m n' where w: "read_message N n (msg_bytes msg) (replicate MAX_MSG_SIZE 0) = (r, m, n')"
    by (cases "read_message N n (msg_bytes msg) (replicate MAX_MSG_SIZE 0)") auto
  have "noise_ok n" using assms(2) Some by (auto simp: cipher_ok_def dest: fmpredD)
  from read_message_ok[OF assms(1) this, of "msg_bytes msg" "replicate MAX_MSG_SIZE 0"]
  have "r \<noteq> Panic" "noise_ok n'" by (simp_all add: w)
  then show ?thesis using assms(2) by (auto simp: decrypt_from[OF Some w] cipher_ok_def intro!: fmpred_upd)
qed

lemma decrypt_sends: "send_noise_map (snd (decrypt N c msg)) = send_noise_map c"
  by (auto simp: decrypt_def split: option.split prod.split)

section \<open>Reliability\<close>

text \<open>What a participant does with its cipher: encryptions to named peers and decryptions.\<close>

datatype 'pk cipher_op = Encrypt 'pk bytes | Decrypt "'pk msg"

definition cipher_op_run ::
  "('hs, 'ts, 'pk, 'se) snow_ext \<Rightarrow> ('hs, 'ts, 'pk) cipher \<Rightarrow> 'pk cipher_op \<Rightarrow>
    ('se cipher_error, bytes) outcome \<times> ('hs, 'ts, 'pk) cipher" where
  "cipher_op_run N c op =
     (case op of
        Encrypt pk msg \<Rightarrow> encrypt N c (Some pk) msg
      | Decrypt msg \<Rightarrow> (case decrypt N c msg of (r, c) \<Rightarrow> (omap msg_bytes r, c)))"

fun run_all :: "('s \<Rightarrow> 'a \<Rightarrow> 'b \<times> 's) \<Rightarrow> 's \<Rightarrow> 'a list \<Rightarrow> 'b list \<times> 's" where
  "run_all f s [] = ([], s)"
| "run_all f s (x # xs) = (case f s x of (y, s) \<Rightarrow> case run_all f s xs of (ys, s) \<Rightarrow> (y # ys, s))"

text \<open>Any use of a cipher: encryptions that may name no recipient, and decryptions.\<close>

datatype 'pk cipher_call = CallEncrypt "'pk option" bytes | CallDecrypt "'pk msg"

definition cipher_call_run ::
  "('hs, 'ts, 'pk, 'se) snow_ext \<Rightarrow> ('hs, 'ts, 'pk) cipher \<Rightarrow> 'pk cipher_call \<Rightarrow>
    ('se cipher_error, bytes) outcome \<times> ('hs, 'ts, 'pk) cipher" where
  "cipher_call_run N c call =
     (case call of
        CallEncrypt recipient msg \<Rightarrow> encrypt N c recipient msg
      | CallDecrypt msg \<Rightarrow> (case decrypt N c msg of (r, c) \<Rightarrow> (omap msg_bytes r, c)))"

fun to_nobody :: "'pk cipher_call \<Rightarrow> bool" where
  "to_nobody (CallEncrypt None msg) \<longleftrightarrow> True"
| "to_nobody call \<longleftrightarrow> False"

lemma cipher_call_ok:
  assumes "snow_total N" and "cipher_ok c"
  shows "fst (cipher_call_run N c call) = Panic \<longleftrightarrow> to_nobody call \<and> map_len (send_noise_map c) \<noteq> 1"
    and "cipher_ok (snd (cipher_call_run N c call))"
    and "map_len (send_noise_map (snd (cipher_call_run N c call))) = map_len (send_noise_map c)"
  using encrypt_ok[OF assms] decrypt_ok[OF assms]
  by (cases call rule: to_nobody.cases; simp add: cipher_call_run_def case_prod_beta decrypt_sends)+

lemma run_all_panics_iff:
  "snow_total N \<Longrightarrow> cipher_ok c \<Longrightarrow> Panic \<in> set (fst (run_all (cipher_call_run N) c calls)) \<longleftrightarrow>
    map_len (send_noise_map c) \<noteq> 1 \<and> list_ex to_nobody calls"
proof (induction calls arbitrary: c)
  case (Cons call calls)
  obtain r c' where call: "cipher_call_run N c call = (r, c')" by (cases "cipher_call_run N c call") auto
  have "r = Panic \<longleftrightarrow> to_nobody call \<and> map_len (send_noise_map c) \<noteq> 1" "cipher_ok c'"
    "map_len (send_noise_map c') = map_len (send_noise_map c)"
    using cipher_call_ok[OF Cons.prems, of call] call by simp_all
  then show ?case using Cons.IH[of c'] Cons.prems(1) call by (auto split: prod.splits)
qed simp

text \<open>
  C36: a cipher panics in one case only. Whatever is encrypted and decrypted after
  \<open>Cipher::new\<close>, in any order, with peers known or unknown and messages genuine or not, an
  operation panics exactly when it encrypts to no named recipient and the cipher was not made for
  exactly one peer; provided snow does not panic and a finished handshake converts.
\<close>

theorem cipher_panics_iff:
  assumes "snow_total N" and "cipher_new N private_key peers = Ok c"
  shows "Panic \<in> set (fst (run_all (cipher_call_run N) c calls)) \<longleftrightarrow>
    card (set peers) \<noteq> 1 \<and> list_ex to_nobody calls"
  using run_all_panics_iff[OF assms(1) cipher_new_ok(1)[OF assms(2)]] cipher_new_ok(2)[OF assms(2)]
  by (simp add: fset_of_list.rep_eq fcard.rep_eq)

section \<open>Delivery\<close>

text \<open>A pair of states between which messages pass in order.\<close>

locale link =
  fixes send :: "'s \<Rightarrow> 'm \<Rightarrow> ('e, 'w) outcome \<times> 's"
    and recv :: "'r \<Rightarrow> 'w \<Rightarrow> ('f, 'm) outcome \<times> 'r"
    and linked :: "'s \<Rightarrow> 'r \<Rightarrow> bool"
    and fits :: "'m \<Rightarrow> bool"
  assumes passes: "linked s r \<Longrightarrow> fits m \<Longrightarrow>
    \<exists>w s' r'. send s m = (Ok w, s') \<and> recv r w = (Ok m, r') \<and> linked s' r'"
begin

lemma pass_all:
  "linked s r \<Longrightarrow> \<forall>m \<in> set ms. fits m \<Longrightarrow>
    \<exists>ws. fst (run_all send s ms) = map Ok ws \<and> fst (run_all recv r ws) = map Ok ms"
proof (induction ms arbitrary: s r)
  case (Cons m ms)
  have "fits m" using Cons.prems(2) by simp
  from passes[OF Cons.prems(1) this] obtain w s' r' where
    m: "send s m = (Ok w, s')" "recv r w = (Ok m, r')" "linked s' r'" by blast
  from Cons.IH[OF m(3)] Cons.prems(2) obtain ws where
    "fst (run_all send s' ms) = map Ok ws" "fst (run_all recv r' ws) = map Ok ms" by auto
  then show ?case using m by (intro exI[of _ "w # ws"]) (auto split: prod.splits)
qed simp

end

definition noise_send ::
  "('hs, 'ts, 'pk, 'se) snow_ext \<Rightarrow> ('hs, 'ts) noise \<Rightarrow> bytes \<Rightarrow> ('se, bytes) outcome \<times> ('hs, 'ts) noise" where
  "noise_send N n msg = (case write_message N n msg (replicate MAX_MSG_SIZE 0) of
     (r, m, n) \<Rightarrow> (omap (\<lambda>len. take len m) r, n))"

definition noise_receive ::
  "('hs, 'ts, 'pk, 'se) snow_ext \<Rightarrow> ('hs, 'ts) noise \<Rightarrow> bytes \<Rightarrow> ('se, bytes) outcome \<times> ('hs, 'ts) noise" where
  "noise_receive N n msg = (case read_message N n msg (replicate MAX_MSG_SIZE 0) of
     (r, m, n) \<Rightarrow> (omap (\<lambda>len. take len m) r, n))"

text \<open>
  The documented contract of snow: between paired states, what one side writes the other
  reads, up to a limit on the payload, and both are paired again afterwards. \<open>hp\<close> and \<open>tp\<close>
  say which handshake and which transport states are paired.
\<close>

definition transfers ::
  "nat \<Rightarrow> ('a, 'se) message_op \<Rightarrow> ('b, 'se) message_op \<Rightarrow> ('a \<Rightarrow> 'b \<Rightarrow> bool) \<Rightarrow> ('a \<Rightarrow> 'b \<Rightarrow> bool) \<Rightarrow> bool" where
  "transfers limit w r P Q \<longleftrightarrow>
     (\<forall>a b msg. P a b \<longrightarrow> length msg \<le> limit \<longrightarrow>
       (\<exists>len m a' len' d b'. w a msg (replicate MAX_MSG_SIZE 0) = (Ok len, m, a') \<and>
          r b (take len m) (replicate MAX_MSG_SIZE 0) = (Ok len', d, b') \<and> take len' d = msg \<and> Q a' b'))"

definition snow_contract ::
  "('hs, 'ts, 'pk, 'se) snow_ext \<Rightarrow> nat \<Rightarrow> ('hs \<Rightarrow> 'hs \<Rightarrow> bool) \<Rightarrow> ('ts \<Rightarrow> 'ts \<Rightarrow> bool) \<Rightarrow> bool" where
  "snow_contract N limit hp tp \<longleftrightarrow>
     transfers limit (hs_write N) (hs_read N) hp (\<lambda>i r. hs_finished N i \<and> hs_finished N r \<and>
       (\<exists>t u. into_transport_mode N i = Ok t \<and> into_transport_mode N r = Ok u \<and> tp t u)) \<and>
     transfers limit (ts_write N) (ts_read N) tp tp"

definition noise_pair ::
  "('hs, 'ts, 'pk, 'se) snow_ext \<Rightarrow> nat \<Rightarrow> ('hs \<Rightarrow> 'hs \<Rightarrow> bool) \<Rightarrow> ('ts \<Rightarrow> 'ts \<Rightarrow> bool) \<Rightarrow>
    ('hs, 'ts) noise \<Rightarrow> ('hs, 'ts) noise \<Rightarrow> bool" where
  "noise_pair N limit hp tp a b \<longleftrightarrow> snow_contract N limit hp tp \<and>
     (case (handshake_state a, handshake_state b, transport_state a, transport_state b) of
        (Some i, Some r, None, None) \<Rightarrow> hp i r
      | (None, None, Some t, Some u) \<Rightarrow> tp t u
      | _ \<Rightarrow> False)"

interpretation noise_link: link "noise_send N" "noise_receive N" "noise_pair N limit hp tp"
  "\<lambda>msg. length msg \<le> limit"
  for N limit hp tp
proof
  fix a :: "('a, 'b) noise" and b and msg :: bytes
  let ?goal = "\<exists>w a' b'. noise_send N a msg = (Ok w, a') \<and> noise_receive N b w = (Ok msg, b') \<and>
      noise_pair N limit hp tp a' b'"
  assume pair: "noise_pair N limit hp tp a b" and fits: "length msg \<le> limit"
  then have contract: "snow_contract N limit hp tp" by (simp add: noise_pair_def)
  consider (hs) i r where "handshake_state a = Some i" "handshake_state b = Some r"
      "transport_state a = None" "transport_state b = None" "hp i r"
    | (ts) t u where "handshake_state a = None" "handshake_state b = None"
      "transport_state a = Some t" "transport_state b = Some u" "tp t u"
    using pair by (auto simp: noise_pair_def split: option.splits)
  then show ?goal
  proof cases
    case hs
    from contract hs(5) fits obtain len m i' len' d r' t u where
      "hs_write N i msg (replicate MAX_MSG_SIZE 0) = (Ok len, m, i')"
      "hs_read N r (take len m) (replicate MAX_MSG_SIZE 0) = (Ok len', d, r')" "take len' d = msg"
      "hs_finished N i'" "hs_finished N r'" "into_transport_mode N i' = Ok t"
      "into_transport_mode N r' = Ok u" "tp t u"
      unfolding snow_contract_def transfers_def by blast
    then show ?thesis using hs contract
      by (simp add: noise_send_def noise_receive_def write_message_def read_message_def noise_message_def noise_pair_def)
  next
    case ts
    from contract ts(5) fits obtain len m t' len' d u' where
      "ts_write N t msg (replicate MAX_MSG_SIZE 0) = (Ok len, m, t')"
      "ts_read N u (take len m) (replicate MAX_MSG_SIZE 0) = (Ok len', d, u')" "take len' d = msg" "tp t' u'"
      unfolding snow_contract_def transfers_def by blast
    then show ?thesis using ts contract
      by (simp add: noise_send_def noise_receive_def write_message_def read_message_def noise_message_def noise_pair_def)
  qed
qed

text \<open>
  Of the operations of a cipher, those for one peer and direction act on its Noise session
  alone, and on no other.
\<close>

fun encryptions_to :: "'pk \<Rightarrow> 'pk cipher_op list \<Rightarrow> bytes list" where
  "encryptions_to pk [] = []"
| "encryptions_to pk (Encrypt pk' msg # ops) = (if pk' = pk then msg # encryptions_to pk ops else encryptions_to pk ops)"
| "encryptions_to pk (Decrypt _ # ops) = encryptions_to pk ops"

fun decryptions_from :: "'pk \<Rightarrow> 'pk cipher_op list \<Rightarrow> bytes list" where
  "decryptions_from pk [] = []"
| "decryptions_from pk (Decrypt msg # ops) =
     (if msg_sender msg = pk then msg_bytes msg # decryptions_from pk ops else decryptions_from pk ops)"
| "decryptions_from pk (Encrypt _ _ # ops) = decryptions_from pk ops"

definition results_for :: "('pk cipher_op \<Rightarrow> bool) \<Rightarrow> 'pk cipher_op list \<Rightarrow> 'r list \<Rightarrow> 'r list" where
  "results_for P ops rs = map snd (filter (\<lambda>(op, r). P op) (zip ops rs))"

fun encrypts_to :: "'pk \<Rightarrow> 'pk cipher_op \<Rightarrow> bool" where
  "encrypts_to pk (Encrypt pk' _) = (pk' = pk)"
| "encrypts_to pk (Decrypt _) = False"

fun decrypts_from :: "'pk \<Rightarrow> 'pk cipher_op \<Rightarrow> bool" where
  "decrypts_from pk (Decrypt msg) = (msg_sender msg = pk)"
| "decrypts_from pk (Encrypt _ _) = False"

lemma results_for_simps [simp]:
  "results_for P [] [] = []"
  "results_for P (op # ops) (r # rs) = (if P op then r # results_for P ops rs else results_for P ops rs)"
  by (simp_all add: results_for_def)

lemma encrypt_as_send:
  "fmlookup (send_noise_map c) pk = Some n \<Longrightarrow> noise_send N n msg = (r, n') \<Longrightarrow>
    encrypt N c (Some pk) msg = (map_err SnowError r, c\<lparr>send_noise_map := fmupd pk n' (send_noise_map c)\<rparr>)"
  by (auto simp: noise_send_def encrypt_to split: prod.splits)

lemma decrypt_as_receive:
  "fmlookup (recv_noise_map c) (msg_sender msg) = Some n \<Longrightarrow> noise_receive N n (msg_bytes msg) = (r, n') \<Longrightarrow>
    decrypt N c msg = (map_err SnowError (omap (\<lambda>m. \<lparr>msg_sender = msg_sender msg, msg_bytes = m\<rparr>) r),
      c\<lparr>recv_noise_map := fmupd (msg_sender msg) n' (recv_noise_map c)\<rparr>)"
  by (cases "fst (read_message N n (msg_bytes msg) (replicate MAX_MSG_SIZE 0))")
    (auto simp: noise_receive_def decrypt_from split: prod.splits)

lemma encrypt_frame:
  "recv_noise_map (snd (encrypt N c (Some pk) msg)) = recv_noise_map c"
  "q \<noteq> pk \<Longrightarrow> fmlookup (send_noise_map (snd (encrypt N c (Some pk) msg))) q = fmlookup (send_noise_map c) q"
  by (auto simp: encrypt_def the_recipient_def split: option.splits prod.splits)

lemma decrypt_frame:
  "send_noise_map (snd (decrypt N c msg)) = send_noise_map c"
  "q \<noteq> msg_sender msg \<Longrightarrow> fmlookup (recv_noise_map (snd (decrypt N c msg))) q = fmlookup (recv_noise_map c) q"
  by (auto simp: decrypt_def split: option.splits prod.splits)

lemma cipher_op_frame:
  "\<not> encrypts_to pk op \<Longrightarrow>
    fmlookup (send_noise_map (snd (cipher_op_run N c op))) pk = fmlookup (send_noise_map c) pk"
  "\<not> decrypts_from pk op \<Longrightarrow>
    fmlookup (recv_noise_map (snd (cipher_op_run N c op))) pk = fmlookup (recv_noise_map c) pk"
  by (cases op; simp add: cipher_op_run_def case_prod_beta encrypt_frame decrypt_frame)+

lemma encryptions_project:
  "fmlookup (send_noise_map c) pk = Some n \<Longrightarrow>
    results_for (encrypts_to pk) ops (fst (run_all (cipher_op_run N) c ops)) =
      map (map_err SnowError) (fst (run_all (noise_send N) n (encryptions_to pk ops)))"
proof (induction ops arbitrary: c n)
  case (Cons op ops)
  obtain r c' where op: "cipher_op_run N c op = (r, c')" by (cases "cipher_op_run N c op") auto
  show ?case
  proof (cases "encrypts_to pk op")
    case True
    then obtain msg where e: "op = Encrypt pk msg" by (cases op) auto
    obtain s n' where s: "noise_send N n msg = (s, n')" by (cases "noise_send N n msg") auto
    have "r = map_err SnowError s" "fmlookup (send_noise_map c') pk = Some n'"
      using op encrypt_as_send[OF Cons.prems s] by (auto simp: e cipher_op_run_def)
    then show ?thesis using op s Cons.IH[of c' n'] by (simp add: e case_prod_beta)
  next
    case False
    have "fmlookup (send_noise_map c') pk = Some n"
      using cipher_op_frame(1)[OF False, of N c] op Cons.prems by simp
    moreover have "encryptions_to pk (op # ops) = encryptions_to pk ops" using False by (cases op) auto
    ultimately show ?thesis using op False Cons.IH[of c' n] by (simp add: case_prod_beta)
  qed
qed simp

lemma decryptions_project:
  "fmlookup (recv_noise_map c) pk = Some n \<Longrightarrow>
    results_for (decrypts_from pk) ops (fst (run_all (cipher_op_run N) c ops)) =
      map (map_err SnowError) (fst (run_all (noise_receive N) n (decryptions_from pk ops)))"
proof (induction ops arbitrary: c n)
  case (Cons op ops)
  obtain r c' where op: "cipher_op_run N c op = (r, c')" by (cases "cipher_op_run N c op") auto
  show ?case
  proof (cases "decrypts_from pk op")
    case True
    then obtain msg where e: "op = Decrypt msg" "msg_sender msg = pk" by (cases op) auto
    obtain s n' where s: "noise_receive N n (msg_bytes msg) = (s, n')"
      by (cases "noise_receive N n (msg_bytes msg)") auto
    have "r = map_err SnowError s" "fmlookup (recv_noise_map c') pk = Some n'"
      using op decrypt_as_receive[OF _ s, of c] Cons.prems e
      by (cases s; auto simp: cipher_op_run_def)+
    then show ?thesis using op s e Cons.IH[of c' n'] by (simp add: case_prod_beta)
  next
    case False
    have "fmlookup (recv_noise_map c') pk = Some n"
      using cipher_op_frame(2)[OF False, of N c] op Cons.prems by simp
    moreover have "decryptions_from pk (op # ops) = decryptions_from pk ops" using False by (cases op) auto
    ultimately show ?thesis using op False Cons.IH[of c' n] by (simp add: case_prod_beta)
  qed
qed simp

text \<open>
  C37: delivery in order. Let the session in which \<open>a\<close> sends to \<open>b\<close> be paired with the one in
  which \<open>b\<close> receives from \<open>a\<close>. Then the messages \<open>a\<close> encrypts to \<open>b\<close>, within the payload
  limit, are decrypted by \<open>b\<close> to what they were, in order, when they arrive in order; whatever
  either side does with other peers in between, and whatever arrives in their names, does not
  disturb it.
\<close>

theorem cipher_delivers:
  assumes "fmlookup (send_noise_map ca) b = Some n" and "fmlookup (recv_noise_map cb) a = Some n'"
    and "noise_pair N limit hp tp n n'" and "\<forall>msg \<in> set (encryptions_to b ops_a). length msg \<le> limit"
    and "map Ok (decryptions_from a ops_b) =
      results_for (encrypts_to b) ops_a (fst (run_all (cipher_op_run N) ca ops_a))"
  shows "results_for (decrypts_from a) ops_b (fst (run_all (cipher_op_run N) cb ops_b)) =
    map Ok (encryptions_to b ops_a)"
proof -
  obtain ws where ws: "fst (run_all (noise_send N) n (encryptions_to b ops_a)) = map Ok ws"
    "fst (run_all (noise_receive N) n' ws) = map Ok (encryptions_to b ops_a)"
    using noise_link.pass_all[OF assms(3,4)] by blast
  have "map Ok (decryptions_from a ops_b) = (map Ok ws :: ('d cipher_error, bytes) outcome list)"
    using assms(5) ws(1) by (simp add: encryptions_project[OF assms(1)])
  then have "decryptions_from a ops_b = ws" by (simp add: inj_map_eq_map inj_on_def)
  then show ?thesis using ws(2) by (simp add: decryptions_project[OF assms(2)])
qed

section \<open>A counter in place of snow\<close>

definition snow_demo :: "(bool, nat, nat, unit) snow_ext" where
  "snow_demo = \<lparr>
     hs_write = (\<lambda>_ p b. (Ok (length p), p, True)),
     hs_read = (\<lambda>_ p b. (Ok (length p), p, True)),
     hs_finished = (\<lambda>h. h),
     into_transport_mode = (\<lambda>h. if h then Ok 0 else Err ()),
     ts_write = (\<lambda>n p b. (Ok (Suc (length p)), word_of_nat n # p, Suc n)),
     ts_read = (\<lambda>n p b. case p of x # q \<Rightarrow> if x = word_of_nat n then (Ok (length q), q, Suc n) else (Err (), b, n)
                          | [] \<Rightarrow> (Err (), b, n)),
     build_initiator = (\<lambda>sk pk. Ok False),
     build_responder = (\<lambda>sk pk. Ok False)\<rparr>"

lemma snow_demo_total: "snow_total snow_demo"
  by (auto simp: snow_total_def snow_demo_def split: list.split)

lemma snow_demo_contract: "snow_contract snow_demo limit (\<lambda>_ _. True) (=)"
  by (auto simp: snow_contract_def transfers_def snow_demo_def)

definition demo_cipher :: "nat \<Rightarrow> (bool, nat, nat) cipher" where
  "demo_cipher peer = \<lparr>send_noise_map = fmupd peer (noise_new False) fmempty,
     recv_noise_map = fmupd peer (noise_new False) fmempty\<rparr>"

lemma demo_cipher_new: "cipher_new snow_demo [] [peer] = Ok (demo_cipher peer)"
  by (simp add: cipher_new_def demo_cipher_def snow_demo_def)

definition demo_sends :: "nat cipher_op list" where
  "demo_sends = [Encrypt 2 [5], Encrypt 7 [8], Encrypt 2 [6]]"

definition demo_receives :: "nat cipher_op list" where
  "demo_receives = [Decrypt \<lparr>msg_sender = 1, msg_bytes = [5]\<rparr>, Decrypt \<lparr>msg_sender = 9, msg_bytes = [4]\<rparr>,
     Decrypt \<lparr>msg_sender = 1, msg_bytes = [0, 6]\<rparr>]"

lemma cipher_panics_iff_witness:
  "Panic \<notin> set (fst (run_all (cipher_call_run snow_demo) (demo_cipher 2)
      [CallEncrypt None [5], CallEncrypt (Some 7) [8], CallDecrypt \<lparr>msg_sender = 9, msg_bytes = [4]\<rparr>])) \<and>
    Panic \<in> set (fst (run_all (cipher_call_run snow_demo) \<lparr>send_noise_map = fmempty, recv_noise_map = fmempty\<rparr>
      [CallEncrypt None [5]]))"
  using cipher_panics_iff[OF snow_demo_total demo_cipher_new] cipher_panics_iff[OF snow_demo_total, of "[]" "[]"]
  by (simp add: cipher_new_def del: run_all.simps)

lemma cipher_delivers_witness:
  "results_for (decrypts_from 1) demo_receives (fst (run_all (cipher_op_run snow_demo) (demo_cipher 1) demo_receives)) =
    map Ok (encryptions_to 2 demo_sends)"
proof (rule cipher_delivers)
  show "fmlookup (send_noise_map (demo_cipher 2)) 2 = Some (noise_new False)"
    "fmlookup (recv_noise_map (demo_cipher 1)) 1 = Some (noise_new False)" by (simp_all add: demo_cipher_def)
  show "noise_pair snow_demo 10 (\<lambda>_ _. True) (=) (noise_new False) (noise_new False)"
    by (simp add: noise_pair_def noise_new_def snow_demo_contract)
  show "\<forall>msg \<in> set (encryptions_to 2 demo_sends). length msg \<le> 10" by (simp add: demo_sends_def)
  show "map Ok (decryptions_from 1 demo_receives) = results_for (encrypts_to 2) demo_sends
      (fst (run_all (cipher_op_run snow_demo) (demo_cipher 2) demo_sends))"
    by (simp add: demo_sends_def demo_receives_def cipher_op_run_def encrypt_def the_recipient_def
        demo_cipher_def snow_demo_def write_message_def noise_message_def noise_new_def)
qed

end
