(* ===== verification/Comms.thy ===== *)
theory Comms
  imports Cipher
begin

text \<open>
  What the HTTP communication of the three protocols has in common
  (\<^verbatim>\<open>coordinator/comms/http.rs\<close>, \<^verbatim>\<open>participant/comms/http.rs\<close> and
  \<^verbatim>\<open>dkg/comms/http.rs\<close> of \<^verbatim>\<open>mina-frost-client\<close>): logging in with a signed
  challenge, the session, sending encrypted messages and receiving batches of them. Public keys
  and UUIDs are their bytes. The order in which a hash map is iterated is a parameter.
\<close>

type_synonym comm_key = bytes
type_synonym uuid = bytes

datatype 'se comms_error = ClientErr client_error | CipherErr "'se cipher_error"
  | SessionErr session_error | Report rstr | Frost | IoErr

record ('hs, 'ts, 'se, 'w) comms_env =
  srv :: "('w, comm_key, uuid) server_ext"
  snow :: "('hs, 'ts, comm_key, 'se) snow_ext"
  xed_sign :: "bytes \<Rightarrow> bytes \<Rightarrow> 'w \<Rightarrow> bytes \<times> 'w"
  key_order :: "comm_key fset \<Rightarrow> comm_key list"

definition orders_keys :: "('hs, 'ts, 'se, 'w, 'y) comms_env_scheme \<Rightarrow> bool" where
  "orders_keys E \<longleftrightarrow> (\<forall>A. fset_of_list (key_order E A) = A \<and> distinct (key_order E A))"

record ('hs, 'ts, 'w) comms =
  session_id :: "uuid option"
  cipher_of :: "('hs, 'ts, comm_key) cipher option"
  world :: 'w

section \<open>Steps\<close>

definition ask ::
  "('w \<Rightarrow> (client_error, 'a) outcome \<times> 'w) \<Rightarrow> (('hs, 'ts, 'w, 'z) comms_scheme, 'se comms_error, 'a) io" where
  "ask call s = (case call (world s) of (r, w) \<Rightarrow> (Some (map_err ClientErr r), s\<lparr>world := w\<rparr>))"

definition the_session :: "(('hs, 'ts, 'w, 'z) comms_scheme, 'se comms_error, uuid) io" where
  "the_session = io_get (\<lambda>s. case session_id s of Some u \<Rightarrow> Ok u | None \<Rightarrow> Panic)"

definition need :: "rstr \<Rightarrow> 'a option \<Rightarrow> ('s, 'se comms_error, 'a) io" where
  "need report v = io_pure (ok_or (Report report) v)"

definition to_vec :: "bytes option \<Rightarrow> ('s, 'se comms_error, bytes) io" where
  "to_vec v = io_pure (ok_or (SessionErr Serde) v)"

definition sign_step ::
  "('hs, 'ts, 'se, 'w, 'y) comms_env_scheme \<Rightarrow> bytes \<Rightarrow> bytes \<Rightarrow>
    (('hs, 'ts, 'w, 'z) comms_scheme, 'se comms_error, bytes) io" where
  "sign_step E key msg s = (case private_key_sign (xed_sign E) key msg (world s) of
     (r, w) \<Rightarrow> (Some (map_err CipherErr r), s\<lparr>world := w\<rparr>))"

definition log_in ::
  "('hs, 'ts, 'se, 'w, 'y) comms_env_scheme \<Rightarrow> bytes option \<Rightarrow> comm_key option \<Rightarrow>
    (('hs, 'ts, 'w, 'z) comms_scheme, 'se comms_error, comm_key) io" where
  "log_in E comm_privkey comm_pubkey =
     io_bind (ask (srv_challenge (srv E))) (\<lambda>challenge.
     io_bind (need (lit ''comm_privkey must be specified'') comm_privkey) (\<lambda>privkey.
     io_bind (sign_step E privkey challenge) (\<lambda>signature.
     io_bind (need (lit ''comm_pubkey must be specified'') comm_pubkey) (\<lambda>pubkey.
     io_bind (ask (srv_login (srv E)
       \<lparr>login_challenge = challenge, login_pubkey = pubkey, login_signature = signature\<rparr>)) (\<lambda>_.
     io_pure (Ok pubkey))))))"

definition set_cipher ::
  "('hs, 'ts, 'se, 'w, 'y) comms_env_scheme \<Rightarrow> bytes \<Rightarrow> comm_key list \<Rightarrow>
    (('hs, 'ts, 'w, 'z) comms_scheme, 'se comms_error, unit) io" where
  "set_cipher E privkey peers =
     io_bind (io_pure (map_err CipherErr (cipher_new (snow E) privkey peers))) (\<lambda>c.
     io_set (\<lambda>s. s\<lparr>cipher_of := Some c\<rparr>))"

definition encrypt_step ::
  "('hs, 'ts, 'se, 'w, 'y) comms_env_scheme \<Rightarrow> comm_key option \<Rightarrow> bytes \<Rightarrow>
    (('hs, 'ts, 'w, 'z) comms_scheme, 'se comms_error, bytes) io" where
  "encrypt_step E recipient payload s =
     (case cipher_of s of
        None \<Rightarrow> (Some Panic, s)
      | Some c \<Rightarrow> (case encrypt (snow E) c recipient payload of
          (r, c) \<Rightarrow> (Some (map_err CipherErr r), s\<lparr>cipher_of := Some c\<rparr>)))"

definition decrypt_step ::
  "('hs, 'ts, 'se, 'w, 'y) comms_env_scheme \<Rightarrow> comm_key msg \<Rightarrow>
    (('hs, 'ts, 'w, 'z) comms_scheme, 'se comms_error, comm_key msg) io" where
  "decrypt_step E msg s =
     (case cipher_of s of
        None \<Rightarrow> (Some Panic, s)
      | Some c \<Rightarrow> (case decrypt (snow E) c msg of
          (r, c) \<Rightarrow> (Some (map_err CipherErr r), s\<lparr>cipher_of := Some c\<rparr>)))"

text \<open>Encrypt a payload and send it; no recipients stands for the coordinator.\<close>

definition send_step ::
  "('hs, 'ts, 'se, 'w, 'y) comms_env_scheme \<Rightarrow> comm_key option \<Rightarrow> bytes option \<Rightarrow>
    (('hs, 'ts, 'w, 'z) comms_scheme, 'se comms_error, unit) io" where
  "send_step E recipient payload =
     io_bind (to_vec payload) (\<lambda>payload.
     io_bind (encrypt_step E recipient payload) (\<lambda>msg.
     io_bind the_session (\<lambda>sid.
     ask (srv_send (srv E) \<lparr>send_session_id = sid,
       send_recipients = (case recipient of Some pk \<Rightarrow> [pk] | None \<Rightarrow> []), send_msg = msg\<rparr>))))"

definition receive_step ::
  "('hs, 'ts, 'se, 'w, 'y) comms_env_scheme \<Rightarrow> bool \<Rightarrow>
    (('hs, 'ts, 'w, 'z) comms_scheme, 'se comms_error, comm_key msg list) io" where
  "receive_step E coordinator =
     io_bind the_session (\<lambda>sid.
     ask (srv_receive (srv E) \<lparr>receive_session_id = sid, as_coordinator = coordinator\<rparr>))"

definition close_step :: "('hs, 'ts, 'se, 'w, 'y) comms_env_scheme \<Rightarrow>
    (('hs, 'ts, 'w, 'z) comms_scheme, 'se comms_error, unit) io" where
  "close_step E = io_bind the_session (\<lambda>sid. ask (srv_close_session (srv E) sid))"

definition cleanup_on_error :: "('hs, 'ts, 'se, 'w, 'y) comms_env_scheme \<Rightarrow>
    (('hs, 'ts, 'w, 'z) comms_scheme, 'se comms_error, unit) io" where
  "cleanup_on_error E s =
     (case session_id s of
        Some sid \<Rightarrow> ask (srv_close_session (srv E) sid) s
      | None \<Rightarrow> (Some (Ok ()), s))"

definition or_cleanup ::
  "('hs, 'ts, 'se, 'w, 'y) comms_env_scheme \<Rightarrow> (('hs, 'ts, 'w, 'z) comms_scheme, 'se comms_error, 'a) io \<Rightarrow>
    (('hs, 'ts, 'w, 'z) comms_scheme, 'se comms_error, 'a) io" where
  "or_cleanup E m s = (case m s of
     (Some (Err e), s) \<Rightarrow>
       (case cleanup_on_error E s of
          (Some Panic, s) \<Rightarrow> (Some Panic, s)
        | (_, s) \<Rightarrow> (Some (Err e), s))
   | result \<Rightarrow> result)"

lemma ask_Ok:
  "ask call s = (Some (Ok a), s') \<longleftrightarrow> (\<exists>w. call (world s) = (Ok a, w) \<and> s' = s\<lparr>world := w\<rparr>)"
  by (cases "call (world s)") (auto simp: ask_def outcome_simps)

section \<open>What the steps leave alone\<close>

text \<open>
  None of the shared steps touches the protocol's own part of the state, and none but
  the protocols themselves set the session.
\<close>

definition frame :: "(('hs, 'ts, 'w, 'z) comms_scheme, 'e, 'a) io \<Rightarrow> bool" where
  "frame m \<longleftrightarrow> (\<forall>s. comms.more (snd (m s)) = comms.more s \<and> session_id (snd (m s)) = session_id s)"

named_theorems frames

lemma frame_bind [frames]: "frame m \<Longrightarrow> (\<And>a. frame (f a)) \<Longrightarrow> frame (io_bind m f)"
  unfolding frame_def
proof
  fix s
  assume "\<forall>s. comms.more (snd (m s)) = comms.more s \<and> session_id (snd (m s)) = session_id s"
    and "\<And>a. \<forall>s. comms.more (snd (f a s)) = comms.more s \<and> session_id (snd (f a s)) = session_id s"
  then show "comms.more (snd (io_bind m f s)) = comms.more s \<and> session_id (snd (io_bind m f s)) = session_id s"
    by (cases rule: io_bind_cases[of m s f]) (metis snd_conv)+
qed

lemma frame_pure [frames]: "frame (io_pure r)"
  by (simp add: frame_def)

lemma frame_get [frames]: "frame (io_get f)"
  by (simp add: frame_def)

lemma frame_ask [frames]: "frame (ask call)"
  by (simp add: frame_def ask_def split: prod.splits)

lemma frame_sign [frames]: "frame (sign_step E key msg)"
  by (simp add: frame_def sign_step_def split: prod.splits)

lemma frame_encrypt [frames]: "frame (encrypt_step E recipient payload)"
  by (simp add: frame_def encrypt_step_def split: prod.splits option.splits)

lemma frame_decrypt [frames]: "frame (decrypt_step E msg)"
  by (simp add: frame_def decrypt_step_def split: prod.splits option.splits)

lemma frame_set_cipher [frames]: "frame (set_cipher E privkey peers)"
  unfolding set_cipher_def by (intro frames) (simp add: frame_def)

lemma frame_need [frames]: "frame (need report v)"
  unfolding need_def by (intro frames)

lemma frame_to_vec [frames]: "frame (to_vec v)"
  unfolding to_vec_def by (intro frames)

lemma frame_the_session [frames]: "frame the_session"
  unfolding the_session_def by (intro frames)

lemma frame_send [frames]: "frame (send_step E recipient payload)"
  unfolding send_step_def by (intro frames)

lemma frame_receive [frames]: "frame (receive_step E coordinator)"
  unfolding receive_step_def by (intro frames)

lemma frame_close [frames]: "frame (close_step E)"
  unfolding close_step_def by (intro frames)

lemma frame_log_in [frames]: "frame (log_in E privkey pubkey)"
  unfolding log_in_def by (intro frames)

lemma frame_for [frames]: "(\<And>x. frame (f x)) \<Longrightarrow> frame (io_for f xs)"
proof (induction xs)
  case (Cons x xs)
  then show ?case by (simp add: frame_bind)
qed (simp add: frame_pure)

lemma frameD:
  "frame m \<Longrightarrow> m s = (r, s') \<Longrightarrow> comms.more s' = comms.more s \<and> session_id s' = session_id s"
  unfolding frame_def by (metis snd_conv)

lemma frame_ensures: "frame m \<Longrightarrow> ensures (\<lambda>s. P (comms.more s)) m (\<lambda>_ s. P (comms.more s))"
  unfolding ensures_def by (metis frameD)

lemma frame_keeps: "frame m \<Longrightarrow> io_keeps (\<lambda>s. P (comms.more s)) m"
  by (simp add: frame_def io_keeps_def)

text \<open>Receiving, decrypting and sending never replace the cipher's invariant.\<close>

definition has_cipher :: "('hs, 'ts, 'w, 'z) comms_scheme \<Rightarrow> bool" where
  "has_cipher s \<longleftrightarrow> (\<exists>c. cipher_of s = Some c \<and> cipher_ok c)"

lemma decrypt_step_ok:
  assumes "snow_total (snow E)" and "has_cipher s"
  obtains r s' where "decrypt_step E msg s = (Some r, s')" "r \<noteq> Panic" "has_cipher s'"
    "world s' = world s" "comms.more s' = comms.more s" "session_id s' = session_id s"
proof -
  from assms(2) obtain c where c: "cipher_of s = Some c" "cipher_ok c" unfolding has_cipher_def by blast
  obtain r c' where d: "decrypt (snow E) c msg = (r, c')" by (cases "decrypt (snow E) c msg")
  have "r \<noteq> Panic" "cipher_ok c'" using decrypt_ok[OF assms(1) c(2), of msg] d by simp_all
  then show ?thesis using that c d by (simp add: decrypt_step_def has_cipher_def)
qed

lemma encrypt_step_ok:
  assumes "snow_total (snow E)" and "has_cipher s"
  obtains r s' where "encrypt_step E (Some pk) payload s = (Some r, s')" "r \<noteq> Panic" "has_cipher s'"
    "world s' = world s" "comms.more s' = comms.more s" "session_id s' = session_id s"
proof -
  from assms(2) obtain c where c: "cipher_of s = Some c" "cipher_ok c" unfolding has_cipher_def by blast
  obtain r c' where d: "encrypt (snow E) c (Some pk) payload = (r, c')"
    by (cases "encrypt (snow E) c (Some pk) payload")
  have "r \<noteq> Panic" "cipher_ok c'" using encrypt_ok[OF assms(1) c(2), of "Some pk" payload] d by simp_all
  then show ?thesis using that c d by (simp add: encrypt_step_def has_cipher_def)
qed

lemma or_cleanup_Ok: "or_cleanup E m s = (Some (Ok a), s') \<longleftrightarrow> m s = (Some (Ok a), s')"
  by (cases "m s") (auto simp: or_cleanup_def split: option.splits outcome.splits prod.splits)

text \<open>A failed run whose state has a session ends by asking the server to close it.\<close>

lemma or_cleanup_closes:
  assumes "or_cleanup E m s0 = (Some (Err e), s)" and "session_id s = Some sid"
  shows "\<exists>w'. world s = snd (srv_close_session (srv E) sid w')"
proof -
  obtain r t where run: "m s0 = (r, t)" by (cases "m s0")
  with assms(1) obtain e' where r: "r = Some (Err e')"
    unfolding or_cleanup_def by (cases r) (auto split: outcome.splits)
  obtain r' t' where clean: "cleanup_on_error E t = (r', t')" by (cases "cleanup_on_error E t")
  have "t' = s"
    using assms(1) run r clean unfolding or_cleanup_def by (auto split: outcome.splits option.splits)
  with clean have "session_id t = Some sid"
    using assms(2) frameD[OF frame_ask] unfolding cleanup_on_error_def
    by (cases "session_id t") fastforce+
  then have "world s = snd (srv_close_session (srv E) sid (world t))"
    using clean \<open>t' = s\<close> by (auto simp: cleanup_on_error_def ask_def split: prod.splits)
  then show ?thesis ..
qed

section \<open>What the network brings\<close>

text \<open>
  A message the server delivers, if it decrypts, is genuine: what end-to-end encryption and the
  server's delivery are relied on for. The predicate says what genuine means.
\<close>

definition brings ::
  "('hs, 'ts, 'se, 'w, 'y) comms_env_scheme \<Rightarrow> (comm_key msg \<Rightarrow> bool) \<Rightarrow> bool" where
  "brings E genuine \<longleftrightarrow> (\<forall>args w ms w'. srv_receive (srv E) args w = (Ok ms, w') \<longrightarrow>
     (\<forall>msg \<in> set ms. \<forall>c m c'. decrypt (snow E) c msg = (Ok m, c') \<longrightarrow> genuine m))"

lemma receive_step_ensures:
  assumes "brings E genuine"
  shows "ensures I (receive_step E coordinator) (\<lambda>ms _. \<forall>msg \<in> set ms. \<forall>c m c'.
    decrypt (snow E) c msg = (Ok m, c') \<longrightarrow> genuine m)"
  using assms
  unfolding ensures_def receive_step_def io_bind_Ok ask_Ok brings_def by blast

lemma decrypt_sender: "decrypt N c msg = (Ok m, c') \<Longrightarrow> msg_sender m = msg_sender msg"
  by (auto simp: decrypt_def outcome_simps split: option.splits prod.splits)

section \<open>An instance\<close>

text \<open>A server whose next batches are fixed, and a cipher that does not encrypt.\<close>

definition snow_plain :: "(unit, unit, 'pk, unit) snow_ext" where
  "snow_plain = \<lparr>
     hs_write = (\<lambda>_ p b. (Ok (length p), p, ())), hs_read = (\<lambda>_ p b. (Ok (length p), p, ())),
     hs_finished = (\<lambda>_. True), into_transport_mode = (\<lambda>_. Ok ()),
     ts_write = (\<lambda>_ p b. (Ok (length p), p, ())), ts_read = (\<lambda>_ p b. (Ok (length p), p, ())),
     build_initiator = (\<lambda>_ _. Ok ()), build_responder = (\<lambda>_ _. Ok ())\<rparr>"

definition demo_server :: "comm_key list \<Rightarrow> comm_key msg list list \<Rightarrow> (nat, comm_key, uuid) server_ext" where
  "demo_server keys batches = \<lparr>
     srv_challenge = (\<lambda>w. (Ok [], w)), srv_login = (\<lambda>_ w. (Ok [], w)), srv_logout = (\<lambda>w. (Ok (), w)),
     srv_create_new_session = (\<lambda>_ w. (Ok [7], w)), srv_list_sessions = (\<lambda>w. (Ok [[7]], w)),
     srv_get_session_info = (\<lambda>_ w. (Ok \<lparr>info_message_count = 1, info_pubkeys = keys,
       info_coordinator_pubkey = [1]\<rparr>, w)),
     srv_send = (\<lambda>_ w. (Ok (), w)),
     srv_receive = (\<lambda>_ w. (Ok (if w < length batches then batches ! w else []), Suc w)),
     srv_close_session = (\<lambda>_ w. (Ok (), 99))\<rparr>"

definition plain_cipher :: "comm_key list \<Rightarrow> (unit, unit, comm_key) cipher" where
  "plain_cipher pks = \<lparr>send_noise_map = fmap_of_list (map (\<lambda>k. (k, noise_new ())) pks),
     recv_noise_map = fmap_of_list (map (\<lambda>k. (k, noise_new ())) pks)\<rparr>"

lemmas step_eval = io_bind_def ask_def the_session_def to_vec_def need_def encrypt_step_def decrypt_step_def
  set_cipher_def send_step_def receive_step_def encrypt_def decrypt_def the_recipient_def write_message_def
  read_message_def noise_message_def noise_new_def cipher_new_def

lemma plain_cipher_ok: "cipher_ok (plain_cipher pks)"
  by (auto simp: cipher_ok_def plain_cipher_def noise_ok_new fmpred_iff fmap_of_list.rep_eq dest!: map_of_SomeD)

lemma snow_plain_total: "snow_total snow_plain"
  by (simp add: snow_total_def snow_plain_def)

lemma demo_brings:
  assumes "srv E = demo_server keys batches" and "\<forall>b \<in> set batches. \<forall>msg \<in> set b. P (msg_sender msg)"
  shows "brings E (\<lambda>m. P (msg_sender m))"
  unfolding brings_def
proof (intro allI impI ballI)
  fix args w ms w' msg c m c'
  assume "srv_receive (srv E) args w = (Ok ms, w')" and "msg \<in> set ms" and "decrypt (snow E) c msg = (Ok m, c')"
  then show "P (msg_sender m)"
    using assms decrypt_sender[of "snow E" c msg m c'] nth_mem[of w batches]
    by (fastforce simp: demo_server_def split: if_splits)
qed

end
