(* ===== verification/Json.thy ===== *)
theory Json
  imports Mina_Prelude
begin

text \<open>
  JSON values and what \<open>serde\<close>'s derived implementations do with them. The text form
  (\<open>serde_json\<close>) is a parameter: a printer and a parser, and as a law that the parser reads what
  the printer wrote, up to the depth at which it stops: it refuses 128 nested values. An error of deserialisation is a value the program's own code can tell
  apart only by its message, so all structural errors are one.
\<close>

datatype json = JNull | JBool bool | JNum int | JStr rstr | JArr "json list" | JObj "(rstr \<times> json) list"

datatype de_error = Malformed | ParseInt | BadAddress | CustomError rstr

record json_ext =
  json_print :: "json \<Rightarrow> rstr"
  json_parse :: "rstr \<Rightarrow> json option"

fun json_within :: "nat \<Rightarrow> json \<Rightarrow> bool" where
  "json_within n (JArr js) \<longleftrightarrow> 0 < n \<and> list_all (json_within (n - 1)) js"
| "json_within n (JObj members) \<longleftrightarrow> 0 < n \<and> list_all (\<lambda>(_, j). json_within (n - 1) j) members"
| "json_within n _ \<longleftrightarrow> True"

definition RECURSION_LIMIT :: nat where "RECURSION_LIMIT = 128"

definition json_reads :: "json_ext \<Rightarrow> (json \<Rightarrow> rstr) \<Rightarrow> bool" where
  "json_reads J print \<longleftrightarrow>
     (\<forall>j. json_within (RECURSION_LIMIT - 1) j \<longrightarrow> json_parse J (print j) = Some j)"

definition json_laws :: "json_ext \<Rightarrow> bool" where
  "json_laws J \<longleftrightarrow> json_reads J (json_print J)"

text \<open>
  A derived struct reads an object by field name, a repeated field being an error and unknown
  ones ignored, or an array of as many elements as it has fields.
\<close>

definition object_field :: "rstr \<Rightarrow> (rstr \<times> json) list \<Rightarrow> (de_error, json option) outcome" where
  "object_field name members =
     (case filter (\<lambda>(k, _). k = name) members of
        [] \<Rightarrow> Ok None | [(_, v)] \<Rightarrow> Ok (Some v) | _ \<Rightarrow> Err Malformed)"

fun struct_fields :: "rstr list \<Rightarrow> json \<Rightarrow> (de_error, json option list) outcome" where
  "struct_fields names (JObj members) = omap_list (\<lambda>name. object_field name members) names"
| "struct_fields names (JArr vs) = (if length vs = length names then Ok (map Some vs) else Err Malformed)"
| "struct_fields names _ = Err Malformed"

fun de_string :: "json option \<Rightarrow> (de_error, rstr) outcome" where
  "de_string (Some (JStr s)) = Ok s"
| "de_string _ = Err Malformed"

fun de_bool :: "json \<Rightarrow> (de_error, bool) outcome" where
  "de_bool (JBool b) = Ok b"
| "de_bool _ = Err Malformed"

text \<open>An optional field may be absent or null.\<close>

fun de_option :: "(json option \<Rightarrow> (de_error, 'a) outcome) \<Rightarrow> json option \<Rightarrow> (de_error, 'a option) outcome" where
  "de_option de None = Ok None"
| "de_option de (Some JNull) = Ok None"
| "de_option de (Some j) = omap Some (de (Some j))"

definition de_uint :: "nat \<Rightarrow> rstr \<Rightarrow> (de_error, nat) outcome" where
  "de_uint w s = ok_or ParseInt (parse_uint w s)"

lemma parse_show_uint: "parse_uint LENGTH('w) (show_nat (unat (x :: 'w::len word))) = Some (unat x)"
  using unsigned_less[of x, where ?'a = nat] by (simp add: parse_show_nat)

lemmas parse_show_word = parse_show_uint[where 'w = 64, simplified] parse_show_uint[where 'w = 32, simplified]

end
