(* ===== verification/External_Code.thy ===== *)
theory External_Code
  imports Mina_Prelude
begin

text \<open>
  The crates the repository calls but does not contain, as records of functions that every
  definition which uses them takes as an argument. Nothing about them is assumed here; a
  property that relies on a documented behaviour names it as a hypothesis, by one of the
  predicates below.

  Elements of the base field of Pallas (\<open>mina_hasher::Fp\<close>) are their canonical
  representatives, natural numbers below the modulus.
\<close>

section \<open>Field elements, points and keys\<close>

type_synonym fp = nat

record compressed_pubkey =
  pk_x :: fp
  pk_is_odd :: bool

record affine =
  aff_x :: fp
  aff_y :: fp

text \<open>\<open>mina_signer::PubKey\<close>: a point and its compression and address functions.\<close>

record pubkey =
  pk_point :: affine

record address_ext =
  into_compressed :: "pubkey \<Rightarrow> compressed_pubkey"
  into_address :: "compressed_pubkey \<Rightarrow> rstr"
  from_address :: "rstr \<Rightarrow> pubkey option"

text \<open>An address determines the compressed key: the one it was made of.\<close>

definition address_laws :: "address_ext \<Rightarrow> bool" where
  "address_laws A \<longleftrightarrow> (\<forall>k. \<exists>p. from_address A (into_address A (into_compressed A k)) = Some p \<and>
     into_compressed A p = into_compressed A k)"

text \<open>An instance: an address is the sign and the coordinate in unary.\<close>

definition address_demo :: address_ext where
  "address_demo = \<lparr>
     into_compressed = (\<lambda>k. \<lparr>pk_x = aff_x (pk_point k), pk_is_odd = odd (aff_y (pk_point k))\<rparr>),
     into_address = (\<lambda>c. (if pk_is_odd c then 1 else 0) # replicate (pk_x c) 0),
     from_address = (\<lambda>s. case s of [] \<Rightarrow> None
       | b # x \<Rightarrow> Some \<lparr>pk_point = \<lparr>aff_x = length x, aff_y = if b = 1 then 1 else 0\<rparr>\<rparr>)\<rparr>"

lemma address_demo_laws: "address_laws address_demo"
  by (simp add: address_laws_def address_demo_def)

section \<open>Base58 and SHA-256\<close>

record base58_ext =
  sha256 :: "bytes \<Rightarrow> bytes"
  bs58_encode :: "bytes \<Rightarrow> rstr"
  bs58_decode :: "rstr \<Rightarrow> bytes option"

text \<open>Digests have 32 bytes, and decoding inverts encoding.\<close>

definition base58_laws :: "base58_ext \<Rightarrow> bool" where
  "base58_laws B \<longleftrightarrow>
     (\<forall>bs. length (sha256 B bs) = 32) \<and> (\<forall>bs. bs58_decode B (bs58_encode B bs) = Some bs)"

text \<open>An instance of the laws: the identity alphabet and a truncating digest.\<close>

definition base58_demo :: base58_ext where
  "base58_demo = \<lparr>sha256 = (\<lambda>bs. take 32 (bs @ replicate 32 0)), bs58_encode = id, bs58_decode = Some\<rparr>"

lemma base58_demo_laws: "base58_laws base58_demo"
  by (auto simp: base58_laws_def base58_demo_def min_def)

section \<open>Random oracle inputs\<close>

text \<open>\<open>mina_hasher::ROInput\<close>, with an abstract type \<open>'r\<close> of inputs.\<close>

record 'r roinput_ext =
  roi_new :: 'r
  roi_append_field :: "'r \<Rightarrow> fp \<Rightarrow> 'r"
  roi_append_bool :: "'r \<Rightarrow> bool \<Rightarrow> 'r"
  roi_append_u32 :: "'r \<Rightarrow> u32 \<Rightarrow> 'r"
  roi_append_u64 :: "'r \<Rightarrow> u64 \<Rightarrow> 'r"
  roi_append_bytes :: "'r \<Rightarrow> bytes \<Rightarrow> 'r"
  roi_to_fields :: "'r \<Rightarrow> fp list"
  roi_serialize :: "'r \<Rightarrow> bytes"
  roi_deserialize :: "bytes \<Rightarrow> 'r option"

definition roi_roundtrip :: "'r roinput_ext \<Rightarrow> bool" where
  "roi_roundtrip R \<longleftrightarrow> (\<forall>r. roi_deserialize R (roi_serialize R r) = Some r)"

definition roi_canonical :: "'r roinput_ext \<Rightarrow> bool" where
  "roi_canonical R \<longleftrightarrow> (\<forall>b r. roi_deserialize R b = Some r \<longrightarrow> roi_serialize R r = b)"

text \<open>
  What an input holds: the fields in the order of the appends, and the bits in the order of
  the appends, each byte least significant bit first and each integer little-endian.
\<close>

definition byte_lsb_bits :: "u8 \<Rightarrow> bool list" where
  "byte_lsb_bits b = map (\<lambda>i. bit b i) [0..<8]"

definition bytes_lsb_bits :: "bytes \<Rightarrow> bool list" where
  "bytes_lsb_bits bs = concat (map byte_lsb_bits bs)"

definition roi_observed :: "'r roinput_ext \<Rightarrow> ('r \<Rightarrow> fp list) \<Rightarrow> ('r \<Rightarrow> bool list) \<Rightarrow> bool" where
  "roi_observed R fs bs \<longleftrightarrow>
     fs (roi_new R) = [] \<and> bs (roi_new R) = [] \<and>
     (\<forall>r f. fs (roi_append_field R r f) = fs r @ [f] \<and> bs (roi_append_field R r f) = bs r) \<and>
     (\<forall>r b. fs (roi_append_bool R r b) = fs r \<and> bs (roi_append_bool R r b) = bs r @ [b]) \<and>
     (\<forall>r x. fs (roi_append_u32 R r x) = fs r \<and>
        bs (roi_append_u32 R r x) = bs r @ bytes_lsb_bits (le_bytes 4 (unat x))) \<and>
     (\<forall>r x. fs (roi_append_u64 R r x) = fs r \<and>
        bs (roi_append_u64 R r x) = bs r @ bytes_lsb_bits (le_bytes 8 (unat x))) \<and>
     (\<forall>r x. fs (roi_append_bytes R r x) = fs r \<and> bs (roi_append_bytes R r x) = bs r @ bytes_lsb_bits x)"

text \<open>An instance: pairs of the two lists (serialised as nothing in particular).\<close>

definition roi_demo :: "(fp list \<times> bool list) roinput_ext" where
  "roi_demo = \<lparr>roi_new = ([], []),
     roi_append_field = (\<lambda>r f. (fst r @ [f], snd r)),
     roi_append_bool = (\<lambda>r b. (fst r, snd r @ [b])),
     roi_append_u32 = (\<lambda>r x. (fst r, snd r @ bytes_lsb_bits (le_bytes 4 (unat x)))),
     roi_append_u64 = (\<lambda>r x. (fst r, snd r @ bytes_lsb_bits (le_bytes 8 (unat x)))),
     roi_append_bytes = (\<lambda>r x. (fst r, snd r @ bytes_lsb_bits x)),
     roi_to_fields = fst, roi_serialize = (\<lambda>r. []), roi_deserialize = (\<lambda>b. None)\<rparr>"

lemma roi_demo_observed: "roi_observed roi_demo fst snd"
  by (simp add: roi_observed_def roi_demo_def)

text \<open>An instance for the serialisation laws: byte strings, each its own serialisation.\<close>

definition roi_bytes_demo :: "bytes roinput_ext" where
  "roi_bytes_demo = \<lparr>roi_new = [], roi_append_field = (\<lambda>r f. r), roi_append_bool = (\<lambda>r b. r),
     roi_append_u32 = (\<lambda>r x. r), roi_append_u64 = (\<lambda>r x. r), roi_append_bytes = (@),
     roi_to_fields = (\<lambda>r. []), roi_serialize = id, roi_deserialize = Some\<rparr>"

lemma roi_bytes_demo_laws: "roi_roundtrip roi_bytes_demo" "roi_canonical roi_bytes_demo"
  by (simp_all add: roi_roundtrip_def roi_canonical_def roi_bytes_demo_def)

lemma length_byte_lsb_bits [simp]: "length (byte_lsb_bits b) = 8"
  by (simp add: byte_lsb_bits_def)

lemma byte_lsb_bits_inject [simp]: "byte_lsb_bits a = byte_lsb_bits b \<longleftrightarrow> a = b"
proof
  assume eq: "byte_lsb_bits a = byte_lsb_bits b"
  show "a = b"
  proof (rule bit_word_eqI)
    fix n assume "n < LENGTH(8)"
    then have "byte_lsb_bits a ! n = bit a n" "byte_lsb_bits b ! n = bit b n"
      by (simp_all add: byte_lsb_bits_def)
    with eq show "bit a n = bit b n" by simp
  qed
qed simp

lemma length_bytes_lsb_bits [simp]: "length (bytes_lsb_bits bs) = 8 * length bs"
  by (induction bs) (auto simp: bytes_lsb_bits_def)

lemma bytes_lsb_bits_inject:
  "length xs = length ys \<Longrightarrow> bytes_lsb_bits xs = bytes_lsb_bits ys \<longleftrightarrow> xs = ys"
  by (induction xs ys rule: list_induct2) (auto simp: bytes_lsb_bits_def)

section \<open>Hashers\<close>

text \<open>
  \<open>mina_hasher::create_legacy\<close> and \<open>create_kimchi\<close>: a hasher is made for a domain string
  and hashes an input to a field element. The Kimchi sponge of \<open>mina_poseidon\<close> has its own
  state type \<open>'sp\<close>.
\<close>

record 'r hasher_ext =
  hash_legacy :: "rstr option \<Rightarrow> 'r \<Rightarrow> fp"
  hash_kimchi :: "rstr option \<Rightarrow> 'r \<Rightarrow> fp"

record 'sp sponge_ext =
  sponge_new :: 'sp
  sponge_absorb :: "'sp \<Rightarrow> fp list \<Rightarrow> 'sp"
  sponge_squeeze :: "'sp \<Rightarrow> fp \<times> 'sp"

end
