(* ===== verification/Base58.thy ===== *)
theory Base58
  imports External_Code
begin

text \<open>
  Base58check encoding, \<^verbatim>\<open>mina-tx/src/base58.rs\<close>: a version byte, the payload and the
  first four bytes of the double SHA-256 of both. The base58 alphabet and SHA-256 are the
  crates \<open>bs58\<close> and \<open>sha2\<close>, the parameter \<open>B\<close>.
\<close>

definition SIGNATURE_VERSION_BYTE :: u8 where "SIGNATURE_VERSION_BYTE = 154"
definition SIGNATURE_VERSION_NUMBER :: u8 where "SIGNATURE_VERSION_NUMBER = 1"
definition MEMO_VERSION_BYTE :: u8 where "MEMO_VERSION_BYTE = 20"
definition TOKEN_ID_VERSION_BYTE :: u8 where "TOKEN_ID_VERSION_BYTE = 28"

datatype base58_error =
    InvalidBase58
  | TooShort
  | InvalidVersionByte u8 u8  \<comment> \<open>expected, actual\<close>
  | InvalidChecksum
  | InvalidLength nat nat  \<comment> \<open>expected, actual\<close>

fun display_base58_error :: "base58_error \<Rightarrow> rstr" where
  "display_base58_error InvalidBase58 = lit ''Invalid base58 encoding''"
| "display_base58_error TooShort = lit ''Input too short for base58check''"
| "display_base58_error (InvalidVersionByte expected actual) =
     lit ''Invalid version byte: expected '' @ show_nat (unat expected) @ lit '', got '' @
     show_nat (unat actual)"
| "display_base58_error InvalidChecksum = lit ''Invalid checksum''"
| "display_base58_error (InvalidLength expected actual) =
     lit ''Invalid length: expected '' @ show_nat expected @ lit '', got '' @ show_nat actual"

definition compute_checksum :: "base58_ext \<Rightarrow> bytes \<Rightarrow> bytes" where
  "compute_checksum B input =
     (let hash1 = sha256 B input; hash2 = sha256 B hash1 in take 4 hash2)"

definition to_base58_check :: "base58_ext \<Rightarrow> bytes \<Rightarrow> u8 \<Rightarrow> rstr" where
  "to_base58_check B input version_byte =
     (let with_version = version_byte # input;
          checksum = compute_checksum B with_version
      in bs58_encode B (with_version @ checksum))"

definition from_base58_check :: "base58_ext \<Rightarrow> rstr \<Rightarrow> u8 \<Rightarrow> (base58_error, bytes) outcome" where
  "from_base58_check B input expected_version_byte =
     obind (ok_or InvalidBase58 (bs58_decode B input)) (\<lambda>bs.
     if length bs < 5 then Err TooShort
     else obind (idx bs 0) (\<lambda>version_byte.
     if version_byte \<noteq> expected_version_byte
     then Err (InvalidVersionByte expected_version_byte version_byte)
     else obind (slice bs 0 (length bs - 4)) (\<lambda>payload_with_version.
          obind (slice bs (length bs - 4) (length bs)) (\<lambda>provided_checksum.
          if provided_checksum \<noteq> compute_checksum B payload_with_version
          then Err InvalidChecksum
          else slice bs 1 (length bs - 4)))))"

lemma length_compute_checksum: "base58_laws B \<Longrightarrow> length (compute_checksum B x) = 4"
  by (simp add: compute_checksum_def Let_def base58_laws_def)

lemma from_base58_check_decoded:
  assumes "bs58_decode B s = Some (x # p @ c)" and "length c = 4"
  shows "from_base58_check B s v =
    (if x \<noteq> v then Err (InvalidVersionByte v x)
     else if c \<noteq> compute_checksum B (x # p) then Err InvalidChecksum else Ok p)"
  using assms by (auto simp: from_base58_check_def slice_def)

text \<open>Every decoded input of at least five bytes has the shape the lemma above speaks of.\<close>

lemma five_bytes_split:
  assumes "5 \<le> length (bs :: 'a list)"
  obtains x p c where "bs = x # p @ c" and "length c = 4"
proof -
  obtain x r where bs: "bs = x # r" using assms by (cases bs) auto
  let ?n = "length r - 4"
  have "bs = x # take ?n r @ drop ?n r" and "length (drop ?n r) = 4"
    using assms bs by auto
  then show ?thesis using that by blast
qed

lemma from_base58_check_no_panic: "from_base58_check B s v \<noteq> Panic"
proof (cases "bs58_decode B s")
  case (Some bs)
  show ?thesis
  proof (cases "length bs < 5")
    case False
    then have "5 \<le> length bs" by simp
    then obtain x p c where "bs = x # p @ c" "length c = 4" by (rule five_bytes_split)
    with Some show ?thesis by (simp add: from_base58_check_decoded)
  qed (simp add: from_base58_check_def Some)
qed (simp add: from_base58_check_def)

text \<open>
  A string is accepted for a version byte with a payload exactly when it decodes to the
  version byte, the payload and their checksum: nothing else is accepted.
\<close>

theorem from_base58_check_iff:
  assumes "base58_laws B"
  shows "from_base58_check B s v = Ok p \<longleftrightarrow>
    bs58_decode B s = Some (v # p @ compute_checksum B (v # p))"
proof
  assume ok: "from_base58_check B s v = Ok p"
  then obtain bs where bs: "bs58_decode B s = Some bs" "5 \<le> length bs"
    by (auto simp: from_base58_check_def outcome_simps split: if_splits)
  from bs(2) obtain x q c where shape: "bs = x # q @ c" "length c = 4"
    by (rule five_bytes_split)
  with ok bs show "bs58_decode B s = Some (v # p @ compute_checksum B (v # p))"
    by (auto simp: from_base58_check_decoded split: if_splits)
next
  assume "bs58_decode B s = Some (v # p @ compute_checksum B (v # p))"
  then show "from_base58_check B s v = Ok p"
    using length_compute_checksum[OF assms] by (simp add: from_base58_check_decoded)
qed

theorem from_base58_check_iff_witness:
  "base58_laws base58_demo \<and>
   (from_base58_check base58_demo [20, 7, 20, 7, 0, 0] 20 = Ok [7] \<longleftrightarrow>
    bs58_decode base58_demo [20, 7, 20, 7, 0, 0] =
      Some (20 # [7] @ compute_checksum base58_demo (20 # [7])))"
  using base58_demo_laws from_base58_check_iff[OF base58_demo_laws] by blast

lemma base58_check_decodes:
  "base58_laws B \<Longrightarrow> bs58_decode B (to_base58_check B x v) = Some (v # x @ compute_checksum B (v # x))"
  by (simp add: to_base58_check_def Let_def base58_laws_def)

lemma base58_check_roundtrip:
  assumes "base58_laws B"
  shows "from_base58_check B (to_base58_check B x v) v = Ok x"
  using base58_check_decodes[OF assms] length_compute_checksum[OF assms]
  by (simp add: from_base58_check_decoded)

lemma base58_check_wrong_version:
  assumes "base58_laws B" and "w \<noteq> v"
  shows "from_base58_check B (to_base58_check B x v) w = Err (InvalidVersionByte w v)"
  using base58_check_decodes[OF assms(1)] length_compute_checksum[OF assms(1)] assms(2)
  by (simp add: from_base58_check_decoded)

lemma to_base58_check_inject:
  assumes "base58_laws B"
  shows "to_base58_check B x v = to_base58_check B y v \<longleftrightarrow> x = y"
  using base58_check_roundtrip[OF assms] by (metis outcome.inject(1))

end
