(* ===== verification/Signatures.thy ===== *)
theory Signatures
  imports Base58
begin

text \<open>
  The Mina signature of \<^verbatim>\<open>mina-tx/src/signatures.rs\<close>: its 65-byte form, its base58 form and
  its JSON object. A \<open>BigInt<4>\<close> is four 64-bit limbs, least significant first; printing
  and parsing it in decimal is the crate \<open>ark_ff\<close>.
\<close>

datatype big_int = BigInt (limbs: "u64 \<times> u64 \<times> u64 \<times> u64")

record sig =
  sig_field :: big_int
  sig_scalar :: big_int

text \<open>
  The loop writes the eight bytes of limb \<open>i\<close> at \<open>8 * i\<close>; the four limbs fill the array.
\<close>

fun bigint_to_bytes :: "big_int \<Rightarrow> bytes" where
  "bigint_to_bytes (BigInt (l0, l1, l2, l3)) =
     concat (map (\<lambda>limb. le_bytes 8 (unat limb)) [l0, l1, l2, l3])"

definition sig_to_bytes :: "sig \<Rightarrow> bytes" where
  "sig_to_bytes s =
     SIGNATURE_VERSION_NUMBER # bigint_to_bytes (sig_field s) @ bigint_to_bytes (sig_scalar s)"

definition sig_to_base58 :: "base58_ext \<Rightarrow> sig \<Rightarrow> rstr" where
  "sig_to_base58 B s = to_base58_check B (sig_to_bytes s) SIGNATURE_VERSION_BYTE"

lemma length_bigint_to_bytes [simp]: "length (bigint_to_bytes b) = 32"
  by (cases b rule: bigint_to_bytes.cases) simp

lemma length_sig_to_bytes: "length (sig_to_bytes s) = 65"
  by (simp add: sig_to_bytes_def)

lemma u64_le_bytes_inject: "le_bytes 8 (unat x) = le_bytes 8 (unat y) \<longleftrightarrow> x = (y :: u64)"
proof -
  have "unat x < 256 ^ 8" "unat y < 256 ^ 8"
    using unsigned_less[of x, where ?'a = nat] unsigned_less[of y, where ?'a = nat] by simp_all
  then show ?thesis by (simp add: le_bytes_inject word_unat_eq_iff)
qed

lemma u32_le_bytes_inject: "le_bytes 4 (unat x) = le_bytes 4 (unat y) \<longleftrightarrow> x = (y :: u32)"
proof -
  have "unat x < 256 ^ 4" "unat y < 256 ^ 4"
    using unsigned_less[of x, where ?'a = nat] unsigned_less[of y, where ?'a = nat] by simp_all
  then show ?thesis by (simp add: le_bytes_inject word_unat_eq_iff)
qed

lemma bigint_to_bytes_inject: "bigint_to_bytes a = bigint_to_bytes b \<longleftrightarrow> a = b"
  by (cases a rule: bigint_to_bytes.cases; cases b rule: bigint_to_bytes.cases)
     (auto simp: append_eq_append_conv u64_le_bytes_inject)

lemma sig_to_bytes_inject: "sig_to_bytes a = sig_to_bytes b \<longleftrightarrow> a = (b :: sig)"
  by (auto simp: sig_to_bytes_def append_eq_append_conv bigint_to_bytes_inject)

text \<open>
  The base58 form that is written into transactions determines the signature, and its
  payload is the 65 bytes of the Mina format.
\<close>

theorem sig_to_base58_binds:
  assumes "base58_laws B"
  shows "(sig_to_base58 B a = sig_to_base58 B b \<longleftrightarrow> a = b) \<and>
    from_base58_check B (sig_to_base58 B a) SIGNATURE_VERSION_BYTE = Ok (sig_to_bytes a) \<and>
    length (sig_to_bytes a) = 65"
  using assms
  by (simp_all add: sig_to_base58_def to_base58_check_inject sig_to_bytes_inject base58_check_roundtrip
        length_sig_to_bytes)

definition sig_demo :: sig where
  "sig_demo = \<lparr>sig_field = BigInt (1, 2, 3, 4), sig_scalar = BigInt (5, 6, 7, 8)\<rparr>"

theorem sig_to_base58_binds_witness:
  "base58_laws base58_demo \<and>
   (sig_to_base58 base58_demo sig_demo = sig_to_base58 base58_demo sig_demo \<longleftrightarrow> sig_demo = sig_demo) \<and>
   from_base58_check base58_demo (sig_to_base58 base58_demo sig_demo) SIGNATURE_VERSION_BYTE =
     Ok (sig_to_bytes sig_demo) \<and> length (sig_to_bytes sig_demo) = 65"
  using base58_demo_laws sig_to_base58_binds[OF base58_demo_laws, of sig_demo sig_demo] by blast

section \<open>JSON form\<close>

record bigint_ext =
  bigint_to_string :: "big_int \<Rightarrow> rstr"
  bigint_parse :: "rstr \<Rightarrow> big_int option"

definition bigint_laws :: "bigint_ext \<Rightarrow> bool" where
  "bigint_laws G \<longleftrightarrow> (\<forall>b. bigint_parse G (bigint_to_string G b) = Some b)"

text \<open>The object \<open>{field, scalar, base58}\<close>; \<open>base58\<close> is optional and ignored on input.\<close>

record sig_json =
  js_field :: rstr
  js_scalar :: rstr
  js_base58 :: "rstr option"

definition sig_serialize :: "base58_ext \<Rightarrow> bigint_ext \<Rightarrow> sig \<Rightarrow> sig_json" where
  "sig_serialize B G s =
     \<lparr>js_field = bigint_to_string G (sig_field s), js_scalar = bigint_to_string G (sig_scalar s),
      js_base58 = Some (sig_to_base58 B s)\<rparr>"

definition sig_deserialize :: "bigint_ext \<Rightarrow> sig_json \<Rightarrow> (rstr, sig) outcome" where
  "sig_deserialize G helper =
     obind (ok_or (lit ''Failed to parse 'field' as BigInt<4>'') (bigint_parse G (js_field helper))) (\<lambda>field.
     obind (ok_or (lit ''Failed to parse 'scalar' as BigInt<4>'') (bigint_parse G (js_scalar helper))) (\<lambda>scalar.
     Ok \<lparr>sig_field = field, sig_scalar = scalar\<rparr>))"

lemma sig_json_roundtrip: "bigint_laws G \<Longrightarrow> sig_deserialize G (sig_serialize B G s) = Ok s"
  by (simp add: sig_deserialize_def sig_serialize_def bigint_laws_def)

end
