(* ===== verification/Network_Id.thy ===== *)
theory Network_Id
  imports Mina_Prelude
begin

unbundle bit_operations_syntax

text \<open>
  Network identifiers, \<^verbatim>\<open>mina-tx/src/transactions/network_id.rs\<close>: the three-way enum, the
  bytes and the domain string that enter the hashes, the string form used in JSON and the
  parser of the command line. JSON values are strings at this level; the JSON text itself
  is \<^verbatim>\<open>serde_json\<close>.
\<close>

section \<open>The identifier\<close>

datatype network_id = Testnet | Mainnet | Custom rstr

text \<open>\<open>mina_signer::NetworkId\<close>, whose two constructors the code matches on.\<close>

datatype signer_network = TESTNET | MAINNET

definition MAX_PREFIX_LENGTH :: nat where
  "MAX_PREFIX_LENGTH = 20"

definition PADDING_CHAR :: u8 where
  "PADDING_CHAR = 0x2A"

fun of_signer_network :: "signer_network \<Rightarrow> network_id" where
  "of_signer_network TESTNET = Testnet"
| "of_signer_network MAINNET = Mainnet"

section \<open>Bytes for domain hashing\<close>

definition byte_bits :: "u8 \<Rightarrow> u8 list" where
  "byte_bits ch = map (\<lambda>bit. drop_bit bit ch AND 1) (rev [0..<8])"

fun chunks :: "nat \<Rightarrow> 'a list \<Rightarrow> 'a list list" where
  "chunks n [] = []"
| "chunks n (x # xs) = (x # take (n - 1) xs) # chunks n (drop (n - 1) xs)"

definition pack_chunk :: "u8 list \<Rightarrow> u8" where
  "pack_chunk chunk = fold (\<lambda>(i, b) byte. byte OR push_bit (7 - i) b) (enumerate 0 chunk) 0"

definition network_id_to_bytes :: "rstr \<Rightarrow> bytes" where
  "network_id_to_bytes s =
     (let bits = concat (map byte_bits (rev s)) in map pack_chunk (chunks 8 bits))"

fun into_bytes :: "network_id \<Rightarrow> bytes" where
  "into_bytes Testnet = [0x00]"
| "into_bytes Mainnet = [0x01]"
| "into_bytes (Custom s) = network_id_to_bytes s"

lemma byte_bits_unfold:
  "byte_bits ch = [drop_bit 7 ch AND 1, drop_bit 6 ch AND 1, drop_bit 5 ch AND 1,
     drop_bit 4 ch AND 1, drop_bit 3 ch AND 1, drop_bit 2 ch AND 1, drop_bit 1 ch AND 1,
     ch AND 1]"
  by (simp add: byte_bits_def upt_rec numeral_eq_Suc)

lemma length_byte_bits [simp]: "length (byte_bits ch) = 8"
  by (simp add: byte_bits_def)

lemma pack_chunk_8:
  "pack_chunk [b7, b6, b5, b4, b3, b2, b1, b0] =
     push_bit 7 b7 OR push_bit 6 b6 OR push_bit 5 b5 OR push_bit 4 b4 OR
     push_bit 3 b3 OR push_bit 2 b2 OR push_bit 1 b1 OR b0"
  by (simp add: pack_chunk_def ac_simps)

lemma bit_one_shifted:
  "k < 8 \<Longrightarrow> bit (push_bit k (drop_bit k ch AND 1) :: u8) n \<longleftrightarrow> n = k \<and> bit ch n"
  by (auto simp: bit_simps)

lemma pack_chunk_byte_bits: "pack_chunk (byte_bits ch) = ch"
proof (rule bit_word_eqI)
  fix n assume "n < LENGTH(8)"
  then have "n = 0 \<or> n = 1 \<or> n = 2 \<or> n = 3 \<or> n = 4 \<or> n = 5 \<or> n = 6 \<or> n = 7"
    by auto
  moreover have "bit (ch AND 1) n \<longleftrightarrow> n = 0 \<and> bit ch n"
    by (auto simp: bit_simps)
  ultimately show "bit (pack_chunk (byte_bits ch)) n = bit ch n"
    unfolding byte_bits_unfold pack_chunk_8 bit_or_iff by (simp only: bit_one_shifted) auto
qed

lemma chunks_append:
  assumes "length xs = n" and "0 < n"
  shows "chunks n (xs @ ys) = xs # chunks n ys"
  using assms by (cases xs) auto

lemma chunks_concat:
  assumes "\<And>x. x \<in> set xss \<Longrightarrow> length x = n" and "0 < n"
  shows "chunks n (concat xss) = xss"
  using assms by (induction xss) (auto simp: chunks_append)

lemma network_id_to_bytes_eq: "network_id_to_bytes s = rev s"
proof -
  have "chunks 8 (concat (map byte_bits (rev s))) = map byte_bits (rev s)"
    by (rule chunks_concat) auto
  then show ?thesis
    by (simp add: network_id_to_bytes_def Let_def pack_chunk_byte_bits o_def)
qed

section \<open>Domain strings\<close>

text \<open>
  \<open>prefix.len()\<close> counts bytes, \<open>chars().take(n)\<close> counts characters: the two branches
  measure differently on strings that are not ASCII.
\<close>

definition create_custom_prefix :: "rstr \<Rightarrow> rstr" where
  "create_custom_prefix prefix =
     (if length prefix \<le> MAX_PREFIX_LENGTH
      then prefix @ replicate (MAX_PREFIX_LENGTH - length prefix) PADDING_CHAR
      else take_chars MAX_PREFIX_LENGTH prefix)"

fun into_domain_string :: "network_id \<Rightarrow> rstr" where
  "into_domain_string Mainnet = lit ''MinaSignatureMainnet''"
| "into_domain_string Testnet = lit ''CodaSignature''"
| "into_domain_string (Custom s) = create_custom_prefix (s @ lit ''Signature'')"

lemma create_custom_prefix_short:
  "length s \<le> 20 \<Longrightarrow> create_custom_prefix s = s @ replicate (20 - length s) PADDING_CHAR"
  by (simp add: create_custom_prefix_def MAX_PREFIX_LENGTH_def)

lemma create_custom_prefix_ascii:
  assumes "ascii s"
  shows "create_custom_prefix s = take 20 s @ replicate (20 - length s) PADDING_CHAR"
    and "length (create_custom_prefix s) = 20"
  using assms by (auto simp: create_custom_prefix_def MAX_PREFIX_LENGTH_def take_chars_ascii)

text \<open>Two bytes, one character: the padding brings it to twenty bytes, which are nineteen characters.\<close>

lemma create_custom_prefix_not_20_characters: "char_count (create_custom_prefix [195, 169]) = 19"
  by code_simp

section \<open>String form\<close>

fun network_id_to_str :: "network_id \<Rightarrow> rstr" where
  "network_id_to_str Testnet = lit ''testnet''"
| "network_id_to_str Mainnet = lit ''mainnet''"
| "network_id_to_str (Custom s) = s"

definition network_id_of_str :: "rstr \<Rightarrow> (unit, network_id) outcome" where
  "network_id_of_str value =
     (if value = lit ''testnet'' then Ok Testnet
      else if value = lit ''mainnet'' then Ok Mainnet
      else Ok (Custom value))"

text \<open>The parser behind \<open>--network\<close>: \<open>devnet\<close> is an alias, long names are refused.\<close>

datatype network_id_error = TooLong rstr

definition network_id_try_from :: "rstr \<Rightarrow> (network_id_error, network_id) outcome" where
  "network_id_try_from s =
     (if s = lit ''devnet'' then Ok Testnet
      else if s = lit ''testnet'' then Ok Testnet
      else if s = lit ''mainnet'' then Ok Mainnet
      else if length s > MAX_PREFIX_LENGTH then Err (TooLong s)
      else Ok (Custom s))"

text \<open>
  A network name means something else in a JSON file than on the command line: the alias is a
  custom network of its own there, and no length is refused.
\<close>

lemma json_network_name:
  "network_id_try_from (lit ''devnet'') = Ok Testnet" "network_id_of_str (lit ''devnet'') = Ok (Custom (lit ''devnet''))"
  "length s > MAX_PREFIX_LENGTH \<Longrightarrow> network_id_try_from s = Err (TooLong s) \<and> network_id_of_str s = Ok (Custom s)"
  by (auto simp: network_id_try_from_def network_id_of_str_def MAX_PREFIX_LENGTH_def)

definition canonical_network :: "network_id \<Rightarrow> bool" where
  "canonical_network n \<longleftrightarrow> n \<noteq> Custom (lit ''testnet'') \<and> n \<noteq> Custom (lit ''mainnet'')"


interpretation network_str: wire_codec network_id_to_str network_id_of_str canonical_network
proof
  fix n assume "canonical_network n"
  then show "network_id_of_str (network_id_to_str n) = Ok n"
    by (cases n) (auto simp: network_id_of_str_def canonical_network_def)
qed

section \<open>Properties\<close>

text \<open>The bit loop of \<open>network_id_to_bytes\<close> reverses the bytes of the name.\<close>

theorem network_id_to_bytes_rev: "network_id_to_bytes s = rev s"
  by (rule network_id_to_bytes_eq)

text \<open>A suffix of the padded \<open>Signature\<close> starts with \<open>S\<close> only where the word itself does.\<close>

lemma signature_suffix_nth:
  assumes "0 < d" and "d < 9 + k"
  shows "(lit ''Signature'' @ replicate k PADDING_CHAR) ! d \<noteq> of_char CHR ''S''"
proof (cases "d < 9")
  case True
  then have "d \<in> {1, 2, 3, 4, 5, 6, 7, 8}" using assms by auto
  then show ?thesis by (auto simp: nth_append)
next
  case False
  with assms show ?thesis by (simp add: nth_append PADDING_CHAR_def)
qed

lemma custom_domain_eq:
  "length s \<le> 11 \<Longrightarrow> into_domain_string (Custom s) =
     s @ lit ''Signature'' @ replicate (11 - length s) PADDING_CHAR"
  by (simp add: create_custom_prefix_short)

declare into_domain_string.simps(3) [simp del]

lemma custom_domain_less:
  assumes "length s < length t" and "length t \<le> 11"
  shows "into_domain_string (Custom s) \<noteq> into_domain_string (Custom t)"
proof
  assume eq: "into_domain_string (Custom s) = into_domain_string (Custom t)"
  let ?d = "length t - length s" and ?tail = "lit ''Signature'' @ replicate (11 - length s) PADDING_CHAR"
  have "(s @ ?tail) ! length t = (t @ lit ''Signature'' @ replicate (11 - length t) PADDING_CHAR) ! length t"
    using eq assms by (simp only: custom_domain_eq less_imp_le less_le_trans)
  then have "?tail ! ?d = of_char CHR ''S''"
    using assms by (simp add: nth_append)
  moreover have "?tail ! ?d \<noteq> of_char CHR ''S''"
    using assms by (intro signature_suffix_nth) auto
  ultimately show False by simp
qed

lemma custom_domain_inject:
  assumes "length s \<le> 11" and "length t \<le> 11"
    and "into_domain_string (Custom s) = into_domain_string (Custom t)"
  shows "s = t"
proof (cases "length s = length t")
  case True
  have "s @ lit ''Signature'' @ replicate (11 - length s) PADDING_CHAR
      = t @ lit ''Signature'' @ replicate (11 - length t) PADDING_CHAR"
    using assms by (simp only: custom_domain_eq)
  with True show ?thesis by simp
next
  case False
  then show ?thesis
    using assms custom_domain_less[of s t] custom_domain_less[of t s] by (metis nat_neq_iff)
qed

lemma custom_domain_not_builtin:
  assumes "length s \<le> 11"
  shows "into_domain_string (Custom s) \<noteq> into_domain_string Mainnet"
    and "into_domain_string (Custom s) \<noteq> into_domain_string Testnet"
proof -
  let ?m = "into_domain_string Mainnet" and ?c = "into_domain_string (Custom s)"
  have S: "?c ! length s = 83" and g: "?c ! (length s + 2) = 103"
    using assms by (simp_all add: custom_domain_eq nth_append)
  have pad: "?c ! 13 = PADDING_CHAR" if "length s = 4"
    using that by (simp add: custom_domain_eq nth_append)
  have "length s = 0 \<or> length s = 1 \<or> length s = 2 \<or> length s = 3 \<or> length s = 4 \<or>
      length s = 5 \<or> length s = 6 \<or> length s = 7 \<or> length s = 8 \<or> length s = 9 \<or>
      length s = 10 \<or> length s = 11" using assms by arith
  then show "?c \<noteq> ?m"
    using S pad by (auto simp: PADDING_CHAR_def)
  have "length ?c = 20" using assms by (simp add: custom_domain_eq)
  then show "?c \<noteq> into_domain_string Testnet" by (auto)
qed

definition short_network :: "network_id \<Rightarrow> bool" where
  "short_network n \<longleftrightarrow> (case n of Custom s \<Rightarrow> length s \<le> 11 | _ \<Rightarrow> True)"

text \<open>
  The hasher (\<open>mina_hasher\<close>) fills a domain string of fewer than twenty characters up with the same
  padding character before it makes the domain a field element.
\<close>

definition hasher_pads :: "(rstr \<Rightarrow> rstr) \<Rightarrow> bool" where
  "hasher_pads pad \<longleftrightarrow> (\<forall>s. length s \<le> 20 \<longrightarrow> pad s = s @ replicate (20 - char_count s) PADDING_CHAR)"

text \<open>So \<open>Testnet\<close> is hashed like the custom network whose name is its word.\<close>

fun hashed_as :: "network_id \<Rightarrow> network_id" where
  "hashed_as Testnet = Custom (lit ''Coda'')"
| "hashed_as n = n"

lemma hashed_as_domain:
  assumes "hasher_pads pad"
  shows "pad (into_domain_string (hashed_as n)) = pad (into_domain_string n)"
proof (cases n)
  case Testnet
  have "ascii (lit ''CodaSignature'')" "ascii (lit ''CodaSignature'' @ replicate 7 PADDING_CHAR)"
    by (simp_all add: ascii_def PADDING_CHAR_def)
  then show ?thesis using assms Testnet
    by (simp add: hasher_pads_def custom_domain_eq char_count_ascii)
qed simp_all

lemma hashed_as_length: "short_network n \<Longrightarrow> length (into_domain_string (hashed_as n)) = 20"
  by (cases n) (simp_all add: short_network_def custom_domain_eq)

lemma hashed_domains_inject:
  assumes "hasher_pads pad" and "short_network m" and "short_network n"
    and "pad (into_domain_string m) = pad (into_domain_string n)"
  shows "hashed_as m = hashed_as n"
proof -
  have "pad (into_domain_string (hashed_as m)) = pad (into_domain_string (hashed_as n))"
    using assms(4) by (simp only: hashed_as_domain[OF assms(1)])
  then have "take 20 (pad (into_domain_string (hashed_as m))) = take 20 (pad (into_domain_string (hashed_as n)))" by simp
  then have "into_domain_string (hashed_as m) = into_domain_string (hashed_as n)"
    using assms(1) hashed_as_length[OF assms(2)] hashed_as_length[OF assms(3)] by (simp add: hasher_pads_def)
  moreover have "hashed_as k = Mainnet \<or> (\<exists>s. hashed_as k = Custom s \<and> length s \<le> 11)" if "short_network k" for k
    using that by (cases k) (auto simp: short_network_def)
  ultimately show ?thesis
    using assms(2,3) custom_domain_inject custom_domain_not_builtin(1) by metis
qed

lemma domain_separation_lemma:
  assumes "hasher_pads pad" and "short_network m" and "short_network n"
  shows "pad (into_domain_string m) = pad (into_domain_string n) \<longleftrightarrow>
    m = n \<or> {m, n} = {Testnet, Custom (lit ''Coda'')}"
proof
  assume "pad (into_domain_string m) = pad (into_domain_string n)"
  from hashed_domains_inject[OF assms this] show "m = n \<or> {m, n} = {Testnet, Custom (lit ''Coda'')}"
    by (cases m; cases n) (auto simp del: lit_simps)
next
  assume "m = n \<or> {m, n} = {Testnet, Custom (lit ''Coda'')}"
  then have "hashed_as m = hashed_as n" by (auto simp: doubleton_eq_iff simp del: lit_simps)
  then show "pad (into_domain_string m) = pad (into_domain_string n)"
    using hashed_as_domain[OF assms(1), of m] hashed_as_domain[OF assms(1), of n] by simp
qed

text \<open>
  C40: among the networks whose names leave room for the whole suffix (at most 11 bytes), two have
  the same signature domain after the hasher's padding only when they are the same network, or are
  \<open>Testnet\<close> and the custom network called \<open>Coda\<close>, whose domain is that of \<open>Testnet\<close>.
\<close>

theorem domain_separation:
  assumes "hasher_pads pad" and "short_network m" and "short_network n"
  shows "pad (into_domain_string m) = pad (into_domain_string n) \<longleftrightarrow>
    m = n \<or> {m, n} = {Testnet, Custom (lit ''Coda'')}"
  by (rule domain_separation_lemma[OF assms])

definition pad_demo :: "rstr \<Rightarrow> rstr" where
  "pad_demo s = s @ replicate (20 - char_count s) PADDING_CHAR"

lemma domain_separation_witness:
  "pad_demo (into_domain_string Testnet) = pad_demo (into_domain_string (Custom (lit ''Coda''))) \<and>
    pad_demo (into_domain_string Testnet) \<noteq> pad_demo (into_domain_string Mainnet)"
proof -
  have pad: "hasher_pads pad_demo" by (simp add: hasher_pads_def pad_demo_def)
  have short: "short_network Testnet" "short_network Mainnet" "short_network (Custom (lit ''Coda''))"
    by (simp_all add: short_network_def)
  show ?thesis
    using domain_separation[OF pad short(1,3)] domain_separation[OF pad short(1,2)]
    by (auto simp: doubleton_eq_iff simp del: lit_simps)
qed

text \<open>
  A longer custom name, although the command line accepts it, loses the suffix to the
  truncation and can carry the domain string of the main network.
\<close>

theorem custom_name_shares_mainnet_domain:
  "\<exists>s n. network_id_try_from s = Ok n \<and> n \<noteq> Mainnet \<and>
     into_domain_string n = into_domain_string Mainnet"
proof -
  let ?s = "lit ''MinaSignatureMainnet''"
  have "network_id_try_from ?s = Ok (Custom ?s)"
    by (simp add: network_id_try_from_def MAX_PREFIX_LENGTH_def)
  moreover have "ascii (?s @ lit ''Signature'')" by (simp add: ascii_def)
  then have "into_domain_string (Custom ?s) = into_domain_string Mainnet"
    by (simp add: into_domain_string.simps(3) create_custom_prefix_ascii)
  ultimately show ?thesis by blast
qed

end
