(* ===== verification/Mina_Errors.thy ===== *)
theory Mina_Errors
  imports Mina_Prelude
begin

text \<open>
  The error types of \<^verbatim>\<open>mina-tx/src/errors.rs\<close> and \<^verbatim>\<open>frost-bluepallas/src/errors.rs\<close>
  and the texts they display.
\<close>

datatype mina_tx_error =
    SerializationError rstr
  | DeSerializationError rstr
  | InvalidSignature rstr
  | InvalidPublicKey rstr
  | InvalidMemo rstr
  | MemoSerializationError rstr
  | InvalidZkAppCommand rstr
  | SaveSignatureError rstr
  | UnknownTransactionType rstr

fun display_mina_tx_error :: "mina_tx_error \<Rightarrow> rstr" where
  "display_mina_tx_error (SerializationError msg) = lit ''Serialization error: '' @ msg"
| "display_mina_tx_error (DeSerializationError msg) = lit ''Deserialization error: '' @ msg"
| "display_mina_tx_error (InvalidSignature msg) = lit ''Invalid signature: '' @ msg"
| "display_mina_tx_error (InvalidPublicKey msg) = lit ''Invalid public key: '' @ msg"
| "display_mina_tx_error (InvalidMemo msg) = lit ''Invalid memo: '' @ msg"
| "display_mina_tx_error (MemoSerializationError msg) = lit ''Memo serialization error: '' @ msg"
| "display_mina_tx_error (InvalidZkAppCommand msg) = lit ''Invalid ZKApp command: '' @ msg"
| "display_mina_tx_error (SaveSignatureError msg) = lit ''Failed to save signature: '' @ msg"
| "display_mina_tx_error (UnknownTransactionType msg) = lit ''Unknown transaction type: '' @ msg"

datatype blue_pallas_error =
    BpSerializationError rstr
  | BpDeSerializationError rstr
  | NoMessageProvided
  | BpSaveSignatureError rstr
  | BpInvalidMemo rstr

fun display_blue_pallas_error :: "blue_pallas_error \<Rightarrow> rstr" where
  "display_blue_pallas_error (BpSerializationError msg) = lit ''Serialization error: '' @ msg"
| "display_blue_pallas_error (BpDeSerializationError msg) = lit ''Deserialization error: '' @ msg"
| "display_blue_pallas_error NoMessageProvided = lit ''No messages have been provided for signing''"
| "display_blue_pallas_error (BpSaveSignatureError msg) = lit ''Failed to save signature: '' @ msg"
| "display_blue_pallas_error (BpInvalidMemo msg) = lit ''Invalid memo: '' @ msg"

end
