(* ===== verification/Zkapp_Types.thy ===== *)
theory Zkapp_Types
  imports Network_Id External_Code Mina_Errors
begin

text \<open>
  The zkApp transaction, \<^verbatim>\<open>mina-tx/src/transactions/zkapp_tx.rs\<close>: the command, its fee
  payer and account updates, the leaf types, and the conversion of a fee payer into the account
  update that stands for it. Field elements and public keys are those of \<open>External_Code\<close>; a
  Rust array \<open>[T; N]\<close> is a list, whose length \<open>N\<close> is part of the well-formedness
  predicate.
\<close>

section \<open>The environment of the zkApp code\<close>

text \<open>
  The crates the zkApp code calls (random oracle inputs, the Kimchi sponge, the field, the
  empty key) and the build flag \<open>mesa-hardfork\<close>, which chooses two constants.
\<close>

record ('r, 'sp) zk_env =
  zk_roi :: "'r roinput_ext"
  zk_sponge :: "'sp sponge_ext"
  fp_modulus :: nat
  from_random_bytes :: "bytes \<Rightarrow> fp option"
  field_display :: "fp \<Rightarrow> rstr"
  pubkey_empty :: compressed_pubkey
  is_mesa_hardfork :: bool

definition APP_STATE_LENGTH :: "('r, 'sp) zk_env \<Rightarrow> nat" where
  "APP_STATE_LENGTH Z = (if is_mesa_hardfork Z then 32 else 8)"

definition TXN_VERSION_CURRENT :: "('r, 'sp) zk_env \<Rightarrow> u32" where
  "TXN_VERSION_CURRENT Z = (if is_mesa_hardfork Z then 4 else 3)"

definition DUMMY_HASH :: fp where
  "DUMMY_HASH = 3392518251768960475377392625298437850623664973002200885669375116181514017494"

definition MEMO_BYTES :: nat where "MEMO_BYTES = 34"

section \<open>Leaf types\<close>

type_synonym i8 = "8 word"

datatype auth_required = AuthNone | Either | Proof | Signature | Impossible | Both

record auth_required_encoded =
  auth_constant :: bool
  signature_necessary :: bool
  signature_sufficient :: bool

fun encode :: "auth_required \<Rightarrow> auth_required_encoded" where
  "encode AuthNone = \<lparr>auth_constant = True, signature_necessary = False, signature_sufficient = True\<rparr>"
| "encode Either = \<lparr>auth_constant = False, signature_necessary = False, signature_sufficient = True\<rparr>"
| "encode Proof = \<lparr>auth_constant = False, signature_necessary = False, signature_sufficient = False\<rparr>"
| "encode Signature = \<lparr>auth_constant = False, signature_necessary = True, signature_sufficient = True\<rparr>"
| "encode Impossible = \<lparr>auth_constant = True, signature_necessary = True, signature_sufficient = False\<rparr>"
| "encode Both = \<lparr>auth_constant = False, signature_necessary = True, signature_sufficient = False\<rparr>"

lemma encode_inject: "encode a = encode b \<longleftrightarrow> a = b"
  by (cases a; cases b) simp_all

record 'a range_condition =
  lower :: 'a
  upper :: 'a

datatype token_id = TokenId (token_field: fp)
datatype action_state = ActionState (action_field: fp)
datatype token_symbol = TokenSymbol (symbol_bytes: bytes)
datatype zkapp_uri = ZkappUri (uri_bytes: bytes)
datatype events = Events (events_data: "fp list list")
datatype actions = Actions (actions_data: "fp list list")

definition token_id_default :: token_id where "token_id_default = TokenId 1"

text \<open>\<open>TokenSymbol::to_bytes\<close> writes into a slice that the caller provides.\<close>

definition token_symbol_to_bytes :: "token_symbol \<Rightarrow> bytes \<Rightarrow> ('e, bytes) outcome" where
  "token_symbol_to_bytes symbol bytes =
     (let s = symbol_bytes symbol; len = length s in
      if s = [] then Ok bytes
      else obind (slice bytes 0 len) (\<lambda>dst.
           obind (slice s 0 (min len 6)) (\<lambda>src.
           obind (copy_from_slice dst src) (\<lambda>written. Ok (written @ drop len bytes)))))"

definition token_symbol_from_str :: "rstr \<Rightarrow> (rstr, token_symbol) outcome" where
  "token_symbol_from_str s =
     (if length s \<le> 6 then Ok (TokenSymbol s)
      else Err (lit ''Token symbol must be at most 6 characters''))"

definition zkapp_uri_from_str :: "rstr \<Rightarrow> (rstr, zkapp_uri) outcome" where
  "zkapp_uri_from_str s = Ok (ZkappUri s)"

record verification_key_data =
  vk_data :: rstr
  vk_hash :: fp

record timing_data =
  initial_minimum_balance :: u64
  cliff_time :: u32
  cliff_amount :: u64
  vesting_period :: u32
  vesting_increment :: u64

record may_use_token =
  parents_own_token :: bool
  inherit_from_parent :: bool

record balance_change =
  magnitude :: u64
  sgn :: i8

record authorization_kind =
  is_signed :: bool
  is_proved :: bool
  verification_key_hash :: fp

section \<open>Preconditions\<close>

record epoch_ledger =
  el_hash :: "fp option"
  el_total_currency :: "u64 range_condition option"

record epoch_data =
  ledger :: epoch_ledger
  seed :: "fp option"
  start_checkpoint :: "fp option"
  lock_checkpoint :: "fp option"
  epoch_length :: "u32 range_condition option"

record network_preconditions =
  snarked_ledger_hash :: "fp option"
  blockchain_length :: "u32 range_condition option"
  min_window_density :: "u32 range_condition option"
  np_total_currency :: "u64 range_condition option"
  global_slot_since_genesis :: "u32 range_condition option"
  staking_epoch_data :: epoch_data
  next_epoch_data :: epoch_data

record account_preconditions =
  balance :: "u64 range_condition option"
  ap_nonce :: "u32 range_condition option"
  receipt_chain_hash :: "fp option"
  ap_delegate :: "compressed_pubkey option"
  ap_state :: "fp option list"
  action_state :: "action_state option"
  proved_state :: "bool option"
  is_new :: "bool option"

record preconditions =
  pre_network :: network_preconditions
  pre_account :: account_preconditions
  valid_while :: "u32 range_condition option"

section \<open>Updates\<close>

record set_verification_key =
  auth :: auth_required
  txn_version :: u32

record permissions =
  edit_state :: auth_required
  access :: auth_required
  send :: auth_required
  receive :: auth_required
  set_delegate :: auth_required
  set_permissions :: auth_required
  set_verification_key :: set_verification_key
  set_zkapp_uri :: auth_required
  edit_action_state :: auth_required
  set_token_symbol :: auth_required
  perm_increment_nonce :: auth_required
  set_voting_for :: auth_required
  set_timing :: auth_required

record update =
  app_state :: "fp option list"
  delegate :: "compressed_pubkey option"
  verification_key :: "verification_key_data option"
  permissions :: "permissions option"
  zkapp_uri :: "zkapp_uri option"
  token_symbol :: "token_symbol option"
  timing :: "timing_data option"
  voting_for :: "fp option"

section \<open>Account updates and commands\<close>

record authorization =
  proof_str :: "rstr option"
  signature_str :: "rstr option"

record account_update_body =
  public_key :: compressed_pubkey
  body_token_id :: token_id
  body_update :: update
  balance_change :: balance_change
  increment_nonce :: bool
  body_events :: events
  body_actions :: actions
  call_data :: fp
  call_depth :: u32
  body_preconditions :: preconditions
  use_full_commitment :: bool
  implicit_account_creation_fee :: bool
  may_use_token :: may_use_token
  body_authorization_kind :: authorization_kind

record account_update =
  au_body :: account_update_body
  au_authorization :: authorization

record fee_payer_body =
  fpb_public_key :: compressed_pubkey
  fpb_fee :: u64
  fpb_valid_until :: "u32 option"
  fpb_nonce :: u32

record fee_payer =
  fpay_body :: fee_payer_body
  fpay_authorization :: rstr

record zkapp_command =
  fee_payer :: fee_payer
  account_updates :: "account_update list"
  zk_memo :: bytes

section \<open>Defaults\<close>

definition balance_change_default :: balance_change where
  "balance_change_default = \<lparr>magnitude = 0, sgn = 1\<rparr>"

definition authorization_kind_default :: authorization_kind where
  "authorization_kind_default =
     \<lparr>is_signed = True, is_proved = False, verification_key_hash = DUMMY_HASH\<rparr>"

definition epoch_data_default :: epoch_data where
  "epoch_data_default = \<lparr>ledger = \<lparr>el_hash = None, el_total_currency = None\<rparr>, seed = None,
     start_checkpoint = None, lock_checkpoint = None, epoch_length = None\<rparr>"

definition network_preconditions_default :: network_preconditions where
  "network_preconditions_default = \<lparr>snarked_ledger_hash = None, blockchain_length = None,
     min_window_density = None, np_total_currency = None, global_slot_since_genesis = None,
     staking_epoch_data = epoch_data_default, next_epoch_data = epoch_data_default\<rparr>"

definition account_preconditions_default :: "('r, 'sp) zk_env \<Rightarrow> account_preconditions" where
  "account_preconditions_default Z = \<lparr>balance = None, ap_nonce = None, receipt_chain_hash = None,
     ap_delegate = None, ap_state = replicate (APP_STATE_LENGTH Z) None, action_state = None,
     proved_state = None, is_new = None\<rparr>"

definition preconditions_default :: "('r, 'sp) zk_env \<Rightarrow> preconditions" where
  "preconditions_default Z = \<lparr>pre_network = network_preconditions_default,
     pre_account = account_preconditions_default Z, valid_while = None\<rparr>"

definition update_default :: "('r, 'sp) zk_env \<Rightarrow> update" where
  "update_default Z = \<lparr>app_state = replicate (APP_STATE_LENGTH Z) None, delegate = None,
     verification_key = None, permissions = None, zkapp_uri = None, token_symbol = None,
     timing = None, voting_for = None\<rparr>"

definition account_update_body_default :: "('r, 'sp) zk_env \<Rightarrow> account_update_body" where
  "account_update_body_default Z = \<lparr>public_key = pubkey_empty Z, body_token_id = token_id_default,
     body_update = update_default Z, balance_change = balance_change_default,
     increment_nonce = False, body_events = Events [], body_actions = Actions [], call_data = 0,
     call_depth = 0, body_preconditions = preconditions_default Z, use_full_commitment = False,
     implicit_account_creation_fee = False,
     may_use_token = \<lparr>parents_own_token = False, inherit_from_parent = False\<rparr>,
     body_authorization_kind = authorization_kind_default\<rparr>"

definition account_update_default :: "('r, 'sp) zk_env \<Rightarrow> account_update" where
  "account_update_default Z = \<lparr>au_body = account_update_body_default Z,
     au_authorization = \<lparr>proof_str = None, signature_str = None\<rparr>\<rparr>"

definition fee_payer_default :: "('r, 'sp) zk_env \<Rightarrow> fee_payer" where
  "fee_payer_default Z = \<lparr>fpay_body = \<lparr>fpb_public_key = pubkey_empty Z, fpb_fee = 0,
     fpb_valid_until = None, fpb_nonce = 0\<rparr>, fpay_authorization = []\<rparr>"

definition zkapp_command_default :: "('r, 'sp) zk_env \<Rightarrow> zkapp_command" where
  "zkapp_command_default Z = \<lparr>fee_payer = fee_payer_default Z, account_updates = [],
     zk_memo = replicate MEMO_BYTES 0\<rparr>"

section \<open>The fee payer as an account update\<close>

definition account_update_of_fee_payer :: "('r, 'sp) zk_env \<Rightarrow> fee_payer \<Rightarrow> account_update" where
  "account_update_of_fee_payer Z payer =
     (let b = fpay_body payer;
          fee_magnitude = fpb_fee b;
          nonce = fpb_nonce b;
          valid_until = (case fpb_valid_until b of Some v \<Rightarrow> v | None \<Rightarrow> - 1);
          body = au_body (account_update_default Z);
          pre = body_preconditions body;
          pre' = pre\<lparr>
            pre_network := (pre_network pre)
              \<lparr>global_slot_since_genesis := Some \<lparr>lower = 0, upper = valid_until\<rparr>\<rparr>,
            pre_account := (pre_account pre)\<lparr>ap_nonce := Some \<lparr>lower = nonce, upper = nonce\<rparr>\<rparr>\<rparr>
      in \<lparr>au_body = body
            \<lparr>public_key := fpb_public_key b,
             balance_change := \<lparr>magnitude = fee_magnitude, sgn = - 1\<rparr>,
             increment_nonce := True,
             body_preconditions := pre',
             use_full_commitment := True,
             implicit_account_creation_fee := True,
             body_authorization_kind :=
               \<lparr>is_signed = True, is_proved = False, verification_key_hash = DUMMY_HASH\<rparr>\<rparr>,
          au_authorization =
            \<lparr>proof_str = None, signature_str = Some (fpay_authorization payer)\<rparr>\<rparr>)"

section \<open>Well-formed values\<close>

text \<open>What the Rust types fix: the lengths of the state arrays and of the memo.\<close>

definition wf_body :: "('r, 'sp) zk_env \<Rightarrow> account_update_body \<Rightarrow> bool" where
  "wf_body Z b \<longleftrightarrow> length (app_state (body_update b)) = APP_STATE_LENGTH Z \<and>
     length (ap_state (pre_account (body_preconditions b))) = APP_STATE_LENGTH Z"

definition wf_command :: "('r, 'sp) zk_env \<Rightarrow> zkapp_command \<Rightarrow> bool" where
  "wf_command Z tx \<longleftrightarrow> list_all (\<lambda>au. wf_body Z (au_body au)) (account_updates tx) \<and>
     length (zk_memo tx) = MEMO_BYTES"

lemma wf_fee_payer_update: "wf_body Z (au_body (account_update_of_fee_payer Z f))"
  by (simp add: wf_body_def account_update_of_fee_payer_def account_update_default_def
      account_update_body_default_def update_default_def preconditions_default_def
      account_preconditions_default_def Let_def)

lemma wf_command_default: "wf_command Z (zkapp_command_default Z)"
  by (simp add: wf_command_def zkapp_command_default_def)

lemma token_symbol_to_bytes_ok:
  "length (symbol_bytes s) \<le> 6 \<Longrightarrow>
    token_symbol_to_bytes s (replicate 6 0) =
      Ok (symbol_bytes s @ replicate (6 - length (symbol_bytes s)) 0)"
  by (auto simp: token_symbol_to_bytes_def copy_from_slice_def Let_def)

lemma token_symbol_to_bytes_long:
  "6 < length (symbol_bytes s) \<Longrightarrow> token_symbol_to_bytes s (replicate 6 0) = Panic"
  by (auto simp: token_symbol_to_bytes_def slice_def Let_def)

end
