(* ===== verification/Legacy_Tx.thy ===== *)
theory Legacy_Tx
  imports Json Signatures Zkapp_Types
begin

unbundle bit_operations_syntax

text \<open>
  Payments and delegations: \<^verbatim>\<open>mina-tx/src/transactions/legacy_tx.rs\<close>, with the memo, the
  JSON form and the random-oracle input that is signed. Addresses are a parameter
  (\<open>mina_signer\<close>), and so is the text of a UTF-8 error.
\<close>

section \<open>Transactions\<close>

definition MEMO_HEADER_BYTES :: nat where "MEMO_HEADER_BYTES = 2"

type_synonym tx_tag = "bool \<times> bool \<times> bool"

definition PAYMENT_TX_TAG :: tx_tag where "PAYMENT_TX_TAG = (False, False, False)"
definition DELEGATION_TX_TAG :: tx_tag where "DELEGATION_TX_TAG = (False, False, True)"

lemmas tag_defs = PAYMENT_TX_TAG_def DELEGATION_TX_TAG_def
lemmas memo_sizes = MEMO_BYTES_def MEMO_HEADER_BYTES_def

record legacy_transaction =
  lt_fee :: u64
  lt_fee_token :: u64
  lt_fee_payer_pk :: compressed_pubkey
  lt_nonce :: u32
  lt_valid_until :: u32
  lt_memo :: bytes
  lt_tag :: tx_tag
  lt_source_pk :: compressed_pubkey
  lt_receiver_pk :: compressed_pubkey
  lt_token_id :: u64
  lt_amount :: u64
  lt_token_locked :: bool

text \<open>The memo is an array of \<open>MEMO_BYTES\<close> bytes.\<close>

definition legacy_wf :: "legacy_transaction \<Rightarrow> bool" where
  "legacy_wf tx \<longleftrightarrow> length (lt_memo tx) = MEMO_BYTES"

definition new_payment :: "address_ext \<Rightarrow> pubkey \<Rightarrow> pubkey \<Rightarrow> u64 \<Rightarrow> u64 \<Rightarrow> u32 \<Rightarrow> legacy_transaction" where
  "new_payment A sender receiver amount fee nonce =
     \<lparr>lt_fee = fee, lt_fee_token = 1, lt_fee_payer_pk = into_compressed A sender, lt_nonce = nonce,
      lt_valid_until = -1, lt_memo = map (\<lambda>i. if i = 0 then 1 else 0) [0..<MEMO_BYTES],
      lt_tag = PAYMENT_TX_TAG, lt_source_pk = into_compressed A sender,
      lt_receiver_pk = into_compressed A receiver, lt_token_id = 1, lt_amount = amount,
      lt_token_locked = False\<rparr>"

definition new_delegation :: "address_ext \<Rightarrow> pubkey \<Rightarrow> pubkey \<Rightarrow> u64 \<Rightarrow> u32 \<Rightarrow> legacy_transaction" where
  "new_delegation A sender receiver fee nonce =
     \<lparr>lt_fee = fee, lt_fee_token = 1, lt_fee_payer_pk = into_compressed A sender, lt_nonce = nonce,
      lt_valid_until = -1, lt_memo = map (\<lambda>i. if i = 0 then 1 else 0) [0..<MEMO_BYTES],
      lt_tag = DELEGATION_TX_TAG, lt_source_pk = into_compressed A sender,
      lt_receiver_pk = into_compressed A receiver, lt_token_id = 1, lt_amount = 0,
      lt_token_locked = False\<rparr>"

definition set_valid_until :: "u32 \<Rightarrow> legacy_transaction \<Rightarrow> legacy_transaction" where
  "set_valid_until global_slot tx = tx\<lparr>lt_valid_until := global_slot\<rparr>"

definition is_delegation :: "legacy_transaction \<Rightarrow> bool" where
  "is_delegation tx \<longleftrightarrow> lt_tag tx = DELEGATION_TX_TAG"

section \<open>The memo\<close>

definition set_memo :: "bytes \<Rightarrow> legacy_transaction \<Rightarrow> (mina_tx_error, legacy_transaction) outcome" where
  "set_memo memo tx =
     obind (copy_from_slice (drop 2 (lt_memo tx)) memo) (\<lambda>payload.
     Ok (tx\<lparr>lt_memo := [1, word_of_nat (MEMO_BYTES - 2)] @ payload\<rparr>))"

text \<open>\<open>format!("{memo:\0<32}")\<close> pads to 32 characters.\<close>

definition pad_memo :: "rstr \<Rightarrow> rstr" where
  "pad_memo memo = memo @ replicate (32 - char_count memo) 0"

definition set_memo_str :: "rstr \<Rightarrow> legacy_transaction \<Rightarrow> (mina_tx_error, legacy_transaction) outcome" where
  "set_memo_str memo tx =
     (if length memo > MEMO_BYTES - MEMO_HEADER_BYTES \<or> length memo > 255
      then Err (InvalidMemo (lit ''Memo exceeds maximum length''))
      else obind (copy_from_slice (drop 2 (lt_memo tx)) (pad_memo memo)) (\<lambda>payload.
        Ok (tx\<lparr>lt_memo := [1, word_of_nat (length memo)] @ payload\<rparr>)))"

definition get_memo_string :: "(bytes \<Rightarrow> rstr) \<Rightarrow> legacy_transaction \<Rightarrow> (mina_tx_error, rstr) outcome" where
  "get_memo_string utf8_error tx =
     obind (idx (lt_memo tx) 1) (\<lambda>len.
     let memo_len = unat len in
     if memo_len > MEMO_BYTES - MEMO_HEADER_BYTES
     then Err (MemoSerializationError (lit ''Invalid memo length byte''))
     else obind (slice (lt_memo tx) MEMO_HEADER_BYTES (MEMO_HEADER_BYTES + memo_len)) (\<lambda>s.
       if utf8_valid s then Ok s else Err (MemoSerializationError (utf8_error s))))"

section \<open>JSON\<close>

definition legacy_to_json :: "address_ext \<Rightarrow> (bytes \<Rightarrow> rstr) \<Rightarrow> legacy_transaction \<Rightarrow> (de_error, json) outcome" where
  "legacy_to_json A utf8_error tx =
     obind (map_err (\<lambda>e. CustomError (display_mina_tx_error e)) (get_memo_string utf8_error tx)) (\<lambda>memo_str.
     Ok (JObj (
       [(lit ''to'', JStr (into_address A (lt_receiver_pk tx))),
        (lit ''from'', JStr (into_address A (lt_source_pk tx))),
        (lit ''fee'', JStr (show_nat (unat (lt_fee tx))))] @
       (if lt_tag tx = DELEGATION_TX_TAG then []
        else [(lit ''amount'', JStr (show_nat (unat (lt_amount tx))))]) @
       [(lit ''nonce'', JStr (show_nat (unat (lt_nonce tx)))),
        (lit ''memo'', JStr memo_str),
        (lit ''valid_until'', JStr (show_nat (unat (lt_valid_until tx)))),
        (lit ''tag'', case lt_tag tx of (a, b, c) \<Rightarrow> JArr [JBool a, JBool b, JBool c])])))"

record transaction_data =
  td_to :: rstr
  td_from :: rstr
  td_fee :: rstr
  td_amount :: "rstr option"
  td_nonce :: rstr
  td_memo :: rstr
  td_valid_until :: rstr
  td_tag :: tx_tag

fun de_tag :: "json option \<Rightarrow> (de_error, tx_tag) outcome" where
  "de_tag (Some (JArr [a, b, c])) =
     obind (de_bool a) (\<lambda>a. obind (de_bool b) (\<lambda>b. obind (de_bool c) (\<lambda>c. Ok (a, b, c))))"
| "de_tag _ = Err Malformed"

definition transaction_data_fields :: "rstr list" where
  "transaction_data_fields = [lit ''to'', lit ''from'', lit ''fee'', lit ''amount'', lit ''nonce'',
     lit ''memo'', lit ''valid_until'', lit ''tag'']"

definition de_transaction_data :: "json \<Rightarrow> (de_error, transaction_data) outcome" where
  "de_transaction_data j =
     obind (struct_fields transaction_data_fields j) (\<lambda>vs.
     obind (de_string (vs ! 0)) (\<lambda>recipient. obind (de_string (vs ! 1)) (\<lambda>sender.
     obind (de_string (vs ! 2)) (\<lambda>fee. obind (de_option de_string (vs ! 3)) (\<lambda>amount.
     obind (de_string (vs ! 4)) (\<lambda>nonce. obind (de_string (vs ! 5)) (\<lambda>memo.
     obind (de_string (vs ! 6)) (\<lambda>valid_until. obind (de_tag (vs ! 7)) (\<lambda>tag.
     Ok \<lparr>td_to = recipient, td_from = sender, td_fee = fee, td_amount = amount, td_nonce = nonce,
         td_memo = memo, td_valid_until = valid_until, td_tag = tag\<rparr>)))))))))"

definition with_memo ::
  "rstr \<Rightarrow> u32 \<Rightarrow> legacy_transaction \<Rightarrow> (de_error, legacy_transaction) outcome" where
  "with_memo memo valid_until tx =
     omap (set_valid_until valid_until)
       (map_err (\<lambda>e. CustomError (display_mina_tx_error e)) (set_memo_str memo tx))"

definition legacy_of_data :: "address_ext \<Rightarrow> transaction_data \<Rightarrow> (de_error, legacy_transaction) outcome" where
  "legacy_of_data A data =
     obind (ok_or BadAddress (from_address A (td_from data))) (\<lambda>sender.
     obind (ok_or BadAddress (from_address A (td_to data))) (\<lambda>recipient.
     obind (de_uint 64 (td_fee data)) (\<lambda>fee.
     obind (de_uint 32 (td_nonce data)) (\<lambda>nonce.
     obind (de_uint 32 (td_valid_until data)) (\<lambda>valid_until.
     if td_tag data = PAYMENT_TX_TAG then
       obind (ok_or (CustomError (lit ''Missing amount for payment transaction'')) (td_amount data)) (\<lambda>ser_amount.
       obind (de_uint 64 ser_amount) (\<lambda>amount.
       with_memo (td_memo data) (word_of_nat valid_until)
         (new_payment A sender recipient (word_of_nat amount) (word_of_nat fee) (word_of_nat nonce))))
     else if td_tag data = DELEGATION_TX_TAG then
       (if td_amount data \<noteq> None
        then Err (CustomError (lit ''Unexpected amount for delegation transaction''))
        else with_memo (td_memo data) (word_of_nat valid_until)
          (new_delegation A sender recipient (word_of_nat fee) (word_of_nat nonce)))
     else Err (CustomError (lit ''Invalid transaction tag'')))))))"

definition legacy_of_json :: "address_ext \<Rightarrow> json \<Rightarrow> (de_error, legacy_transaction) outcome" where
  "legacy_of_json A j = obind (de_transaction_data j) (legacy_of_data A)"

section \<open>What is signed\<close>

definition legacy_to_roinput :: "'r roinput_ext \<Rightarrow> legacy_transaction \<Rightarrow> 'r" where
  "legacy_to_roinput R tx =
     (let roi = roi_new R;
          roi = roi_append_field R roi (pk_x (lt_fee_payer_pk tx));
          roi = roi_append_field R roi (pk_x (lt_source_pk tx));
          roi = roi_append_field R roi (pk_x (lt_receiver_pk tx));
          roi = roi_append_u64 R roi (lt_fee tx);
          roi = roi_append_u64 R roi (lt_fee_token tx);
          roi = roi_append_bool R roi (pk_is_odd (lt_fee_payer_pk tx));
          roi = roi_append_u32 R roi (lt_nonce tx);
          roi = roi_append_u32 R roi (lt_valid_until tx);
          roi = roi_append_bytes R roi (lt_memo tx);
          roi = (case lt_tag tx of (a, b, c) \<Rightarrow> foldl (roi_append_bool R) roi [a, b, c]);
          roi = roi_append_bool R roi (pk_is_odd (lt_source_pk tx));
          roi = roi_append_bool R roi (pk_is_odd (lt_receiver_pk tx));
          roi = roi_append_u64 R roi (lt_token_id tx);
          roi = roi_append_u64 R roi (lt_amount tx)
      in roi_append_bool R roi (lt_token_locked tx))"

definition legacy_domain_string :: "network_id \<Rightarrow> rstr option" where
  "legacy_domain_string network = Some (into_domain_string network)"

section \<open>The display form\<close>

definition chars_of_bytes :: "bytes \<Rightarrow> rstr" where
  "chars_of_bytes bs = concat (map (\<lambda>b. if b < 0x80 then [b] else [0xC0 OR drop_bit 6 b, 0x80 OR (b AND 0x3F)]) bs)"

definition show_bool :: "bool \<Rightarrow> rstr" where
  "show_bool b = (if b then lit ''true'' else lit ''false'')"

definition display_memo :: "bytes \<Rightarrow> rstr" where
  "display_memo memo =
     (if length memo < MEMO_HEADER_BYTES then []
      else chars_of_bytes (takeWhile (\<lambda>b. b \<noteq> 0) (drop MEMO_HEADER_BYTES memo)))"

definition display_type :: "tx_tag \<Rightarrow> rstr" where
  "display_type tag = (if tag = PAYMENT_TX_TAG then lit ''payment''
     else if tag = DELEGATION_TX_TAG then lit ''delegation'' else lit ''unknown'')"

definition quoted :: "rstr \<Rightarrow> rstr" where
  "quoted s = 34 # s @ [34]"

definition show_line :: "string \<Rightarrow> rstr \<Rightarrow> rstr" where
  "show_line key value = lit ''  '' @ quoted (lit key) @ lit '': '' @ value"

fun join_lines :: "rstr list \<Rightarrow> rstr" where
  "join_lines [] = []"
| "join_lines [l] = l"
| "join_lines (l # ls) = l @ [44, 10] @ join_lines ls"

definition show_tag :: "tx_tag \<Rightarrow> rstr" where
  "show_tag tag = (case tag of (a, b, c) \<Rightarrow>
     lit ''['' @ show_bool a @ lit '', '' @ show_bool b @ lit '', '' @ show_bool c @ lit '']'')"

definition display_legacy :: "address_ext \<Rightarrow> legacy_transaction \<Rightarrow> rstr" where
  "display_legacy A tx =
     [123, 10] @ join_lines [
       show_line ''type'' (quoted (display_type (lt_tag tx))),
       show_line ''to'' (quoted (into_address A (lt_receiver_pk tx))),
       show_line ''from'' (quoted (into_address A (lt_source_pk tx))),
       show_line ''fee'' (quoted (show_nat (unat (lt_fee tx)))),
       show_line ''fee_token'' (quoted (show_nat (unat (lt_fee_token tx)))),
       show_line ''fee_payer_pk'' (quoted (into_address A (lt_fee_payer_pk tx))),
       show_line ''amount'' (quoted (show_nat (unat (lt_amount tx)))),
       show_line ''nonce'' (quoted (show_nat (unat (lt_nonce tx)))),
       show_line ''valid_until'' (quoted (show_nat (unat (lt_valid_until tx)))),
       show_line ''memo'' (quoted (display_memo (lt_memo tx))),
       show_line ''tag'' (show_tag (lt_tag tx)),
       show_line ''source_pk'' (quoted (into_address A (lt_source_pk tx))),
       show_line ''receiver_pk'' (quoted (into_address A (lt_receiver_pk tx))),
       show_line ''token_id'' (quoted (show_nat (unat (lt_token_id tx)))),
       show_line ''token_locked'' (show_bool (lt_token_locked tx))] @ [10, 125]"

section \<open>Setting the memo\<close>

lemma char_count_less:
  "\<not> list_all (\<lambda>b. \<not> is_cont b) s \<Longrightarrow> char_count s < length s"
  by (auto simp: char_count_def list_all_iff intro!: length_filter_less)

lemma length_pad_memo: "length (pad_memo memo) = length memo + (32 - char_count memo)"
  by (simp add: pad_memo_def)

lemma set_memo_str_cases:
  assumes "legacy_wf tx"
  shows "set_memo_str memo tx =
    (if length memo > 32 then Err (InvalidMemo (lit ''Memo exceeds maximum length''))
     else if list_all (\<lambda>b. \<not> is_cont b) memo
     then Ok (tx\<lparr>lt_memo := [1, word_of_nat (length memo)] @ memo @ replicate (32 - length memo) 0\<rparr>)
     else Panic)"
proof -
  have wf: "length (lt_memo tx) = 34" using assms by (simp add: legacy_wf_def MEMO_BYTES_def)
  show ?thesis
  proof (cases "length memo > 32")
    case False
    show ?thesis
    proof (cases "list_all (\<lambda>b. \<not> is_cont b) memo")
      case True
      then have "char_count memo = length memo" by (simp add: char_count_def list_all_iff)
      then show ?thesis using False True wf
        by (simp add: set_memo_str_def memo_sizes copy_from_slice_def pad_memo_def)
    next
      case bad: False
      then have "length (pad_memo memo) \<noteq> 32"
        using char_count_less[OF bad] False by (simp add: length_pad_memo)
      then show ?thesis using False bad wf
        by (simp add: set_memo_str_def memo_sizes copy_from_slice_def)
    qed
  qed (simp add: set_memo_str_def memo_sizes)
qed

text \<open>
  C35: setting a memo panics on exactly the memos of at most 32 bytes that have a character
  outside ASCII: they are padded to 32 characters, which are more than 32 bytes. Longer memos are
  refused and ASCII ones are stored.
\<close>

theorem set_memo_str_panics_iff:
  assumes "legacy_wf tx" and "utf8_valid memo"
  shows "(set_memo_str memo tx = Panic \<longleftrightarrow> length memo \<le> 32 \<and> \<not> ascii memo) \<and>
    ((\<exists>e. set_memo_str memo tx = Err e) \<longleftrightarrow> length memo > 32) \<and>
    (returns (set_memo_str memo tx) \<longleftrightarrow> length memo \<le> 32 \<and> ascii memo)"
  unfolding set_memo_str_cases[OF assms(1)] utf8_no_cont_ascii[OF assms(2)] by auto

definition demo_key :: pubkey where
  "demo_key = \<lparr>pk_point = \<lparr>aff_x = 3, aff_y = 1\<rparr>\<rparr>"

definition demo_payment :: legacy_transaction where
  "demo_payment = new_payment address_demo demo_key demo_key 7 1 2"

theorem set_memo_str_panics_iff_witness:
  "set_memo_str [0xC3, 0xA9] demo_payment = Panic"
proof -
  have "legacy_wf demo_payment"
    by (simp add: legacy_wf_def demo_payment_def new_payment_def)
  moreover have "utf8_valid [0xC3, 0xA9]" by code_simp
  moreover have "\<not> ascii [0xC3, 0xA9]" by code_simp
  ultimately show ?thesis using set_memo_str_panics_iff[of "demo_payment" "[0xC3, 0xA9]"] by simp
qed

section \<open>What the random-oracle input binds\<close>

lemma legacy_roi_observed:
  assumes "roi_observed R fs bs"
  shows "fs (legacy_to_roinput R tx) = [pk_x (lt_fee_payer_pk tx), pk_x (lt_source_pk tx), pk_x (lt_receiver_pk tx)]"
    and "bs (legacy_to_roinput R tx) =
      bytes_lsb_bits (le_bytes 8 (unat (lt_fee tx))) @ bytes_lsb_bits (le_bytes 8 (unat (lt_fee_token tx))) @
      [pk_is_odd (lt_fee_payer_pk tx)] @ bytes_lsb_bits (le_bytes 4 (unat (lt_nonce tx))) @
      bytes_lsb_bits (le_bytes 4 (unat (lt_valid_until tx))) @ bytes_lsb_bits (lt_memo tx) @
      [fst (lt_tag tx), fst (snd (lt_tag tx)), snd (snd (lt_tag tx))] @
      [pk_is_odd (lt_source_pk tx), pk_is_odd (lt_receiver_pk tx)] @
      bytes_lsb_bits (le_bytes 8 (unat (lt_token_id tx))) @ bytes_lsb_bits (le_bytes 8 (unat (lt_amount tx))) @
      [lt_token_locked tx]"
  using assms by (simp_all add: legacy_to_roinput_def roi_observed_def Let_def case_prod_beta)

lemma legacy_roinput_same:
  assumes "roi_observed R fs bs" and "legacy_wf t" and "legacy_wf t'"
    and "legacy_to_roinput R t = legacy_to_roinput R t'"
  shows "t = t'"
proof -
  note obs = legacy_roi_observed[OF assms(1)]
  have "fs (legacy_to_roinput R t) = fs (legacy_to_roinput R t')"
    and bits: "bs (legacy_to_roinput R t) = bs (legacy_to_roinput R t')" using assms(4) by simp_all
  then have xs: "pk_x (lt_fee_payer_pk t) = pk_x (lt_fee_payer_pk t')"
    "pk_x (lt_source_pk t) = pk_x (lt_source_pk t')" "pk_x (lt_receiver_pk t) = pk_x (lt_receiver_pk t')"
    by (simp_all add: obs(1))
  have memo: "length (lt_memo t) = length (lt_memo t')" using assms(2,3) by (simp add: legacy_wf_def)
  from bits have "lt_fee t = lt_fee t' \<and> lt_fee_token t = lt_fee_token t' \<and>
      pk_is_odd (lt_fee_payer_pk t) = pk_is_odd (lt_fee_payer_pk t') \<and> lt_nonce t = lt_nonce t' \<and>
      lt_valid_until t = lt_valid_until t' \<and> lt_memo t = lt_memo t' \<and> lt_tag t = lt_tag t' \<and>
      pk_is_odd (lt_source_pk t) = pk_is_odd (lt_source_pk t') \<and>
      pk_is_odd (lt_receiver_pk t) = pk_is_odd (lt_receiver_pk t') \<and> lt_token_id t = lt_token_id t' \<and>
      lt_amount t = lt_amount t' \<and> lt_token_locked t = lt_token_locked t'"
    by (simp add: obs(2) append_eq_append_conv memo bytes_lsb_bits_inject u64_le_bytes_inject
        u32_le_bytes_inject prod_eq_iff)
  with xs show ?thesis by (simp add: legacy_transaction.equality compressed_pubkey.equality)
qed

text \<open>
  What is signed determines the transaction: two transactions with the same random-oracle
  input are equal in every field.
\<close>

theorem legacy_roinput_binds:
  assumes "roi_observed R fs bs" and "legacy_wf t" and "legacy_wf t'"
    and "legacy_to_roinput R t = legacy_to_roinput R t'"
  shows "t = t'"
  by (rule legacy_roinput_same[OF assms])

theorem legacy_roinput_binds_witness:
  "legacy_to_roinput roi_demo demo_payment \<noteq> legacy_to_roinput roi_demo (set_valid_until 5 demo_payment)"
proof
  have wf: "legacy_wf demo_payment" "legacy_wf (set_valid_until 5 demo_payment)"
    by (simp_all add: legacy_wf_def demo_payment_def new_payment_def set_valid_until_def)
  assume "legacy_to_roinput roi_demo demo_payment = legacy_to_roinput roi_demo (set_valid_until 5 demo_payment)"
  from legacy_roinput_binds[OF roi_demo_observed wf this] show False
    by (simp add: demo_payment_def new_payment_def set_valid_until_def)
qed

section \<open>The JSON form\<close>

text \<open>What the JSON form can express.\<close>

definition legacy_normal :: "address_ext \<Rightarrow> legacy_transaction \<Rightarrow> bool" where
  "legacy_normal A tx \<longleftrightarrow>
     lt_fee_token tx = 1 \<and> lt_token_id tx = 1 \<and> \<not> lt_token_locked tx \<and>
     lt_fee_payer_pk tx = lt_source_pk tx \<and> lt_source_pk tx \<in> range (into_compressed A) \<and>
     lt_receiver_pk tx \<in> range (into_compressed A) \<and>
     (lt_tag tx = PAYMENT_TX_TAG \<or> lt_tag tx = DELEGATION_TX_TAG \<and> lt_amount tx = 0) \<and>
     (\<exists>memo. ascii memo \<and> length memo \<le> 32 \<and>
        lt_memo tx = [1, word_of_nat (length memo)] @ memo @ replicate (32 - length memo) 0)"

lemma get_memo_string_of:
  assumes "lt_memo tx = [1, word_of_nat (length memo)] @ memo @ replicate (32 - length memo) 0"
    and "length memo \<le> 32" and "utf8_valid memo"
  shows "get_memo_string u tx = Ok memo"
proof -
  have "unat (word_of_nat (length memo) :: u8) = length memo"
    using assms(2) by (simp add: unat_of_nat take_bit_nat_eq_self)
  then show ?thesis using assms by (simp add: get_memo_string_def memo_sizes)
qed

lemma legacy_wf_new [simp]:
  "legacy_wf (new_payment A p q amount fee nonce)" "legacy_wf (new_delegation A p q fee nonce)"
  by (simp_all add: legacy_wf_def new_payment_def new_delegation_def)

lemma with_memo_ok:
  assumes "legacy_wf tx" and "length memo \<le> 32" and "ascii memo"
  shows "with_memo memo v tx = Ok (tx\<lparr>lt_memo := [1, word_of_nat (length memo)] @ memo @ replicate (32 - length memo) 0,
    lt_valid_until := v\<rparr>)"
proof -
  have "list_all (\<lambda>b. \<not> is_cont b) memo" using assms(3) by (auto simp: list_all_iff ascii_not_cont)
  then show ?thesis using assms(2) by (simp add: with_memo_def set_memo_str_cases[OF assms(1)] set_valid_until_def)
qed

definition data_of :: "address_ext \<Rightarrow> legacy_transaction \<Rightarrow> rstr \<Rightarrow> transaction_data" where
  "data_of A tx memo = \<lparr>td_to = into_address A (lt_receiver_pk tx),
     td_from = into_address A (lt_source_pk tx), td_fee = show_nat (unat (lt_fee tx)),
     td_amount = (if lt_tag tx = DELEGATION_TX_TAG then None else Some (show_nat (unat (lt_amount tx)))),
     td_nonce = show_nat (unat (lt_nonce tx)), td_memo = memo,
     td_valid_until = show_nat (unat (lt_valid_until tx)), td_tag = lt_tag tx\<rparr>"

lemma legacy_to_json_fields:
  assumes "get_memo_string u tx = Ok memo"
  shows "obind (legacy_to_json A u tx) de_transaction_data = Ok (data_of A tx memo)"
  using assms
  by (simp add: legacy_to_json_def de_transaction_data_def transaction_data_fields_def object_field_def
      tag_defs data_of_def split: prod.split)

lemma legacy_of_data_ok:
  assumes "address_laws A" and normal: "legacy_normal A tx" and memo: "ascii memo" "length memo \<le> 32"
    and is_memo: "lt_memo tx = [1, word_of_nat (length memo)] @ memo @ replicate (32 - length memo) 0"
  shows "legacy_of_data A (data_of A tx memo) = Ok tx"
proof -
  obtain src rcv where keys: "lt_source_pk tx = into_compressed A src" "lt_receiver_pk tx = into_compressed A rcv"
    using normal unfolding legacy_normal_def by blast
  obtain p q where pq: "from_address A (into_address A (lt_source_pk tx)) = Some p" "into_compressed A p = lt_source_pk tx"
    "from_address A (into_address A (lt_receiver_pk tx)) = Some q" "into_compressed A q = lt_receiver_pk tx"
    using assms(1) unfolding address_laws_def keys by metis
  note data_defs = data_of_def legacy_of_data_def de_uint_def parse_show_word
  show ?thesis
  proof (cases "lt_tag tx = DELEGATION_TX_TAG")
    case True
    then have "legacy_of_data A (data_of A tx memo) =
        with_memo memo (lt_valid_until tx) (new_delegation A p q (lt_fee tx) (lt_nonce tx))"
      using pq by (simp add: data_defs tag_defs)
    then show ?thesis using normal True pq is_memo unfolding with_memo_ok[OF legacy_wf_new(2) memo(2,1)]
      by (simp add: new_delegation_def legacy_normal_def tag_defs)
  next
    case False
    then have tag: "lt_tag tx = PAYMENT_TX_TAG" using normal by (auto simp: legacy_normal_def)
    then have "legacy_of_data A (data_of A tx memo) =
        with_memo memo (lt_valid_until tx) (new_payment A p q (lt_amount tx) (lt_fee tx) (lt_nonce tx))"
      using pq by (simp add: data_defs tag_defs)
    then show ?thesis using normal tag pq is_memo unfolding with_memo_ok[OF legacy_wf_new(1) memo(2,1)]
      by (simp add: new_payment_def legacy_normal_def tag_defs)
  qed
qed

lemma legacy_json_back:
  assumes "address_laws A" and "legacy_normal A tx"
  shows "obind (legacy_to_json A u tx) (legacy_of_json A) = Ok tx"
proof -
  obtain memo where memo: "ascii memo" "length memo \<le> 32"
    "lt_memo tx = [1, word_of_nat (length memo)] @ memo @ replicate (32 - length memo) 0"
    using assms(2) unfolding legacy_normal_def by blast
  have "obind (legacy_to_json A u tx) de_transaction_data = Ok (data_of A tx memo)"
    by (rule legacy_to_json_fields[OF get_memo_string_of[OF memo(3,2) utf8_valid_ascii[OF memo(1)]]])
  then show ?thesis using legacy_of_data_ok[OF assms memo]
    by (cases "legacy_to_json A u tx") (simp_all add: legacy_of_json_def)
qed

lemma with_memo_OkD:
  assumes "with_memo memo v tx = Ok tx'" and "legacy_wf tx" and "utf8_valid memo"
  shows "ascii memo \<and> length memo \<le> 32 \<and>
    tx' = tx\<lparr>lt_memo := [1, word_of_nat (length memo)] @ memo @ replicate (32 - length memo) 0, lt_valid_until := v\<rparr>"
  using assms
  by (auto simp: with_memo_def set_memo_str_cases set_valid_until_def utf8_no_cont_ascii split: if_splits)

lemma legacy_of_data_OkD:
  assumes "legacy_of_data A d = Ok tx"
  obtains sender recipient amount fee nonce valid_until where
    "with_memo (td_memo d) valid_until (new_payment A sender recipient amount fee nonce) = Ok tx"
  | sender recipient fee nonce valid_until where
    "with_memo (td_memo d) valid_until (new_delegation A sender recipient fee nonce) = Ok tx"
  using assms by (auto simp: legacy_of_data_def outcome_simps split: if_splits)

lemma legacy_of_data_normal:
  assumes "legacy_of_data A d = Ok tx" and utf8: "utf8_valid (td_memo d)"
  shows "legacy_normal A tx"
  using assms(1)
proof (cases rule: legacy_of_data_OkD)
  case 1
  from with_memo_OkD[OF 1 legacy_wf_new(1) utf8] show ?thesis
    by (auto simp: new_payment_def legacy_normal_def)
next
  case 2
  from with_memo_OkD[OF 2 legacy_wf_new(2) utf8] show ?thesis
    by (auto simp: new_delegation_def legacy_normal_def)
qed

text \<open>
  C31: reading JSON only yields transactions the JSON form can express (token fields at their
  defaults, the fee payer the source, a delegation without amount, an ASCII memo padded with
  zeros), and printing such a transaction and reading it back gives the same transaction.
\<close>

theorem legacy_json_roundtrip:
  assumes "address_laws A" and "legacy_of_data A d = Ok tx" and "utf8_valid (td_memo d)"
  shows "legacy_normal A tx \<and> obind (legacy_to_json A u tx) (legacy_of_json A) = Ok tx"
  using legacy_of_data_normal[OF assms(2,3)] legacy_json_back[OF assms(1)] by blast

definition demo_delegation :: legacy_transaction where
  "demo_delegation = (new_delegation address_demo demo_key demo_key 3 0)
     \<lparr>lt_memo := [1, 2] @ [104, 105] @ replicate 30 0, lt_valid_until := 9\<rparr>"

lemma demo_delegation_normal: "legacy_normal address_demo demo_delegation"
  unfolding legacy_normal_def
  by (auto simp: demo_delegation_def new_delegation_def ascii_def intro!: exI[of _ "[104, 105 :: u8]"])

theorem legacy_json_roundtrip_witness:
  "legacy_normal address_demo demo_delegation \<and>
    obind (legacy_to_json address_demo (\<lambda>_. []) demo_delegation) (legacy_of_json address_demo) = Ok demo_delegation"
proof -
  have memo: "ascii [104, 105]" "length [104, 105 :: u8] \<le> 32"
    "lt_memo demo_delegation = [1, word_of_nat (length [104, 105 :: u8])] @ [104, 105] @ replicate (32 - length [104, 105 :: u8]) 0"
    by (simp_all add: demo_delegation_def ascii_def)
  note data = legacy_of_data_ok[OF address_demo_laws demo_delegation_normal memo]
  have "utf8_valid (td_memo (data_of address_demo demo_delegation [104, 105]))"
    using utf8_valid_ascii[OF memo(1)] by (simp only: data_of_def transaction_data.simps)
  from legacy_json_roundtrip[OF address_demo_laws data this] show ?thesis .
qed

end
