(* ===== verification/Zk_Hash.thy ===== *)
theory Zk_Hash
  imports Zkapp_Types
begin

text \<open>
  The low-level hashing of \<^verbatim>\<open>zkapp_tx/commit.rs\<close> (Poseidon with a string prefix) and the
  prefixes of \<^verbatim>\<open>zkapp_tx/constants.rs\<close>.
\<close>

section \<open>Prefixes\<close>

definition EMPTY_STACK_HASH :: fp where "EMPTY_STACK_HASH = 0"
definition ZK_APP_BODY_MAINNET :: rstr where "ZK_APP_BODY_MAINNET = lit ''MainnetZkappBody****''"
definition ZK_APP_BODY_TESTNET :: rstr where "ZK_APP_BODY_TESTNET = lit ''TestnetZkappBody****''"
definition PREFIX_ACCOUNT_UPDATE_NODE :: rstr where "PREFIX_ACCOUNT_UPDATE_NODE = lit ''MinaAcctUpdateNode**''"
definition PREFIX_ACCOUNT_UPDATE_CONS :: rstr where "PREFIX_ACCOUNT_UPDATE_CONS = lit ''MinaAcctUpdateCons**''"
definition ZK_APP_MEMO :: rstr where "ZK_APP_MEMO = lit ''MinaZkappMemo''"
definition ZK_APP_EVENTS_EMPTY :: rstr where "ZK_APP_EVENTS_EMPTY = lit ''MinaZkappEventsEmpty''"
definition ZK_APP_EVENTS_PREFIX :: rstr where "ZK_APP_EVENTS_PREFIX = lit ''MinaZkappEvents''"
definition ZK_APP_EVENT_PREFIX :: rstr where "ZK_APP_EVENT_PREFIX = lit ''MinaZkappEvent''"
definition ZK_APP_ACTIONS_EMPTY :: rstr where "ZK_APP_ACTIONS_EMPTY = lit ''MinaZkappActionsEmpty''"
definition ZK_APP_ACTIONS_PREFIX :: rstr where "ZK_APP_ACTIONS_PREFIX = lit ''MinaZkappSeqEvents''"
definition ZK_ACTION_STATE_EMPTY :: rstr where "ZK_ACTION_STATE_EMPTY = lit ''MinaZkappActionStateEmptyElt''"
definition MINA_ZKAPP_URI :: rstr where "MINA_ZKAPP_URI = lit ''MinaZkappUri''"

lemmas prefix_defs = ZK_APP_BODY_MAINNET_def ZK_APP_BODY_TESTNET_def PREFIX_ACCOUNT_UPDATE_NODE_def
  PREFIX_ACCOUNT_UPDATE_CONS_def ZK_APP_MEMO_def ZK_APP_EVENTS_EMPTY_def ZK_APP_EVENTS_PREFIX_def
  ZK_APP_EVENT_PREFIX_def ZK_APP_ACTIONS_EMPTY_def ZK_APP_ACTIONS_PREFIX_def
  ZK_ACTION_STATE_EMPTY_def MINA_ZKAPP_URI_def

datatype zk_app_body_prefix = BodyMainnet | BodyTestnet | BodyCustom rstr

fun body_prefix_of_network :: "network_id \<Rightarrow> zk_app_body_prefix" where
  "body_prefix_of_network Mainnet = BodyMainnet"
| "body_prefix_of_network Testnet = BodyTestnet"
| "body_prefix_of_network (Custom s) = BodyCustom s"

fun body_prefix_string :: "zk_app_body_prefix \<Rightarrow> rstr" where
  "body_prefix_string BodyMainnet = ZK_APP_BODY_MAINNET"
| "body_prefix_string BodyTestnet = ZK_APP_BODY_TESTNET"
| "body_prefix_string (BodyCustom s) = create_custom_prefix (s @ lit ''ZkappBody'')"

definition network_zk :: "network_id \<Rightarrow> rstr" where
  "network_zk network = body_prefix_string (body_prefix_of_network network)"

section \<open>Hashing with a prefix\<close>

definition param_default :: bytes where
  "param_default = replicate 20 42 @ replicate 12 0"

definition param_bytes :: "rstr \<Rightarrow> bytes" where
  "param_bytes param = param @ drop (length param) param_default"

definition param_to_field :: "('r, 'sp) zk_env \<Rightarrow> rstr \<Rightarrow> (mina_tx_error, fp) outcome" where
  "param_to_field Z param =
     (if length param > length param_default
      then Err (InvalidZkAppCommand (lit ''must be 32 byte maximum''))
      else ok_or (InvalidZkAppCommand (lit ''Failed to convert parameter to field''))
             (from_random_bytes Z (param_bytes param)))"

definition hash_noinput :: "('r, 'sp) zk_env \<Rightarrow> rstr \<Rightarrow> (mina_tx_error, fp) outcome" where
  "hash_noinput Z prefix =
     (let S = zk_sponge Z in
      obind (param_to_field Z prefix) (\<lambda>param.
      Ok (fst (sponge_squeeze S (sponge_absorb S (sponge_new S) [param])))))"

definition hash_with_prefix :: "('r, 'sp) zk_env \<Rightarrow> rstr \<Rightarrow> fp list \<Rightarrow> (mina_tx_error, fp) outcome" where
  "hash_with_prefix Z prefix data =
     (let S = zk_sponge Z in
      obind (param_to_field Z prefix) (\<lambda>param.
      let sponge = sponge_absorb S (sponge_new S) [param];
          sponge' = snd (sponge_squeeze S sponge)
      in Ok (fst (sponge_squeeze S (sponge_absorb S sponge' data)))))"

lemma hash_with_prefix_no_panic [simp]: "hash_with_prefix Z prefix data \<noteq> Panic"
  by (cases "from_random_bytes Z (param_bytes prefix)")
    (auto simp: hash_with_prefix_def param_to_field_def Let_def)

lemma hash_noinput_no_panic [simp]: "hash_noinput Z prefix \<noteq> Panic"
  by (cases "from_random_bytes Z (param_bytes prefix)")
    (auto simp: hash_noinput_def param_to_field_def Let_def)

text \<open>
  The field crate: a prime field of more than 254 bits, in which 32 bytes that denote a number
  below \<open>2 ^ 254\<close> denote that number.
\<close>

definition field_laws :: "('r, 'sp) zk_env \<Rightarrow> bool" where
  "field_laws Z \<longleftrightarrow> 2 ^ 254 < fp_modulus Z \<and>
     (\<forall>bs. length bs = 32 \<and> le_value bs < 2 ^ 254 \<longrightarrow> from_random_bytes Z bs = Some (le_value bs))"

text \<open>A prefix of at most 20 bytes leaves the most significant twelve bytes zero.\<close>

lemma le_value_append: "le_value (xs @ ys) = le_value xs + 256 ^ length xs * le_value ys"
  by (induction xs) (simp_all add: algebra_simps)

lemma le_value_zeros [simp]: "le_value (replicate n 0) = 0"
  by (induction n) simp_all

lemma short_bytes_small:
  assumes "length bs \<le> 31"
  shows "le_value (bs @ replicate n 0) < 2 ^ 248"
proof -
  have "le_value bs < 256 ^ length bs" by (rule le_value_bound)
  also have "\<dots> \<le> 256 ^ 31" using assms by (intro power_increasing) simp_all
  finally show ?thesis by (simp add: le_value_append)
qed

lemma from_random_bytes_short:
  assumes "field_laws Z" and "length bs \<le> 31"
  shows "from_random_bytes Z (bs @ replicate (32 - length bs) 0) = Some (le_value bs)"
proof -
  have "le_value (bs @ replicate (32 - length bs) 0) < 2 ^ 248"
    using assms(2) by (rule short_bytes_small)
  then have "le_value (bs @ replicate (32 - length bs) 0) < 2 ^ 254" by simp
  then show ?thesis using assms by (simp add: field_laws_def le_value_append)
qed

definition padded_param :: "rstr \<Rightarrow> rstr" where
  "padded_param s = s @ replicate (20 - length s) 42"

lemma param_bytes_short:
  "length s \<le> 31 \<Longrightarrow> param_bytes s = padded_param s @ replicate (32 - length (padded_param s)) 0"
  by (cases "length s \<le> 20") (simp_all add: param_bytes_def param_default_def padded_param_def)

lemma param_to_field_short:
  assumes "field_laws Z" and "length s \<le> 31"
  shows "param_to_field Z s = Ok (le_value (padded_param s))"
proof -
  have "length (padded_param s) \<le> 31" using assms(2) by (simp add: padded_param_def)
  then show ?thesis
    using assms from_random_bytes_short[of Z "padded_param s"]
    by (simp add: param_to_field_def param_bytes_short) (simp add: param_default_def)
qed

lemma hash_with_prefix_short:
  assumes "field_laws Z" and "length prefix \<le> 31"
  shows "\<exists>h. hash_with_prefix Z prefix data = Ok h"
  using assms by (simp add: hash_with_prefix_def param_to_field_short Let_def)

lemma hash_noinput_short:
  assumes "field_laws Z" and "length prefix \<le> 31"
  shows "\<exists>h. hash_noinput Z prefix = Ok h"
  using assms by (simp add: hash_noinput_def param_to_field_short Let_def)

lemma prefix_lengths [simp]:
  "length ZK_APP_BODY_MAINNET = 20" "length ZK_APP_BODY_TESTNET = 20"
  "length PREFIX_ACCOUNT_UPDATE_NODE = 20" "length PREFIX_ACCOUNT_UPDATE_CONS = 20"
  "length ZK_APP_MEMO = 13" "length ZK_APP_EVENTS_PREFIX = 15" "length ZK_APP_EVENT_PREFIX = 14"
  "length ZK_APP_ACTIONS_PREFIX = 18" "length MINA_ZKAPP_URI = 12"
  "length ZK_APP_EVENTS_EMPTY = 20" "length ZK_APP_ACTIONS_EMPTY = 21" "length ZK_ACTION_STATE_EMPTY = 28"
  by (simp_all add: prefix_defs)

text \<open>Hashing can only collide: no other hypothesis on the sponge is used anywhere.\<close>

definition collision_free :: "('r, 'sp) zk_env \<Rightarrow> (rstr \<times> fp list) set \<Rightarrow> bool" where
  "collision_free Z Q \<longleftrightarrow>
     (\<forall>(p, d) \<in> Q. \<forall>(p', d') \<in> Q. \<forall>h. p = p' \<longrightarrow> hash_with_prefix Z p d = Ok h \<longrightarrow>
        hash_with_prefix Z p' d' = Ok h \<longrightarrow> d = d')"

lemma collision_freeD:
  assumes "collision_free Z Q" and "(p, d) \<in> Q" and "(p, d') \<in> Q"
    and "hash_with_prefix Z p d = Ok h" and "hash_with_prefix Z p d' = Ok h"
  shows "d = d'"
  using assms unfolding collision_free_def by blast

lemma collision_free_mono: "collision_free Z Q \<Longrightarrow> Q' \<subseteq> Q \<Longrightarrow> collision_free Z Q'"
  unfolding collision_free_def by blast

section \<open>Domain separation of the body prefix\<close>

text \<open>
  Custom networks whose names are those of the built-in networks hash their account updates
  under the built-in prefixes.
\<close>

lemma replicate_four: "replicate 4 x = [x, x, x, x]"
  by (simp add: eval_nat_numeral)

lemma custom_body_prefix_collides:
  "network_zk (Custom (lit ''Mainnet'')) = network_zk Mainnet"
  "network_zk (Custom (lit ''Testnet'')) = network_zk Testnet"
  by (simp_all add: network_zk_def create_custom_prefix_def MAX_PREFIX_LENGTH_def PADDING_CHAR_def
      replicate_four prefix_defs)

end
