(* ===== verification/Packing.thy ===== *)
theory Packing
  imports Zk_Hash
begin

text \<open>
  Packing a transaction into field elements, \<^verbatim>\<open>zkapp_tx/packing.rs\<close>: the packed input, its
  two conversions, and the \<open>Packable\<close> and \<open>Emptiable\<close> implementations of every type.
\<close>

unbundle bit_operations_syntax

section \<open>Packed inputs\<close>

datatype bit_data = U32 u32 | U64 u64 | BOOL bool | BYTES bytes

datatype packed_input = PackedInput (bits: "bit_data list") (packed_fields: "fp list")

definition packed_new :: packed_input where "packed_new = PackedInput [] []"

definition append_packedinput :: "packed_input \<Rightarrow> packed_input \<Rightarrow> packed_input" where
  "append_packedinput p q = PackedInput (bits p @ bits q) (packed_fields p @ packed_fields q)"

definition append_field :: "packed_input \<Rightarrow> fp \<Rightarrow> packed_input" where
  "append_field p f = PackedInput (bits p) (packed_fields p @ [f])"

definition append_bool :: "packed_input \<Rightarrow> bool \<Rightarrow> packed_input" where
  "append_bool p b = PackedInput (bits p @ [BOOL b]) (packed_fields p)"

definition append_u32 :: "packed_input \<Rightarrow> u32 \<Rightarrow> packed_input" where
  "append_u32 p x = PackedInput (bits p @ [U32 x]) (packed_fields p)"

definition append_u64 :: "packed_input \<Rightarrow> u64 \<Rightarrow> packed_input" where
  "append_u64 p x = PackedInput (bits p @ [U64 x]) (packed_fields p)"

definition append_bytes :: "packed_input \<Rightarrow> bytes \<Rightarrow> packed_input" where
  "append_bytes p bs = PackedInput (bits p @ [BYTES bs]) (packed_fields p)"

lemmas append_defs = packed_new_def append_field_def append_bool_def append_u32_def append_u64_def
  append_bytes_def

text \<open>Packed inputs form a monoid, so the library's sums apply to them.\<close>

instantiation packed_input :: monoid_add
begin
definition "0 = packed_new"
definition "p + q = append_packedinput p q"
instance
  by standard (simp_all add: zero_packed_input_def plus_packed_input_def append_packedinput_def
      packed_new_def)
end

lemma bits_plus [simp]: "bits (p + q) = bits p @ bits q"
  and fields_plus [simp]: "packed_fields (p + q) = packed_fields p @ packed_fields q"
  and bits_zero [simp]: "bits 0 = []"
  and fields_zero [simp]: "packed_fields 0 = []"
  by (simp_all add: plus_packed_input_def zero_packed_input_def append_packedinput_def packed_new_def)

lemma packed_input_eq_iff: "p = q \<longleftrightarrow> bits p = bits q \<and> packed_fields p = packed_fields q"
  by (cases p; cases q) simp

definition to_roi :: "'r roinput_ext \<Rightarrow> packed_input \<Rightarrow> 'r" where
  "to_roi R p =
     foldl (\<lambda>roi b. case b of
              U32 val \<Rightarrow> roi_append_u32 R roi val
            | U64 val \<Rightarrow> roi_append_u64 R roi val
            | BOOL val \<Rightarrow> roi_append_bool R roi val
            | BYTES val \<Rightarrow> roi_append_bytes R roi val)
       (foldl (roi_append_field R) (roi_new R) (packed_fields p)) (bits p)"

fun bit_data_size :: "bit_data \<Rightarrow> nat" where
  "bit_data_size (U32 _) = 32"
| "bit_data_size (U64 _) = 64"
| "bit_data_size (BOOL _) = 1"
| "bit_data_size (BYTES val) = length val * 8"

text \<open>
  \<open>Fp::from(u64)\<close> reduces; a byte string is padded to 32 bytes and read by the field crate,
  whose refusal is a panic (\<open>expect\<close>).
\<close>

fun to_field :: "('r, 'sp) zk_env \<Rightarrow> bit_data \<Rightarrow> (mina_tx_error, fp) outcome" where
  "to_field Z (U32 val) = Ok (unat val mod fp_modulus Z)"
| "to_field Z (U64 val) = Ok (unat val mod fp_modulus Z)"
| "to_field Z (BOOL val) = Ok (if val then 1 else 0)"
| "to_field Z (BYTES val) =
     (let len = min (length val) 32 in
      case from_random_bytes Z (take len val @ replicate (32 - len) 0) of
        Some f \<Rightarrow> Ok f | None \<Rightarrow> Panic)"

text \<open>\<open>Fp::from(BigInt::from(1u64) << sz)\<close>: a 256-bit shift, then a checked conversion.\<close>

definition shift_one :: "('r, 'sp) zk_env \<Rightarrow> nat \<Rightarrow> (mina_tx_error, fp) outcome" where
  "shift_one Z sz =
     (let v = 2 ^ sz mod 2 ^ 256 in if v < fp_modulus Z then Ok v else Panic)"

fun pack_bits :: "('r, 'sp) zk_env \<Rightarrow> bit_data list \<Rightarrow> fp list \<Rightarrow> fp \<Rightarrow> nat \<Rightarrow>
    (mina_tx_error, fp list) outcome" where
  "pack_bits Z [] packed current_field current_size = Ok (packed @ [current_field])"
| "pack_bits Z (bit_data # rest) packed current_field current_size =
     (let sz = bit_data_size bit_data in
      obind (to_field Z bit_data) (\<lambda>field.
      let total = current_size + sz in
      if total < 255
      then obind (shift_one Z sz) (\<lambda>factor.
           pack_bits Z rest packed ((current_field * factor + field) mod fp_modulus Z) total)
      else pack_bits Z rest (packed @ [current_field]) field sz))"

definition pack_to_fields :: "('r, 'sp) zk_env \<Rightarrow> packed_input \<Rightarrow> (mina_tx_error, packed_input) outcome" where
  "pack_to_fields Z p =
     (if bits p = [] then Ok (PackedInput [] (packed_fields p))
      else obind (pack_bits Z (bits p) [] 0 0) (\<lambda>packed_bits.
           Ok (PackedInput [] (packed_fields p @ packed_bits))))"

definition pack_bool_to_field_legacy :: "'r roinput_ext \<Rightarrow> bool list \<Rightarrow> fp list" where
  "pack_bool_to_field_legacy R bs = roi_to_fields R (foldl (roi_append_bool R) (roi_new R) bs)"

section \<open>Packing to packed_fields loses nothing\<close>

text \<open>
  Two inputs have the same shape when they have as many fields and the same kinds of bit data.
  Shapes are small when no piece needs more than 31 bytes.
\<close>

fun kind :: "bit_data \<Rightarrow> nat \<times> nat" where
  "kind (U32 _) = (0, 32)"
| "kind (U64 _) = (1, 64)"
| "kind (BOOL _) = (2, 1)"
| "kind (BYTES val) = (3, length val * 8)"

definition same_shape :: "packed_input \<Rightarrow> packed_input \<Rightarrow> bool" where
  "same_shape p q \<longleftrightarrow> map kind (bits p) = map kind (bits q) \<and> length (packed_fields p) = length (packed_fields q)"

definition small :: "packed_input \<Rightarrow> bool" where
  "small p \<longleftrightarrow> list_all (\<lambda>b. bit_data_size b \<le> 248) (bits p)"

lemma same_shape_refl [simp]: "same_shape p p"
  by (simp add: same_shape_def)

lemma same_shape_sym: "same_shape p q \<Longrightarrow> same_shape q p"
  by (simp add: same_shape_def)

lemma same_shape_plus: "same_shape p q \<Longrightarrow> same_shape p' q' \<Longrightarrow> same_shape (p + p') (q + q')"
  by (simp add: same_shape_def)

lemma small_plus [simp]: "small (p + q) \<longleftrightarrow> small p \<and> small q"
  by (simp add: small_def)

lemma small_zero [simp]: "small 0"
  by (simp add: small_def)

lemma plus_inject:
  assumes "same_shape p q"
  shows "p + p' = q + q' \<longleftrightarrow> p = q \<and> p' = q'"
proof -
  have "length (bits p) = length (bits q)" "length (packed_fields p) = length (packed_fields q)"
    using assms by (auto simp: same_shape_def dest: map_eq_imp_length_eq)
  then show ?thesis by (auto simp: packed_input_eq_iff)
qed

fun bit_value :: "bit_data \<Rightarrow> nat" where
  "bit_value (U32 val) = unat val"
| "bit_value (U64 val) = unat val"
| "bit_value (BOOL val) = (if val then 1 else 0)"
| "bit_value (BYTES val) = le_value val"

lemma snd_kind: "snd (kind b) = bit_data_size b"
  by (cases b) auto

lemma bit_value_less: "bit_value b < 2 ^ bit_data_size b"
proof (cases b)
  case (U32 x)
  then show ?thesis using unsigned_less[of x, where ?'a = nat] by simp
next
  case (U64 x)
  then show ?thesis using unsigned_less[of x, where ?'a = nat] by simp
next
  case (BYTES x)
  have "(2::nat) ^ (length x * 8) = 256 ^ length x"
    using power_mult[of "2::nat" 8 "length x"] by (simp add: mult.commute)
  then show ?thesis using BYTES le_value_bound[of x] by simp
qed auto

lemma bit_value_inject:
  assumes "kind a = kind b"
  shows "bit_value a = bit_value b \<longleftrightarrow> a = b"
  using assms by (cases a; cases b) (auto simp: word_unat_eq_iff le_value_inject)

lemma small_below:
  assumes "field_laws Z" and "n \<le> 254" and "x < 2 ^ n"
  shows "x < fp_modulus Z"
proof -
  have "(2::nat) ^ n \<le> 2 ^ 254" using assms(2) by (intro power_increasing) simp_all
  then show ?thesis using assms by (simp only: field_laws_def) linarith
qed

lemma to_field_small:
  assumes "field_laws Z" and "bit_data_size b \<le> 248"
  shows "to_field Z b = Ok (bit_value b)"
proof (cases b)
  case (U32 x)
  have "unat x < fp_modulus Z"
    by (rule small_below[OF assms(1), of 32]) (use unsigned_less[of x, where ?'a = nat] in simp_all)
  then show ?thesis using U32 by simp
next
  case (U64 x)
  have "unat x < fp_modulus Z"
    by (rule small_below[OF assms(1), of 64]) (use unsigned_less[of x, where ?'a = nat] in simp_all)
  then show ?thesis using U64 by simp
next
  case (BYTES x)
  then show ?thesis using assms from_random_bytes_short[of Z x] by (simp add: min_def)
qed simp

lemma shift_one_small:
  assumes "field_laws Z" and "n < 255"
  shows "shift_one Z n = Ok (2 ^ n)"
proof -
  have "(2::nat) ^ n < 2 ^ 256" using assms(2) by (intro power_strict_increasing) simp_all
  moreover have "(2::nat) ^ n \<le> 2 ^ 254" using assms(2) by (intro power_increasing) simp_all
  then have "2 ^ n < fp_modulus Z" using assms(1) by (simp only: field_laws_def) linarith
  ultimately show ?thesis by (simp add: shift_one_def Let_def)
qed

text \<open>The loop without its checks, for small pieces.\<close>

fun pack_values :: "bit_data list \<Rightarrow> nat list \<Rightarrow> nat \<Rightarrow> nat \<Rightarrow> nat list" where
  "pack_values [] packed current_field current_size = packed @ [current_field]"
| "pack_values (b # rest) packed current_field current_size =
     (let sz = bit_data_size b in
      if current_size + sz < 255
      then pack_values rest packed (current_field * 2 ^ sz + bit_value b) (current_size + sz)
      else pack_values rest (packed @ [current_field]) (bit_value b) sz)"

lemma shifted_less:
  assumes "(x::nat) < 2 ^ m" and "y < 2 ^ n"
  shows "x * 2 ^ n + y < 2 ^ (m + n)"
proof -
  have "x * 2 ^ n + y < x * 2 ^ n + 2 ^ n" using assms(2) by simp
  also have "\<dots> = (x + 1) * 2 ^ n" by simp
  also have "\<dots> \<le> 2 ^ m * 2 ^ n" using assms(1) by (intro mult_le_mono1) simp
  finally show ?thesis by (simp add: power_add)
qed

lemma pack_bits_values:
  assumes "field_laws Z" and "list_all (\<lambda>b. bit_data_size b \<le> 248) bs"
    and "cur < 2 ^ sz" and "sz < 255"
  shows "pack_bits Z bs packed cur sz = Ok (pack_values bs packed cur sz)"
  using assms(2-)
proof (induction bs arbitrary: packed cur sz)
  case (Cons b bs)
  have small: "bit_data_size b \<le> 248" using Cons.prems by simp
  have f: "to_field Z b = Ok (bit_value b)" by (rule to_field_small[OF assms(1) small])
  show ?case
  proof (cases "sz + bit_data_size b < 255")
    case True
    have less: "cur * 2 ^ bit_data_size b + bit_value b < 2 ^ (sz + bit_data_size b)"
      by (rule shifted_less) (use Cons.prems bit_value_less in auto)
    then have "cur * 2 ^ bit_data_size b + bit_value b < fp_modulus Z"
      by (rule small_below[OF assms(1), rotated]) (use True in simp)
    then show ?thesis
      using Cons f True less shift_one_small[OF assms(1), of "bit_data_size b"]
      by (simp add: Let_def)
  next
    case False
    then show ?thesis using Cons f small bit_value_less[of b] by (simp add: Let_def)
  qed
qed simp

lemma shifted_inject:
  assumes "(y::nat) < 2 ^ n" and "y' < 2 ^ n" and "x * 2 ^ n + y = x' * 2 ^ n + y'"
  shows "x = x' \<and> y = y'"
proof -
  have "(x * 2 ^ n + y) div 2 ^ n = x" "(x' * 2 ^ n + y') div 2 ^ n = x'" using assms(1,2) by simp_all
  then have "x = x'" using assms(3) by metis
  then show ?thesis using assms(3) by simp
qed

lemma pack_values_inject:
  assumes "map kind bs = map kind cs" and "length packed = length packed'"
    and "pack_values bs packed cur sz = pack_values cs packed' cur' sz"
  shows "bs = cs \<and> packed = packed' \<and> cur = cur'"
  using assms
proof (induction bs arbitrary: cs packed packed' cur cur' sz)
  case (Cons b bs)
  from Cons.prems(1) obtain c cs' where cs: "cs = c # cs'"
    and k: "kind b = kind c" "map kind bs = map kind cs'" by auto
  have sz: "bit_data_size c = bit_data_size b" by (metis k(1) snd_kind)
  show ?case
  proof (cases "sz + bit_data_size b < 255")
    case True
    have "bs = cs' \<and> packed = packed' \<and>
        cur * 2 ^ bit_data_size b + bit_value b = cur' * 2 ^ bit_data_size b + bit_value c"
      by (rule Cons.IH[OF k(2) Cons.prems(2)]) (use Cons.prems(3)[unfolded cs pack_values.simps Let_def sz if_P[OF True]] in assumption)
    then have "bs = cs' \<and> packed = packed'" and "cur = cur' \<and> bit_value b = bit_value c"
      using shifted_inject[OF bit_value_less[of b] bit_value_less[of c, unfolded sz]] by blast+
    then show ?thesis using k(1) cs bit_value_inject by blast
  next
    case False
    have "bs = cs' \<and> packed @ [cur] = packed' @ [cur'] \<and> bit_value b = bit_value c"
      by (rule Cons.IH[OF k(2)])
        (use Cons.prems(2) Cons.prems(3)[unfolded cs pack_values.simps Let_def sz if_not_P[OF False]]
          in simp_all)
    then show ?thesis using k(1) cs bit_value_inject by blast
  qed
qed auto

text \<open>Bits that fit one field are one number, whatever size has been used up.\<close>

lemma pack_values_one_field:
  "sz + sum_list (map bit_data_size bs) < 255 \<Longrightarrow> sz' + sum_list (map bit_data_size bs) < 255 \<Longrightarrow>
    pack_values bs packed cur sz = pack_values bs packed cur sz'"
proof (induction bs arbitrary: cur sz sz')
  case (Cons b bs)
  then show ?case
    using Cons.IH[of "sz + bit_data_size b" "sz' + bit_data_size b"] by (simp add: Let_def add.assoc)
qed simp

lemma pack_to_fields_small:
  assumes "field_laws Z" and "small p"
  shows "pack_to_fields Z p =
    Ok (PackedInput [] (packed_fields p @ (if bits p = [] then [] else pack_values (bits p) [] 0 0)))"
  using assms pack_bits_values[of Z "bits p" 0 0 "[]"] by (simp add: pack_to_fields_def small_def)

lemma pack_to_fields_inject:
  assumes "field_laws Z" and "small p" and "small q" and "same_shape p q"
    and "pack_to_fields Z p = Ok r" and "pack_to_fields Z q = Ok r'" and "packed_fields r = packed_fields r'"
  shows "p = q"
proof -
  have eq: "packed_fields p @ (if bits p = [] then [] else pack_values (bits p) [] 0 0) =
      packed_fields q @ (if bits q = [] then [] else pack_values (bits q) [] 0 0)"
    using assms by (auto simp: pack_to_fields_small)
  have f: "packed_fields p = packed_fields q" using eq assms(4) by (auto simp: same_shape_def)
  have "bits p = bits q"
  proof (cases "bits p = []")
    case True
    then show ?thesis using assms(4) by (auto simp: same_shape_def)
  next
    case False
    then have "bits q \<noteq> []" using assms(4) by (auto simp: same_shape_def)
    then show ?thesis
      using False eq f assms(4) pack_values_inject[of "bits p" "bits q" "[]" "[]" 0 0 0]
      by (simp add: same_shape_def)
  qed
  with f show ?thesis by (simp add: packed_input_eq_iff)
qed

end
