(* ===== verification/Packable_Types.thy ===== *)
theory Packable_Types
  imports Packing
begin

text \<open>
  The \<open>Packable\<close> and \<open>Emptiable\<close> implementations of \<^verbatim>\<open>zkapp_tx/packing.rs\<close>. A packing
  can panic (a failing hash is unwrapped, a token symbol may be too long), so it is an outcome.
\<close>

type_synonym packing = "(mina_tx_error, packed_input) outcome"

definition pack_append :: "packing \<Rightarrow> packing \<Rightarrow> packing" where
  "pack_append a b = obind a (\<lambda>x. obind b (\<lambda>y. Ok (append_packedinput x y)))"

text \<open>A chain of \<open>append_packedinput\<close> calls on a new input, in the order of the calls.\<close>

definition pack_seq :: "packing list \<Rightarrow> packing" where
  "pack_seq ps = foldr pack_append ps (Ok packed_new)"

abbreviation put_field :: "fp \<Rightarrow> packing" where "put_field f \<equiv> Ok (append_field packed_new f)"
abbreviation put_bool :: "bool \<Rightarrow> packing" where "put_bool b \<equiv> Ok (append_bool packed_new b)"
abbreviation put_u32 :: "u32 \<Rightarrow> packing" where "put_u32 x \<equiv> Ok (append_u32 packed_new x)"
abbreviation put_u64 :: "u64 \<Rightarrow> packing" where "put_u64 x \<equiv> Ok (append_u64 packed_new x)"
abbreviation put_bytes :: "bytes \<Rightarrow> packing" where "put_bytes x \<equiv> Ok (append_bytes packed_new x)"

section \<open>Basic types\<close>

definition pack_public_key :: "compressed_pubkey \<Rightarrow> packing" where
  "pack_public_key pk = Ok (append_bool (append_field packed_new (pk_x pk)) (pk_is_odd pk))"

definition pack_field :: "fp \<Rightarrow> packing" where
  "pack_field f = put_field f"

definition pack_action_state :: "action_state \<Rightarrow> packing" where
  "pack_action_state a = put_field (action_field a)"

definition pack_range_u32 :: "u32 range_condition \<Rightarrow> packing" where
  "pack_range_u32 r = Ok (append_u32 (append_u32 packed_new (lower r)) (upper r))"

definition pack_range_u64 :: "u64 range_condition \<Rightarrow> packing" where
  "pack_range_u64 r = Ok (append_u64 (append_u64 packed_new (lower r)) (upper r))"

definition pack_option :: "('a \<Rightarrow> packing) \<Rightarrow> packing \<Rightarrow> 'a option \<Rightarrow> packing" where
  "pack_option pack empty_roi m =
     pack_seq [put_bool (m \<noteq> None), case m of Some x \<Rightarrow> pack x | None \<Rightarrow> empty_roi]"

definition pack_bool :: "bool \<Rightarrow> packing" where
  "pack_bool b = put_bool b"

definition pack_option_bool :: "bool option \<Rightarrow> packing" where
  "pack_option_bool m =
     Ok (append_bool (append_bool packed_new (m \<noteq> None)) (case m of Some b \<Rightarrow> b | None \<Rightarrow> False))"

definition pack_array :: "('a \<Rightarrow> packing) \<Rightarrow> 'a list \<Rightarrow> packing" where
  "pack_array pack xs = pack_seq (map pack xs)"

section \<open>Composite types\<close>

definition hash_event :: "('r, 'sp) zk_env \<Rightarrow> rstr \<Rightarrow> fp list \<Rightarrow> fp \<Rightarrow> (mina_tx_error, fp) outcome" where
  "hash_event Z prefix event acc =
     obind (unwrap (hash_with_prefix Z ZK_APP_EVENT_PREFIX event) :: (mina_tx_error, fp) outcome) (\<lambda>event_hash.
     unwrap (hash_with_prefix Z prefix [acc, event_hash]))"

definition hash_events :: "('r, 'sp) zk_env \<Rightarrow> rstr \<Rightarrow> rstr \<Rightarrow> fp list list \<Rightarrow> (mina_tx_error, fp) outcome" where
  "hash_events Z empty_prefix prefix data =
     foldr (\<lambda>event out. obind out (hash_event Z prefix event)) data (unwrap (hash_noinput Z empty_prefix))"

definition pack_events :: "('r, 'sp) zk_env \<Rightarrow> events \<Rightarrow> packing" where
  "pack_events Z e =
     obind (hash_events Z ZK_APP_EVENTS_EMPTY ZK_APP_EVENTS_PREFIX (events_data e)) put_field"

definition pack_actions :: "('r, 'sp) zk_env \<Rightarrow> actions \<Rightarrow> packing" where
  "pack_actions Z a =
     obind (hash_events Z ZK_APP_ACTIONS_EMPTY ZK_APP_ACTIONS_PREFIX (actions_data a)) put_field"

definition pack_timing_data :: "timing_data \<Rightarrow> packing" where
  "pack_timing_data t = pack_seq [put_u64 (initial_minimum_balance t), put_u32 (cliff_time t),
     put_u64 (cliff_amount t), put_u32 (vesting_period t), put_u64 (vesting_increment t)]"

definition pack_auth_required :: "auth_required \<Rightarrow> packing" where
  "pack_auth_required a =
     (let encoded_auth = encode a in
      pack_seq [put_bool (auth_constant encoded_auth), put_bool (signature_necessary encoded_auth),
        put_bool (signature_sufficient encoded_auth)])"

definition pack_set_verification_key :: "set_verification_key \<Rightarrow> packing" where
  "pack_set_verification_key s = pack_seq [pack_auth_required (auth s), put_u32 (txn_version s)]"

definition pack_verification_key_data :: "verification_key_data \<Rightarrow> packing" where
  "pack_verification_key_data v = put_field (vk_hash v)"

definition pack_balance_change :: "balance_change \<Rightarrow> packing" where
  "pack_balance_change b = pack_seq [put_u64 (magnitude b), put_bool (sgn b = 1)]"

definition pack_may_use_token :: "may_use_token \<Rightarrow> packing" where
  "pack_may_use_token m = pack_seq [put_bool (parents_own_token m), put_bool (inherit_from_parent m)]"

definition pack_authorization_kind :: "authorization_kind \<Rightarrow> packing" where
  "pack_authorization_kind a = pack_seq [put_bool (is_signed a), put_bool (is_proved a),
     put_field (verification_key_hash a)]"

definition pack_token_symbol :: "token_symbol \<Rightarrow> packing" where
  "pack_token_symbol t = obind (token_symbol_to_bytes t (replicate 6 0)) put_bytes"

definition uri_input :: "bytes \<Rightarrow> packed_input" where
  "uri_input s =
     append_bool
       (foldl (\<lambda>p c. foldl (\<lambda>p j. append_bool p (c AND push_bit j 1 \<noteq> 0)) p [0..<8]) packed_new s)
       True"

definition zkapp_uri_hash :: "('r, 'sp) zk_env \<Rightarrow> zkapp_uri \<Rightarrow> (mina_tx_error, fp) outcome" where
  "zkapp_uri_hash Z u =
     obind (pack_to_fields Z (uri_input (uri_bytes u))) (\<lambda>p.
     unwrap (hash_with_prefix Z MINA_ZKAPP_URI (packed_fields p)))"

definition pack_zkapp_uri :: "('r, 'sp) zk_env \<Rightarrow> zkapp_uri \<Rightarrow> packing" where
  "pack_zkapp_uri Z u = obind (zkapp_uri_hash Z u) put_field"

section \<open>Empty values\<close>

definition empty_field :: packing where "empty_field = pack_field 0"

definition empty_action_state :: "('r, 'sp) zk_env \<Rightarrow> packing" where
  "empty_action_state Z = obind (unwrap (hash_noinput Z ZK_ACTION_STATE_EMPTY)) put_field"

definition empty_verification_key_data :: packing where
  "empty_verification_key_data = empty_field"

definition empty_public_key :: "('r, 'sp) zk_env \<Rightarrow> packing" where
  "empty_public_key Z = pack_public_key (pubkey_empty Z)"

definition empty_token_symbol :: packing where
  "empty_token_symbol = pack_seq [pack_token_symbol (TokenSymbol [])]"

definition empty_timing_data :: packing where
  "empty_timing_data = pack_timing_data \<lparr>initial_minimum_balance = 0, cliff_time = 0,
     cliff_amount = 0, vesting_period = 0, vesting_increment = 0\<rparr>"

definition empty_range_u32 :: packing where
  "empty_range_u32 = pack_range_u32 \<lparr>lower = 0, upper = - 1\<rparr>"

definition empty_range_u64 :: packing where
  "empty_range_u64 = pack_range_u64 \<lparr>lower = 0, upper = - 1\<rparr>"

definition empty_zkapp_uri :: "('r, 'sp) zk_env \<Rightarrow> packing" where
  "empty_zkapp_uri Z =
     (let R = zk_roi Z; roi = roi_append_field R (roi_append_field R (roi_new R) 0) 0 in
      obind (unwrap (hash_with_prefix Z MINA_ZKAPP_URI (roi_to_fields R roi))) put_field)"

section \<open>Permissions, preconditions and updates\<close>

definition pack_permissions :: "permissions \<Rightarrow> packing" where
  "pack_permissions p = pack_seq
     [pack_auth_required (edit_state p), pack_auth_required (access p),
      pack_auth_required (send p), pack_auth_required (receive p),
      pack_auth_required (set_delegate p), pack_auth_required (set_permissions p),
      pack_set_verification_key (set_verification_key p), pack_auth_required (set_zkapp_uri p),
      pack_auth_required (edit_action_state p), pack_auth_required (set_token_symbol p),
      pack_auth_required (perm_increment_nonce p), pack_auth_required (set_voting_for p),
      pack_auth_required (set_timing p)]"

definition empty_permissions :: "('r, 'sp) zk_env \<Rightarrow> packing" where
  "empty_permissions Z = pack_permissions
     \<lparr>edit_state = AuthNone, access = AuthNone, send = AuthNone, receive = AuthNone,
      set_delegate = AuthNone, set_permissions = AuthNone,
      set_verification_key = \<lparr>auth = AuthNone, txn_version = TXN_VERSION_CURRENT Z\<rparr>,
      set_zkapp_uri = AuthNone, edit_action_state = AuthNone, set_token_symbol = AuthNone,
      perm_increment_nonce = AuthNone, set_voting_for = AuthNone, set_timing = AuthNone\<rparr>"

definition pack_opt_field :: "fp option \<Rightarrow> packing" where
  "pack_opt_field = pack_option pack_field empty_field"

definition pack_opt_range_u32 :: "u32 range_condition option \<Rightarrow> packing" where
  "pack_opt_range_u32 = pack_option pack_range_u32 empty_range_u32"

definition pack_opt_range_u64 :: "u64 range_condition option \<Rightarrow> packing" where
  "pack_opt_range_u64 = pack_option pack_range_u64 empty_range_u64"

definition pack_opt_public_key :: "('r, 'sp) zk_env \<Rightarrow> compressed_pubkey option \<Rightarrow> packing" where
  "pack_opt_public_key Z = pack_option pack_public_key (empty_public_key Z)"

definition pack_epoch_ledger :: "epoch_ledger \<Rightarrow> packing" where
  "pack_epoch_ledger e = pack_seq [pack_opt_field (el_hash e), pack_opt_range_u64 (el_total_currency e)]"

definition pack_epoch_data :: "epoch_data \<Rightarrow> packing" where
  "pack_epoch_data e = pack_seq [pack_epoch_ledger (ledger e), pack_opt_field (seed e),
     pack_opt_field (start_checkpoint e), pack_opt_field (lock_checkpoint e),
     pack_opt_range_u32 (epoch_length e)]"

definition pack_network_preconditions :: "network_preconditions \<Rightarrow> packing" where
  "pack_network_preconditions n = pack_seq
     [pack_opt_field (snarked_ledger_hash n), pack_opt_range_u32 (blockchain_length n),
      pack_opt_range_u32 (min_window_density n), pack_opt_range_u64 (np_total_currency n),
      pack_opt_range_u32 (global_slot_since_genesis n), pack_epoch_data (staking_epoch_data n),
      pack_epoch_data (next_epoch_data n)]"

definition pack_account_preconditions :: "('r, 'sp) zk_env \<Rightarrow> account_preconditions \<Rightarrow> packing" where
  "pack_account_preconditions Z a = pack_seq
     [pack_opt_range_u64 (balance a), pack_opt_range_u32 (ap_nonce a),
      pack_opt_field (receipt_chain_hash a), pack_opt_public_key Z (ap_delegate a),
      pack_array pack_opt_field (ap_state a),
      pack_option pack_action_state (empty_action_state Z) (action_state a),
      pack_option_bool (proved_state a), pack_option_bool (is_new a)]"

definition pack_preconditions :: "('r, 'sp) zk_env \<Rightarrow> preconditions \<Rightarrow> packing" where
  "pack_preconditions Z p = pack_seq
     [pack_network_preconditions (pre_network p), pack_account_preconditions Z (pre_account p),
      pack_opt_range_u32 (valid_while p)]"

definition pack_update :: "('r, 'sp) zk_env \<Rightarrow> update \<Rightarrow> packing" where
  "pack_update Z u = pack_seq
     [pack_array pack_opt_field (app_state u), pack_opt_public_key Z (delegate u),
      pack_option pack_verification_key_data empty_verification_key_data (verification_key u),
      pack_option pack_permissions (empty_permissions Z) (permissions u),
      pack_option (pack_zkapp_uri Z) (empty_zkapp_uri Z) (zkapp_uri u),
      pack_option pack_token_symbol empty_token_symbol (token_symbol u),
      pack_option pack_timing_data empty_timing_data (timing u),
      pack_opt_field (voting_for u)]"

definition pack_account_update_body :: "('r, 'sp) zk_env \<Rightarrow> account_update_body \<Rightarrow> packing" where
  "pack_account_update_body Z b = pack_seq
     [pack_public_key (public_key b), put_field (token_field (body_token_id b)),
      pack_update Z (body_update b), pack_balance_change (balance_change b),
      put_bool (increment_nonce b), pack_events Z (body_events b), pack_actions Z (body_actions b),
      put_field (call_data b), pack_preconditions Z (body_preconditions b),
      put_bool (use_full_commitment b), put_bool (implicit_account_creation_fee b),
      pack_may_use_token (may_use_token b), pack_authorization_kind (body_authorization_kind b)]"

definition pack_account_update :: "('r, 'sp) zk_env \<Rightarrow> account_update \<Rightarrow> packing" where
  "pack_account_update Z au = pack_account_update_body Z (au_body au)"

end
