(* ===== verification/Packable_Binding.thy ===== *)
theory Packable_Binding
  imports Packable_Types
begin

text \<open>
  What a packing commits to. The contract of a \<open>Packable\<close> implementation is that packings of
  one type have one shape and are equal exactly when the values have the same view; it is
  proved for every type of a transaction by composing the contracts of its parts.
\<close>

section \<open>The contract and its composition\<close>

definition packs_as :: "('a \<Rightarrow> bool) \<Rightarrow> ('a \<Rightarrow> packing) \<Rightarrow> ('a \<Rightarrow> 'v) \<Rightarrow> bool" where
  "packs_as valid pack view \<longleftrightarrow>
     (\<forall>x y p q. valid x \<longrightarrow> valid y \<longrightarrow> pack x = Ok p \<longrightarrow> pack y = Ok q \<longrightarrow>
        small p \<and> same_shape p q \<and> (p = q \<longleftrightarrow> view x = view y))"

named_theorems packs_intros \<open>contracts of packings\<close>

lemma packs_asD:
  assumes "packs_as valid pack view" and "valid x" and "valid y" and "pack x = Ok p" and "pack y = Ok q"
  shows "small p" and "same_shape p q" and "p = q \<longleftrightarrow> view x = view y"
  using assms unfolding packs_as_def by blast+

lemma packs_asI:
  assumes "\<And>x y p q. valid x \<Longrightarrow> valid y \<Longrightarrow> pack x = Ok p \<Longrightarrow> pack y = Ok q \<Longrightarrow>
    small p \<and> same_shape p q \<and> (p = q \<longleftrightarrow> view x = view y)"
  shows "packs_as valid pack view"
  using assms unfolding packs_as_def by blast

lemma packs_put [packs_intros]:
  "packs_as valid (\<lambda>x. put_field (f x)) f"
  "packs_as valid (\<lambda>x. put_bool (b x)) b"
  "packs_as valid (\<lambda>x. put_u32 (u x)) u"
  "packs_as valid (\<lambda>x. put_u64 (w x)) w"
  by (auto simp: packs_as_def append_defs small_def same_shape_def)

lemma packs_view_cong:
  assumes "packs_as valid pack view" and "\<And>x y. valid x \<Longrightarrow> valid y \<Longrightarrow> view x = view y \<longleftrightarrow> view' x = view' y"
  shows "packs_as valid pack view'"
  using assms unfolding packs_as_def by blast

lemma packs_comap:
  assumes "packs_as valid pack view" and "\<And>x. valid' x \<Longrightarrow> valid (g x)"
  shows "packs_as valid' (\<lambda>x. pack (g x)) (\<lambda>x. view (g x))"
  using assms unfolding packs_as_def by blast

lemma packs_part:
  "packs_as (\<lambda>_. True) pack view \<Longrightarrow> packs_as valid (\<lambda>x. pack (g x)) (\<lambda>x. view (g x))"
  by (rule packs_comap) simp_all

lemma pack_seq_Nil [simp]: "pack_seq [] = Ok 0"
  by (simp add: pack_seq_def zero_packed_input_def)

lemma pack_seq_Cons:
  "pack_seq (a # as) = obind a (\<lambda>x. obind (pack_seq as) (\<lambda>y. Ok (x + y)))"
  by (simp add: pack_seq_def pack_append_def plus_packed_input_def)

lemma packs_seq_Nil [packs_intros]: "packs_as valid (\<lambda>x. pack_seq []) (\<lambda>x. ())"
  by (simp add: packs_as_def)

lemma packs_seq_Cons [packs_intros]:
  assumes "packs_as valid pack view" and "packs_as valid (\<lambda>x. pack_seq (packs x)) views"
  shows "packs_as valid (\<lambda>x. pack_seq (pack x # packs x)) (\<lambda>x. (view x, views x))"
proof (rule packs_asI)
  fix x y p q
  assume valid: "valid x" "valid y" and "pack_seq (pack x # packs x) = Ok p" "pack_seq (pack y # packs y) = Ok q"
  then obtain p1 p2 q1 q2 where p: "pack x = Ok p1" "pack_seq (packs x) = Ok p2" "p = p1 + p2"
    and q: "pack y = Ok q1" "pack_seq (packs y) = Ok q2" "q = q1 + q2"
    by (auto simp: pack_seq_Cons outcome_simps)
  note 1 = packs_asD[OF assms(1) valid p(1) q(1)] and 2 = packs_asD[OF assms(2) valid p(2) q(2)]
  then show "small p \<and> same_shape p q \<and> (p = q \<longleftrightarrow> (view x, views x) = (view y, views y))"
    using p(3) q(3) by (simp add: same_shape_plus plus_inject)
qed

text \<open>What a client needs of a packing, whichever type it packs.\<close>

locale packable =
  fixes valid :: "'a \<Rightarrow> bool"
    and pack :: "'a \<Rightarrow> packing"
    and view :: "'a \<Rightarrow> 'v"
  assumes packs: "packs_as valid pack view"
begin

lemma pack_shape: "valid x \<Longrightarrow> valid y \<Longrightarrow> pack x = Ok p \<Longrightarrow> pack y = Ok q \<Longrightarrow> same_shape p q"
  using packs_asD(2)[OF packs] .

lemma pack_small: "valid x \<Longrightarrow> pack x = Ok p \<Longrightarrow> small p"
  using packs_asD(1)[OF packs] by blast

lemma pack_eq_iff:
  "valid x \<Longrightarrow> valid y \<Longrightarrow> pack x = Ok p \<Longrightarrow> pack y = Ok q \<Longrightarrow> p = q \<longleftrightarrow> view x = view y"
  using packs_asD(3)[OF packs] .

text \<open>Equal field lists come from values with equal views, and conversely.\<close>

lemma fields_iff_view:
  assumes "field_laws Z" and "valid x" and "valid y" and "pack x = Ok p" and "pack y = Ok q"
    and "pack_to_fields Z p = Ok r" and "pack_to_fields Z q = Ok r'"
  shows "packed_fields r = packed_fields r' \<longleftrightarrow> view x = view y"
proof
  assume "packed_fields r = packed_fields r'"
  then have "p = q"
    using pack_to_fields_inject[OF assms(1)] assms pack_small pack_shape by blast
  then show "view x = view y" using pack_eq_iff assms by blast
next
  assume "view x = view y"
  then have "p = q" using pack_eq_iff assms by blast
  then show "packed_fields r = packed_fields r'" using assms by simp
qed

lemma packs_list:
  "packs_as (\<lambda>xs. length xs = n \<and> list_all valid xs) (pack_array pack) (map view)"
proof (induction n)
  case 0
  then show ?case by (auto simp: packs_as_def pack_array_def)
next
  case (Suc n)
  show ?case
  proof (rule packs_asI)
    fix xs ys p q
    assume valid: "length xs = Suc n \<and> list_all valid xs" "length ys = Suc n \<and> list_all valid ys"
      and pack: "pack_array pack xs = Ok p" "pack_array pack ys = Ok q"
    from valid obtain x xs' y ys' where xs: "xs = x # xs'" "ys = y # ys'"
      by (auto simp: length_Suc_conv)
    then obtain p1 p2 q1 q2 where p: "pack x = Ok p1" "pack_array pack xs' = Ok p2" "p = p1 + p2"
      and q: "pack y = Ok q1" "pack_array pack ys' = Ok q2" "q = q1 + q2"
      using pack by (auto simp: pack_array_def pack_seq_Cons outcome_simps)
    have "valid x" "valid y" using valid xs by auto
    note 1 = packs_asD[OF packs this p(1) q(1)] and 2 = packs_asD[OF Suc.IH _ _ p(2) q(2)]
    show "small p \<and> same_shape p q \<and> (p = q \<longleftrightarrow> map view xs = map view ys)"
      using 1 2 valid xs p(3) q(3) by (simp add: same_shape_plus plus_inject)
  qed
qed

end

lemma pack_option_eq:
  "pack_option pack empty_roi m = obind (case m of None \<Rightarrow> empty_roi | Some x \<Rightarrow> pack x)
     (\<lambda>y. Ok (append_bool packed_new (m \<noteq> None) + y) :: packing)"
proof -
  have "obind (obind a (\<lambda>x. Ok (x + 0))) f = obind a f" for a :: packing and f :: "packed_input \<Rightarrow> packing"
    by (cases a) simp_all
  then show ?thesis by (simp only: pack_option_def pack_seq_Cons pack_seq_Nil obind.simps)
qed

text \<open>An \<open>Emptiable\<close> implementation provides a packing of the same shape for \<open>None\<close>.\<close>

locale emptiable = packable valid pack view
  for valid :: "'a \<Rightarrow> bool" and pack :: "'a \<Rightarrow> packing" and view :: "'a \<Rightarrow> 'v" +
  fixes empty_roi :: packing
  assumes empty_small: "empty_roi = Ok e \<Longrightarrow> small e"
    and empty_shape: "empty_roi = Ok e \<Longrightarrow> valid x \<Longrightarrow> pack x = Ok p \<Longrightarrow> same_shape p e"
begin

lemma packs_option:
  "packs_as (pred_option valid) (pack_option pack empty_roi) (map_option view)"
proof (rule packs_asI)
  fix m n p q
  assume valid: "pred_option valid m" "pred_option valid n"
    and pack: "pack_option pack empty_roi m = Ok p" "pack_option pack empty_roi n = Ok q"
  let ?part = "\<lambda>m. case m of None \<Rightarrow> empty_roi | Some x \<Rightarrow> pack x"
  obtain p1 q1 where p: "?part m = Ok p1" "p = append_bool packed_new (m \<noteq> None) + p1"
    and q: "?part n = Ok q1" "q = append_bool packed_new (n \<noteq> None) + q1"
    using pack unfolding pack_option_eq obind_Ok_iff by blast
  have flag: "same_shape (append_bool packed_new a) (append_bool packed_new b)"
    "small (append_bool packed_new a)"
    "append_bool packed_new a = append_bool packed_new b \<longleftrightarrow> a = b" for a b
    by (simp_all add: append_defs same_shape_def small_def)
  have "same_shape p1 q1"
  proof (cases m)
    case None
    then show ?thesis
      using p(1) q(1) valid same_shape_sym[OF empty_shape[of p1 "the n" q1]] by (cases n) auto
  next
    case (Some x)
    then show ?thesis
      using p(1) q(1) valid empty_shape[of q1 x p1] pack_shape[of x "the n" p1 q1] by (cases n) auto
  qed
  moreover have "small p1"
    using p(1) valid pack_small[of "the m" p1] empty_small[of p1] by (cases m) auto
  ultimately have part: "same_shape p1 q1" "small p1" by simp_all
  have "m \<noteq> None \<longleftrightarrow> n \<noteq> None \<Longrightarrow> p1 = q1 \<longleftrightarrow> map_option view m = map_option view n"
    using p(1) q(1) valid pack_eq_iff[of "the m" "the n" p1 q1] by (cases m; cases n) auto
  moreover have "m \<noteq> None \<longleftrightarrow> n \<noteq> None" if "map_option view m = map_option view n"
    using that by (cases m; cases n) auto
  ultimately show "small p \<and> same_shape p q \<and> (p = q \<longleftrightarrow> map_option view m = map_option view n)"
    unfolding p(2) q(2) plus_inject[OF flag(1)] flag(3)
    using part flag(1,2) by (auto simp: same_shape_plus)
qed

end

sublocale emptiable \<subseteq> opt: packable "pred_option valid" "pack_option pack empty_roi" "map_option view"
  by unfold_locales (rule packs_option)

section \<open>The contracts of the types of a transaction\<close>

abbreviation any :: "'a \<Rightarrow> bool" where "any \<equiv> \<lambda>_. True"

text \<open>Leaves with an empty value.\<close>

interpretation field_pack: emptiable any pack_field "\<lambda>f. f" empty_field
  by unfold_locales
    (auto simp: packs_as_def pack_field_def empty_field_def append_defs small_def same_shape_def)

interpretation action_state_pack: emptiable any pack_action_state "\<lambda>a. a" "empty_action_state Z" for Z
  by unfold_locales
    (auto simp: packs_as_def pack_action_state_def empty_action_state_def append_defs small_def
      same_shape_def outcome_simps action_state.expand)

interpretation range_u32_pack: emptiable any pack_range_u32 "\<lambda>r. r" empty_range_u32
  by unfold_locales
    (auto simp: packs_as_def pack_range_u32_def empty_range_u32_def append_defs small_def same_shape_def)

interpretation range_u64_pack: emptiable any pack_range_u64 "\<lambda>r. r" empty_range_u64
  by unfold_locales
    (auto simp: packs_as_def pack_range_u64_def empty_range_u64_def append_defs small_def same_shape_def)

interpretation public_key_pack: emptiable any pack_public_key "\<lambda>pk. pk" "empty_public_key Z" for Z
  by unfold_locales
    (auto simp: packs_as_def pack_public_key_def empty_public_key_def append_defs small_def same_shape_def)

interpretation vk_pack: emptiable any pack_verification_key_data vk_hash empty_verification_key_data
  by unfold_locales
    (auto simp: packs_as_def pack_verification_key_data_def empty_verification_key_data_def
      empty_field_def pack_field_def append_defs small_def same_shape_def)

definition padded_symbol :: "token_symbol \<Rightarrow> bytes" where
  "padded_symbol t = symbol_bytes t @ replicate (6 - length (symbol_bytes t)) 0"

lemma pack_token_symbol_Ok:
  "pack_token_symbol t = Ok p \<longleftrightarrow>
    length (symbol_bytes t) \<le> 6 \<and> p = append_bytes packed_new (padded_symbol t)"
  by (cases "length (symbol_bytes t) \<le> 6")
    (auto simp: pack_token_symbol_def token_symbol_to_bytes_ok token_symbol_to_bytes_long padded_symbol_def)

lemma length_padded_symbol: "length (symbol_bytes t) \<le> 6 \<Longrightarrow> length (padded_symbol t) = 6"
  by (simp add: padded_symbol_def)

interpretation token_symbol_pack: emptiable any pack_token_symbol padded_symbol empty_token_symbol
proof -
  have e: "empty_token_symbol = Ok e \<longleftrightarrow> e = append_bytes packed_new (replicate 6 0)" for e
    by (auto simp: empty_token_symbol_def pack_seq_Cons outcome_simps pack_token_symbol_Ok
        padded_symbol_def)
  show "emptiable any pack_token_symbol padded_symbol empty_token_symbol"
    by unfold_locales
      (auto simp: packs_as_def pack_token_symbol_Ok e append_defs small_def same_shape_def
        length_padded_symbol)
qed

interpretation zkapp_uri_pack: emptiable any "pack_zkapp_uri Z" "zkapp_uri_hash Z" "empty_zkapp_uri Z" for Z
  by unfold_locales
    (auto simp: packs_as_def pack_zkapp_uri_def empty_zkapp_uri_def outcome_simps append_defs
      small_def same_shape_def Let_def)

lemma map_option_ident: "map_option (\<lambda>x. x) = (\<lambda>m. m)"
  by (rule ext) (simp add: option.map_ident)

lemmas opt_simps = option.pred_True map_option_ident

lemma packs_opt_field: "packs_as any pack_opt_field (\<lambda>m. m)"
  using field_pack.opt.packs by (simp add: pack_opt_field_def opt_simps)

lemma packs_opt_range_u32: "packs_as any pack_opt_range_u32 (\<lambda>m. m)"
  using range_u32_pack.opt.packs by (simp add: pack_opt_range_u32_def opt_simps)

lemma packs_opt_range_u64: "packs_as any pack_opt_range_u64 (\<lambda>m. m)"
  using range_u64_pack.opt.packs by (simp add: pack_opt_range_u64_def opt_simps)

lemma packs_opt_public_key: "packs_as any (pack_opt_public_key Z) (\<lambda>m. m)"
  using public_key_pack.opt.packs[of Z] by (simp add: pack_opt_public_key_def opt_simps)

lemma packs_option_bool: "packs_as any pack_option_bool (\<lambda>m. m)"
  by (auto simp: packs_as_def pack_option_bool_def append_defs small_def same_shape_def split: option.splits)

interpretation opt_field_pack: packable any pack_opt_field "\<lambda>m. m"
  by unfold_locales (rule packs_opt_field)

text \<open>Composite types: their packings determine them.\<close>

lemma packs_auth_required: "packs_as any pack_auth_required (\<lambda>a. a)"
proof (rule packs_view_cong)
  show "packs_as any pack_auth_required
      (\<lambda>a. (auth_constant (encode a), signature_necessary (encode a), signature_sufficient (encode a), ()))"
    unfolding pack_auth_required_def[abs_def] Let_def by (intro packs_intros)
  show "(auth_constant (encode x), signature_necessary (encode x), signature_sufficient (encode x), ()) =
      (auth_constant (encode y), signature_necessary (encode y), signature_sufficient (encode y), ()) \<longleftrightarrow> x = y"
    for x y by (cases x; cases y) simp_all
qed

lemmas [packs_intros] = packs_part[OF packs_auth_required] packs_part[OF public_key_pack.packs]
  packs_part[OF packs_opt_field] packs_part[OF packs_opt_range_u32] packs_part[OF packs_opt_range_u64]
  packs_part[OF packs_opt_public_key] packs_part[OF packs_option_bool]
  packs_part[OF action_state_pack.opt.packs[unfolded opt_simps]]
  packs_part[OF vk_pack.opt.packs[unfolded option.pred_True]]
  packs_part[OF token_symbol_pack.opt.packs[unfolded option.pred_True]]
  packs_part[OF zkapp_uri_pack.opt.packs[unfolded option.pred_True]]

lemma packs_set_verification_key: "packs_as any pack_set_verification_key (\<lambda>x. x)"
  unfolding pack_set_verification_key_def[abs_def]
  by (rule packs_view_cong, (rule packs_intros)+) (auto intro!: set_verification_key.equality)

lemmas [packs_intros] = packs_part[OF packs_set_verification_key]

lemma packs_permissions: "packs_as any pack_permissions (\<lambda>x. x)"
  unfolding pack_permissions_def[abs_def]
  by (rule packs_view_cong, (rule packs_intros)+) (auto intro!: permissions.equality)

lemmas [packs_intros] = packs_part[OF packs_permissions]

lemma packs_timing_data: "packs_as any pack_timing_data (\<lambda>x. x)"
  unfolding pack_timing_data_def[abs_def]
  by (rule packs_view_cong, (rule packs_intros)+) (auto intro!: timing_data.equality)

lemmas [packs_intros] = packs_part[OF packs_timing_data]

lemma packs_may_use_token: "packs_as any pack_may_use_token (\<lambda>x. x)"
  unfolding pack_may_use_token_def[abs_def]
  by (rule packs_view_cong, (rule packs_intros)+) (auto intro!: may_use_token.equality)

lemmas [packs_intros] = packs_part[OF packs_may_use_token]

lemma packs_authorization_kind: "packs_as any pack_authorization_kind (\<lambda>x. x)"
  unfolding pack_authorization_kind_def[abs_def]
  by (rule packs_view_cong, (rule packs_intros)+) (auto intro!: authorization_kind.equality)

lemmas [packs_intros] = packs_part[OF packs_authorization_kind]

lemma packs_epoch_ledger: "packs_as any pack_epoch_ledger (\<lambda>x. x)"
  unfolding pack_epoch_ledger_def[abs_def]
  by (rule packs_view_cong, (rule packs_intros)+) (auto intro!: epoch_ledger.equality)

lemmas [packs_intros] = packs_part[OF packs_epoch_ledger]

lemma packs_epoch_data: "packs_as any pack_epoch_data (\<lambda>x. x)"
  unfolding pack_epoch_data_def[abs_def]
  by (rule packs_view_cong, (rule packs_intros)+) (auto intro!: epoch_data.equality)

lemmas [packs_intros] = packs_part[OF packs_epoch_data]

lemma packs_network_preconditions: "packs_as any pack_network_preconditions (\<lambda>x. x)"
  unfolding pack_network_preconditions_def[abs_def]
  by (rule packs_view_cong, (rule packs_intros)+) (auto intro!: network_preconditions.equality)

lemmas [packs_intros] = packs_part[OF packs_network_preconditions]

lemma emptiable_of_value:
  assumes "packs_as any pack view" and "empty_roi = pack e"
  shows "emptiable any pack view empty_roi"
  by unfold_locales (use assms packs_asD[OF assms(1)] in auto)

interpretation permissions_pack: emptiable any pack_permissions "\<lambda>p. p" "empty_permissions Z" for Z
  by (rule emptiable_of_value[OF packs_permissions]) (simp add: empty_permissions_def)

interpretation timing_data_pack: emptiable any pack_timing_data "\<lambda>t. t" empty_timing_data
  by (rule emptiable_of_value[OF packs_timing_data]) (simp add: empty_timing_data_def)

lemmas [packs_intros] = packs_part[OF permissions_pack.opt.packs[unfolded opt_simps]]
  packs_part[OF timing_data_pack.opt.packs[unfolded opt_simps]]

lemma packs_array_part:
  assumes "\<And>x. valid x \<Longrightarrow> length (g x) = n"
  shows "packs_as valid (\<lambda>x. pack_array pack_opt_field (g x)) g"
  using packs_comap[OF opt_field_pack.packs_list[of n, unfolded list.map_ident], of valid g] assms
  by (simp add: list.pred_True list.map_ident)

lemma packs_account_preconditions:
  "packs_as (\<lambda>a. length (ap_state a) = APP_STATE_LENGTH Z) (pack_account_preconditions Z) (\<lambda>a. a)"
  unfolding pack_account_preconditions_def[abs_def]
  by (rule packs_view_cong, (rule packs_intros packs_array_part | assumption)+)
    (auto intro!: account_preconditions.equality)

lemma packs_preconditions:
  "packs_as (\<lambda>p. length (ap_state (pre_account p)) = APP_STATE_LENGTH Z) (pack_preconditions Z) (\<lambda>p. p)"
  unfolding pack_preconditions_def[abs_def]
  by (rule packs_view_cong,
      (rule packs_intros packs_comap[OF packs_account_preconditions] | assumption)+)
    (auto intro!: preconditions.equality)

lemma packs_balance_change:
  "packs_as any pack_balance_change (\<lambda>b. (magnitude b, sgn b = 1))"
  unfolding pack_balance_change_def[abs_def]
  by (rule packs_view_cong, (rule packs_intros)+) auto

definition view_update :: "('r, 'sp) zk_env \<Rightarrow> update \<Rightarrow> _" where
  "view_update Z u =
     (app_state u, delegate u, map_option vk_hash (verification_key u), permissions u,
      map_option (zkapp_uri_hash Z) (zkapp_uri u), map_option padded_symbol (token_symbol u),
      timing u, voting_for u)"

lemma packs_update:
  "packs_as (\<lambda>u. length (app_state u) = APP_STATE_LENGTH Z) (pack_update Z) (view_update Z)"
  unfolding pack_update_def[abs_def]
  by (rule packs_view_cong, (rule packs_intros packs_array_part | assumption)+)
    (auto simp: view_update_def)

lemma packs_events: "packs_as any (pack_events Z)
    (\<lambda>e. hash_events Z ZK_APP_EVENTS_EMPTY ZK_APP_EVENTS_PREFIX (events_data e))"
  by (auto simp: packs_as_def pack_events_def outcome_simps append_defs small_def same_shape_def)

lemma packs_actions: "packs_as any (pack_actions Z)
    (\<lambda>a. hash_events Z ZK_APP_ACTIONS_EMPTY ZK_APP_ACTIONS_PREFIX (actions_data a))"
  by (auto simp: packs_as_def pack_actions_def outcome_simps append_defs small_def same_shape_def)

text \<open>
  The view of an account update: everything except the call depth, the data of the
  verification key and the sign other than plus one; the events, the actions and the URI by
  their digests, the token symbol padded with zeros.
\<close>

definition view_body :: "('r, 'sp) zk_env \<Rightarrow> account_update_body \<Rightarrow> _" where
  "view_body Z b =
     ((public_key b, body_token_id b, view_update Z (body_update b),
       magnitude (balance_change b), sgn (balance_change b) = 1, increment_nonce b),
      (hash_events Z ZK_APP_EVENTS_EMPTY ZK_APP_EVENTS_PREFIX (events_data (body_events b)),
       hash_events Z ZK_APP_ACTIONS_EMPTY ZK_APP_ACTIONS_PREFIX (actions_data (body_actions b))),
      (call_data b, body_preconditions b, use_full_commitment b, implicit_account_creation_fee b,
       may_use_token b, body_authorization_kind b))"

lemma packs_body: "packs_as (wf_body Z) (pack_account_update_body Z) (view_body Z)"
  unfolding pack_account_update_body_def[abs_def]
proof (rule packs_view_cong)
  let ?view = "\<lambda>b. (public_key b, token_field (body_token_id b), view_update Z (body_update b),
       (magnitude (balance_change b), sgn (balance_change b) = 1), increment_nonce b,
       hash_events Z ZK_APP_EVENTS_EMPTY ZK_APP_EVENTS_PREFIX (events_data (body_events b)),
       hash_events Z ZK_APP_ACTIONS_EMPTY ZK_APP_ACTIONS_PREFIX (actions_data (body_actions b)),
       call_data b, body_preconditions b, use_full_commitment b, implicit_account_creation_fee b,
       may_use_token b, body_authorization_kind b, ())"
  show "packs_as (wf_body Z) (\<lambda>b. pack_seq
     [pack_public_key (public_key b), put_field (token_field (body_token_id b)),
      pack_update Z (body_update b), pack_balance_change (balance_change b),
      put_bool (increment_nonce b), pack_events Z (body_events b), pack_actions Z (body_actions b),
      put_field (call_data b), pack_preconditions Z (body_preconditions b),
      put_bool (use_full_commitment b), put_bool (implicit_account_creation_fee b),
      pack_may_use_token (may_use_token b), pack_authorization_kind (body_authorization_kind b)]) ?view"
    by (rule packs_intros packs_part[OF packs_balance_change] packs_part[OF packs_events]
        packs_part[OF packs_actions] packs_comap[OF packs_update] packs_comap[OF packs_preconditions]
        | simp add: wf_body_def)+
  show "?view x = ?view y \<longleftrightarrow> view_body Z x = view_body Z y" for x y
    by (auto simp: view_body_def token_id.expand)
qed

interpretation body_pack: packable "wf_body Z" "pack_account_update_body Z" "view_body Z" for Z
  by unfold_locales (rule packs_body)

end
