(* ===== verification/Zk_Commit.thy ===== *)
theory Zk_Commit
  imports Packable_Binding Signatures
begin

text \<open>
  The commitment of a zkApp command, \<^verbatim>\<open>zkapp_tx/commit.rs\<close>, and the random-oracle input made
  of it (\<open>ZKAppCommandHashable\<close> in \<^verbatim>\<open>zkapp_tx.rs\<close>).
\<close>

section \<open>Call forests\<close>

datatype call_tree = CallTree account_update "call_tree list"

type_synonym call_forest = "call_tree list"

abbreviation depth_of :: "account_update \<Rightarrow> u32" where
  "depth_of au \<equiv> call_depth (au_body au)"

text \<open>The queue of updates is threaded through: a step returns the forest and what is left.\<close>

function forest_step :: "account_update list \<Rightarrow> u32 \<Rightarrow> call_forest \<times> account_update list" where
  "forest_step [] depth = ([], [])"
| "forest_step (update # updates) depth =
     (if depth_of update < depth then ([], update # updates)
      else (let (children, updates') = forest_step updates (depth + 1);
                (siblings, updates'') = forest_step updates' depth
            in (CallTree update children # siblings, updates'')))"
  by pat_completeness auto

lemma forest_step_shrinks:
  "forest_step_dom (us, d) \<Longrightarrow> length (snd (forest_step us d)) \<le> length us"
proof (induction us d rule: forest_step.pinduct)
  case (2 update updates depth)
  then show ?case
    by (auto simp: forest_step.psimps Let_def split: prod.splits)
      (metis dual_order.trans le_SucI snd_conv)
qed (simp add: forest_step.psimps)

termination forest_step
proof (relation "measure (\<lambda>(us, d). length us)")
  fix update updates depth x children updates'
  assume "x = forest_step updates (depth + 1)" "(children, updates') = x"
    and "forest_step_dom (updates, depth + 1)"
  then show "((updates', depth), update # updates, depth) \<in> measure (\<lambda>(us, d). length us)"
    using forest_step_shrinks[of updates "depth + 1"] by (auto simp: le_imp_less_Suc dest: sym)
qed auto

definition call_forest_of_updates :: "account_update list \<Rightarrow> call_forest" where
  "call_forest_of_updates updates = fst (forest_step updates 0)"

definition call_forest_of_command :: "zkapp_command \<Rightarrow> call_forest" where
  "call_forest_of_command tx = call_forest_of_updates (account_updates tx)"

text \<open>The scan of the recorded call depths.\<close>

fun depths_follow :: "u32 \<Rightarrow> u32 list \<Rightarrow> bool" where
  "depths_follow current [] = True"
| "depths_follow current (d # ds) = (if d \<le> current + 1 then depths_follow d ds else False)"

definition is_call_depth_valid :: "zkapp_command \<Rightarrow> bool" where
  "is_call_depth_valid tx =
     (let call_depths = map depth_of (account_updates tx);
          (current, call_depths') = (case call_depths of d # ds \<Rightarrow> (d, ds) | [] \<Rightarrow> (0, []))
      in if current \<noteq> 0 then False else depths_follow current call_depths')"

section \<open>Hashing\<close>

definition assert_account_update_authorization_kind ::
  "('r, 'sp) zk_env \<Rightarrow> account_update \<Rightarrow> (mina_tx_error, unit) outcome" where
  "assert_account_update_authorization_kind Z au =
     (let kind = body_authorization_kind (au_body au) in
      if is_proved kind \<and> is_signed kind
      then Err (InvalidZkAppCommand (lit ''Invalid authorization kind: Only one of `isProved` and `isSigned` may be true.''))
      else if \<not> is_proved kind \<and> verification_key_hash kind \<noteq> DUMMY_HASH
      then Err (InvalidZkAppCommand
             (lit ''Invalid authorization kind: If `isProved` is false, verification key hash must be '' @
              field_display Z DUMMY_HASH @ lit '', got '' @ field_display Z (verification_key_hash kind)))
      else Ok ())"

definition hash_account_update ::
  "('r, 'sp) zk_env \<Rightarrow> account_update \<Rightarrow> network_id \<Rightarrow> (mina_tx_error, fp) outcome" where
  "hash_account_update Z au network =
     obind (assert_account_update_authorization_kind Z au) (\<lambda>_.
     obind (pack_account_update Z au) (\<lambda>packed.
     obind (pack_to_fields Z packed) (\<lambda>inputs.
     hash_with_prefix Z (network_zk network) (packed_fields inputs))))"

definition hash_fee_payer ::
  "('r, 'sp) zk_env \<Rightarrow> fee_payer \<Rightarrow> network_id \<Rightarrow> (mina_tx_error, fp) outcome" where
  "hash_fee_payer Z payer network = hash_account_update Z (account_update_of_fee_payer Z payer) network"

definition memo_bits :: "bytes \<Rightarrow> bool list" where
  "memo_bits memo = concat (map (\<lambda>byte. map (\<lambda>i. drop_bit i byte AND 1 \<noteq> 0) [0..<8]) memo)"

definition memo_hash :: "('r, 'sp) zk_env \<Rightarrow> zkapp_command \<Rightarrow> (mina_tx_error, fp) outcome" where
  "memo_hash Z tx =
     hash_with_prefix Z ZK_APP_MEMO (pack_bool_to_field_legacy (zk_roi Z) (memo_bits (zk_memo tx)))"

fun call_forest_hash ::
  "('r, 'sp) zk_env \<Rightarrow> network_id \<Rightarrow> call_forest \<Rightarrow> (mina_tx_error, fp) outcome" where
  "call_forest_hash Z network [] = Ok EMPTY_STACK_HASH"
| "call_forest_hash Z network (CallTree update children # rest) =
     obind (call_forest_hash Z network rest) (\<lambda>stack_hash.
     obind (call_forest_hash Z network children) (\<lambda>calls.
     obind (hash_account_update Z update network) (\<lambda>tree_hash.
     obind (hash_with_prefix Z PREFIX_ACCOUNT_UPDATE_NODE [tree_hash, calls]) (\<lambda>node_hash.
     hash_with_prefix Z PREFIX_ACCOUNT_UPDATE_CONS [node_hash, stack_hash]))))"

definition zk_commit ::
  "('r, 'sp) zk_env \<Rightarrow> zkapp_command \<Rightarrow> network_id \<Rightarrow> (mina_tx_error, fp \<times> fp) outcome" where
  "zk_commit Z tx network =
     (if \<not> is_call_depth_valid tx
      then Err (InvalidZkAppCommand (lit ''Call depths are not valid''))
      else obind (call_forest_hash Z network (call_forest_of_command tx)) (\<lambda>updates_commitment.
           obind (memo_hash Z tx) (\<lambda>memo.
           obind (hash_fee_payer Z (fee_payer tx) network) (\<lambda>payer.
           obind (hash_with_prefix Z PREFIX_ACCOUNT_UPDATE_CONS [memo, payer, updates_commitment])
             (\<lambda>full_commit. Ok (updates_commitment, full_commit))))))"

text \<open>\<open>to_roinput\<close> unwraps the commitment: an error of \<open>zk_commit\<close> is a panic of the caller.\<close>

definition zk_to_roinput ::
  "('r, 'sp) zk_env \<Rightarrow> zkapp_command \<Rightarrow> network_id \<Rightarrow> (mina_tx_error, 'r) outcome" where
  "zk_to_roinput Z tx network =
     obind (unwrap (zk_commit Z tx network) :: (mina_tx_error, fp \<times> fp) outcome) (\<lambda>(_, commit).
     Ok (roi_append_field (zk_roi Z) (roi_new (zk_roi Z)) commit))"

definition zk_domain_string :: "network_id \<Rightarrow> rstr option" where
  "zk_domain_string network = Some (into_domain_string network)"

section \<open>The forest of a command\<close>

text \<open>The updates of a forest in order, each with its depth in the forest.\<close>

fun flatten :: "nat \<Rightarrow> call_forest \<Rightarrow> (account_update \<times> nat) list" where
  "flatten d [] = []"
| "flatten d (CallTree update children # rest) =
     (update, d) # flatten (Suc d) children @ flatten d rest"

fun follow :: "nat list \<Rightarrow> bool" where
  "follow [] \<longleftrightarrow> True"
| "follow [d] \<longleftrightarrow> True"
| "follow (d # e # ds) \<longleftrightarrow> e \<le> Suc d \<and> follow (e # ds)"

lemma forest_step_induct [case_names Nil Stop Step]:
  assumes "\<And>d. P [] d"
    and "\<And>u us d. depth_of u < d \<Longrightarrow> P (u # us) d"
    and "\<And>u us d ch us' sib us''. \<not> depth_of u < d \<Longrightarrow> forest_step us (d + 1) = (ch, us') \<Longrightarrow>
      forest_step us' d = (sib, us'') \<Longrightarrow> P us (d + 1) \<Longrightarrow> P us' d \<Longrightarrow> P (u # us) d"
  shows "P us d"
proof (induction us d rule: forest_step.induct)
  case (2 update updates depth)
  show ?case
  proof (cases "depth_of update < depth")
    case False
    obtain ch us' where s1: "forest_step updates (depth + 1) = (ch, us')" by fastforce
    obtain sib us'' where s2: "forest_step us' depth = (sib, us'')" by fastforce
    show ?thesis using assms(3)[OF False s1 s2] 2 False s1 by simp
  qed (rule assms(2))
qed (rule assms(1))

lemma forest_step_Step [simp]:
  "\<not> depth_of u < d \<Longrightarrow> forest_step us (d + 1) = (ch, us') \<Longrightarrow> forest_step us' d = (sib, us'') \<Longrightarrow>
    forest_step (u # us) d = (CallTree u ch # sib, us'')"
  by simp

lemma forest_step_Stop [simp]: "depth_of u < d \<Longrightarrow> forest_step (u # us) d = ([], u # us)"
  by simp

declare forest_step.simps(2) [simp del]

text \<open>Whatever the depths say, the builder consumes every update exactly once and in order.\<close>

lemma forest_step_order:
  "map fst (flatten n (fst (forest_step us d))) @ snd (forest_step us d) = us"
  by (induction us d arbitrary: n rule: forest_step_induct) auto

lemma forest_step_rest:
  "case snd (forest_step us d) of [] \<Rightarrow> True | u # _ \<Rightarrow> depth_of u < d"
  by (induction us d rule: forest_step_induct) auto

lemma follow_append_iff:
  "follow (xs @ ys) \<longleftrightarrow> follow xs \<and> follow ys \<and> (xs = [] \<or> ys = [] \<or> hd ys \<le> Suc (last xs))"
  by (induction xs rule: follow.induct) (cases ys; auto)+

abbreviation recorded :: "account_update list \<Rightarrow> (account_update \<times> nat) list" where
  "recorded us \<equiv> map (\<lambda>u. (u, unat (depth_of u))) us"

lemma forest_step_depths:
  assumes "follow (map (\<lambda>u. unat (depth_of u)) us)" and "unat d + length us < 2 ^ 32"
    and "us \<noteq> [] \<longrightarrow> depth_of (hd us) \<le> d"
  shows "flatten (unat d) (fst (forest_step us d)) @ recorded (snd (forest_step us d)) = recorded us"
  using assms
proof (induction us d rule: forest_step_induct)
  case (Step u us d ch us' sib us'')
  have suc: "unat (d + 1) = Suc (unat d)"
    using Step.prems(2) by (simp add: unat_word_ariths)
  have d: "unat (depth_of u) = unat d" using Step.prems(3) Step.hyps(1) by simp
  have "map fst (flatten 0 ch) @ us' = us" using forest_step_order[of 0 us "d + 1"] Step.hyps(2) by simp
  then obtain pre where us: "us = pre @ us'" by metis
  have follows: "follow (map (\<lambda>u. unat (depth_of u)) us)"
    using Step.prems(1) by (cases us) simp_all
  have "us \<noteq> [] \<longrightarrow> depth_of (hd us) \<le> d + 1"
    using Step.prems(1) d suc by (cases us) (simp_all add: word_le_nat_alt)
  then have 1: "flatten (Suc (unat d)) ch @ recorded us' = recorded us"
    using Step.IH(1)[OF follows] Step.prems(2) Step.hyps(2) suc by simp
  have "follow (map (\<lambda>u. unat (depth_of u)) us')"
    using follows us by (simp add: follow_append_iff)
  moreover have "us' \<noteq> [] \<longrightarrow> depth_of (hd us') \<le> d"
    using forest_step_rest[where us = us and d = "d + 1"] Step.hyps(2) suc
    by (cases us') (simp_all add: word_le_nat_alt word_less_nat_alt)
  ultimately have "flatten (unat d) sib @ recorded us'' = recorded us'"
    using Step.IH(2) Step.prems(2) Step.hyps(3) us by simp
  then show ?case using 1 d Step.hyps by simp
qed auto

lemma forest_depths:
  assumes "follow (map (\<lambda>u. unat (depth_of u)) us)" and "length us < 2 ^ 32"
    and "us \<noteq> [] \<longrightarrow> depth_of (hd us) = 0"
  shows "flatten 0 (call_forest_of_updates us) = recorded us"
proof -
  have "snd (forest_step us 0) = []"
    using forest_step_rest[where us = us and d = 0] by (cases "snd (forest_step us 0)") auto
  then show ?thesis
    using forest_step_depths[of us 0] assms by (simp add: call_forest_of_updates_def)
qed

text \<open>Depths in a forest always follow each other, so only valid depths can be recorded.\<close>

lemma flatten_hd: "F \<noteq> [] \<Longrightarrow> flatten d F \<noteq> [] \<and> snd (hd (flatten d F)) = d"
  by (cases "(d, F)" rule: flatten.cases) auto

lemma flatten_ge: "x \<in> set (flatten d F) \<Longrightarrow> d \<le> snd x"
  by (induction d F rule: flatten.induct) auto

lemma follow_flatten: "follow (map snd (flatten d F))"
proof (induction d F rule: flatten.induct)
  case (2 d u children rest)
  let ?c = "map snd (flatten (Suc d) children)" and ?r = "map snd (flatten d rest)"
  have hd_r: "?r \<noteq> [] \<Longrightarrow> hd ?r = d"
    using flatten_hd[of rest d] by (cases rest) (auto simp: hd_map)
  have hd_c: "?c \<noteq> [] \<Longrightarrow> hd ?c = Suc d"
    using flatten_hd[of children "Suc d"] by (cases children) (auto simp: hd_map)
  have "?c \<noteq> [] \<Longrightarrow> Suc d \<le> last ?c"
    using flatten_ge[of _ "Suc d" children] by (metis imageE last_in_set list.set_map)
  then have "?c = [] \<or> ?r = [] \<or> hd ?r \<le> Suc (last ?c)" using hd_r by fastforce
  then have cr: "follow (?c @ ?r)" using 2 by (simp only: follow_append_iff)
  have "?c @ ?r \<noteq> [] \<Longrightarrow> hd (?c @ ?r) \<le> Suc d"
    using hd_c hd_r by (cases ?c) auto
  then show ?case using cr by (cases "?c @ ?r") auto
qed simp

lemma depths_follow_iff:
  assumes "unat c + length ds < 2 ^ 32"
  shows "depths_follow c ds \<longleftrightarrow> follow (unat c # map unat ds)"
  using assms
proof (induction ds arbitrary: c)
  case (Cons d ds)
  have "unat (c + 1) = Suc (unat c)" using Cons.prems by (simp add: unat_word_ariths)
  then show ?case using Cons by (auto simp: word_le_nat_alt)
qed simp

lemma is_call_depth_valid_iff:
  assumes "length (account_updates tx) < 2 ^ 32"
  shows "is_call_depth_valid tx \<longleftrightarrow> follow (map (\<lambda>u. unat (depth_of u)) (account_updates tx)) \<and>
    (account_updates tx \<noteq> [] \<longrightarrow> depth_of (hd (account_updates tx)) = 0)"
proof (cases "account_updates tx")
  case (Cons u us)
  then show ?thesis
    using assms depths_follow_iff[of 0 "map depth_of us"]
    by (auto simp: is_call_depth_valid_def comp_def)
qed (simp add: is_call_depth_valid_def)

text \<open>
  C18: the depth scan accepts a command exactly when every recorded call depth is the depth of
  its update in the forest the command is hashed as, and that forest has all the updates in order.
\<close>

theorem call_depths_valid_iff_recorded:
  assumes "length (account_updates tx) < 2 ^ 32"
  shows "is_call_depth_valid tx \<longleftrightarrow> flatten 0 (call_forest_of_command tx) = recorded (account_updates tx)"
  unfolding is_call_depth_valid_iff[OF assms] call_forest_of_command_def
proof
  let ?us = "account_updates tx"
  assume "flatten 0 (call_forest_of_updates ?us) = recorded ?us"
  moreover from this have "map snd (flatten 0 (call_forest_of_updates ?us)) =
      map (\<lambda>u. unat (depth_of u)) ?us" by simp
  moreover note follow_flatten[of 0 "call_forest_of_updates ?us"]
  ultimately show "follow (map (\<lambda>u. unat (depth_of u)) ?us) \<and> (?us \<noteq> [] \<longrightarrow> depth_of (hd ?us) = 0)"
    using flatten_hd[of "call_forest_of_updates ?us" 0]
    by (cases ?us; cases "call_forest_of_updates ?us") (auto simp: unsigned_eq_0_iff comp_def)
qed (use forest_depths assms in blast)

section \<open>The commitment looks at bodies only\<close>

fun map_forest :: "(account_update \<Rightarrow> account_update) \<Rightarrow> call_forest \<Rightarrow> call_forest" where
  "map_forest f [] = []"
| "map_forest f (CallTree u children # rest) =
     CallTree (f u) (map_forest f children) # map_forest f rest"

lemma forest_step_map:
  assumes "\<And>u. au_body (f u) = au_body u"
  shows "forest_step (map f us) d =
    (map_forest f (fst (forest_step us d)), map f (snd (forest_step us d)))"
proof (induction us d rule: forest_step_induct)
  case (Step u us d ch us' sib us'')
  have "forest_step (map f us) (d + 1) = (map_forest f ch, map f us')"
    "forest_step (map f us') d = (map_forest f sib, map f us'')"
    using Step by simp_all
  then show ?case using Step.hyps assms by simp
qed (simp_all add: assms)

lemma hash_account_update_body:
  "au_body u = au_body v \<Longrightarrow> hash_account_update Z u network = hash_account_update Z v network"
  by (simp add: hash_account_update_def assert_account_update_authorization_kind_def
      pack_account_update_def)

lemma call_forest_hash_map:
  assumes "\<And>u. au_body (f u) = au_body u"
  shows "call_forest_hash Z network (map_forest f F) = call_forest_hash Z network F"
  using assms
proof (induction f F rule: map_forest.induct)
  case (2 f u children rest)
  have "hash_account_update Z (f u) network = hash_account_update Z u network"
    by (rule hash_account_update_body) (rule "2.prems")
  then show ?case using 2 by simp
qed simp

lemma zk_commit_bodies:
  assumes "map au_body (account_updates t) = map au_body (account_updates t')"
    and "fpay_body (fee_payer t) = fpay_body (fee_payer t')" and "zk_memo t = zk_memo t'"
  shows "zk_commit Z t network = zk_commit Z t' network"
proof -
  define f where "f u = (u :: account_update)\<lparr>au_authorization := \<lparr>proof_str = None, signature_str = None\<rparr>\<rparr>" for u
  have body: "au_body (f u) = au_body u" for u by (simp add: f_def)
  have f: "f = (\<lambda>u. \<lparr>au_body = au_body u, au_authorization = \<lparr>proof_str = None, signature_str = None\<rparr>\<rparr>)"
    by (rule ext) (simp add: f_def)
  have "map f (account_updates t) = map f (account_updates t')"
    using arg_cong[OF assms(1), of "map (\<lambda>b. \<lparr>au_body = b, au_authorization = \<lparr>proof_str = None, signature_str = None\<rparr>\<rparr>)"]
    by (simp add: f comp_def)
  then have "call_forest_hash Z network (call_forest_of_command t) =
      call_forest_hash Z network (call_forest_of_command t')"
    using forest_step_map[of f "account_updates t" 0, OF body]
      forest_step_map[of f "account_updates t'" 0, OF body] call_forest_hash_map[of f Z network, OF body]
    by (metis (no_types, lifting) call_forest_of_command_def call_forest_of_updates_def fst_conv)
  moreover have "map depth_of (account_updates t) = map depth_of (account_updates t')"
    using arg_cong[OF assms(1), of "map call_depth"] by (simp add: comp_def)
  then have "is_call_depth_valid t = is_call_depth_valid t'" by (simp add: is_call_depth_valid_def)
  moreover have "hash_fee_payer Z (fee_payer t) network = hash_fee_payer Z (fee_payer t') network"
    unfolding hash_fee_payer_def
    by (rule hash_account_update_body) (simp add: account_update_of_fee_payer_def Let_def assms(2))
  ultimately show ?thesis by (simp add: zk_commit_def memo_hash_def assms(3))
qed

end
