(* ===== verification/Zk_Binding.thy ===== *)
theory Zk_Binding
  imports Zk_Commit "HOL-Library.Countable"
begin

text \<open>
  What the commitment of a zkApp command guarantees: when it exists, and what two commands with
  the same commitment have in common.
\<close>

section \<open>When a commitment exists\<close>

lemma returns_pack_seq: "returns (pack_seq ps) \<longleftrightarrow> list_all returns ps"
proof (induction ps)
  case (Cons a ps)
  have "returns (obind (pack_seq ps) (\<lambda>y. Ok (x + y))) \<longleftrightarrow> returns (pack_seq ps)" for x
    by (cases "pack_seq ps") simp_all
  then show ?case using Cons by (simp add: pack_seq_Cons returns_obind_const)
qed simp

lemma returns_pack_option:
  "returns (pack_option pack empty_roi m) \<longleftrightarrow>
    (case m of None \<Rightarrow> returns empty_roi | Some x \<Rightarrow> returns (pack x))"
  by (simp add: pack_option_def returns_pack_seq split: option.splits)

lemma returns_pack_array: "returns (pack_array pack xs) \<longleftrightarrow> list_all (\<lambda>x. returns (pack x)) xs"
  by (simp add: pack_array_def returns_pack_seq list.pred_map comp_def)

lemma returns_obind_put: "returns (obind r (\<lambda>f. Ok (g f))) \<longleftrightarrow> returns r"
  by (cases r) simp_all

lemma returns_auth [simp]: "returns (pack_auth_required a)"
  by (simp add: pack_auth_required_def returns_pack_seq Let_def)

lemma returns_permissions [simp]: "returns (pack_permissions p)"
  by (simp add: pack_permissions_def pack_set_verification_key_def returns_pack_seq)

lemma returns_leaf_options [simp]:
  "returns (pack_opt_field f)" "returns (pack_opt_range_u32 r)" "returns (pack_opt_range_u64 s)"
  "returns (pack_opt_public_key Z pk)"
  by (simp_all add: pack_opt_field_def pack_opt_range_u32_def pack_opt_range_u64_def
      pack_opt_public_key_def returns_pack_option pack_field_def empty_field_def pack_range_u32_def
      empty_range_u32_def pack_range_u64_def empty_range_u64_def pack_public_key_def
      empty_public_key_def split: option.splits)

lemma returns_network_preconditions [simp]: "returns (pack_network_preconditions n)"
  by (simp add: pack_network_preconditions_def pack_epoch_data_def pack_epoch_ledger_def returns_pack_seq)

lemma returns_hash_with_prefix:
  "field_laws Z \<Longrightarrow> length p \<le> 31 \<Longrightarrow> returns (hash_with_prefix Z p data)"
  using hash_with_prefix_short by (auto simp: returns_def)

lemma returns_hash_with_prefix_iff:
  "returns (hash_with_prefix Z p data) \<longleftrightarrow> returns (param_to_field Z p)"
  by (cases "param_to_field Z p") (simp_all add: hash_with_prefix_def returns_def Let_def)

lemma returns_hash_noinput: "field_laws Z \<Longrightarrow> length p \<le> 31 \<Longrightarrow> returns (hash_noinput Z p)"
  using hash_noinput_short by (auto simp: returns_def)

lemma returns_hash_events:
  assumes "field_laws Z" and "length p \<le> 31" and "length q \<le> 31"
  shows "returns (hash_events Z p q data)"
proof (induction data)
  case (Cons event data)
  then obtain acc where acc: "hash_events Z p q data = Ok acc" by (rule returnsE)
  then have "hash_events Z p q (event # data) = hash_event Z q event acc"
    by (simp add: hash_events_def)
  then show ?case
    by (simp add: hash_event_def returns_obind_const returns_hash_with_prefix assms)
qed (simp add: hash_events_def returns_hash_noinput assms)

lemma uri_bits:
  "list_all (\<lambda>b. bit_data_size b = 1) (bits (uri_input s))"
proof -
  define ok where "ok p \<longleftrightarrow> list_all (\<lambda>b. bit_data_size b = 1) (bits p)" for p
  have bool: "ok p \<Longrightarrow> ok (append_bool p b)" for p b by (simp add: ok_def append_bool_def)
  have inner: "ok p \<Longrightarrow> ok (foldl (\<lambda>p j. append_bool p (f j)) p js)" for p f js
    by (induction js arbitrary: p) (simp_all add: bool)
  have "ok p \<Longrightarrow>
      ok (foldl (\<lambda>p c. foldl (\<lambda>p j. append_bool p (c AND push_bit j 1 \<noteq> 0)) p [0..<8]) p s)" for p
    by (induction s arbitrary: p) (simp_all only: foldl.simps inner)
  from bool[OF this[of packed_new]] show ?thesis
    unfolding uri_input_def by (simp only: ok_def[symmetric]) (simp add: ok_def packed_new_def)
qed

lemma returns_uri_hash:
  assumes "field_laws Z"
  shows "returns (zkapp_uri_hash Z u)"
proof -
  have "small (uri_input (uri_bytes u))"
    using uri_bits[of "uri_bytes u"] by (simp add: small_def list_all_iff)
  then show ?thesis
    using assms by (simp add: zkapp_uri_hash_def pack_to_fields_small returns_hash_with_prefix)
qed

lemma uri_input_bits:
  "uri_input s = PackedInput (concat (map (\<lambda>c. map (\<lambda>j. BOOL (c AND push_bit j 1 \<noteq> 0)) [0..<8]) s) @ [BOOL True]) []"
proof -
  have inner: "foldl (\<lambda>p j. append_bool p (f j)) (PackedInput bs fs) js = PackedInput (bs @ map (\<lambda>j. BOOL (f j)) js) fs" for f js bs fs
    by (induction js arbitrary: bs) (simp_all add: append_bool_def)
  have "foldl (\<lambda>p c. foldl (\<lambda>p j. append_bool p (c AND push_bit j 1 \<noteq> 0)) p [0..<8]) (PackedInput bs fs) s =
      PackedInput (bs @ concat (map (\<lambda>c. map (\<lambda>j. BOOL (c AND push_bit j 1 \<noteq> 0)) [0..<8]) s)) fs" for bs fs
    by (induction s arbitrary: bs) (simp_all only: foldl.simps inner list.map concat.simps append_Nil2 append_assoc)
  then show ?thesis by (simp add: uri_input_def packed_new_def append_bool_def)
qed

text \<open>
  The bits of a short URI are packed as one number, so NULs in front of it do not change its hash.
\<close>

lemma uri_leading_zero_ignored:
  assumes "field_laws Z" and "length s \<le> 30"
  shows "zkapp_uri_hash Z (ZkappUri (0 # s)) = zkapp_uri_hash Z (ZkappUri s)"
proof -
  have small: "small (uri_input u)" for u using uri_bits[of u] by (simp add: small_def list_all_iff)
  have sizes: "sum_list (map bit_data_size (bits (uri_input s))) = 8 * length s + 1" for s
    by (induction s) (simp_all add: uri_input_bits upt_rec)
  have bits: "bits (uri_input (0 # s)) = replicate 8 (BOOL False) @ bits (uri_input s)"
    by (simp add: uri_input_bits upt_rec numeral_eq_Suc)
  have "pack_values (replicate 8 (BOOL False) @ bs) [] 0 0 = pack_values bs [] 0 8" for bs
    by (simp add: numeral_eq_Suc Let_def)
  then have "pack_values (bits (uri_input (0 # s))) [] 0 0 = pack_values (bits (uri_input s)) [] 0 0"
    using pack_values_one_field[of 8 "bits (uri_input s)" 0 "[]" 0] sizes[of s] assms(2) by (simp add: bits)
  moreover have "packed_fields (uri_input u) = []" "bits (uri_input u) \<noteq> []" for u by (simp_all add: uri_input_bits)
  ultimately have "pack_to_fields Z (uri_input (0 # s)) = pack_to_fields Z (uri_input s)"
    by (simp add: pack_to_fields_small[OF assms(1) small])
  then show ?thesis by (simp add: zkapp_uri_hash_def)
qed

definition symbol_fits :: "account_update \<Rightarrow> bool" where
  "symbol_fits au \<longleftrightarrow>
     (case token_symbol (body_update (au_body au)) of None \<Rightarrow> True | Some t \<Rightarrow> length (symbol_bytes t) \<le> 6)"

lemma returns_token_symbol: "returns (pack_token_symbol t) \<longleftrightarrow> length (symbol_bytes t) \<le> 6"
  by (auto simp: returns_def pack_token_symbol_Ok)

lemma returns_preconditions: "field_laws Z \<Longrightarrow> returns (pack_preconditions Z p)"
  by (auto simp: pack_preconditions_def pack_account_preconditions_def returns_pack_seq
      returns_pack_array returns_pack_option pack_action_state_def empty_action_state_def
      pack_option_bool_def returns_obind_put returns_hash_noinput list_all_iff split: option.splits)

lemma returns_update:
  "field_laws Z \<Longrightarrow> returns (pack_update Z u) \<longleftrightarrow>
    (case token_symbol u of None \<Rightarrow> True | Some t \<Rightarrow> length (symbol_bytes t) \<le> 6)"
  by (auto simp: pack_update_def returns_pack_seq returns_pack_array returns_pack_option list_all_iff
      pack_verification_key_data_def empty_verification_key_data_def empty_field_def pack_field_def
      empty_permissions_def pack_zkapp_uri_def empty_zkapp_uri_def returns_obind_put returns_uri_hash
      returns_hash_with_prefix returns_token_symbol empty_token_symbol_def pack_timing_data_def
      empty_timing_data_def Let_def split: option.splits)

lemma returns_pack_body:
  assumes "field_laws Z"
  shows "returns (pack_account_update Z au) \<longleftrightarrow> symbol_fits au"
  using assms
  by (simp add: pack_account_update_def pack_account_update_body_def returns_pack_seq returns_update
      returns_preconditions symbol_fits_def pack_public_key_def pack_balance_change_def pack_events_def
      pack_actions_def returns_obind_put returns_hash_events pack_may_use_token_def
      pack_authorization_kind_def)

definition authorization_valid :: "account_update \<Rightarrow> bool" where
  "authorization_valid au \<longleftrightarrow>
     (let kind = body_authorization_kind (au_body au) in
      \<not> (is_proved kind \<and> is_signed kind) \<and> (is_proved kind \<or> verification_key_hash kind = DUMMY_HASH))"

lemma assert_kind_iff:
  "returns (assert_account_update_authorization_kind Z au) \<longleftrightarrow> authorization_valid au"
  by (auto simp: assert_account_update_authorization_kind_def authorization_valid_def Let_def)

abbreviation hashable :: "account_update \<Rightarrow> bool" where
  "hashable au \<equiv> authorization_valid au \<and> symbol_fits au"

abbreviation prefix_fits :: "('r, 'sp) zk_env \<Rightarrow> network_id \<Rightarrow> bool" where
  "prefix_fits Z network \<equiv> returns (param_to_field Z (network_zk network))"

lemma returns_hash_account_update:
  assumes "field_laws Z" and "wf_body Z (au_body au)"
  shows "returns (hash_account_update Z au network) \<longleftrightarrow> hashable au \<and> prefix_fits Z network"
proof -
  let ?hash = "\<lambda>inputs. hash_with_prefix Z (network_zk network) (packed_fields inputs)"
  have "returns (obind (pack_to_fields Z p) ?hash) \<longleftrightarrow> prefix_fits Z network" if "pack_account_update Z au = Ok p" for p
  proof -
    have "small p" using body_pack.pack_small[of Z "au_body au" p] assms that by (simp add: pack_account_update_def)
    then show ?thesis using assms by (simp add: pack_to_fields_small returns_hash_with_prefix_iff)
  qed
  then have "returns (obind (pack_account_update Z au) (\<lambda>p. obind (pack_to_fields Z p) ?hash)) \<longleftrightarrow>
      symbol_fits au \<and> prefix_fits Z network"
    by (simp only: returns_obind_const returns_pack_body[OF assms(1)])
  then show ?thesis
    unfolding hash_account_update_def by (simp add: returns_obind_const assert_kind_iff)
qed

fun updates_of :: "call_forest \<Rightarrow> account_update list" where
  "updates_of [] = []"
| "updates_of (CallTree u children # rest) = u # updates_of children @ updates_of rest"

lemma updates_of_flatten: "map fst (flatten d F) = updates_of F"
  by (induction d F rule: flatten.induct) auto

lemma returns_call_forest_hash:
  assumes "field_laws Z" and "list_all (\<lambda>au. wf_body Z (au_body au)) (updates_of F)"
  shows "returns (call_forest_hash Z network F) \<longleftrightarrow>
    list_all (\<lambda>au. hashable au \<and> prefix_fits Z network) (updates_of F)"
  using assms(2)
proof (induction F rule: updates_of.induct)
  case (2 u children rest)
  have r: "returns (hash_with_prefix Z PREFIX_ACCOUNT_UPDATE_NODE d)"
    "returns (hash_with_prefix Z PREFIX_ACCOUNT_UPDATE_CONS d)" for d
    using assms(1) by (simp_all add: returns_hash_with_prefix)
  then show ?case
    using 2 by (auto simp: returns_obind_const returns_hash_account_update[OF assms(1)])
qed simp

lemma returns_fee_payer:
  assumes "field_laws Z"
  shows "returns (hash_fee_payer Z payer network) \<longleftrightarrow> prefix_fits Z network"
proof -
  have "hashable (account_update_of_fee_payer Z payer)"
    by (simp add: authorization_valid_def symbol_fits_def account_update_of_fee_payer_def Let_def
        account_update_default_def account_update_body_default_def update_default_def)
  then show ?thesis
    using returns_hash_account_update[OF assms wf_fee_payer_update] by (simp add: hash_fee_payer_def)
qed

lemma updates_of_command: "is_call_depth_valid tx \<Longrightarrow> length (account_updates tx) < 2 ^ 32 \<Longrightarrow>
    updates_of (call_forest_of_command tx) = account_updates tx"
  using forest_depths[of "account_updates tx"]
  by (simp add: is_call_depth_valid_iff call_forest_of_command_def flip: updates_of_flatten[of 0])
    (simp add: comp_def)

lemma returns_zk_commit:
  assumes "field_laws Z" and "wf_command Z tx" and "length (account_updates tx) < 2 ^ 32"
  shows "returns (zk_commit Z tx network) \<longleftrightarrow>
    is_call_depth_valid tx \<and> list_all hashable (account_updates tx) \<and> prefix_fits Z network"
proof -
  have memo: "returns (memo_hash Z tx)"
    using assms(1) by (simp add: memo_hash_def returns_hash_with_prefix)
  have cons: "returns (hash_with_prefix Z PREFIX_ACCOUNT_UPDATE_CONS d)" for d
    using assms(1) by (simp add: returns_hash_with_prefix)
  show ?thesis
  proof (cases "is_call_depth_valid tx")
    case True
    then have "updates_of (call_forest_of_command tx) = account_updates tx"
      using updates_of_command assms(3) by blast
    then have "returns (call_forest_hash Z network (call_forest_of_command tx)) \<longleftrightarrow>
        list_all (\<lambda>au. hashable au \<and> prefix_fits Z network) (account_updates tx)"
      using returns_call_forest_hash[OF assms(1)] assms(2) by (simp add: wf_command_def)
    then show ?thesis
      using True memo cons returns_fee_payer[OF assms(1)]
      by (auto simp: zk_commit_def returns_obind_const list_all_iff)
  qed (simp add: zk_commit_def)
qed

text \<open>
  A concrete environment: a field of more than 255 bits, and a sponge that encodes what it has
  absorbed as a number. Its hash has no collisions at all.
\<close>

definition zk_demo :: "(fp list \<times> bool list, fp list) zk_env" where
  "zk_demo = \<lparr>zk_roi = roi_demo,
     zk_sponge = \<lparr>sponge_new = [], sponge_absorb = (@), sponge_squeeze = (\<lambda>s. (Suc (to_nat s), s))\<rparr>,
     fp_modulus = 2 ^ 255,
     from_random_bytes = (\<lambda>bs. if le_value bs < 2 ^ 255 then Some (le_value bs) else None),
     field_display = show_nat, pubkey_empty = \<lparr>pk_x = 0, pk_is_odd = False\<rparr>, is_mesa_hardfork = False\<rparr>"

lemma zk_demo_field: "field_laws zk_demo"
  by (simp add: field_laws_def zk_demo_def)

lemma zk_demo_hash:
  "hash_with_prefix zk_demo p d = Ok h \<longleftrightarrow>
    (\<exists>param. param_to_field zk_demo p = Ok param \<and> h = Suc (to_nat (param # d)))"
  by (auto simp: hash_with_prefix_def zk_demo_def Let_def outcome_simps)

lemma zk_demo_collision_free: "collision_free zk_demo Q"
  by (auto simp: collision_free_def zk_demo_hash)

definition demo_command :: zkapp_command where
  "demo_command = (zkapp_command_default zk_demo)
     \<lparr>account_updates := [account_update_default zk_demo,
        (account_update_default zk_demo)\<lparr>au_body := (au_body (account_update_default zk_demo))\<lparr>call_depth := 1\<rparr>\<rparr>]\<rparr>"

lemma demo_command_ok:
  "wf_command zk_demo demo_command" "length (account_updates demo_command) < 2 ^ 32"
  "is_call_depth_valid demo_command" "list_all hashable (account_updates demo_command)"
  "length (network_zk Mainnet) \<le> 31"
proof -
  note defs = demo_command_def zkapp_command_default_def account_update_default_def
    account_update_body_default_def update_default_def preconditions_default_def
    account_preconditions_default_def authorization_kind_default_def
  show "wf_command zk_demo demo_command" by (simp add: wf_command_def wf_body_def defs)
  show "length (account_updates demo_command) < 2 ^ 32" by (simp add: defs)
  show "is_call_depth_valid demo_command" by (simp add: is_call_depth_valid_def defs)
  show "list_all hashable (account_updates demo_command)"
    by (simp add: authorization_valid_def symbol_fits_def defs)
  show "length (network_zk Mainnet) \<le> 31" by (simp add: network_zk_def)
qed

lemma prefix_fits_short: "field_laws Z \<Longrightarrow> length (network_zk network) \<le> 31 \<Longrightarrow> prefix_fits Z network"
  by (simp add: param_to_field_short returns_def)

lemma prefix_fits_bound: "prefix_fits Z network \<Longrightarrow> length (network_zk network) \<le> 32"
  by (auto simp: param_to_field_def param_default_def returns_def split: if_splits)

text \<open>
  C28: over a field that can hold 254 bits, \<open>to_roinput\<close> panics (it unwraps an error) exactly when
  the call depths are not valid, or some account update has no valid authorization kind or a token
  symbol of more than six bytes, or the body prefix of the network has no field element: one of at
  most 31 bytes has one, and one of more than 32 bytes, as a custom name of 20 characters of
  several bytes makes it, has none. The command has arrays of the right lengths and fewer than
  \<open>2 ^ 32\<close> account updates.
\<close>

theorem zk_to_roinput_panics_iff:
  assumes "field_laws Z" and "wf_command Z tx" and "length (account_updates tx) < 2 ^ 32"
  shows "zk_to_roinput Z tx network = Panic \<longleftrightarrow>
    \<not> (is_call_depth_valid tx \<and>
       list_all (\<lambda>au. authorization_valid au \<and> symbol_fits au) (account_updates tx) \<and>
       (\<exists>x. param_to_field Z (network_zk network) = Ok x))"
proof -
  have "zk_to_roinput Z tx network = Panic \<longleftrightarrow> \<not> returns (zk_commit Z tx network)"
    by (cases "zk_commit Z tx network") (auto simp: zk_to_roinput_def)
  then show ?thesis using returns_zk_commit[OF assms] by (simp add: returns_def[of "param_to_field Z _"])
qed

text \<open>A name of twenty characters of two bytes each: valid commands panic.\<close>

definition wide_network :: network_id where
  "wide_network = Custom (concat (replicate 20 [0xC3, 0xA9]))"

lemma wide_prefix: "length (network_zk wide_network) = 40"
  by code_simp

lemma zk_to_roinput_panics_iff_witness:
  "zk_to_roinput zk_demo demo_command Mainnet \<noteq> Panic \<and> zk_to_roinput zk_demo demo_command wide_network = Panic"
  using zk_to_roinput_panics_iff[OF zk_demo_field demo_command_ok(1,2)] demo_command_ok(3,4)
    prefix_fits_short[OF zk_demo_field demo_command_ok(5)] prefix_fits_bound[of zk_demo wide_network]
  by (auto simp: returns_def wide_prefix)

section \<open>What a commitment binds\<close>

text \<open>The hash queries made for a command: prefix and data of each.\<close>

definition update_queries :: "('r, 'sp) zk_env \<Rightarrow> network_id \<Rightarrow> account_update \<Rightarrow> (rstr \<times> fp list) set" where
  "update_queries Z network au =
     {(network_zk network, packed_fields r) | r. obind (pack_account_update Z au) (pack_to_fields Z) = Ok r}"

fun forest_queries :: "('r, 'sp) zk_env \<Rightarrow> network_id \<Rightarrow> call_forest \<Rightarrow> (rstr \<times> fp list) set" where
  "forest_queries Z network [] = {}"
| "forest_queries Z network (CallTree u children # rest) =
     forest_queries Z network rest \<union> forest_queries Z network children \<union> update_queries Z network u \<union>
     {(PREFIX_ACCOUNT_UPDATE_NODE, [tree, calls]) | tree calls.
        hash_account_update Z u network = Ok tree \<and> call_forest_hash Z network children = Ok calls} \<union>
     {(PREFIX_ACCOUNT_UPDATE_CONS, [node, stack]) | node stack tree calls.
        hash_account_update Z u network = Ok tree \<and> call_forest_hash Z network children = Ok calls \<and>
        hash_with_prefix Z PREFIX_ACCOUNT_UPDATE_NODE [tree, calls] = Ok node \<and>
        call_forest_hash Z network rest = Ok stack}"

definition memo_fields :: "('r, 'sp) zk_env \<Rightarrow> zkapp_command \<Rightarrow> fp list" where
  "memo_fields Z tx = pack_bool_to_field_legacy (zk_roi Z) (memo_bits (zk_memo tx))"

definition commit_queries :: "('r, 'sp) zk_env \<Rightarrow> network_id \<Rightarrow> zkapp_command \<Rightarrow> (rstr \<times> fp list) set" where
  "commit_queries Z network tx =
     forest_queries Z network (call_forest_of_command tx) \<union>
     update_queries Z network (account_update_of_fee_payer Z (fee_payer tx)) \<union>
     {(ZK_APP_MEMO, memo_fields Z tx)} \<union>
     {(PREFIX_ACCOUNT_UPDATE_CONS, [memo, payer, updates]) | memo payer updates.
        memo_hash Z tx = Ok memo \<and> hash_fee_payer Z (fee_payer tx) network = Ok payer \<and>
        call_forest_hash Z network (call_forest_of_command tx) = Ok updates}"

text \<open>No two queries collide, and none hashes to the constant of the empty forest.\<close>

definition binding :: "('r, 'sp) zk_env \<Rightarrow> (rstr \<times> fp list) set \<Rightarrow> bool" where
  "binding Z Q \<longleftrightarrow> collision_free Z Q \<and> (\<forall>(p, d) \<in> Q. hash_with_prefix Z p d \<noteq> Ok EMPTY_STACK_HASH)"

lemma bindingD:
  assumes "binding Z Q" and "(p, d) \<in> Q" and "(p, d') \<in> Q"
    and "hash_with_prefix Z p d = Ok h" and "hash_with_prefix Z p d' = Ok h"
  shows "d = d'"
  using assms collision_freeD unfolding binding_def by blast

lemma binding_mono: "binding Z Q \<Longrightarrow> Q' \<subseteq> Q \<Longrightarrow> binding Z Q'"
  unfolding binding_def using collision_free_mono by blast

lemma hash_account_update_binds:
  assumes "field_laws Z" and "wf_body Z (au_body a)" and "wf_body Z (au_body b)"
    and "binding Z (update_queries Z network a \<union> update_queries Z network b)"
    and "hash_account_update Z a network = Ok h" and "hash_account_update Z b network = Ok h"
  shows "view_body Z (au_body a) = view_body Z (au_body b)"
proof -
  obtain p r where a: "pack_account_update_body Z (au_body a) = Ok p" "pack_to_fields Z p = Ok r"
    "hash_with_prefix Z (network_zk network) (packed_fields r) = Ok h"
    using assms(5) by (auto simp: hash_account_update_def outcome_simps pack_account_update_def)
  obtain q r' where b: "pack_account_update_body Z (au_body b) = Ok q" "pack_to_fields Z q = Ok r'"
    "hash_with_prefix Z (network_zk network) (packed_fields r') = Ok h"
    using assms(6) by (auto simp: hash_account_update_def outcome_simps pack_account_update_def)
  have "packed_fields r = packed_fields r'"
    by (rule bindingD[OF assms(4) _ _ a(3) b(3)])
      (use a b in \<open>auto simp: update_queries_def outcome_simps pack_account_update_def\<close>)
  then show ?thesis
    using body_pack.fields_iff_view[OF assms(1-3) a(1) b(1) a(2) b(2)] by simp
qed

abbreviation viewed :: "('r, 'sp) zk_env \<Rightarrow> nat \<Rightarrow> call_forest \<Rightarrow> _" where
  "viewed Z d F \<equiv> map (\<lambda>(u, d). (view_body Z (au_body u), d)) (flatten d F)"

lemma call_forest_hash_binds:
  assumes "field_laws Z" and "binding Z (forest_queries Z network F \<union> forest_queries Z network G)"
    and "list_all (\<lambda>au. wf_body Z (au_body au)) (updates_of F)"
    and "list_all (\<lambda>au. wf_body Z (au_body au)) (updates_of G)"
    and "call_forest_hash Z network F = Ok h" and "call_forest_hash Z network G = Ok h"
  shows "viewed Z d F = viewed Z d G"
  using assms(2-)
proof (induction F arbitrary: G h d rule: updates_of.induct)
  case 1
  then show ?case
    by (cases G rule: updates_of.cases) (auto simp: outcome_simps binding_def)
next
  case (2 u children rest)
  show ?case
  proof (cases G rule: updates_of.cases)
    case 1
    then show ?thesis using "2.prems" by (auto simp: outcome_simps binding_def)
  next
    case G: (2 v children' rest')
    obtain stack calls tree node where F: "call_forest_hash Z network rest = Ok stack"
      "call_forest_hash Z network children = Ok calls" "hash_account_update Z u network = Ok tree"
      "hash_with_prefix Z PREFIX_ACCOUNT_UPDATE_NODE [tree, calls] = Ok node"
      "hash_with_prefix Z PREFIX_ACCOUNT_UPDATE_CONS [node, stack] = Ok h"
      using "2.prems"(4) by (auto simp: outcome_simps)
    obtain stack' calls' tree' node' where G': "call_forest_hash Z network rest' = Ok stack'"
      "call_forest_hash Z network children' = Ok calls'" "hash_account_update Z v network = Ok tree'"
      "hash_with_prefix Z PREFIX_ACCOUNT_UPDATE_NODE [tree', calls'] = Ok node'"
      "hash_with_prefix Z PREFIX_ACCOUNT_UPDATE_CONS [node', stack'] = Ok h"
      using "2.prems"(5) G by (auto simp: outcome_simps)
    note Q = "2.prems"(1)[unfolded G]
    have "[node, stack] = [node', stack']"
      by (rule bindingD[OF Q _ _ F(5) G'(5)]) (use F G' in auto)
    then have n: "node = node'" "stack = stack'" by auto
    have "[tree, calls] = [tree', calls']"
      by (rule bindingD[OF Q _ _ F(4) G'(4)[folded n(1)]]) (use F G' in auto)
    then have t: "tree = tree'" "calls = calls'" by auto
    have "view_body Z (au_body u) = view_body Z (au_body v)"
      by (rule hash_account_update_binds[OF assms(1) _ _ _ F(3) G'(3)[folded t(1)]])
        (use "2.prems"(2,3) G Q in \<open>auto elim: binding_mono\<close>)
    moreover have "viewed Z (Suc d) children = viewed Z (Suc d) children'"
      by (rule "2.IH"(1)[OF _ _ _ F(2) G'(2)[folded t(2)]])
        (use "2.prems"(2,3) G Q in \<open>auto elim: binding_mono\<close>)
    moreover have "viewed Z d rest = viewed Z d rest'"
      by (rule "2.IH"(2)[OF _ _ _ F(1) G'(1)[folded n(2)]])
        (use "2.prems"(2,3) G Q in \<open>auto elim: binding_mono\<close>)
    ultimately show ?thesis using G by simp
  qed
qed

lemma fee_payer_view_binds:
  assumes "view_body Z (au_body (account_update_of_fee_payer Z f)) =
    view_body Z (au_body (account_update_of_fee_payer Z g))"
  shows "fpb_public_key (fpay_body f) = fpb_public_key (fpay_body g) \<and>
    fpb_fee (fpay_body f) = fpb_fee (fpay_body g) \<and> fpb_nonce (fpay_body f) = fpb_nonce (fpay_body g) \<and>
    case_option (- 1) id (fpb_valid_until (fpay_body f)) =
      case_option (- 1) id (fpb_valid_until (fpay_body g))"
proof -
  let ?F = "au_body (account_update_of_fee_payer Z f)"
  let ?G = "au_body (account_update_of_fee_payer Z g)"
  have eq: "public_key ?F = public_key ?G" "magnitude (balance_change ?F) = magnitude (balance_change ?G)"
    "body_preconditions ?F = body_preconditions ?G"
    using assms by (simp_all add: view_body_def)
  have "global_slot_since_genesis (pre_network (body_preconditions ?F)) =
      global_slot_since_genesis (pre_network (body_preconditions ?G))"
    "ap_nonce (pre_account (body_preconditions ?F)) = ap_nonce (pre_account (body_preconditions ?G))"
    by (simp_all add: eq(3))
  with eq(1,2) show ?thesis
    by (auto simp: account_update_of_fee_payer_def Let_def split: option.splits)
qed

lemma zk_commit_same_content:
  assumes "field_laws Z" and "wf_command Z t" and "wf_command Z t'"
    and "length (account_updates t) < 2 ^ 32" and "length (account_updates t') < 2 ^ 32"
    and "binding Z (commit_queries Z network t \<union> commit_queries Z network t')"
    and "zk_commit Z t network = Ok (a, c)" and "zk_commit Z t' network = Ok (a', c)"
  shows "map (\<lambda>u. (view_body Z (au_body u), call_depth (au_body u))) (account_updates t) =
      map (\<lambda>u. (view_body Z (au_body u), call_depth (au_body u))) (account_updates t') \<and>
    memo_fields Z t = memo_fields Z t' \<and>
    (let f = fpay_body (fee_payer t); g = fpay_body (fee_payer t') in
     fpb_public_key f = fpb_public_key g \<and> fpb_fee f = fpb_fee g \<and> fpb_nonce f = fpb_nonce g \<and>
     case_option (- 1) id (fpb_valid_until f) = case_option (- 1) id (fpb_valid_until g))"
proof -
  let ?F = "call_forest_of_command t" and ?G = "call_forest_of_command t'"
  obtain m p where t: "is_call_depth_valid t" "call_forest_hash Z network ?F = Ok a"
    "memo_hash Z t = Ok m" "hash_fee_payer Z (fee_payer t) network = Ok p"
    "hash_with_prefix Z PREFIX_ACCOUNT_UPDATE_CONS [m, p, a] = Ok c"
    using assms(7) by (auto simp: zk_commit_def outcome_simps split: if_splits)
  obtain m' p' where t': "is_call_depth_valid t'" "call_forest_hash Z network ?G = Ok a'"
    "memo_hash Z t' = Ok m'" "hash_fee_payer Z (fee_payer t') network = Ok p'"
    "hash_with_prefix Z PREFIX_ACCOUNT_UPDATE_CONS [m', p', a'] = Ok c"
    using assms(8) by (auto simp: zk_commit_def outcome_simps split: if_splits)
  have "[m, p, a] = [m', p', a']"
    by (rule bindingD[OF assms(6) _ _ t(5) t'(5)]) (use t t' in \<open>auto simp: commit_queries_def\<close>)
  then have eq: "m = m'" "p = p'" "a = a'" by auto
  have memo: "memo_fields Z t = memo_fields Z t'"
    by (rule bindingD[OF assms(6), of ZK_APP_MEMO _ _ m])
      (use t(3) t'(3) eq in \<open>auto simp: commit_queries_def memo_hash_def memo_fields_def\<close>)
  have "view_body Z (au_body (account_update_of_fee_payer Z (fee_payer t))) =
      view_body Z (au_body (account_update_of_fee_payer Z (fee_payer t')))"
    by (rule hash_account_update_binds[OF assms(1) wf_fee_payer_update wf_fee_payer_update
          binding_mono[OF assms(6)]])
      (use t(4) t'(4) eq in \<open>auto simp: commit_queries_def hash_fee_payer_def\<close>)
  note payer = fee_payer_view_binds[OF this]
  have fl: "flatten 0 ?F = recorded (account_updates t)" "flatten 0 ?G = recorded (account_updates t')"
    using t(1) t'(1) assms(4,5) forest_depths
    by (simp_all add: is_call_depth_valid_iff call_forest_of_command_def)
  have "viewed Z 0 ?F = viewed Z 0 ?G"
    by (rule call_forest_hash_binds[OF assms(1) binding_mono[OF assms(6)] _ _ t(2) t'(2)[folded eq(3)]])
      (use assms(2-5) t(1) t'(1) in
        \<open>auto simp: commit_queries_def wf_command_def updates_of_command\<close>)
  then have "map (\<lambda>u. (view_body Z (au_body u), unat (depth_of u))) (account_updates t) =
      map (\<lambda>u. (view_body Z (au_body u), unat (depth_of u))) (account_updates t')"
    by (simp add: fl comp_def)
  then have "map (\<lambda>x. (fst x, word_of_nat (snd x) :: u32))
        (map (\<lambda>u. (view_body Z (au_body u), unat (depth_of u))) (account_updates t)) =
      map (\<lambda>x. (fst x, word_of_nat (snd x) :: u32))
        (map (\<lambda>u. (view_body Z (au_body u), unat (depth_of u))) (account_updates t'))"
    by simp
  then show ?thesis using memo payer by (simp add: comp_def Let_def)
qed

text \<open>A command and a copy of it with another fee payer signature.\<close>

text \<open>
  C2: a commitment binds the command. Unless two of the hash queries made for them collide (or
  one hits the constant of the empty forest), two commands with the same commitment on a network
  have the same fee payer key, fee, nonce and validity limit, the same memo fields, and account
  updates with the same views at the same call depths, one by one.
\<close>

theorem zk_commit_binds:
  assumes "field_laws Z" and "wf_command Z t" and "wf_command Z t'"
    and "length (account_updates t) < 2 ^ 32" and "length (account_updates t') < 2 ^ 32"
    and "binding Z (commit_queries Z network t \<union> commit_queries Z network t')"
    and "zk_commit Z t network = Ok (a, c)" and "zk_commit Z t' network = Ok (a', c)"
  shows "map (\<lambda>u. (view_body Z (au_body u), call_depth (au_body u))) (account_updates t) =
      map (\<lambda>u. (view_body Z (au_body u), call_depth (au_body u))) (account_updates t') \<and>
    memo_fields Z t = memo_fields Z t' \<and>
    (let f = fpay_body (fee_payer t); g = fpay_body (fee_payer t') in
     fpb_public_key f = fpb_public_key g \<and> fpb_fee f = fpb_fee g \<and> fpb_nonce f = fpb_nonce g \<and>
     case_option (- 1) id (fpb_valid_until f) = case_option (- 1) id (fpb_valid_until g))"
  by (rule zk_commit_same_content[OF assms])

definition demo_resigned :: zkapp_command where
  "demo_resigned = demo_command\<lparr>fee_payer := (fee_payer demo_command)\<lparr>fpay_authorization := [83]\<rparr>\<rparr>"

lemma zk_commit_binds_witness:
  "\<exists>a c. zk_commit zk_demo demo_command Mainnet = Ok (a, c) \<and>
     zk_commit zk_demo demo_resigned Mainnet = Ok (a, c) \<and>
     memo_fields zk_demo demo_command = memo_fields zk_demo demo_resigned"
proof -
  obtain a c where 1: "zk_commit zk_demo demo_command Mainnet = Ok (a, c)"
    using returns_zk_commit[OF zk_demo_field demo_command_ok(1,2)] demo_command_ok(3,4)
      prefix_fits_short[OF zk_demo_field demo_command_ok(5)]
    by (metis returnsE surj_pair)
  have 2: "zk_commit zk_demo demo_resigned Mainnet = Ok (a, c)"
    using 1 zk_commit_bodies[of demo_resigned demo_command zk_demo Mainnet] by (simp add: demo_resigned_def)
  have wf: "wf_command zk_demo demo_resigned" "length (account_updates demo_resigned) < 2 ^ 32"
    using demo_command_ok(1,2) by (simp_all add: demo_resigned_def wf_command_def)
  have "binding zk_demo Q" for Q
    by (auto simp: binding_def zk_demo_collision_free zk_demo_hash EMPTY_STACK_HASH_def)
  from zk_commit_binds[OF zk_demo_field demo_command_ok(1) wf(1) demo_command_ok(2) wf(2) this 1 2]
  show ?thesis using 1 2 by blast
qed

lemma call_depths_valid_iff_recorded_witness:
  "flatten 0 (call_forest_of_command demo_command) = recorded (account_updates demo_command)"
  using call_depths_valid_iff_recorded[OF demo_command_ok(2)] demo_command_ok(3) by simp

end
