(* ===== verification/Zkapp_Serde.thy ===== *)
theory Zkapp_Serde
  imports Json Base58 Zk_Binding
begin

text \<open>
  The JSON form of zkApp commands: the hand-written implementations of
  \<^verbatim>\<open>mina-tx/src/transactions/zkapp_tx/zkapp_serde.rs\<close> and the derived ones and field
  helpers of \<^verbatim>\<open>zkapp_tx.rs\<close>. A type has a writer, a reader (of the field's value, \<open>None\<close>
  when the field is absent) and a predicate for the values of the Rust type that the format can
  express; \<open>codec\<close> says that the three fit.
\<close>

section \<open>Codecs\<close>

named_theorems codec_simps "writing and reading a value of a codec"
named_theorems codec_reads "what a codec reads is good"

fun json_utf8 :: "json \<Rightarrow> bool" where
  "json_utf8 (JStr s) = utf8_valid s"
| "json_utf8 (JArr js) = list_all json_utf8 js"
| "json_utf8 (JObj members) = list_all (\<lambda>(k, j). utf8_valid k \<and> json_utf8 j) members"
| "json_utf8 _ = True"

definition field_utf8 :: "json option \<Rightarrow> bool" where
  "field_utf8 jo \<longleftrightarrow> pred_option json_utf8 jo"

type_synonym 'a writer = "'a \<Rightarrow> (de_error, json) outcome"
type_synonym 'a reader = "json option \<Rightarrow> (de_error, 'a) outcome"

definition codec :: "'a writer \<Rightarrow> 'a reader \<Rightarrow> ('a \<Rightarrow> bool) \<Rightarrow> bool" where
  "codec ser de good \<longleftrightarrow>
     (\<forall>x. good x \<longrightarrow> (\<exists>j. ser x = Ok j \<and> de (Some j) = Ok x)) \<and>
     (\<forall>jo x. field_utf8 jo \<longrightarrow> de jo = Ok x \<longrightarrow> good x)"

definition never_null :: "'a writer \<Rightarrow> bool" where
  "never_null ser \<longleftrightarrow> (\<forall>x. ser x \<noteq> Ok JNull)"

fun the_ok :: "('e, 'a) outcome \<Rightarrow> 'a" where
  "the_ok (Ok a) = a"

lemma codecI:
  assumes "\<And>x. good x \<Longrightarrow> obind (ser x) (\<lambda>j. de (Some j)) = Ok x"
    and "\<And>jo x. field_utf8 jo \<Longrightarrow> de jo = Ok x \<Longrightarrow> good x"
  shows "codec ser de good"
  unfolding codec_def
proof (intro conjI allI impI)
  fix x assume "good x"
  from assms(1)[OF this] show "\<exists>j. ser x = Ok j \<and> de (Some j) = Ok x" by (simp add: obind_Ok_iff)
qed (rule assms(2))

lemma codec_bind: "codec ser de good \<Longrightarrow> good x \<Longrightarrow> obind (ser x) f = f (the_ok (ser x))"
  unfolding codec_def by fastforce

lemma codec_de: "codec ser de good \<Longrightarrow> good x \<Longrightarrow> de (Some (the_ok (ser x))) = Ok x"
  unfolding codec_def by fastforce

lemma codec_good: "codec ser de good \<Longrightarrow> de jo = Ok x \<Longrightarrow> field_utf8 jo \<Longrightarrow> good x"
  unfolding codec_def by blast

lemmas codec_rewrites = codec_bind codec_de

section \<open>Containers\<close>

fun ser_option :: "'a writer \<Rightarrow> 'a option writer" where
  "ser_option ser None = Ok JNull"
| "ser_option ser (Some x) = ser x"

definition ser_list :: "'a writer \<Rightarrow> 'a list writer" where
  "ser_list ser xs = omap JArr (omap_list ser xs)"

fun de_list :: "'a reader \<Rightarrow> 'a list reader" where
  "de_list de (Some (JArr js)) = omap_list (\<lambda>j. de (Some j)) js"
| "de_list de _ = Err Malformed"

text \<open>An array has a fixed length.\<close>

fun de_array :: "nat \<Rightarrow> 'a reader \<Rightarrow> 'a list reader" where
  "de_array n de (Some (JArr js)) = (if length js = n then omap_list (\<lambda>j. de (Some j)) js else Err Malformed)"
| "de_array n de _ = Err Malformed"

definition ser_struct :: "rstr list \<Rightarrow> (de_error, json) outcome list \<Rightarrow> (de_error, json) outcome" where
  "ser_struct names sers = omap (\<lambda>vs. JObj (zip names vs)) (omap_list id sers)"

fun de_struct :: "rstr list \<Rightarrow> (json option list \<Rightarrow> (de_error, 'a) outcome) \<Rightarrow> 'a reader" where
  "de_struct names read (Some j) = obind (struct_fields names j) read"
| "de_struct names read None = Err Malformed"

lemma codec_option:
  assumes "codec ser de good" and "never_null ser"
  shows "codec (ser_option ser) (de_option de) (pred_option good)"
proof (rule codecI)
  fix x assume "pred_option good x"
  then show "obind (ser_option ser x) (\<lambda>j. de_option de (Some j)) = Ok x"
  proof (cases x)
    case (Some y)
    with \<open>pred_option good x\<close> assms(1) obtain j where j: "ser y = Ok j" "de (Some j) = Ok y"
      unfolding codec_def by auto
    with assms(2) have "j \<noteq> JNull" by (auto simp: never_null_def)
    with j Some show ?thesis by (cases j) auto
  qed simp
next
  fix jo x assume utf8: "field_utf8 jo" and ok: "de_option de jo = Ok x"
  show "pred_option good x"
  proof (cases "jo = None \<or> jo = Some JNull")
    case False
    then have "de_option de jo = omap Some (de jo)" by (cases "(de, jo)" rule: de_option.cases) auto
    with ok utf8 codec_good[OF assms(1), of jo] show ?thesis by (auto simp: outcome_simps)
  qed (use ok in auto)
qed

lemma omap_list_write:
  assumes "codec ser de good" and "list_all good xs"
  shows "\<exists>js. omap_list ser xs = Ok js \<and> omap_list (\<lambda>j. de (Some j)) js = Ok xs \<and> length js = length xs"
  using assms(2)
proof (induction xs)
  case (Cons x xs)
  with assms(1) obtain j js where "ser x = Ok j" "de (Some j) = Ok x"
    "omap_list ser xs = Ok js \<and> omap_list (\<lambda>j. de (Some j)) js = Ok xs \<and> length js = length xs"
    unfolding codec_def by auto
  then show ?case by (intro exI[of _ "j # js"]) simp
qed simp

lemma omap_list_read:
  assumes "codec ser de good" and "list_all json_utf8 js" and "omap_list (\<lambda>j. de (Some j)) js = Ok xs"
  shows "list_all good xs \<and> length xs = length js"
  using assms(2,3)
proof (induction js arbitrary: xs)
  case (Cons j js)
  then obtain x ys where "xs = x # ys" "de (Some j) = Ok x" "omap_list (\<lambda>j. de (Some j)) js = Ok ys"
    by (auto simp: outcome_simps)
  with Cons codec_good[OF assms(1), of "Some j" x] show ?case by (auto simp: field_utf8_def)
qed simp

lemma codec_list:
  assumes "codec ser de good"
  shows "codec (ser_list ser) (de_list de) (list_all good)"
proof (rule codecI)
  fix xs assume "list_all good xs"
  from omap_list_write[OF assms this] show "obind (ser_list ser xs) (\<lambda>j. de_list de (Some j)) = Ok xs"
    by (auto simp: ser_list_def)
next
  fix jo xs assume "field_utf8 jo" and "de_list de jo = Ok xs"
  then show "list_all good xs"
    by (cases "(de, jo)" rule: de_list.cases) (auto simp: field_utf8_def dest: omap_list_read[OF assms])
qed

lemma codec_array:
  assumes "codec ser de good"
  shows "codec (ser_list ser) (de_array n de) (\<lambda>xs. length xs = n \<and> list_all good xs)"
proof (rule codecI)
  fix xs assume "length xs = n \<and> list_all good xs"
  with omap_list_write[OF assms, of xs] show "obind (ser_list ser xs) (\<lambda>j. de_array n de (Some j)) = Ok xs"
    by (auto simp: ser_list_def)
next
  fix jo xs assume "field_utf8 jo" and "de_array n de jo = Ok xs"
  then show "length xs = n \<and> list_all good xs"
    by (cases "(n, de, jo)" rule: de_array.cases)
       (auto simp: field_utf8_def dest: omap_list_read[OF assms] split: if_splits)
qed

lemma never_null_list: "never_null (ser_list ser)"
  by (auto simp: never_null_def ser_list_def outcome_simps)

lemma never_null_struct: "(\<And>x. ser x = ser_struct names (sers x)) \<Longrightarrow> never_null ser"
  by (auto simp: never_null_def ser_struct_def outcome_simps)

subsection \<open>Structs\<close>

lemma object_field_zip:
  "distinct names \<Longrightarrow> length vs = length names \<Longrightarrow> i < length names \<Longrightarrow>
    object_field (names ! i) (zip names vs) = Ok (Some (vs ! i))"
proof (induction names vs arbitrary: i rule: list_induct2')
  case (4 n names v vs)
  have none: "filter (\<lambda>(k, _). k = m) (zip names vs) = []" if "m \<notin> set names" for m
    using that by (auto simp: filter_empty_conv dest: set_zip_leftD)
  show ?case
  proof (cases i)
    case 0 with 4 show ?thesis by (simp add: object_field_def none)
  next
    case (Suc k)
    with 4 have "n \<noteq> names ! k" by auto
    with Suc 4 show ?thesis using "4.IH"[of k] by (simp add: object_field_def)
  qed
qed auto

lemma omap_list_nth: "(\<And>i. i < length xs \<Longrightarrow> f (xs ! i) = Ok (ys ! i)) \<Longrightarrow> length ys = length xs \<Longrightarrow>
  omap_list f xs = Ok ys"
proof (induction xs arbitrary: ys)
  case (Cons x xs)
  then obtain y zs where ys: "ys = y # zs" by (cases ys) auto
  from Cons.prems(1)[of 0] have "f x = Ok y" by (simp add: ys)
  moreover have "omap_list f xs = Ok zs"
  proof (rule Cons.IH)
    fix i assume "i < length xs" then show "f (xs ! i) = Ok (zs ! i)" using Cons.prems(1)[of "Suc i"] by (simp add: ys)
  qed (use Cons.prems ys in simp)
  ultimately show ?case by (simp add: ys)
qed simp

lemma struct_fields_zip:
  "distinct names \<Longrightarrow> length vs = length names \<Longrightarrow> struct_fields names (JObj (zip names vs)) = Ok (map Some vs)"
  by (simp add: omap_list_nth object_field_zip)

lemma struct_write:
  assumes "distinct names" and "omap_list id sers = Ok vs" and "length sers = length names"
  shows "obind (ser_struct names sers) (\<lambda>j. de_struct names read (Some j)) = read (map Some vs)"
proof -
  have "length vs = length sers" using assms(2)
    by (induction sers arbitrary: vs) (auto simp: outcome_simps)
  then show ?thesis using assms by (simp add: ser_struct_def struct_fields_zip del: struct_fields.simps)
qed

lemma object_field_utf8:
  assumes "json_utf8 (JObj members)" and "object_field name members = Ok jo"
  shows "field_utf8 jo"
proof -
  have all: "\<forall>(k, j) \<in> set (filter (\<lambda>(k, _). k = name) members). json_utf8 j"
    using assms(1) by (auto simp: list_all_iff)
  show ?thesis
  proof (cases "filter (\<lambda>(k, _). k = name) members")
    case (Cons m ms)
    then have "m \<in> set (filter (\<lambda>(k, _). k = name) members)" by simp
    with all have "json_utf8 (snd m)" by (auto simp del: set_filter)
    with assms(2) Cons show ?thesis
      by (auto simp: object_field_def field_utf8_def split: list.splits prod.splits)
  qed (use assms(2) in \<open>auto simp: object_field_def field_utf8_def\<close>)
qed

lemma omap_list_all:
  "omap_list f xs = Ok ys \<Longrightarrow> (\<And>x y. x \<in> set xs \<Longrightarrow> f x = Ok y \<Longrightarrow> P y) \<Longrightarrow> list_all P ys \<and> length ys = length xs"
proof (induction xs arbitrary: ys)
  case (Cons x xs)
  from Cons.prems(1) obtain y zs where ys: "ys = y # zs" "f x = Ok y" "omap_list f xs = Ok zs"
    by (auto simp: outcome_simps)
  have "list_all P zs \<and> length zs = length xs"
    by (rule Cons.IH[OF ys(3)], rule Cons.prems(2)) auto
  moreover have "P y" using Cons.prems(2)[OF _ ys(2)] by simp
  ultimately show ?case using ys(1) by simp
qed simp

lemma struct_fields_utf8:
  assumes "json_utf8 j" and "struct_fields names j = Ok vs"
  shows "list_all field_utf8 vs" and "length vs = length names"
proof -
  have "list_all field_utf8 vs \<and> length vs = length names"
    using assms
    by (cases "(names, j)" rule: struct_fields.cases)
       (auto simp: field_utf8_def list_all_iff split: if_splits dest!: omap_list_all[where P = field_utf8]
         intro: object_field_utf8)
  then show "list_all field_utf8 vs" and "length vs = length names" by simp_all
qed

lemma de_structE:
  assumes "de_struct names read jo = Ok x" and "field_utf8 jo"
  obtains vs where "read vs = Ok x" and "\<And>i. i < length names \<Longrightarrow> field_utf8 (vs ! i)"
proof -
  obtain j where j: "jo = Some j" using assms(1) by (cases jo) auto
  with assms(1) obtain vs where vs: "struct_fields names j = Ok vs" "read vs = Ok x"
    by (auto simp: outcome_simps)
  have "json_utf8 j" using assms(2) j by (simp add: field_utf8_def)
  from struct_fields_utf8[OF this vs(1)] that[OF vs(2)] show ?thesis by (simp add: list_all_length)
qed

section \<open>Leaves\<close>

text \<open>
  The crates behind the leaves: base58check, addresses of compressed keys, and the decimal form of
  field elements.
\<close>

record ('r, 'sp) serde_env =
  sd_zk :: "('r, 'sp) zk_env"
  sd_base58 :: base58_ext
  sd_address :: address_ext
  sd_key_of_address :: "rstr \<Rightarrow> compressed_pubkey option"
  sd_field_parse :: "rstr \<Rightarrow> fp option"
  sd_utf8_error :: "bytes \<Rightarrow> rstr"

definition good_field :: "('r, 'sp) serde_env \<Rightarrow> fp \<Rightarrow> bool" where
  "good_field E x \<longleftrightarrow> x < fp_modulus (sd_zk E)"

text \<open>
  A compressed key is read by decompressing it, so only the keys of points of the curve have an
  address: the empty key, with coordinate 0, has none.
\<close>

definition good_key :: "('r, 'sp) serde_env \<Rightarrow> compressed_pubkey \<Rightarrow> bool" where
  "good_key E k \<longleftrightarrow> good_field E (pk_x k) \<and> (\<exists>s. sd_key_of_address E s = Some k)"

text \<open>
  The documented behaviour of those crates: a canonical element has 32 bytes, parsing inverts
  printing and yields canonical elements, and a key read from an address is read back from its own
  address.
\<close>

definition serde_laws :: "('r, 'sp) serde_env \<Rightarrow> bool" where
  "serde_laws E \<longleftrightarrow> base58_laws (sd_base58 E) \<and>
     0 < fp_modulus (sd_zk E) \<and> fp_modulus (sd_zk E) \<le> 256 ^ 32 \<and>
     (\<forall>x. good_field E x \<longrightarrow> sd_field_parse E (field_display (sd_zk E) x) = Some x) \<and>
     (\<forall>s x. sd_field_parse E s = Some x \<longrightarrow> good_field E x) \<and>
     (\<forall>s k. sd_key_of_address E s = Some k \<longrightarrow>
        good_field E (pk_x k) \<and> sd_key_of_address E (into_address (sd_address E) k) = Some k)"

definition ser_bool :: "bool writer" where "ser_bool b = Ok (JBool b)"

fun de_bool_field :: "bool reader" where
  "de_bool_field (Some j) = de_bool j"
| "de_bool_field None = Err Malformed"

definition ser_str :: "rstr writer" where "ser_str s = Ok (JStr s)"

definition ser_num :: "'w::len word writer" where "ser_num x = Ok (JNum (int (unat x)))"

fun de_num :: "'w::len word reader" where
  "de_num (Some (JNum n)) =
     (if 0 \<le> n \<and> n < 2 ^ LENGTH('w) then Ok (word_of_int n) else Err Malformed)"
| "de_num _ = Err Malformed"

text \<open>\<open>StringU32\<close>, \<open>StringU64\<close> and the helpers for \<open>u32\<close> and \<open>u64\<close> fields.\<close>

definition serialize_uint_string :: "'w::len word writer" where
  "serialize_uint_string x = Ok (JStr (show_nat (unat x)))"

definition deserialize_uint_string :: "'w::len word reader" where
  "deserialize_uint_string jo = obind (de_string jo) (\<lambda>s. omap word_of_nat (de_uint LENGTH('w) s))"

fun serialize_option_u32_string :: "u32 option writer" where
  "serialize_option_u32_string (Some v) = Ok (JStr (show_nat (unat v)))"
| "serialize_option_u32_string None = Ok JNull"

text \<open>A field with a reader of its own must be present, though it may be null.\<close>

definition deserialize_option_u32_string :: "u32 option reader" where
  "deserialize_option_u32_string jo =
     (if jo = None then Err Malformed
      else obind (de_option de_string jo) (\<lambda>opt.
        case opt of Some s \<Rightarrow> omap (\<lambda>v. Some (word_of_nat v)) (de_uint 32 s) | None \<Rightarrow> Ok None))"

definition serialize_sign :: "i8 writer" where
  "serialize_sign value =
     (if value = 0 then Err (CustomError (lit ''Sign must be -1 or 1, found 0''))
      else Ok (JStr (if 0 < sint value then lit ''Positive'' else lit ''Negative'')))"

definition deserialize_sign :: "i8 reader" where
  "deserialize_sign jo = obind (de_string jo) (\<lambda>s.
     if s = lit ''Positive'' then Ok 1 else if s = lit ''Negative'' then Ok (- 1)
     else Err (CustomError (lit ''Invalid sign value'')))"

definition ser_public_key :: "('r, 'sp) serde_env \<Rightarrow> compressed_pubkey writer" where
  "ser_public_key E k = Ok (JStr (into_address (sd_address E) k))"

definition de_public_key :: "('r, 'sp) serde_env \<Rightarrow> compressed_pubkey reader" where
  "de_public_key E jo = obind (de_string jo) (\<lambda>s. ok_or BadAddress (sd_key_of_address E s))"

definition ser_field :: "('r, 'sp) serde_env \<Rightarrow> fp writer" where
  "ser_field E x = Ok (JStr (field_display (sd_zk E) x))"

definition de_field :: "('r, 'sp) serde_env \<Rightarrow> fp reader" where
  "de_field E jo = obind (de_string jo) (\<lambda>s.
     ok_or (CustomError (lit ''Failed to parse Fp from string: '' @ s)) (sd_field_parse E s))"

fun memo_error :: "base58_error \<Rightarrow> rstr" where
  "memo_error InvalidBase58 = lit ''Invalid base58 encoding''"
| "memo_error TooShort = lit ''Memo too short for base58check''"
| "memo_error (InvalidVersionByte expected actual) =
     lit ''Invalid memo version byte: expected '' @ show_nat (unat expected) @ lit '', got '' @ show_nat (unat actual)"
| "memo_error InvalidChecksum = lit ''Invalid memo checksum''"
| "memo_error (InvalidLength expected actual) =
     lit ''Invalid memo length: expected '' @ show_nat expected @ lit '', got '' @ show_nat actual"

definition memo_serde :: "('r, 'sp) serde_env \<Rightarrow> bytes writer" where
  "memo_serde E memo = Ok (JStr (to_base58_check (sd_base58 E) memo MEMO_VERSION_BYTE))"

definition memo_deser :: "('r, 'sp) serde_env \<Rightarrow> bytes reader" where
  "memo_deser E jo = obind (de_string jo) (\<lambda>s.
     obind (map_err (\<lambda>e. CustomError (memo_error e)) (from_base58_check (sd_base58 E) s MEMO_VERSION_BYTE)) (\<lambda>decoded.
     if length decoded \<noteq> MEMO_BYTES
     then Err (CustomError (lit ''Invalid memo length: expected '' @ show_nat MEMO_BYTES @ lit '', got '' @ show_nat (length decoded)))
     else if (case decoded of [] \<Rightarrow> True | b # _ \<Rightarrow> b \<noteq> 1)
     then Err (CustomError (lit ''Invalid memo header: missing 0x01 prefix''))
     else copy_from_slice (replicate MEMO_BYTES 0) decoded))"

definition TOKEN_BYTES :: nat where "TOKEN_BYTES = 32"

fun token_id_error :: "base58_error \<Rightarrow> rstr" where
  "token_id_error InvalidBase58 = lit ''Invalid base58 encoding''"
| "token_id_error TooShort = lit ''TokenId too short for base58check''"
| "token_id_error (InvalidVersionByte expected actual) =
     lit ''Invalid TokenId version byte: expected '' @ show_nat (unat expected) @ lit '', got '' @ show_nat (unat actual)"
| "token_id_error InvalidChecksum = lit ''Invalid TokenId checksum''"
| "token_id_error (InvalidLength expected actual) =
     lit ''Invalid TokenId length: expected '' @ show_nat expected @ lit '', got '' @ show_nat actual"

text \<open>The limbs of a field element are 32 bytes, so the conversion to an array cannot fail.\<close>

definition ser_token_id :: "('r, 'sp) serde_env \<Rightarrow> token_id writer" where
  "ser_token_id E t =
     Ok (JStr (to_base58_check (sd_base58 E) (le_bytes TOKEN_BYTES (token_field t)) TOKEN_ID_VERSION_BYTE))"

definition de_token_id :: "('r, 'sp) serde_env \<Rightarrow> token_id reader" where
  "de_token_id E jo = obind (de_string jo) (\<lambda>s.
     obind (map_err (\<lambda>e. CustomError (token_id_error e)) (from_base58_check (sd_base58 E) s TOKEN_ID_VERSION_BYTE)) (\<lambda>decoded.
     if length decoded \<noteq> TOKEN_BYTES
     then Err (CustomError (lit ''Invalid TokenId length: expected '' @ show_nat TOKEN_BYTES @ lit '', got '' @ show_nat (length decoded)))
     else Ok (TokenId (le_value decoded mod fp_modulus (sd_zk E)))))"

definition ser_action_state :: "('r, 'sp) serde_env \<Rightarrow> action_state writer" where
  "ser_action_state E a = ser_field E (action_field a)"

definition de_action_state :: "('r, 'sp) serde_env \<Rightarrow> action_state reader" where
  "de_action_state E jo = omap ActionState (de_field E jo)"

definition ser_utf8 :: "('r, 'sp) serde_env \<Rightarrow> bytes writer" where
  "ser_utf8 E s = (if utf8_valid s then Ok (JStr s) else Err (CustomError (sd_utf8_error E s)))"

definition ser_token_symbol :: "('r, 'sp) serde_env \<Rightarrow> token_symbol writer" where
  "ser_token_symbol E t = ser_utf8 E (symbol_bytes t)"

definition de_token_symbol :: "token_symbol reader" where
  "de_token_symbol jo = obind (de_string jo) (\<lambda>s. map_err CustomError (token_symbol_from_str s))"

definition ser_zkapp_uri :: "('r, 'sp) serde_env \<Rightarrow> zkapp_uri writer" where
  "ser_zkapp_uri E t = ser_utf8 E (uri_bytes t)"

definition de_zkapp_uri :: "zkapp_uri reader" where
  "de_zkapp_uri jo = obind (de_string jo) (\<lambda>s. map_err CustomError (zkapp_uri_from_str s))"

fun auth_name :: "auth_required \<Rightarrow> rstr" where
  "auth_name AuthNone = lit ''None''"
| "auth_name Either = lit ''Either''"
| "auth_name Proof = lit ''Proof''"
| "auth_name Signature = lit ''Signature''"
| "auth_name Impossible = lit ''Impossible''"
| "auth_name Both = lit ''Both''"

definition ser_auth :: "auth_required writer" where
  "ser_auth a = Ok (JStr (auth_name a))"

text \<open>A unit variant is its name, or an object with its name and null.\<close>

fun de_unit_variant :: "json option \<Rightarrow> (de_error, rstr) outcome" where
  "de_unit_variant (Some (JStr name)) = Ok name"
| "de_unit_variant (Some (JObj [(name, JNull)])) = Ok name"
| "de_unit_variant _ = Err Malformed"

definition de_auth :: "auth_required reader" where
  "de_auth jo = obind (de_unit_variant jo) (\<lambda>name.
     ok_or Malformed (find (\<lambda>a. auth_name a = name) [AuthNone, Either, Proof, Signature, Impossible, Both]))"

declare de_bool_field.simps [simp del]

subsection \<open>The leaves are codecs\<close>

definition anything :: "'a \<Rightarrow> bool" where "anything x = True"

lemma anything [simp, intro!]: "anything x" "pred_option anything opt" "list_all anything xs"
  by (auto simp: anything_def option.pred_set list_all_iff)

definition good_memo :: "bytes \<Rightarrow> bool" where
  "good_memo m \<longleftrightarrow> length m = MEMO_BYTES \<and> m ! 0 = 1"

definition good_symbol :: "token_symbol \<Rightarrow> bool" where
  "good_symbol t \<longleftrightarrow> length (symbol_bytes t) \<le> 6 \<and> utf8_valid (symbol_bytes t)"

definition good_uri :: "zkapp_uri \<Rightarrow> bool" where
  "good_uri t \<longleftrightarrow> utf8_valid (uri_bytes t)"

definition good_sign :: "i8 \<Rightarrow> bool" where
  "good_sign v \<longleftrightarrow> v = 1 \<or> v = - 1"

lemma de_string_Ok_iff [outcome_simps]: "de_string jo = Ok s \<longleftrightarrow> jo = Some (JStr s)"
  by (cases jo rule: de_string.cases) auto

lemma field_utf8_str [simp]: "field_utf8 (Some (JStr s)) \<longleftrightarrow> utf8_valid s"
  by (simp add: field_utf8_def)

lemma bool_codec: "codec ser_bool de_bool_field anything"
  by (rule codecI) (auto simp: ser_bool_def de_bool_field.simps)

lemma str_codec: "codec ser_str de_string anything"
  by (rule codecI) (auto simp: ser_str_def)

lemma num_codec: "codec (ser_num :: 'w::len word writer) de_num anything"
proof (rule codecI)
  fix x :: "'w word"
  show "obind (ser_num x) (\<lambda>j. de_num (Some j)) = Ok x"
    using unsigned_less[of x, where ?'a = int] by (simp add: ser_num_def)
qed simp

lemma uint_codec: "codec (serialize_uint_string :: 'w::len word writer) deserialize_uint_string anything"
  by (rule codecI) (simp_all add: serialize_uint_string_def deserialize_uint_string_def de_uint_def parse_show_uint)

lemma option_u32_codec: "codec serialize_option_u32_string deserialize_option_u32_string anything"
proof (rule codecI)
  fix x :: "u32 option"
  show "obind (serialize_option_u32_string x) (\<lambda>j. deserialize_option_u32_string (Some j)) = Ok x"
    by (cases x) (simp_all add: deserialize_option_u32_string_def de_uint_def parse_show_word)
qed simp

lemma sign_codec: "codec serialize_sign deserialize_sign good_sign"
  by (rule codecI) (auto simp: serialize_sign_def deserialize_sign_def good_sign_def outcome_simps split: if_splits)

lemma memo_codec:
  assumes "serde_laws E"
  shows "codec (memo_serde E) (memo_deser E) good_memo"
proof (rule codecI)
  fix m assume "good_memo m"
  moreover have "from_base58_check (sd_base58 E) (to_base58_check (sd_base58 E) m MEMO_VERSION_BYTE) MEMO_VERSION_BYTE = Ok m"
    using assms by (simp add: serde_laws_def base58_check_roundtrip)
  ultimately show "obind (memo_serde E m) (\<lambda>j. memo_deser E (Some j)) = Ok m"
    by (cases m) (simp_all add: memo_serde_def memo_deser_def good_memo_def copy_from_slice_def MEMO_BYTES_def)
next
  fix jo m assume "memo_deser E jo = Ok m"
  then show "good_memo m"
    by (auto simp: memo_deser_def good_memo_def outcome_simps copy_from_slice_def split: if_splits list.splits)
qed

lemma token_id_codec:
  assumes "serde_laws E"
  shows "codec (ser_token_id E) (de_token_id E) (\<lambda>t. good_field E (token_field t))"
proof (rule codecI)
  fix t assume "good_field E (token_field t)"
  then have "token_field t < fp_modulus (sd_zk E)" "token_field t < 256 ^ 32"
    using assms by (auto simp: good_field_def serde_laws_def)
  moreover have "from_base58_check (sd_base58 E) (to_base58_check (sd_base58 E) p TOKEN_ID_VERSION_BYTE) TOKEN_ID_VERSION_BYTE = Ok p" for p
    using assms by (simp add: serde_laws_def base58_check_roundtrip)
  ultimately show "obind (ser_token_id E t) (\<lambda>j. de_token_id E (Some j)) = Ok t"
    by (simp add: ser_token_id_def de_token_id_def le_value_le_bytes TOKEN_BYTES_def)
next
  fix jo t assume "de_token_id E jo = Ok t"
  then show "good_field E (token_field t)"
    using assms by (auto simp: de_token_id_def good_field_def serde_laws_def outcome_simps split: if_splits)
qed

lemma field_codec:
  assumes "serde_laws E"
  shows "codec (ser_field E) (de_field E) (good_field E)"
  by (rule codecI) (use assms in \<open>auto simp: ser_field_def de_field_def serde_laws_def outcome_simps\<close>)

lemma public_key_codec:
  assumes "serde_laws E"
  shows "codec (ser_public_key E) (de_public_key E) (good_key E)"
  by (rule codecI) (use assms in \<open>auto simp: ser_public_key_def de_public_key_def serde_laws_def good_key_def outcome_simps\<close>)

lemma action_state_codec:
  assumes "serde_laws E"
  shows "codec (ser_action_state E) (de_action_state E) (\<lambda>a. good_field E (action_field a))"
  using field_codec[OF assms]
  by (intro codecI)
     (auto simp: ser_action_state_def de_action_state_def codec_rewrites outcome_simps dest: codec_good)

lemma symbol_codec: "codec (ser_token_symbol E) de_token_symbol good_symbol"
  by (rule codecI)
     (auto simp: ser_token_symbol_def de_token_symbol_def ser_utf8_def token_symbol_from_str_def good_symbol_def
       outcome_simps split: if_splits)

lemma uri_codec: "codec (ser_zkapp_uri E) de_zkapp_uri good_uri"
  by (rule codecI)
     (auto simp: ser_zkapp_uri_def de_zkapp_uri_def ser_utf8_def zkapp_uri_from_str_def good_uri_def outcome_simps)

lemma auth_codec: "codec ser_auth de_auth anything"
proof (rule codecI)
  fix a :: auth_required
  show "obind (ser_auth a) (\<lambda>j. de_auth (Some j)) = Ok a"
    by (cases a) (simp_all add: ser_auth_def de_auth_def)
qed simp

lemma never_null_leaves:
  "never_null ser_bool" "never_null ser_str" "never_null (ser_public_key E)" "never_null (ser_field E)"
  "never_null (ser_action_state E)" "never_null (ser_token_symbol E)" "never_null (ser_zkapp_uri E)"
  by (simp_all add: never_null_def ser_bool_def ser_str_def ser_public_key_def ser_field_def
      ser_action_state_def ser_token_symbol_def ser_zkapp_uri_def ser_utf8_def)

section \<open>Structs and commands\<close>

lemma struct_codecI:
  assumes "\<And>x. ser x = ser_struct names (sers x)" and "de = de_struct names read"
    and "distinct names" and "\<And>x. length (sers x) = length names"
    and writes: "\<And>x. good x \<Longrightarrow> obind (omap_list id (sers x)) (\<lambda>vs. read (map Some vs)) = Ok x"
    and reads: "\<And>vs x. (\<And>i. i < length names \<Longrightarrow> field_utf8 (vs ! i)) \<Longrightarrow> read vs = Ok x \<Longrightarrow> good x"
  shows "codec ser de good"
proof (rule codecI)
  fix x assume "good x"
  from writes[OF this] obtain vs where vs: "omap_list id (sers x) = Ok vs" "read (map Some vs) = Ok x"
    by (auto simp: outcome_simps)
  then show "obind (ser x) (\<lambda>j. de (Some j)) = Ok x"
    unfolding assms(1,2) struct_write[OF assms(3) vs(1) assms(4)] by simp
next
  fix jo x assume "field_utf8 jo" and "de jo = Ok x"
  then show "good x" unfolding assms(2) by (elim de_structE) (auto intro: reads)
qed

text \<open>A range condition is generic in its bounds.\<close>

definition range_fields :: "rstr list" where
  "range_fields = map lit [''lower'', ''upper'']"

definition ser_range :: "'a writer \<Rightarrow> 'a range_condition writer" where
  "ser_range ser v = ser_struct range_fields [ser (lower v), ser (upper v)]"

definition de_range :: "'a reader \<Rightarrow> 'a range_condition reader" where
  "de_range de = de_struct range_fields (\<lambda>vs.
     obind (de (vs ! 0)) (\<lambda>x0. obind (de (vs ! 1)) (\<lambda>x1. Ok \<lparr>lower = x0, upper = x1\<rparr>)))"

abbreviation ser_uint_range :: "'w::len word range_condition writer" where
  "ser_uint_range \<equiv> ser_range serialize_uint_string"

abbreviation de_uint_range :: "'w::len word range_condition reader" where
  "de_uint_range \<equiv> de_range deserialize_uint_string"

lemma range_codec: "codec ser_uint_range de_uint_range anything"
  by (rule struct_codecI[OF ser_range_def de_range_def])
     (simp_all add: range_fields_def uint_codec[THEN codec_bind] uint_codec[THEN codec_de])

lemma never_null_range: "never_null (ser_range ser)"
  by (rule never_null_struct) (rule ser_range_def)

definition vk_fields :: "rstr list" where
  "vk_fields = map lit [''data'', ''hash'']"

definition ser_vk :: "('r, 'sp) serde_env \<Rightarrow> verification_key_data writer" where
  "ser_vk E v = ser_struct vk_fields [
     ser_str (vk_data v), ser_field E (vk_hash v)]"

definition de_vk :: "('r, 'sp) serde_env \<Rightarrow> verification_key_data reader" where
  "de_vk E = de_struct vk_fields (\<lambda>vs.
     obind (de_string (vs ! 0)) (\<lambda>x0.
     obind (de_field E (vs ! 1)) (\<lambda>x1.
     Ok \<lparr>vk_data = x0, vk_hash = x1\<rparr>)))"

definition good_vk :: "('r, 'sp) serde_env \<Rightarrow> verification_key_data \<Rightarrow> bool" where
  "good_vk E v \<longleftrightarrow> good_field E (vk_hash v)"

lemma vk_codec:
  assumes laws: "serde_laws E"
  shows "codec (ser_vk E) (de_vk E) (good_vk E)"
proof -
  note codecs = str_codec field_codec[OF laws]
  show ?thesis
    by (rule struct_codecI[OF ser_vk_def de_vk_def])
       ((simp add: vk_fields_def good_vk_def codecs[THEN codec_bind] codecs[THEN codec_de]; fail) |
        (auto simp: vk_fields_def good_vk_def outcome_simps dest: codecs[THEN codec_good]))+
qed

lemma never_null_vk: "never_null (ser_vk E)"
  by (rule never_null_struct) (rule ser_vk_def)

definition timing_fields :: "rstr list" where
  "timing_fields = map lit [''initialMinimumBalance'', ''cliffTime'', ''cliffAmount'', ''vestingPeriod'',
     ''vestingIncrement'']"

definition ser_timing :: "timing_data writer" where
  "ser_timing v = ser_struct timing_fields [
     ser_num (initial_minimum_balance v), ser_num (cliff_time v), ser_num (cliff_amount v),
     ser_num (vesting_period v), ser_num (vesting_increment v)]"

definition de_timing :: "timing_data reader" where
  "de_timing = de_struct timing_fields (\<lambda>vs.
     obind (de_num (vs ! 0)) (\<lambda>x0.
     obind (de_num (vs ! 1)) (\<lambda>x1.
     obind (de_num (vs ! 2)) (\<lambda>x2.
     obind (de_num (vs ! 3)) (\<lambda>x3.
     obind (de_num (vs ! 4)) (\<lambda>x4.
     Ok \<lparr>initial_minimum_balance = x0, cliff_time = x1, cliff_amount = x2, vesting_period = x3,
         vesting_increment = x4\<rparr>))))))"

lemma timing_codec:
  shows "codec ser_timing de_timing anything"
proof -
  note codecs = num_codec
  show ?thesis
    by (rule struct_codecI[OF ser_timing_def de_timing_def])
       ((simp add: timing_fields_def codecs[THEN codec_bind] codecs[THEN codec_de]; fail) |
        (auto simp: timing_fields_def outcome_simps dest: codecs[THEN codec_good]))+
qed

lemma never_null_timing: "never_null ser_timing"
  by (rule never_null_struct) (rule ser_timing_def)

definition may_use_token_fields :: "rstr list" where
  "may_use_token_fields = map lit [''parentsOwnToken'', ''inheritFromParent'']"

definition ser_may_use_token :: "may_use_token writer" where
  "ser_may_use_token v = ser_struct may_use_token_fields [
     ser_bool (parents_own_token v), ser_bool (inherit_from_parent v)]"

definition de_may_use_token :: "may_use_token reader" where
  "de_may_use_token = de_struct may_use_token_fields (\<lambda>vs.
     obind (de_bool_field (vs ! 0)) (\<lambda>x0.
     obind (de_bool_field (vs ! 1)) (\<lambda>x1.
     Ok \<lparr>parents_own_token = x0, inherit_from_parent = x1\<rparr>)))"

lemma may_use_token_codec:
  shows "codec ser_may_use_token de_may_use_token anything"
proof -
  note codecs = bool_codec
  show ?thesis
    by (rule struct_codecI[OF ser_may_use_token_def de_may_use_token_def])
       ((simp add: may_use_token_fields_def codecs[THEN codec_bind] codecs[THEN codec_de]; fail) |
        (auto simp: may_use_token_fields_def outcome_simps dest: codecs[THEN codec_good]))+
qed

lemma never_null_may_use_token: "never_null ser_may_use_token"
  by (rule never_null_struct) (rule ser_may_use_token_def)

definition balance_change_fields :: "rstr list" where
  "balance_change_fields = map lit [''magnitude'', ''sgn'']"

definition ser_balance_change :: "balance_change writer" where
  "ser_balance_change v = ser_struct balance_change_fields [
     serialize_uint_string (magnitude v), serialize_sign (sgn v)]"

definition de_balance_change :: "balance_change reader" where
  "de_balance_change = de_struct balance_change_fields (\<lambda>vs.
     obind (deserialize_uint_string (vs ! 0)) (\<lambda>x0.
     obind (deserialize_sign (vs ! 1)) (\<lambda>x1.
     Ok \<lparr>magnitude = x0, sgn = x1\<rparr>)))"

definition good_balance_change :: "balance_change \<Rightarrow> bool" where
  "good_balance_change v \<longleftrightarrow> good_sign (sgn v)"

lemma balance_change_codec:
  shows "codec ser_balance_change de_balance_change good_balance_change"
proof -
  note codecs = uint_codec sign_codec
  show ?thesis
    by (rule struct_codecI[OF ser_balance_change_def de_balance_change_def])
       ((simp add: balance_change_fields_def good_balance_change_def codecs[THEN codec_bind] codecs[THEN codec_de]; fail) |
        (auto simp: balance_change_fields_def good_balance_change_def outcome_simps dest: codecs[THEN codec_good]))+
qed

lemma never_null_balance_change: "never_null ser_balance_change"
  by (rule never_null_struct) (rule ser_balance_change_def)

definition authorization_kind_fields :: "rstr list" where
  "authorization_kind_fields = map lit [''isSigned'', ''isProved'', ''verificationKeyHash'']"

definition ser_authorization_kind :: "('r, 'sp) serde_env \<Rightarrow> authorization_kind writer" where
  "ser_authorization_kind E v = ser_struct authorization_kind_fields [
     ser_bool (is_signed v), ser_bool (is_proved v), ser_field E (verification_key_hash v)]"

definition de_authorization_kind :: "('r, 'sp) serde_env \<Rightarrow> authorization_kind reader" where
  "de_authorization_kind E = de_struct authorization_kind_fields (\<lambda>vs.
     obind (de_bool_field (vs ! 0)) (\<lambda>x0.
     obind (de_bool_field (vs ! 1)) (\<lambda>x1.
     obind (de_field E (vs ! 2)) (\<lambda>x2.
     Ok \<lparr>is_signed = x0, is_proved = x1, verification_key_hash = x2\<rparr>))))"

definition good_authorization_kind :: "('r, 'sp) serde_env \<Rightarrow> authorization_kind \<Rightarrow> bool" where
  "good_authorization_kind E v \<longleftrightarrow> good_field E (verification_key_hash v)"

lemma authorization_kind_codec:
  assumes laws: "serde_laws E"
  shows "codec (ser_authorization_kind E) (de_authorization_kind E) (good_authorization_kind E)"
proof -
  note codecs = bool_codec field_codec[OF laws]
  show ?thesis
    by (rule struct_codecI[OF ser_authorization_kind_def de_authorization_kind_def])
       ((simp add: authorization_kind_fields_def good_authorization_kind_def codecs[THEN codec_bind] codecs[THEN codec_de]; fail) |
        (auto simp: authorization_kind_fields_def good_authorization_kind_def outcome_simps dest: codecs[THEN codec_good]))+
qed

lemma never_null_authorization_kind: "never_null (ser_authorization_kind E)"
  by (rule never_null_struct) (rule ser_authorization_kind_def)

definition epoch_ledger_fields :: "rstr list" where
  "epoch_ledger_fields = map lit [''hash'', ''totalCurrency'']"

definition ser_epoch_ledger :: "('r, 'sp) serde_env \<Rightarrow> epoch_ledger writer" where
  "ser_epoch_ledger E v = ser_struct epoch_ledger_fields [
     ser_option (ser_field E) (el_hash v), ser_option ser_uint_range (el_total_currency v)]"

definition de_epoch_ledger :: "('r, 'sp) serde_env \<Rightarrow> epoch_ledger reader" where
  "de_epoch_ledger E = de_struct epoch_ledger_fields (\<lambda>vs.
     obind (de_option (de_field E) (vs ! 0)) (\<lambda>x0.
     obind (de_option de_uint_range (vs ! 1)) (\<lambda>x1.
     Ok \<lparr>el_hash = x0, el_total_currency = x1\<rparr>)))"

definition good_epoch_ledger :: "('r, 'sp) serde_env \<Rightarrow> epoch_ledger \<Rightarrow> bool" where
  "good_epoch_ledger E v \<longleftrightarrow> pred_option (good_field E) (el_hash v)"

lemma epoch_ledger_codec:
  assumes laws: "serde_laws E"
  shows "codec (ser_epoch_ledger E) (de_epoch_ledger E) (good_epoch_ledger E)"
proof -
  note codecs = codec_option[OF field_codec[OF laws] never_null_leaves(4)]
    codec_option[OF range_codec never_null_range]
  show ?thesis
    by (rule struct_codecI[OF ser_epoch_ledger_def de_epoch_ledger_def])
       ((simp add: epoch_ledger_fields_def good_epoch_ledger_def codecs[THEN codec_bind] codecs[THEN codec_de]; fail) |
        (auto simp: epoch_ledger_fields_def good_epoch_ledger_def outcome_simps dest: codecs[THEN codec_good]))+
qed

lemma never_null_epoch_ledger: "never_null (ser_epoch_ledger E)"
  by (rule never_null_struct) (rule ser_epoch_ledger_def)

definition epoch_data_fields :: "rstr list" where
  "epoch_data_fields = map lit [''ledger'', ''seed'', ''startCheckpoint'', ''lockCheckpoint'', ''epochLength'']"

definition ser_epoch_data :: "('r, 'sp) serde_env \<Rightarrow> epoch_data writer" where
  "ser_epoch_data E v = ser_struct epoch_data_fields [
     ser_epoch_ledger E (ledger v), ser_option (ser_field E) (seed v),
     ser_option (ser_field E) (start_checkpoint v), ser_option (ser_field E) (lock_checkpoint v),
     ser_option ser_uint_range (epoch_length v)]"

definition de_epoch_data :: "('r, 'sp) serde_env \<Rightarrow> epoch_data reader" where
  "de_epoch_data E = de_struct epoch_data_fields (\<lambda>vs.
     obind (de_epoch_ledger E (vs ! 0)) (\<lambda>x0.
     obind (de_option (de_field E) (vs ! 1)) (\<lambda>x1.
     obind (de_option (de_field E) (vs ! 2)) (\<lambda>x2.
     obind (de_option (de_field E) (vs ! 3)) (\<lambda>x3.
     obind (de_option de_uint_range (vs ! 4)) (\<lambda>x4.
     Ok \<lparr>ledger = x0, seed = x1, start_checkpoint = x2, lock_checkpoint = x3, epoch_length = x4\<rparr>))))))"

definition good_epoch_data :: "('r, 'sp) serde_env \<Rightarrow> epoch_data \<Rightarrow> bool" where
  "good_epoch_data E v \<longleftrightarrow> good_epoch_ledger E (ledger v) \<and> pred_option (good_field E) (seed v) \<and>
     pred_option (good_field E) (start_checkpoint v) \<and>
     pred_option (good_field E) (lock_checkpoint v)"

lemma epoch_data_codec:
  assumes laws: "serde_laws E"
  shows "codec (ser_epoch_data E) (de_epoch_data E) (good_epoch_data E)"
proof -
  note codecs = epoch_ledger_codec[OF laws] codec_option[OF field_codec[OF laws] never_null_leaves(4)]
    codec_option[OF range_codec never_null_range]
  show ?thesis
    by (rule struct_codecI[OF ser_epoch_data_def de_epoch_data_def])
       ((simp add: epoch_data_fields_def good_epoch_data_def codecs[THEN codec_bind] codecs[THEN codec_de]; fail) |
        (auto simp: epoch_data_fields_def good_epoch_data_def outcome_simps dest: codecs[THEN codec_good]))+
qed

lemma never_null_epoch_data: "never_null (ser_epoch_data E)"
  by (rule never_null_struct) (rule ser_epoch_data_def)

definition network_fields :: "rstr list" where
  "network_fields = map lit [''snarkedLedgerHash'', ''blockchainLength'', ''minWindowDensity'', ''totalCurrency'',
     ''globalSlotSinceGenesis'', ''stakingEpochData'', ''nextEpochData'']"

definition ser_network :: "('r, 'sp) serde_env \<Rightarrow> network_preconditions writer" where
  "ser_network E v = ser_struct network_fields [
     ser_option (ser_field E) (snarked_ledger_hash v),
     ser_option ser_uint_range (blockchain_length v),
     ser_option ser_uint_range (min_window_density v),
     ser_option ser_uint_range (np_total_currency v),
     ser_option ser_uint_range (global_slot_since_genesis v),
     ser_epoch_data E (staking_epoch_data v), ser_epoch_data E (next_epoch_data v)]"

definition de_network :: "('r, 'sp) serde_env \<Rightarrow> network_preconditions reader" where
  "de_network E = de_struct network_fields (\<lambda>vs.
     obind (de_option (de_field E) (vs ! 0)) (\<lambda>x0.
     obind (de_option de_uint_range (vs ! 1)) (\<lambda>x1.
     obind (de_option de_uint_range (vs ! 2)) (\<lambda>x2.
     obind (de_option de_uint_range (vs ! 3)) (\<lambda>x3.
     obind (de_option de_uint_range (vs ! 4)) (\<lambda>x4.
     obind (de_epoch_data E (vs ! 5)) (\<lambda>x5.
     obind (de_epoch_data E (vs ! 6)) (\<lambda>x6.
     Ok \<lparr>snarked_ledger_hash = x0, blockchain_length = x1, min_window_density = x2,
         np_total_currency = x3, global_slot_since_genesis = x4, staking_epoch_data = x5,
         next_epoch_data = x6\<rparr>))))))))"

definition good_network :: "('r, 'sp) serde_env \<Rightarrow> network_preconditions \<Rightarrow> bool" where
  "good_network E v \<longleftrightarrow> pred_option (good_field E) (snarked_ledger_hash v) \<and>
     good_epoch_data E (staking_epoch_data v) \<and> good_epoch_data E (next_epoch_data v)"

lemma network_codec:
  assumes laws: "serde_laws E"
  shows "codec (ser_network E) (de_network E) (good_network E)"
proof -
  note codecs = codec_option[OF field_codec[OF laws] never_null_leaves(4)]
    codec_option[OF range_codec never_null_range] epoch_data_codec[OF laws]
  show ?thesis
    by (rule struct_codecI[OF ser_network_def de_network_def])
       ((simp add: network_fields_def good_network_def codecs[THEN codec_bind] codecs[THEN codec_de]; fail) |
        (auto simp: network_fields_def good_network_def outcome_simps dest: codecs[THEN codec_good]))+
qed

lemma never_null_network: "never_null (ser_network E)"
  by (rule never_null_struct) (rule ser_network_def)

definition account_fields :: "rstr list" where
  "account_fields = map lit [''balance'', ''nonce'', ''receiptChainHash'', ''delegate'', ''state'', ''actionState'',
     ''provedState'', ''isNew'']"

definition ser_account :: "('r, 'sp) serde_env \<Rightarrow> account_preconditions writer" where
  "ser_account E v = ser_struct account_fields [
     ser_option ser_uint_range (balance v), ser_option ser_uint_range (ap_nonce v),
     ser_option (ser_field E) (receipt_chain_hash v),
     ser_option (ser_public_key E) (ap_delegate v),
     ser_list (ser_option (ser_field E)) (ap_state v),
     ser_option (ser_action_state E) (action_state v), ser_option ser_bool (proved_state v),
     ser_option ser_bool (is_new v)]"

definition de_account :: "('r, 'sp) serde_env \<Rightarrow> account_preconditions reader" where
  "de_account E = de_struct account_fields (\<lambda>vs.
     obind (de_option de_uint_range (vs ! 0)) (\<lambda>x0.
     obind (de_option de_uint_range (vs ! 1)) (\<lambda>x1.
     obind (de_option (de_field E) (vs ! 2)) (\<lambda>x2.
     obind (de_option (de_public_key E) (vs ! 3)) (\<lambda>x3.
     obind (de_array (APP_STATE_LENGTH (sd_zk E)) (de_option (de_field E)) (vs ! 4)) (\<lambda>x4.
     obind (de_option (de_action_state E) (vs ! 5)) (\<lambda>x5.
     obind (de_option de_bool_field (vs ! 6)) (\<lambda>x6.
     obind (de_option de_bool_field (vs ! 7)) (\<lambda>x7.
     Ok \<lparr>balance = x0, ap_nonce = x1, receipt_chain_hash = x2, ap_delegate = x3, ap_state = x4,
         action_state = x5, proved_state = x6, is_new = x7\<rparr>)))))))))"

definition good_account :: "('r, 'sp) serde_env \<Rightarrow> account_preconditions \<Rightarrow> bool" where
  "good_account E v \<longleftrightarrow> pred_option (good_field E) (receipt_chain_hash v) \<and>
     pred_option (good_key E) (ap_delegate v) \<and>
     length (ap_state v) = APP_STATE_LENGTH (sd_zk E) \<and> list_all (pred_option (good_field E)) (ap_state v) \<and>
     pred_option (\<lambda>a. good_field E (action_field a)) (action_state v)"

lemma account_codec:
  assumes laws: "serde_laws E"
  shows "codec (ser_account E) (de_account E) (good_account E)"
proof -
  note codecs = codec_option[OF range_codec never_null_range]
    codec_option[OF field_codec[OF laws] never_null_leaves(4)]
    codec_option[OF public_key_codec[OF laws] never_null_leaves(3)]
    codec_array[OF codec_option[OF field_codec[OF laws] never_null_leaves(4)]]
    codec_option[OF action_state_codec[OF laws] never_null_leaves(5)]
    codec_option[OF bool_codec never_null_leaves(1)]
  show ?thesis
    by (rule struct_codecI[OF ser_account_def de_account_def])
       ((simp add: account_fields_def good_account_def codecs[THEN codec_bind] codecs[THEN codec_de]; fail) |
        (auto simp: account_fields_def good_account_def outcome_simps dest: codecs[THEN codec_good]))+
qed

lemma never_null_account: "never_null (ser_account E)"
  by (rule never_null_struct) (rule ser_account_def)

definition preconditions_fields :: "rstr list" where
  "preconditions_fields = map lit [''network'', ''account'', ''validWhile'']"

definition ser_preconditions :: "('r, 'sp) serde_env \<Rightarrow> preconditions writer" where
  "ser_preconditions E v = ser_struct preconditions_fields [
     ser_network E (pre_network v), ser_account E (pre_account v),
     ser_option ser_uint_range (valid_while v)]"

definition de_preconditions :: "('r, 'sp) serde_env \<Rightarrow> preconditions reader" where
  "de_preconditions E = de_struct preconditions_fields (\<lambda>vs.
     obind (de_network E (vs ! 0)) (\<lambda>x0.
     obind (de_account E (vs ! 1)) (\<lambda>x1.
     obind (de_option de_uint_range (vs ! 2)) (\<lambda>x2.
     Ok \<lparr>pre_network = x0, pre_account = x1, valid_while = x2\<rparr>))))"

definition good_preconditions :: "('r, 'sp) serde_env \<Rightarrow> preconditions \<Rightarrow> bool" where
  "good_preconditions E v \<longleftrightarrow> good_network E (pre_network v) \<and> good_account E (pre_account v)"

lemma preconditions_codec:
  assumes laws: "serde_laws E"
  shows "codec (ser_preconditions E) (de_preconditions E) (good_preconditions E)"
proof -
  note codecs = network_codec[OF laws] account_codec[OF laws] codec_option[OF range_codec never_null_range]
  show ?thesis
    by (rule struct_codecI[OF ser_preconditions_def de_preconditions_def])
       ((simp add: preconditions_fields_def good_preconditions_def codecs[THEN codec_bind] codecs[THEN codec_de]; fail) |
        (auto simp: preconditions_fields_def good_preconditions_def outcome_simps dest: codecs[THEN codec_good]))+
qed

lemma never_null_preconditions: "never_null (ser_preconditions E)"
  by (rule never_null_struct) (rule ser_preconditions_def)

definition set_vk_fields :: "rstr list" where
  "set_vk_fields = map lit [''auth'', ''txnVersion'']"

definition ser_set_vk :: "set_verification_key writer" where
  "ser_set_vk v = ser_struct set_vk_fields [
     ser_auth (auth v), serialize_uint_string (txn_version v)]"

definition de_set_vk :: "set_verification_key reader" where
  "de_set_vk = de_struct set_vk_fields (\<lambda>vs.
     obind (de_auth (vs ! 0)) (\<lambda>x0.
     obind (deserialize_uint_string (vs ! 1)) (\<lambda>x1.
     Ok \<lparr>auth = x0, txn_version = x1\<rparr>)))"

lemma set_vk_codec:
  shows "codec ser_set_vk de_set_vk anything"
proof -
  note codecs = auth_codec uint_codec
  show ?thesis
    by (rule struct_codecI[OF ser_set_vk_def de_set_vk_def])
       ((simp add: set_vk_fields_def codecs[THEN codec_bind] codecs[THEN codec_de]; fail) |
        (auto simp: set_vk_fields_def outcome_simps dest: codecs[THEN codec_good]))+
qed

lemma never_null_set_vk: "never_null ser_set_vk"
  by (rule never_null_struct) (rule ser_set_vk_def)

definition permissions_fields :: "rstr list" where
  "permissions_fields = map lit [''editState'', ''access'', ''send'', ''receive'', ''setDelegate'', ''setPermissions'',
     ''setVerificationKey'', ''setZkappUri'', ''editActionState'', ''setTokenSymbol'',
     ''incrementNonce'', ''setVotingFor'', ''setTiming'']"

definition ser_permissions :: "permissions writer" where
  "ser_permissions v = ser_struct permissions_fields [
     ser_auth (edit_state v), ser_auth (access v), ser_auth (send v), ser_auth (receive v),
     ser_auth (set_delegate v), ser_auth (set_permissions v), ser_set_vk (set_verification_key v),
     ser_auth (set_zkapp_uri v), ser_auth (edit_action_state v), ser_auth (set_token_symbol v),
     ser_auth (perm_increment_nonce v), ser_auth (set_voting_for v), ser_auth (set_timing v)]"

definition de_permissions :: "permissions reader" where
  "de_permissions = de_struct permissions_fields (\<lambda>vs.
     obind (de_auth (vs ! 0)) (\<lambda>x0.
     obind (de_auth (vs ! 1)) (\<lambda>x1.
     obind (de_auth (vs ! 2)) (\<lambda>x2.
     obind (de_auth (vs ! 3)) (\<lambda>x3.
     obind (de_auth (vs ! 4)) (\<lambda>x4.
     obind (de_auth (vs ! 5)) (\<lambda>x5.
     obind (de_set_vk (vs ! 6)) (\<lambda>x6.
     obind (de_auth (vs ! 7)) (\<lambda>x7.
     obind (de_auth (vs ! 8)) (\<lambda>x8.
     obind (de_auth (vs ! 9)) (\<lambda>x9.
     obind (de_auth (vs ! 10)) (\<lambda>x10.
     obind (de_auth (vs ! 11)) (\<lambda>x11.
     obind (de_auth (vs ! 12)) (\<lambda>x12.
     Ok \<lparr>edit_state = x0, access = x1, send = x2, receive = x3, set_delegate = x4,
         set_permissions = x5, set_verification_key = x6, set_zkapp_uri = x7,
         edit_action_state = x8, set_token_symbol = x9, perm_increment_nonce = x10,
         set_voting_for = x11, set_timing = x12\<rparr>))))))))))))))"

lemma permissions_codec:
  shows "codec ser_permissions de_permissions anything"
proof -
  note codecs = auth_codec set_vk_codec
  show ?thesis
    by (rule struct_codecI[OF ser_permissions_def de_permissions_def])
       ((simp add: permissions_fields_def codecs[THEN codec_bind] codecs[THEN codec_de]; fail) |
        (auto simp: permissions_fields_def outcome_simps dest: codecs[THEN codec_good]))+
qed

lemma never_null_permissions: "never_null ser_permissions"
  by (rule never_null_struct) (rule ser_permissions_def)

definition update_fields :: "rstr list" where
  "update_fields = map lit [''appState'', ''delegate'', ''verificationKey'', ''permissions'', ''zkappUri'',
     ''tokenSymbol'', ''timing'', ''votingFor'']"

definition ser_update :: "('r, 'sp) serde_env \<Rightarrow> update writer" where
  "ser_update E v = ser_struct update_fields [
     ser_list (ser_option (ser_field E)) (app_state v), ser_option (ser_public_key E) (delegate v),
     ser_option (ser_vk E) (verification_key v), ser_option ser_permissions (permissions v),
     ser_option (ser_zkapp_uri E) (zkapp_uri v), ser_option (ser_token_symbol E) (token_symbol v),
     ser_option ser_timing (timing v), ser_option (ser_field E) (voting_for v)]"

definition de_update :: "('r, 'sp) serde_env \<Rightarrow> update reader" where
  "de_update E = de_struct update_fields (\<lambda>vs.
     obind (de_array (APP_STATE_LENGTH (sd_zk E)) (de_option (de_field E)) (vs ! 0)) (\<lambda>x0.
     obind (de_option (de_public_key E) (vs ! 1)) (\<lambda>x1.
     obind (de_option (de_vk E) (vs ! 2)) (\<lambda>x2.
     obind (de_option de_permissions (vs ! 3)) (\<lambda>x3.
     obind (de_option de_zkapp_uri (vs ! 4)) (\<lambda>x4.
     obind (de_option de_token_symbol (vs ! 5)) (\<lambda>x5.
     obind (de_option de_timing (vs ! 6)) (\<lambda>x6.
     obind (de_option (de_field E) (vs ! 7)) (\<lambda>x7.
     Ok \<lparr>app_state = x0, delegate = x1, verification_key = x2, permissions = x3, zkapp_uri = x4,
         token_symbol = x5, timing = x6, voting_for = x7\<rparr>)))))))))"

definition good_update :: "('r, 'sp) serde_env \<Rightarrow> update \<Rightarrow> bool" where
  "good_update E v \<longleftrightarrow> length (app_state v) = APP_STATE_LENGTH (sd_zk E) \<and> list_all (pred_option (good_field E)) (app_state v) \<and>
     pred_option (good_key E) (delegate v) \<and>
     pred_option (good_vk E) (verification_key v) \<and> pred_option good_uri (zkapp_uri v) \<and>
     pred_option good_symbol (token_symbol v) \<and> pred_option (good_field E) (voting_for v)"

lemma update_codec:
  assumes laws: "serde_laws E"
  shows "codec (ser_update E) (de_update E) (good_update E)"
proof -
  note codecs = codec_array[OF codec_option[OF field_codec[OF laws] never_null_leaves(4)]]
    codec_option[OF public_key_codec[OF laws] never_null_leaves(3)]
    codec_option[OF vk_codec[OF laws] never_null_vk]
    codec_option[OF permissions_codec never_null_permissions]
    codec_option[OF uri_codec never_null_leaves(7)]
    codec_option[OF symbol_codec never_null_leaves(6)]
    codec_option[OF timing_codec never_null_timing]
    codec_option[OF field_codec[OF laws] never_null_leaves(4)]
  show ?thesis
    by (rule struct_codecI[OF ser_update_def de_update_def])
       ((simp add: update_fields_def good_update_def codecs[THEN codec_bind] codecs[THEN codec_de]; fail) |
        (auto simp: update_fields_def good_update_def outcome_simps dest: codecs[THEN codec_good]))+
qed

lemma never_null_update: "never_null (ser_update E)"
  by (rule never_null_struct) (rule ser_update_def)

text \<open>Events and actions are their list of lists.\<close>

definition ser_events :: "('r, 'sp) serde_env \<Rightarrow> events writer" where
  "ser_events E v = ser_list (ser_list (ser_field E)) (events_data v)"

definition de_events :: "('r, 'sp) serde_env \<Rightarrow> events reader" where
  "de_events E jo = omap Events (de_list (de_list (de_field E)) jo)"

definition ser_actions :: "('r, 'sp) serde_env \<Rightarrow> actions writer" where
  "ser_actions E v = ser_list (ser_list (ser_field E)) (actions_data v)"

definition de_actions :: "('r, 'sp) serde_env \<Rightarrow> actions reader" where
  "de_actions E jo = omap Actions (de_list (de_list (de_field E)) jo)"

definition good_events :: "('r, 'sp) serde_env \<Rightarrow> events \<Rightarrow> bool" where
  "good_events E v \<longleftrightarrow> list_all (list_all (good_field E)) (events_data v)"

definition good_actions :: "('r, 'sp) serde_env \<Rightarrow> actions \<Rightarrow> bool" where
  "good_actions E v \<longleftrightarrow> list_all (list_all (good_field E)) (actions_data v)"

lemma events_codec:
  assumes laws: "serde_laws E"
  shows "codec (ser_events E) (de_events E) (good_events E)"
    and "codec (ser_actions E) (de_actions E) (good_actions E)"
proof -
  note lists = codec_list[OF codec_list[OF field_codec[OF laws]]]
  show "codec (ser_events E) (de_events E) (good_events E)"
    by (rule codecI) (auto simp: ser_events_def de_events_def good_events_def outcome_simps
        lists[THEN codec_bind] lists[THEN codec_de] dest: codec_good[OF lists])
  show "codec (ser_actions E) (de_actions E) (good_actions E)"
    by (rule codecI) (auto simp: ser_actions_def de_actions_def good_actions_def outcome_simps
        lists[THEN codec_bind] lists[THEN codec_de] dest: codec_good[OF lists])
qed

definition authorization_fields :: "rstr list" where
  "authorization_fields = map lit [''proof'', ''signature'']"

definition ser_authorization :: "authorization writer" where
  "ser_authorization v = ser_struct authorization_fields [
     ser_option ser_str (proof_str v), ser_option ser_str (signature_str v)]"

definition de_authorization :: "authorization reader" where
  "de_authorization = de_struct authorization_fields (\<lambda>vs.
     obind (de_option de_string (vs ! 0)) (\<lambda>x0.
     obind (de_option de_string (vs ! 1)) (\<lambda>x1.
     Ok \<lparr>proof_str = x0, signature_str = x1\<rparr>)))"

lemma authorization_codec:
  shows "codec ser_authorization de_authorization anything"
proof -
  note codecs = codec_option[OF str_codec never_null_leaves(2)]
  show ?thesis
    by (rule struct_codecI[OF ser_authorization_def de_authorization_def])
       ((simp add: authorization_fields_def codecs[THEN codec_bind] codecs[THEN codec_de]; fail) |
        (auto simp: authorization_fields_def outcome_simps dest: codecs[THEN codec_good]))+
qed

lemma never_null_authorization: "never_null ser_authorization"
  by (rule never_null_struct) (rule ser_authorization_def)

definition body_fields :: "rstr list" where
  "body_fields = map lit [''publicKey'', ''tokenId'', ''update'', ''balanceChange'', ''incrementNonce'', ''events'',
     ''actions'', ''callData'', ''callDepth'', ''preconditions'', ''useFullCommitment'',
     ''implicitAccountCreationFee'', ''mayUseToken'', ''authorizationKind'']"

definition ser_body :: "('r, 'sp) serde_env \<Rightarrow> account_update_body writer" where
  "ser_body E v = ser_struct body_fields [
     ser_public_key E (public_key v), ser_token_id E (body_token_id v),
     ser_update E (body_update v), ser_balance_change (balance_change v),
     ser_bool (increment_nonce v), ser_events E (body_events v), ser_actions E (body_actions v),
     ser_field E (call_data v), ser_num (call_depth v), ser_preconditions E (body_preconditions v),
     ser_bool (use_full_commitment v), ser_bool (implicit_account_creation_fee v),
     ser_may_use_token (may_use_token v), ser_authorization_kind E (body_authorization_kind v)]"

definition de_body :: "('r, 'sp) serde_env \<Rightarrow> account_update_body reader" where
  "de_body E = de_struct body_fields (\<lambda>vs.
     obind (de_public_key E (vs ! 0)) (\<lambda>x0.
     obind (de_token_id E (vs ! 1)) (\<lambda>x1.
     obind (de_update E (vs ! 2)) (\<lambda>x2.
     obind (de_balance_change (vs ! 3)) (\<lambda>x3.
     obind (de_bool_field (vs ! 4)) (\<lambda>x4.
     obind (de_events E (vs ! 5)) (\<lambda>x5.
     obind (de_actions E (vs ! 6)) (\<lambda>x6.
     obind (de_field E (vs ! 7)) (\<lambda>x7.
     obind (de_num (vs ! 8)) (\<lambda>x8.
     obind (de_preconditions E (vs ! 9)) (\<lambda>x9.
     obind (de_bool_field (vs ! 10)) (\<lambda>x10.
     obind (de_bool_field (vs ! 11)) (\<lambda>x11.
     obind (de_may_use_token (vs ! 12)) (\<lambda>x12.
     obind (de_authorization_kind E (vs ! 13)) (\<lambda>x13.
     Ok \<lparr>public_key = x0, body_token_id = x1, body_update = x2, balance_change = x3,
         increment_nonce = x4, body_events = x5, body_actions = x6, call_data = x7,
         call_depth = x8, body_preconditions = x9, use_full_commitment = x10,
         implicit_account_creation_fee = x11, may_use_token = x12, body_authorization_kind = x13\<rparr>)))))))))))))))"

definition good_body :: "('r, 'sp) serde_env \<Rightarrow> account_update_body \<Rightarrow> bool" where
  "good_body E v \<longleftrightarrow> good_key E (public_key v) \<and> good_field E (token_field (body_token_id v)) \<and>
     good_update E (body_update v) \<and> good_balance_change (balance_change v) \<and>
     good_events E (body_events v) \<and> good_actions E (body_actions v) \<and>
     good_field E (call_data v) \<and> good_preconditions E (body_preconditions v) \<and>
     good_authorization_kind E (body_authorization_kind v)"

lemma body_codec:
  assumes laws: "serde_laws E"
  shows "codec (ser_body E) (de_body E) (good_body E)"
proof -
  note codecs = public_key_codec[OF laws] token_id_codec[OF laws] update_codec[OF laws] balance_change_codec
    bool_codec events_codec(1)[OF laws] events_codec(2)[OF laws] field_codec[OF laws] num_codec
    preconditions_codec[OF laws] may_use_token_codec authorization_kind_codec[OF laws]
  show ?thesis
    by (rule struct_codecI[OF ser_body_def de_body_def])
       ((simp add: body_fields_def good_body_def codecs[THEN codec_bind] codecs[THEN codec_de]; fail) |
        (auto simp: body_fields_def good_body_def outcome_simps dest: codecs[THEN codec_good]))+
qed

lemma never_null_body: "never_null (ser_body E)"
  by (rule never_null_struct) (rule ser_body_def)

definition account_update_fields :: "rstr list" where
  "account_update_fields = map lit [''body'', ''authorization'']"

definition ser_account_update :: "('r, 'sp) serde_env \<Rightarrow> account_update writer" where
  "ser_account_update E v = ser_struct account_update_fields [
     ser_body E (au_body v), ser_authorization (au_authorization v)]"

definition de_account_update :: "('r, 'sp) serde_env \<Rightarrow> account_update reader" where
  "de_account_update E = de_struct account_update_fields (\<lambda>vs.
     obind (de_body E (vs ! 0)) (\<lambda>x0.
     obind (de_authorization (vs ! 1)) (\<lambda>x1.
     Ok \<lparr>au_body = x0, au_authorization = x1\<rparr>)))"

definition good_account_update :: "('r, 'sp) serde_env \<Rightarrow> account_update \<Rightarrow> bool" where
  "good_account_update E v \<longleftrightarrow> good_body E (au_body v)"

lemma account_update_codec:
  assumes laws: "serde_laws E"
  shows "codec (ser_account_update E) (de_account_update E) (good_account_update E)"
proof -
  note codecs = body_codec[OF laws] authorization_codec
  show ?thesis
    by (rule struct_codecI[OF ser_account_update_def de_account_update_def])
       ((simp add: account_update_fields_def good_account_update_def codecs[THEN codec_bind] codecs[THEN codec_de]; fail) |
        (auto simp: account_update_fields_def good_account_update_def outcome_simps dest: codecs[THEN codec_good]))+
qed

lemma never_null_account_update: "never_null (ser_account_update E)"
  by (rule never_null_struct) (rule ser_account_update_def)

definition fee_payer_body_fields :: "rstr list" where
  "fee_payer_body_fields = map lit [''publicKey'', ''fee'', ''validUntil'', ''nonce'']"

definition ser_fee_payer_body :: "('r, 'sp) serde_env \<Rightarrow> fee_payer_body writer" where
  "ser_fee_payer_body E v = ser_struct fee_payer_body_fields [
     ser_public_key E (fpb_public_key v), serialize_uint_string (fpb_fee v),
     serialize_option_u32_string (fpb_valid_until v), serialize_uint_string (fpb_nonce v)]"

definition de_fee_payer_body :: "('r, 'sp) serde_env \<Rightarrow> fee_payer_body reader" where
  "de_fee_payer_body E = de_struct fee_payer_body_fields (\<lambda>vs.
     obind (de_public_key E (vs ! 0)) (\<lambda>x0.
     obind (deserialize_uint_string (vs ! 1)) (\<lambda>x1.
     obind (deserialize_option_u32_string (vs ! 2)) (\<lambda>x2.
     obind (deserialize_uint_string (vs ! 3)) (\<lambda>x3.
     Ok \<lparr>fpb_public_key = x0, fpb_fee = x1, fpb_valid_until = x2, fpb_nonce = x3\<rparr>)))))"

definition good_fee_payer_body :: "('r, 'sp) serde_env \<Rightarrow> fee_payer_body \<Rightarrow> bool" where
  "good_fee_payer_body E v \<longleftrightarrow> good_key E (fpb_public_key v)"

lemma fee_payer_body_codec:
  assumes laws: "serde_laws E"
  shows "codec (ser_fee_payer_body E) (de_fee_payer_body E) (good_fee_payer_body E)"
proof -
  note codecs = public_key_codec[OF laws] uint_codec option_u32_codec
  show ?thesis
    by (rule struct_codecI[OF ser_fee_payer_body_def de_fee_payer_body_def])
       ((simp add: fee_payer_body_fields_def good_fee_payer_body_def codecs[THEN codec_bind] codecs[THEN codec_de]; fail) |
        (auto simp: fee_payer_body_fields_def good_fee_payer_body_def outcome_simps dest: codecs[THEN codec_good]))+
qed

lemma never_null_fee_payer_body: "never_null (ser_fee_payer_body E)"
  by (rule never_null_struct) (rule ser_fee_payer_body_def)

definition fee_payer_fields :: "rstr list" where
  "fee_payer_fields = map lit [''body'', ''authorization'']"

definition ser_fee_payer :: "('r, 'sp) serde_env \<Rightarrow> fee_payer writer" where
  "ser_fee_payer E v = ser_struct fee_payer_fields [
     ser_fee_payer_body E (fpay_body v), ser_str (fpay_authorization v)]"

definition de_fee_payer :: "('r, 'sp) serde_env \<Rightarrow> fee_payer reader" where
  "de_fee_payer E = de_struct fee_payer_fields (\<lambda>vs.
     obind (de_fee_payer_body E (vs ! 0)) (\<lambda>x0.
     obind (de_string (vs ! 1)) (\<lambda>x1.
     Ok \<lparr>fpay_body = x0, fpay_authorization = x1\<rparr>)))"

definition good_fee_payer :: "('r, 'sp) serde_env \<Rightarrow> fee_payer \<Rightarrow> bool" where
  "good_fee_payer E v \<longleftrightarrow> good_fee_payer_body E (fpay_body v)"

lemma fee_payer_codec:
  assumes laws: "serde_laws E"
  shows "codec (ser_fee_payer E) (de_fee_payer E) (good_fee_payer E)"
proof -
  note codecs = fee_payer_body_codec[OF laws] str_codec
  show ?thesis
    by (rule struct_codecI[OF ser_fee_payer_def de_fee_payer_def])
       ((simp add: fee_payer_fields_def good_fee_payer_def codecs[THEN codec_bind] codecs[THEN codec_de]; fail) |
        (auto simp: fee_payer_fields_def good_fee_payer_def outcome_simps dest: codecs[THEN codec_good]))+
qed

lemma never_null_fee_payer: "never_null (ser_fee_payer E)"
  by (rule never_null_struct) (rule ser_fee_payer_def)

definition zkapp_command_fields :: "rstr list" where
  "zkapp_command_fields = map lit [''feePayer'', ''accountUpdates'', ''memo'']"

definition ser_zkapp_command :: "('r, 'sp) serde_env \<Rightarrow> zkapp_command writer" where
  "ser_zkapp_command E v = ser_struct zkapp_command_fields [
     ser_fee_payer E (fee_payer v), ser_list (ser_account_update E) (account_updates v),
     memo_serde E (zk_memo v)]"

definition de_zkapp_command :: "('r, 'sp) serde_env \<Rightarrow> zkapp_command reader" where
  "de_zkapp_command E = de_struct zkapp_command_fields (\<lambda>vs.
     obind (de_fee_payer E (vs ! 0)) (\<lambda>x0.
     obind (de_list (de_account_update E) (vs ! 1)) (\<lambda>x1.
     obind (memo_deser E (vs ! 2)) (\<lambda>x2.
     Ok \<lparr>fee_payer = x0, account_updates = x1, zk_memo = x2\<rparr>))))"

definition good_zkapp_command :: "('r, 'sp) serde_env \<Rightarrow> zkapp_command \<Rightarrow> bool" where
  "good_zkapp_command E v \<longleftrightarrow> good_fee_payer E (fee_payer v) \<and>
     list_all (good_account_update E) (account_updates v) \<and> good_memo (zk_memo v)"

lemma zkapp_command_codec:
  assumes laws: "serde_laws E"
  shows "codec (ser_zkapp_command E) (de_zkapp_command E) (good_zkapp_command E)"
proof -
  note codecs = fee_payer_codec[OF laws] codec_list[OF account_update_codec[OF laws]] memo_codec[OF laws]
  show ?thesis
    by (rule struct_codecI[OF ser_zkapp_command_def de_zkapp_command_def])
       ((simp add: zkapp_command_fields_def good_zkapp_command_def codecs[THEN codec_bind] codecs[THEN codec_de]; fail) |
        (auto simp: zkapp_command_fields_def good_zkapp_command_def outcome_simps dest: codecs[THEN codec_good]))+
qed

lemma never_null_zkapp_command: "never_null (ser_zkapp_command E)"
  by (rule never_null_struct) (rule ser_zkapp_command_def)

section \<open>Reading and writing commands\<close>

lemma good_update_length: "good_update E u \<Longrightarrow> length (app_state u) = APP_STATE_LENGTH (sd_zk E)"
  by (simp add: good_update_def)

lemma good_command_wf: "good_zkapp_command E tx \<Longrightarrow> wf_command (sd_zk E) tx"
  by (auto simp: good_zkapp_command_def wf_command_def wf_body_def good_account_update_def good_body_def
      good_preconditions_def good_account_def good_memo_def good_update_length list_all_iff)

text \<open>
  C22: a zkApp command whose field elements are canonical, whose keys have an address (are points of
  the curve), whose memo starts with 1, whose token
  symbols have at most six bytes and whose signs are 1 or -1 is read back from its JSON form as
  it was; and reading JSON only yields such commands, in particular well-formed ones.
\<close>

theorem zkapp_json_roundtrip:
  assumes "serde_laws E"
  shows "(good_zkapp_command E tx \<longrightarrow>
      obind (ser_zkapp_command E tx) (\<lambda>j. de_zkapp_command E (Some j)) = Ok tx) \<and>
    (field_utf8 jo \<and> de_zkapp_command E jo = Ok tx \<longrightarrow>
      good_zkapp_command E tx \<and> wf_command (sd_zk E) tx)"
  using zkapp_command_codec[OF assms] good_command_wf
  by (auto simp: codec_rewrites dest: codec_good)

text \<open>An instance of the crates.\<close>

definition serde_demo :: "(fp list \<times> bool list, fp list) serde_env" where
  "serde_demo = \<lparr>sd_zk = zk_demo, sd_base58 = base58_demo,
     sd_address = address_demo,
     sd_key_of_address = (\<lambda>s. case s of [] \<Rightarrow> None
       | b # x \<Rightarrow> if length x < 2 ^ 255 then Some \<lparr>pk_x = length x, pk_is_odd = b = 1\<rparr> else None),
     sd_field_parse = parse_uint 255, sd_utf8_error = id\<rparr>"

lemma serde_demo_laws: "serde_laws serde_demo"
  using base58_demo_laws
  by (auto simp: serde_laws_def serde_demo_def zk_demo_def good_field_def good_key_def parse_show_nat
      address_demo_def dest: parse_uint_bound split: list.splits if_splits)

definition written_command :: zkapp_command where
  "written_command = demo_command\<lparr>zk_memo := 1 # replicate 33 0\<rparr>"

lemma serde_demo_key: "good_key serde_demo k" if "pk_x k < 2 ^ 255"
  unfolding good_key_def
  by (intro conjI exI[of _ "into_address address_demo k"])
     (use that in \<open>auto simp: good_field_def serde_demo_def zk_demo_def address_demo_def\<close>)

lemma serde_demo_field: "good_field serde_demo x" if "x < 2 ^ 255"
  using that by (simp add: good_field_def serde_demo_def zk_demo_def)

lemma serde_demo_flag: "sd_zk serde_demo = zk_demo" "\<not> is_mesa_hardfork zk_demo"
    "pubkey_empty zk_demo = \<lparr>pk_x = 0, pk_is_odd = False\<rparr>"
  by (simp_all add: serde_demo_def zk_demo_def)

lemma written_command_good: "good_zkapp_command serde_demo written_command"
  by (simp add: serde_demo_key serde_demo_field serde_demo_flag good_zkapp_command_def written_command_def demo_command_def zkapp_command_default_def
      account_update_default_def account_update_body_default_def update_default_def preconditions_default_def
      account_preconditions_default_def authorization_kind_default_def fee_payer_default_def
      network_preconditions_default_def epoch_data_default_def balance_change_default_def token_id_default_def
      good_fee_payer_def good_fee_payer_body_def good_account_update_def good_body_def good_update_def
      good_preconditions_def good_network_def good_epoch_data_def good_epoch_ledger_def good_account_def
      good_balance_change_def good_sign_def good_authorization_kind_def good_events_def good_actions_def
      good_memo_def MEMO_BYTES_def DUMMY_HASH_def
      APP_STATE_LENGTH_def list_all_iff)

theorem zkapp_json_roundtrip_witness:
  "good_zkapp_command serde_demo written_command \<and>
    obind (ser_zkapp_command serde_demo written_command) (\<lambda>j. de_zkapp_command serde_demo (Some j)) = Ok written_command"
  using written_command_good zkapp_json_roundtrip[OF serde_demo_laws, of written_command None] by simp

text \<open>
  A command with any other first memo byte, such as the default memo of zeros, is written but not
  read back.
\<close>

lemma memo_without_header:
  assumes "serde_laws E" and "length m = MEMO_BYTES" and "m ! 0 \<noteq> 1"
  shows "obind (memo_serde E m) (\<lambda>j. memo_deser E (Some j)) =
    Err (CustomError (lit ''Invalid memo header: missing 0x01 prefix''))"
proof -
  have "from_base58_check (sd_base58 E) (to_base58_check (sd_base58 E) m MEMO_VERSION_BYTE) MEMO_VERSION_BYTE = Ok m"
    using assms by (simp add: serde_laws_def base58_check_roundtrip)
  then show ?thesis using assms by (cases m) (simp_all add: memo_serde_def memo_deser_def MEMO_BYTES_def)
qed

theorem other_memo_not_read:
  assumes "serde_laws E" and "good_zkapp_command E tx" and "length m = MEMO_BYTES" and "m ! 0 \<noteq> 1"
  shows "obind (ser_zkapp_command E (tx\<lparr>zk_memo := m\<rparr>)) (\<lambda>j. de_zkapp_command E (Some j)) =
    Err (CustomError (lit ''Invalid memo header: missing 0x01 prefix''))"
proof -
  let ?d = "tx\<lparr>zk_memo := m\<rparr>"
  have good: "good_fee_payer E (fee_payer tx)" "list_all (good_account_update E) (account_updates tx)"
    using assms(2) by (simp_all add: good_zkapp_command_def)
  note codecs = fee_payer_codec[OF assms(1)] codec_list[OF account_update_codec[OF assms(1)]]
  obtain j where j: "memo_serde E m = Ok j" "memo_deser E (Some j) =
      Err (CustomError (lit ''Invalid memo header: missing 0x01 prefix''))"
    using memo_without_header[OF assms(1,3,4)] by (auto simp: memo_serde_def)
  have vs: "omap_list id [ser_fee_payer E (fee_payer ?d), ser_list (ser_account_update E) (account_updates ?d),
      memo_serde E (zk_memo ?d)] = Ok [the_ok (ser_fee_payer E (fee_payer tx)),
      the_ok (ser_list (ser_account_update E) (account_updates tx)), j]"
    by (simp add: good j(1) codecs[THEN codec_bind])
  show ?thesis
    unfolding ser_zkapp_command_def de_zkapp_command_def
    by (subst struct_write[OF _ vs])
       (simp_all add: good j(2) zkapp_command_fields_def codecs[THEN codec_de])
qed

end
