(* ===== verification/Json_Depth.thy ===== *)
theory Json_Depth
  imports Zkapp_Serde
begin

text \<open>
  How deep the written values nest: every writer's value stays far below the depth at which the JSON
  parser stops, whatever the lengths of its lists. A fact about a writer reads "from this depth on".
\<close>

definition at_depth :: "nat \<Rightarrow> (de_error, json) outcome \<Rightarrow> bool" where
  "at_depth n r \<longleftrightarrow> (\<forall>j. r = Ok j \<longrightarrow> json_within n j)"

lemma at_depth_Ok [simp]: "at_depth n (Ok j) \<longleftrightarrow> json_within n j"
  by (simp add: at_depth_def)

lemma at_depth_Err [simp]: "at_depth n (Err e)"
  by (simp add: at_depth_def)

lemma at_depth_list:
  "list_all (\<lambda>x. at_depth n (f x)) xs \<Longrightarrow> omap_list f xs = Ok js \<Longrightarrow> list_all (json_within n) js"
  by (induction xs arbitrary: js) (auto simp: at_depth_def outcome_simps)

lemma within_members: "list_all (json_within n) vs \<Longrightarrow> list_all (\<lambda>(_, j). json_within n j) (zip names vs)"
  by (auto simp: list_all_iff dest: set_zip_rightD)

named_theorems depths

lemma at_depth_containers [depths]:
  "0 < n \<Longrightarrow> list_all (at_depth (n - 1)) sers \<Longrightarrow> at_depth n (ser_struct names sers)"
  "0 < n \<Longrightarrow> (\<And>x. at_depth (n - 1) (ser x)) \<Longrightarrow> at_depth n (ser_list ser xs)"
  "(\<And>x. at_depth n (ser x)) \<Longrightarrow> at_depth n (ser_option ser opt)"
proof -
  assume "0 < n"
  show "at_depth n (ser_struct names sers)" if "list_all (at_depth (n - 1)) sers"
    using that \<open>0 < n\<close> at_depth_list[of "n - 1" id sers]
    by (auto simp: at_depth_def[of n] ser_struct_def outcome_simps intro!: within_members)
  show "at_depth n (ser_list ser xs)" if "\<And>x. at_depth (n - 1) (ser x)"
    using that \<open>0 < n\<close> at_depth_list[of "n - 1" ser xs]
    by (auto simp: at_depth_def ser_list_def outcome_simps list_all_iff)
next
  show "at_depth n (ser_option ser opt)" if "\<And>x. at_depth n (ser x)"
    using that by (cases opt) simp_all
qed

lemma at_depth_leaves [depths]:
  "at_depth n (ser_bool b)" "at_depth n (ser_str s)" "at_depth n (ser_num x)"
  "at_depth n (serialize_uint_string x)" "at_depth n (serialize_option_u32_string opt)"
  "at_depth n (serialize_sign v)" "at_depth n (ser_public_key E k)" "at_depth n (ser_field E y)"
  "at_depth n (memo_serde E m)" "at_depth n (ser_token_id E t)" "at_depth n (ser_action_state E a)"
  "at_depth n (ser_token_symbol E ts)" "at_depth n (ser_zkapp_uri E u)" "at_depth n (ser_auth r)"
  by (cases opt; simp add: ser_bool_def ser_str_def ser_num_def serialize_uint_string_def serialize_sign_def
      ser_public_key_def ser_field_def memo_serde_def ser_token_id_def ser_action_state_def ser_token_symbol_def
      ser_zkapp_uri_def ser_utf8_def ser_auth_def)+

lemma at_depth_one [depths]:
  "1 \<le> n \<Longrightarrow> at_depth n (ser_uint_range r)" "1 \<le> n \<Longrightarrow> at_depth n (ser_vk E vk)"
  "1 \<le> n \<Longrightarrow> at_depth n (ser_timing ti)" "1 \<le> n \<Longrightarrow> at_depth n (ser_may_use_token mt)"
  "1 \<le> n \<Longrightarrow> at_depth n (ser_balance_change bc)" "1 \<le> n \<Longrightarrow> at_depth n (ser_authorization_kind E ak)"
  "1 \<le> n \<Longrightarrow> at_depth n (ser_set_vk sv)" "1 \<le> n \<Longrightarrow> at_depth n (ser_authorization au)"
  "1 \<le> n \<Longrightarrow> at_depth n (ser_fee_payer_body E fb)"
  by (simp_all add: depths ser_range_def ser_vk_def ser_timing_def ser_may_use_token_def ser_balance_change_def
      ser_authorization_kind_def ser_set_vk_def ser_authorization_def ser_fee_payer_body_def)

lemma at_depth_two [depths]:
  "2 \<le> n \<Longrightarrow> at_depth n (ser_epoch_ledger E el)" "2 \<le> n \<Longrightarrow> at_depth n (ser_account E ac)"
  "2 \<le> n \<Longrightarrow> at_depth n (ser_permissions pm)" "2 \<le> n \<Longrightarrow> at_depth n (ser_events E ev)"
  "2 \<le> n \<Longrightarrow> at_depth n (ser_actions E acs)" "2 \<le> n \<Longrightarrow> at_depth n (ser_fee_payer E fp)"
  by (simp_all add: depths ser_epoch_ledger_def ser_account_def ser_permissions_def ser_events_def ser_actions_def
      ser_fee_payer_def)

lemma at_depth_three [depths]:
  "3 \<le> n \<Longrightarrow> at_depth n (ser_epoch_data E ed)" "3 \<le> n \<Longrightarrow> at_depth n (ser_update E up)"
  by (simp_all add: depths ser_epoch_data_def ser_update_def)

lemma at_depth_network [depths]: "4 \<le> n \<Longrightarrow> at_depth n (ser_network E v)"
  by (simp add: depths ser_network_def)

lemma at_depth_preconditions [depths]: "5 \<le> n \<Longrightarrow> at_depth n (ser_preconditions E v)"
  by (simp add: depths ser_preconditions_def)

lemma at_depth_body [depths]: "6 \<le> n \<Longrightarrow> at_depth n (ser_body E v)"
  by (simp add: depths ser_body_def)

lemma at_depth_account_update [depths]: "7 \<le> n \<Longrightarrow> at_depth n (ser_account_update E v)"
  by (simp add: depths ser_account_update_def)

lemma at_depth_zkapp_command [depths]: "9 \<le> n \<Longrightarrow> at_depth n (ser_zkapp_command E v)"
  by (simp add: depths ser_zkapp_command_def)

end
