(* ===== verification/Signature_Injection.thy ===== *)
theory Signature_Injection
  imports Zk_Commit
begin

text \<open>
  Putting the group's signature into a zkApp command,
  \<^verbatim>\<open>zkapp_tx/signature_injection.rs\<close>. The command and the list of warnings are threaded
  through the calls, in the order in which the code pushes the warnings.
\<close>

section \<open>Warnings and results\<close>

datatype injection_warning =
    FeePayerKeyMismatch rstr rstr
  | PartialCommitmentSkipped nat rstr
  | SignatureOverwritten nat rstr
  | FeePayerSignatureOverwritten

fun display_injection_warning :: "injection_warning \<Rightarrow> rstr" where
  "display_injection_warning (FeePayerKeyMismatch expected found) =
     lit ''Fee payer key mismatch: expected '' @ expected @ lit '', found '' @ found"
| "display_injection_warning (PartialCommitmentSkipped index address) =
     lit ''Account update at index '' @ show_nat index @ lit '' with public key '' @ address @
     lit '' was skipped due to use_full_commitment=false''"
| "display_injection_warning (SignatureOverwritten index address) =
     lit ''Account update at index '' @ show_nat index @ lit '' with public key '' @ address @
     lit '' had an existing signature that was overwritten''"
| "display_injection_warning FeePayerSignatureOverwritten =
     lit ''Fee payer had an existing authorization that was overwritten''"

record injection_result =
  account_updates_injected :: nat
  fee_payer_injected :: bool
  warnings :: "injection_warning list"

section \<open>Injection\<close>

definition should_inject_signature :: "account_update \<Rightarrow> compressed_pubkey \<Rightarrow> bool" where
  "should_inject_signature u group_public_key \<longleftrightarrow>
     is_signed (body_authorization_kind (au_body u)) \<and> public_key (au_body u) = group_public_key"

definition inject_fee_payer_signature ::
  "address_ext \<Rightarrow> zkapp_command \<Rightarrow> pubkey \<Rightarrow> rstr \<Rightarrow> injection_warning list \<Rightarrow>
    bool \<times> zkapp_command \<times> injection_warning list" where
  "inject_fee_payer_signature A tx group_public_key sig_base58 ws =
     (let fee_payer_pk = fpb_public_key (fpay_body (fee_payer tx));
          group_compressed = into_compressed A group_public_key
      in if fee_payer_pk \<noteq> group_compressed
         then (False, tx, ws @ [FeePayerKeyMismatch (into_address A group_compressed)
                                  (into_address A fee_payer_pk)])
         else (let ws' = (if fpay_authorization (fee_payer tx) \<noteq> []
                          then ws @ [FeePayerSignatureOverwritten] else ws)
               in (True, tx\<lparr>fee_payer := (fee_payer tx)\<lparr>fpay_authorization := sig_base58\<rparr>\<rparr>, ws')))"

definition overwrite_warnings :: "address_ext \<Rightarrow> nat \<Rightarrow> account_update \<Rightarrow> injection_warning list" where
  "overwrite_warnings A index u =
     (case signature_str (au_authorization u) of
        Some existing_sig \<Rightarrow>
          (if existing_sig \<noteq> [] then [SignatureOverwritten index (into_address A (public_key (au_body u)))] else [])
      | None \<Rightarrow> [])"

fun inject_loop ::
  "address_ext \<Rightarrow> compressed_pubkey \<Rightarrow> rstr \<Rightarrow> nat \<Rightarrow> account_update list \<Rightarrow> nat \<Rightarrow> injection_warning list \<Rightarrow>
    account_update list \<times> nat \<times> injection_warning list" where
  "inject_loop A group_compressed sig_base58 index [] injected_count ws = ([], injected_count, ws)"
| "inject_loop A group_compressed sig_base58 index (u # us) injected_count ws =
     (if should_inject_signature u group_compressed then
        (if \<not> use_full_commitment (au_body u) then
           (let (us', n, ws') = inject_loop A group_compressed sig_base58 (index + 1) us injected_count
                  (ws @ [PartialCommitmentSkipped index (into_address A (public_key (au_body u)))])
            in (u # us', n, ws'))
         else
           (let (us', n, ws') = inject_loop A group_compressed sig_base58 (index + 1) us (injected_count + 1)
                  (ws @ overwrite_warnings A index u)
            in (u\<lparr>au_authorization := (au_authorization u)\<lparr>signature_str := Some sig_base58\<rparr>\<rparr> # us', n, ws')))
      else
        (let (us', n, ws') = inject_loop A group_compressed sig_base58 (index + 1) us injected_count ws
         in (u # us', n, ws')))"

definition inject_account_update_signatures ::
  "address_ext \<Rightarrow> zkapp_command \<Rightarrow> pubkey \<Rightarrow> rstr \<Rightarrow> injection_warning list \<Rightarrow>
    nat \<times> zkapp_command \<times> injection_warning list" where
  "inject_account_update_signatures A tx group_public_key sig_base58 ws =
     (let (us, n, ws') = inject_loop A (into_compressed A group_public_key) sig_base58 0
                           (account_updates tx) 0 ws
      in (n, tx\<lparr>account_updates := us\<rparr>, ws'))"

definition inject_signature ::
  "base58_ext \<Rightarrow> address_ext \<Rightarrow> zkapp_command \<Rightarrow> pubkey \<Rightarrow> sig \<Rightarrow> zkapp_command \<times> injection_result" where
  "inject_signature B A tx group_public_key signature =
     (let sig_base58 = sig_to_base58 B signature;
          (payer_injected, tx', ws) = inject_fee_payer_signature A tx group_public_key sig_base58 [];
          (injected, tx'', ws') = inject_account_update_signatures A tx' group_public_key sig_base58 ws
      in (tx'', \<lparr>account_updates_injected = injected, fee_payer_injected = payer_injected,
                 warnings = ws'\<rparr>))"

section \<open>What injection does\<close>

definition qualifies :: "compressed_pubkey \<Rightarrow> account_update \<Rightarrow> bool" where
  "qualifies grp u \<longleftrightarrow> is_signed (body_authorization_kind (au_body u)) \<and>
     use_full_commitment (au_body u) \<and> public_key (au_body u) = grp"

definition sign_update :: "compressed_pubkey \<Rightarrow> rstr \<Rightarrow> account_update \<Rightarrow> account_update" where
  "sign_update grp s u =
     (if qualifies grp u
      then u\<lparr>au_authorization := (au_authorization u)\<lparr>signature_str := Some s\<rparr>\<rparr> else u)"

definition update_warnings ::
  "address_ext \<Rightarrow> compressed_pubkey \<Rightarrow> nat \<times> account_update \<Rightarrow> injection_warning list" where
  "update_warnings A grp iu =
     (let (i, u) = iu; address = into_address A (public_key (au_body u)) in
      if \<not> should_inject_signature u grp then []
      else if \<not> use_full_commitment (au_body u) then [PartialCommitmentSkipped i address]
      else if signature_str (au_authorization u) \<in> {None, Some []} then []
      else [SignatureOverwritten i address])"

lemma overwrite_warnings_eq:
  "should_inject_signature u grp \<Longrightarrow> use_full_commitment (au_body u) \<Longrightarrow>
    overwrite_warnings A i u = update_warnings A grp (i, u)"
  by (auto simp: overwrite_warnings_def update_warnings_def Let_def split: option.splits)

lemma inject_loop_eq:
  "inject_loop A grp s i us n ws =
    (map (sign_update grp s) us, n + length (filter (qualifies grp) us),
     ws @ concat (map (update_warnings A grp) (enumerate i us)))"
proof (induction us arbitrary: i n ws)
  case (Cons u us)
  consider (skip) "\<not> should_inject_signature u grp"
    | (partial) "should_inject_signature u grp" "\<not> use_full_commitment (au_body u)"
    | (sign) "should_inject_signature u grp" "use_full_commitment (au_body u)" by blast
  then show ?case
  proof cases
    case skip
    then show ?thesis
      using Cons by (auto simp: sign_update_def qualifies_def should_inject_signature_def update_warnings_def)
  next
    case partial
    then show ?thesis
      using Cons by (simp add: sign_update_def qualifies_def update_warnings_def Let_def)
  next
    case sign
    then show ?thesis
      using Cons overwrite_warnings_eq[OF sign]
      by (simp add: sign_update_def qualifies_def should_inject_signature_def)
  qed
qed simp

lemma inject_signature_eq:
  "inject_signature B A tx pk sg =
    (let s = sig_to_base58 B sg; g = into_compressed A pk; payer = fee_payer tx;
         matches = (fpb_public_key (fpay_body payer) = g) in
     (tx\<lparr>fee_payer := (if matches then payer\<lparr>fpay_authorization := s\<rparr> else payer),
         account_updates := map (sign_update g s) (account_updates tx)\<rparr>,
      \<lparr>account_updates_injected = length (filter (qualifies g) (account_updates tx)),
       fee_payer_injected = matches,
       warnings =
         (if matches
          then (if fpay_authorization payer \<noteq> [] then [FeePayerSignatureOverwritten] else [])
          else [FeePayerKeyMismatch (into_address A g) (into_address A (fpb_public_key (fpay_body payer)))])
         @ concat (map (update_warnings A g) (enumerate 0 (account_updates tx)))\<rparr>))"
  by (auto simp: inject_signature_def inject_fee_payer_signature_def
      inject_account_update_signatures_def inject_loop_eq Let_def)

text \<open>
  C19: injection writes the base58 signature into the fee payer exactly when its key is the
  group's, and into exactly the account updates that are signed, use the full commitment and have
  the group's key; the count and the flag it returns say so; proofs, bodies, the memo and every
  other signature stay as they were.
\<close>

theorem inject_signature_writes:
  "case inject_signature B A tx pk sg of (tx', r) \<Rightarrow>
     let g = into_compressed A pk; s = sig_to_base58 B sg in
     (fee_payer_injected r \<longleftrightarrow> fpb_public_key (fpay_body (fee_payer tx)) = g) \<and>
     fpay_authorization (fee_payer tx') =
       (if fee_payer_injected r then s else fpay_authorization (fee_payer tx)) \<and>
     fpay_body (fee_payer tx') = fpay_body (fee_payer tx) \<and>
     zk_memo tx' = zk_memo tx \<and>
     map au_body (account_updates tx') = map au_body (account_updates tx) \<and>
     map (\<lambda>u. proof_str (au_authorization u)) (account_updates tx') =
       map (\<lambda>u. proof_str (au_authorization u)) (account_updates tx) \<and>
     map (\<lambda>u. signature_str (au_authorization u)) (account_updates tx') =
       map (\<lambda>u. if is_signed (body_authorization_kind (au_body u)) \<and>
                    use_full_commitment (au_body u) \<and> public_key (au_body u) = g
                 then Some s else signature_str (au_authorization u)) (account_updates tx) \<and>
     account_updates_injected r = length (filter (qualifies g) (account_updates tx))"
  by (simp add: inject_signature_eq Let_def sign_update_def qualifies_def)

text \<open>
  C29: the signature stays valid for the command it is put into: injection changes neither the
  commitment nor the random-oracle input, on any network; and injecting once more changes nothing.
\<close>

theorem inject_signature_keeps_commitment:
  "case inject_signature B A tx pk sg of (tx', r) \<Rightarrow>
     zk_commit Z tx' network = zk_commit Z tx network \<and>
     zk_to_roinput Z tx' network = zk_to_roinput Z tx network \<and>
     fst (inject_signature B A tx' pk sg) = tx'"
proof -
  let ?tx' = "fst (inject_signature B A tx pk sg)"
  have "zk_commit Z ?tx' network = zk_commit Z tx network"
    by (rule zk_commit_bodies) (simp_all add: inject_signature_eq Let_def sign_update_def)
  moreover have "sign_update g s (sign_update g s u) = sign_update g s u" for g s u
    by (simp add: sign_update_def qualifies_def)
  then have "fst (inject_signature B A ?tx' pk sg) = ?tx'"
    by (simp add: inject_signature_eq Let_def comp_def)
  ultimately show ?thesis by (simp add: zk_to_roinput_def split: prod.splits) force
qed

end
