(* ===== verification/Pallas_Message.thy ===== *)
theory Pallas_Message
  imports Network_Id Mina_Errors External_Code
begin

text \<open>
  The message that is signed, \<^verbatim>\<open>mina-tx/src/pallas_message.rs\<close>: a random-oracle input with
  the network and the hashing mode, its byte format between coordinator and signer, and the
  challenge hash computed from the bytes.
\<close>

section \<open>Messages and their bytes\<close>

definition PALLAS_MESSAGE_VERSION :: u8 where "PALLAS_MESSAGE_VERSION = 1"

record 'r pallas_message =
  pm_input :: 'r
  pm_network_id :: network_id
  pm_is_legacy :: bool

definition from_parts :: "'r \<Rightarrow> network_id \<Rightarrow> bool \<Rightarrow> 'r pallas_message" where
  "from_parts input network_id is_legacy =
     \<lparr>pm_input = input, pm_network_id = network_id, pm_is_legacy = is_legacy\<rparr>"

definition from_raw_bytes_default :: "'r roinput_ext \<Rightarrow> bytes \<Rightarrow> 'r pallas_message" where
  "from_raw_bytes_default R input =
     \<lparr>pm_input = roi_append_bytes R (roi_new R) input, pm_network_id = Testnet, pm_is_legacy = True\<rparr>"

fun network_header :: "network_id \<Rightarrow> (mina_tx_error, bytes) outcome" where
  "network_header Testnet = Ok [0]"
| "network_header Mainnet = Ok [1]"
| "network_header (Custom s) =
     (if length s > MAX_PREFIX_LENGTH
      then Err (SerializationError (lit ''Custom network ID exceeds maximum length of 20''))
      else Ok (2 # word_of_nat (length s) # s))"

definition serialize :: "'r roinput_ext \<Rightarrow> 'r pallas_message \<Rightarrow> (mina_tx_error, bytes) outcome" where
  "serialize R m =
     (let roi_bytes = roi_serialize R (pm_input m) in
      obind (network_header (pm_network_id m)) (\<lambda>header.
      Ok (PALLAS_MESSAGE_VERSION # header @ (if pm_is_legacy m then 1 else 0) #
          le_bytes 4 (unat (word_of_nat (length roi_bytes) :: u32)) @ roi_bytes)))"

abbreviation de_err :: "string \<Rightarrow> (mina_tx_error, 'a) outcome" where
  "de_err msg \<equiv> Err (DeSerializationError (lit msg))"

definition parse_network :: "bytes \<Rightarrow> (mina_tx_error, network_id \<times> nat) outcome" where
  "parse_network input =
     obind (idx input 1) (\<lambda>tag.
     if tag = 0 then Ok (Testnet, 2)
     else if tag = 1 then Ok (Mainnet, 2)
     else if tag = 2 then
       obind (idx input 2) (\<lambda>len_byte. let name_len = unat len_byte in
       if name_len > MAX_PREFIX_LENGTH then de_err ''Custom network ID exceeds maximum length''
       else if length input < 3 + name_len
       then de_err ''PallasMessage too short for custom network ID name''
       else obind (slice input 3 (3 + name_len)) (\<lambda>name.
            if utf8_valid name then Ok (Custom name, 3 + name_len)
            else de_err ''Invalid UTF-8 in custom network ID''))
     else de_err ''Invalid network id in PallasMessage'')"

definition parse_legacy_flag :: "bytes \<Rightarrow> nat \<Rightarrow> (mina_tx_error, bool) outcome" where
  "parse_legacy_flag input offset =
     obind (idx input offset) (\<lambda>flag.
     if flag = 0 then Ok False else if flag = 1 then Ok True
     else de_err ''Invalid legacy flag in PallasMessage'')"

definition parse_roi_len :: "bytes \<Rightarrow> nat \<Rightarrow> (mina_tx_error, nat) outcome" where
  "parse_roi_len input roi_start =
     omap le_value (omap_list (idx input) [roi_start, roi_start + 1, roi_start + 2, roi_start + 3])"

definition deserialize_rest ::
  "'r roinput_ext \<Rightarrow> bytes \<Rightarrow> network_id \<Rightarrow> nat \<Rightarrow> (mina_tx_error, 'r pallas_message) outcome" where
  "deserialize_rest R input network_id offset =
     obind (parse_legacy_flag input offset) (\<lambda>is_legacy.
     let header_len = offset + 1 + 4 in
     if length input < header_len then de_err ''PallasMessage bytes too short''
     else let roi_start = offset + 1 in
     obind (parse_roi_len input roi_start) (\<lambda>roi_len.
     let data_start = roi_start + 4 in
     if length input \<noteq> data_start + roi_len then de_err ''Malformed PallasMessage length''
     else obind (slice input data_start (length input)) (\<lambda>data.
     case roi_deserialize R data of
       None \<Rightarrow> de_err ''Failed to deserialize ROInput''
     | Some roi \<Rightarrow> Ok \<lparr>pm_input = roi, pm_network_id = network_id, pm_is_legacy = is_legacy\<rparr>)))"

definition deserialize :: "'r roinput_ext \<Rightarrow> bytes \<Rightarrow> (mina_tx_error, 'r pallas_message) outcome" where
  "deserialize R input =
     (if length input < 3 then de_err ''PallasMessage bytes too short''
      else obind (idx input 0) (\<lambda>version.
      if version \<noteq> PALLAS_MESSAGE_VERSION then de_err ''Unsupported PallasMessage version''
      else obind (parse_network input) (\<lambda>(network_id, offset).
           deserialize_rest R input network_id offset)))"

section \<open>The challenge\<close>

text \<open>
  \<open>translate_pk\<close> and the coordinate of the commitment come from the curve crates: a
  function to affine coordinates. The hash input is the message followed by the coordinates
  of the key and of the commitment.
\<close>

definition translate_pk :: "('el \<Rightarrow> affine) \<Rightarrow> 'el \<Rightarrow> (mina_tx_error, pubkey) outcome" where
  "translate_pk into_affine fr_pk = Ok \<lparr>pk_point = into_affine fr_pk\<rparr>"

definition translate_sig :: "('el \<Rightarrow> affine) \<Rightarrow> 'el \<times> 's \<Rightarrow> (mina_tx_error, fp \<times> 's) outcome" where
  "translate_sig into_affine fr_sig = Ok (aff_x (into_affine (fst fr_sig)), snd fr_sig)"

definition translate_minask :: "('s \<Rightarrow> 'k option) \<Rightarrow> 's \<Rightarrow> (mina_tx_error, 'k) outcome" where
  "translate_minask from_scalar scalar =
     ok_or (DeSerializationError (lit ''Failed to convert keypair scalar'')) (from_scalar scalar)"

definition message_hash ::
  "'r roinput_ext \<Rightarrow> 'r hasher_ext \<Rightarrow> (fp \<Rightarrow> 's) \<Rightarrow> pubkey \<Rightarrow> fp \<Rightarrow> 'r \<Rightarrow> network_id \<Rightarrow> bool \<Rightarrow> 's" where
  "message_hash R H scalar_from pub_key rx input network_id is_legacy =
     (let schnorr_input =
            roi_append_field R
              (roi_append_field R
                (roi_append_field R input (aff_x (pk_point pub_key)))
                (aff_y (pk_point pub_key))) rx;
          domain = Some (into_domain_string network_id);
          scalar_output = (if is_legacy then hash_legacy H domain schnorr_input
                           else hash_kimchi H domain schnorr_input)
      in scalar_from scalar_output)"

text \<open>\<open>unwrap_or_else\<close> replaces an error by the raw fallback; a panic is not an error.\<close>

fun or_raw :: "'r roinput_ext \<Rightarrow> bytes \<Rightarrow> (mina_tx_error, 'r pallas_message) outcome \<Rightarrow>
    (mina_tx_error, 'r pallas_message) outcome" where
  "or_raw R message (Ok m) = Ok m"
| "or_raw R message (Err e) = Ok (from_raw_bytes_default R message)"
| "or_raw R message Panic = Panic"

definition challenge ::
  "'r roinput_ext \<Rightarrow> 'r hasher_ext \<Rightarrow> (fp \<Rightarrow> 's) \<Rightarrow> ('el \<Rightarrow> affine) \<Rightarrow> 'el \<Rightarrow> 'el \<Rightarrow> bytes \<Rightarrow>
    (mina_tx_error, 's) outcome" where
  "challenge R H scalar_from into_affine r verifying_key message =
     obind (translate_pk into_affine verifying_key) (\<lambda>mina_pk.
     let rx = aff_x (into_affine r) in
     obind (or_raw R message (deserialize R message)) (\<lambda>msg.
     Ok (message_hash R H scalar_from mina_pk rx (pm_input msg) (pm_network_id msg)
           (pm_is_legacy msg))))"

section \<open>Parsing what was written\<close>

text \<open>After the network, the input is a prefix already read and a body still to be read.\<close>

lemma rest_empty: "length pre = k \<Longrightarrow> deserialize_rest R pre n k = Panic"
  by (simp add: deserialize_rest_def parse_legacy_flag_def idx_def)

lemma parse_roi_len_at:
  assumes "length pre = k" and "length len4 = 4"
  shows "parse_roi_len (pre @ len4 @ data) k = Ok (le_value len4)"
proof -
  obtain a b c d where "len4 = [a, b, c, d]"
    using assms(2) by (auto simp: length_Suc_conv numeral_eq_Suc)
  then show ?thesis using assms(1) by (simp add: parse_roi_len_def nth_append)
qed

lemma parse_legacy_flag_at:
  "length pre = k \<Longrightarrow> parse_legacy_flag (pre @ flag # body) k =
    (if flag = 0 then Ok False else if flag = 1 then Ok True
     else de_err ''Invalid legacy flag in PallasMessage'')"
  by (simp add: parse_legacy_flag_def nth_append)

lemma rest_short:
  assumes "length pre = k" and "length body < 4"
  shows "\<exists>e. deserialize_rest R (pre @ flag # body) n k = Err e"
  using assms by (simp add: deserialize_rest_def parse_legacy_flag_at)

lemma rest_full:
  assumes "length pre = k" and "length len4 = 4"
  shows "deserialize_rest R (pre @ flag # len4 @ data) n k =
    (if flag \<noteq> 0 \<and> flag \<noteq> 1 then de_err ''Invalid legacy flag in PallasMessage''
     else if length data \<noteq> le_value len4 then de_err ''Malformed PallasMessage length''
     else case roi_deserialize R data of
       None \<Rightarrow> de_err ''Failed to deserialize ROInput''
     | Some roi \<Rightarrow> Ok \<lparr>pm_input = roi, pm_network_id = n, pm_is_legacy = (flag = 1)\<rparr>)"
proof -
  have "parse_roi_len (pre @ flag # len4 @ data) (Suc k) = Ok (le_value len4)"
    using parse_roi_len_at[of "pre @ [flag]" "Suc k" len4 data] assms by simp
  then show ?thesis
    using assms by (auto simp: deserialize_rest_def parse_legacy_flag_at Let_def split: option.splits)
qed

lemma four_split:
  assumes "4 \<le> length (xs :: 'a list)"
  obtains len4 data where "xs = len4 @ data" and "length len4 = 4"
  by (metis append_take_drop_id assms length_take min.absorb2)

lemma rest_no_panic: "length pre = k \<Longrightarrow> deserialize_rest R (pre @ flag # body) n k \<noteq> Panic"
proof (cases "length body < 4")
  case True
  assume "length pre = k"
  then show ?thesis using rest_short[OF _ True] by (metis outcome.distinct(5))
next
  case False
  assume "length pre = k"
  moreover from False have "4 \<le> length body" by simp
  then obtain len4 data where "body = len4 @ data" "length len4 = 4" by (rule four_split)
  ultimately show ?thesis by (simp add: rest_full split: option.splits)
qed

lemma parse_network_cons:
  "parse_network (v # tag # c # body) =
    (if tag = 0 then Ok (Testnet, 2)
     else if tag = 1 then Ok (Mainnet, 2)
     else if tag = 2 then
       (if unat c > MAX_PREFIX_LENGTH then de_err ''Custom network ID exceeds maximum length''
        else if length body < unat c then de_err ''PallasMessage too short for custom network ID name''
        else if utf8_valid (take (unat c) body) then Ok (Custom (take (unat c) body), 3 + unat c)
        else de_err ''Invalid UTF-8 in custom network ID'')
     else de_err ''Invalid network id in PallasMessage'')"
  by (simp add: parse_network_def Let_def)

lemma at_least_three: "3 \<le> length xs \<Longrightarrow> \<exists>a b c r. xs = a # b # c # r"
  by (cases xs; cases "tl xs"; cases "tl (tl xs)") auto

lemma deserialize_builtin:
  assumes "(tag, n) \<in> {(0, Testnet), (1, Mainnet)}"
  shows "deserialize R (PALLAS_MESSAGE_VERSION # tag # flag # body) =
    deserialize_rest R ([PALLAS_MESSAGE_VERSION, tag] @ flag # body) n 2"
  using assms by (auto simp: deserialize_def parse_network_cons)

lemma deserialize_custom:
  assumes "unat c = length name" and "length name \<le> 20" and "utf8_valid name"
  shows "deserialize R (PALLAS_MESSAGE_VERSION # 2 # c # name @ body) =
    deserialize_rest R ((PALLAS_MESSAGE_VERSION # 2 # c # name) @ body) (Custom name) (3 + length name)"
  using assms by (simp add: deserialize_def parse_network_cons MAX_PREFIX_LENGTH_def)

text \<open>
  How the network part of an input decides: refused, or a network and the rest of the input.
\<close>

lemma deserialize_cases:
  assumes "3 \<le> length bs"
  obtains (refused) e where "deserialize R bs = Err e"
  | (builtin) tag n flag body where "bs = PALLAS_MESSAGE_VERSION # tag # flag # body"
      "(tag, n) \<in> {(0, Testnet), (1, Mainnet)}"
  | (custom) c name body where "bs = PALLAS_MESSAGE_VERSION # 2 # c # name @ body"
      "unat c = length name" "length name \<le> 20" "utf8_valid name"
proof -
  obtain v tag c body where bs: "bs = v # tag # c # body" using at_least_three[OF assms] by blast
  show ?thesis
  proof (cases "v = PALLAS_MESSAGE_VERSION \<and> tag \<in> {0, 1}")
    case True
    then show ?thesis using bs builtin by auto
  next
    case nb: False
    show ?thesis
    proof (cases "v = PALLAS_MESSAGE_VERSION \<and> tag = 2 \<and> unat c \<le> 20 \<and> unat c \<le> length body \<and>
        utf8_valid (take (unat c) body)")
      case True
      then show ?thesis
        using bs custom[of c "take (unat c) body" "drop (unat c) body"] by simp
    next
      case False
      have "\<exists>e. deserialize R bs = Err e"
        using bs nb False by (auto simp: deserialize_def parse_network_cons MAX_PREFIX_LENGTH_def)
      then show ?thesis using refused by blast
    qed
  qed
qed

text \<open>
  C34: \<open>deserialize\<close> fails by a panic, not by an error, on exactly these inputs: a custom
  network header that is the whole input.
\<close>

theorem deserialize_panics_iff:
  "deserialize R bs = Panic \<longleftrightarrow>
    (\<exists>name. length name \<le> 20 \<and> utf8_valid name \<and>
       bs = PALLAS_MESSAGE_VERSION # 2 # word_of_nat (length name) # name)"
proof
  assume panic: "deserialize R bs = Panic"
  then have "3 \<le> length bs" by (auto simp: deserialize_def split: if_splits)
  then show "\<exists>name. length name \<le> 20 \<and> utf8_valid name \<and>
      bs = PALLAS_MESSAGE_VERSION # 2 # word_of_nat (length name) # name"
  proof (cases rule: deserialize_cases[where R = R])
    case (builtin tag n flag body)
    then show ?thesis
      using panic rest_no_panic[of "[PALLAS_MESSAGE_VERSION, tag]" 2 R flag body n]
      by (simp add: deserialize_builtin)
  next
    case (custom c name body)
    then have "body = []"
      using panic rest_no_panic[of "PALLAS_MESSAGE_VERSION # 2 # c # name" "3 + length name" R]
      by (cases body) (simp_all add: deserialize_custom)
    moreover have "c = word_of_nat (length name)" using custom(2) by (simp flip: custom(2))
    ultimately show ?thesis using custom by auto
  qed (use panic in simp)
next
  assume "\<exists>name. length name \<le> 20 \<and> utf8_valid name \<and>
    bs = PALLAS_MESSAGE_VERSION # 2 # word_of_nat (length name) # name"
  then obtain name where name: "length name \<le> 20" "utf8_valid name"
    and bs: "bs = PALLAS_MESSAGE_VERSION # 2 # word_of_nat (length name) # name @ []" by auto
  moreover from name have "unat (word_of_nat (length name) :: u8) = length name"
    by (simp add: unat_of_nat)
  ultimately show "deserialize R bs = Panic"
    by (simp only: deserialize_custom) (simp add: rest_empty)
qed

text \<open>
  The format as a relation between messages and inputs. A custom name has to be a string of
  at most 20 bytes, and the length field is the length of what follows.
\<close>

fun network_string :: "network_id \<Rightarrow> bool" where
  "network_string (Custom s) \<longleftrightarrow> utf8_valid s"
| "network_string _ \<longleftrightarrow> True"

definition message_frame :: "bytes \<Rightarrow> bool \<Rightarrow> bytes \<Rightarrow> bytes" where
  "message_frame header is_legacy data =
     PALLAS_MESSAGE_VERSION # header @ (if is_legacy then 1 else 0) # le_bytes 4 (length data) @ data"

lemma rest_Ok_iff:
  "length pre = k \<Longrightarrow> deserialize_rest R (pre @ body) n k = Ok m \<longleftrightarrow>
    (\<exists>data. body = (if pm_is_legacy m then 1 else 0) # le_bytes 4 (length data) @ data \<and>
       length data < 2 ^ 32 \<and> roi_deserialize R data = Some (pm_input m) \<and> pm_network_id m = n)"
  (is "_ \<Longrightarrow> ?run \<longleftrightarrow> ?frame")
proof
  assume k: "length pre = k" and run: ?run
  have "body \<noteq> []" using run k rest_empty[of pre k R n] by auto
  then obtain flag rest where body: "body = flag # rest" by (cases body) auto
  then have "4 \<le> length rest" using run k rest_short[of pre k rest R flag n] by force
  then obtain len4 data where rest: "rest = len4 @ data" "length len4 = 4" by (rule four_split)
  have "flag = (if pm_is_legacy m then 1 else 0)" "length data = le_value len4"
    "roi_deserialize R data = Some (pm_input m)" "pm_network_id m = n"
    using run k rest body by (auto simp: rest_full split: if_splits option.splits)
  moreover have "le_bytes 4 (le_value len4) = len4" "le_value len4 < 2 ^ 32"
    using le_bytes_le_value[of len4] le_value_bound[of len4] rest by simp_all
  ultimately show ?frame using body rest by auto
next
  assume k: "length pre = k" and ?frame
  then obtain data where "body = (if pm_is_legacy m then 1 else 0) # le_bytes 4 (length data) @ data"
    "length data < 2 ^ 32" "roi_deserialize R data = Some (pm_input m)" "pm_network_id m = n" by blast
  then show ?run using k by (simp add: rest_full le_value_le_bytes)
qed

lemma accepted_frame:
  assumes "deserialize_rest R ((PALLAS_MESSAGE_VERSION # header) @ body) n k = Ok m"
    and "k = Suc (length header)" and "network_header n = Ok header" and "network_string n"
    and "bs = (PALLAS_MESSAGE_VERSION # header) @ body"
  shows "\<exists>header data. network_header (pm_network_id m) = Ok header \<and> network_string (pm_network_id m) \<and>
       bs = message_frame header (pm_is_legacy m) data \<and> length data < 2 ^ 32 \<and>
       roi_deserialize R data = Some (pm_input m)"
  using assms rest_Ok_iff[of "PALLAS_MESSAGE_VERSION # header" k R body n m]
  by (auto simp: message_frame_def)

lemma deserialize_Ok_frame:
  "deserialize R bs = Ok m \<longleftrightarrow>
    (\<exists>header data. network_header (pm_network_id m) = Ok header \<and> network_string (pm_network_id m) \<and>
       bs = message_frame header (pm_is_legacy m) data \<and> length data < 2 ^ 32 \<and>
       roi_deserialize R data = Some (pm_input m))"
  (is "?run \<longleftrightarrow> ?frame")
proof
  assume run: ?run
  then have "3 \<le> length bs" by (auto simp: deserialize_def split: if_splits)
  then show ?frame
  proof (cases rule: deserialize_cases[where R = R])
    case (builtin tag n flag body)
    then have "deserialize_rest R ((PALLAS_MESSAGE_VERSION # [tag]) @ flag # body) n 2 = Ok m"
      using run by (simp add: deserialize_builtin)
    then show ?thesis by (rule accepted_frame) (use builtin in auto)
  next
    case (custom c name body)
    then have "deserialize_rest R ((PALLAS_MESSAGE_VERSION # 2 # c # name) @ body) (Custom name)
        (3 + length name) = Ok m"
      using run by (simp add: deserialize_custom)
    moreover have "c = word_of_nat (length name)" by (simp flip: custom(2))
    ultimately show ?thesis
      by (intro accepted_frame[where header = "2 # c # name" and n = "Custom name" and body = body])
        (use custom in \<open>simp_all add: MAX_PREFIX_LENGTH_def numeral_3_eq_3\<close>)
  qed (use run in simp)
next
  assume ?frame
  then obtain header data where h: "network_header (pm_network_id m) = Ok header"
    "network_string (pm_network_id m)" "bs = message_frame header (pm_is_legacy m) data"
    and d: "length data < 2 ^ 32" "roi_deserialize R data = Some (pm_input m)" by blast
  define body where "body = (if pm_is_legacy m then 1 else 0) # le_bytes 4 (length data) @ data"
  have rest: "deserialize_rest R (pre @ body) (pm_network_id m) (length pre) = Ok m" for pre
    using d by (simp add: rest_Ok_iff body_def)
  show ?run
  proof (cases "pm_network_id m")
    case (Custom name)
    then have name: "length name \<le> 20" "utf8_valid name"
      and "bs = PALLAS_MESSAGE_VERSION # 2 # word_of_nat (length name) # name @ body"
      using h by (auto simp: message_frame_def body_def MAX_PREFIX_LENGTH_def split: if_splits)
    moreover from name have "unat (word_of_nat (length name) :: u8) = length name"
      by (simp add: unat_of_nat)
    ultimately show ?thesis
      using rest[of "PALLAS_MESSAGE_VERSION # 2 # word_of_nat (length name) # name"] Custom
      by (simp only: deserialize_custom) (simp add: numeral_3_eq_3)
  next
    case Testnet
    then show ?thesis using h rest[of "[PALLAS_MESSAGE_VERSION, 0]"]
      by (auto simp: message_frame_def body_def deserialize_builtin numeral_2_eq_2)
  next
    case Mainnet
    then show ?thesis using h rest[of "[PALLAS_MESSAGE_VERSION, 1]"]
      by (auto simp: message_frame_def body_def deserialize_builtin numeral_2_eq_2)
  qed
qed

text \<open>
  C32: \<open>deserialize\<close> accepts exactly the framed messages: version, network header, legacy
  flag, four length bytes and that many bytes of input, with nothing before, between or after.
\<close>

theorem deserialize_Ok_iff:
  "deserialize R bs = Ok m \<longleftrightarrow>
    (\<exists>header data. network_header (pm_network_id m) = Ok header \<and> network_string (pm_network_id m) \<and>
       bs = message_frame header (pm_is_legacy m) data \<and> length data < 2 ^ 32 \<and>
       roi_deserialize R data = Some (pm_input m))"
  by (rule deserialize_Ok_frame)

lemma serialize_frame:
  assumes "length (roi_serialize R (pm_input m)) < 2 ^ 32"
  shows "serialize R m = Ok bs \<longleftrightarrow> (\<exists>header. network_header (pm_network_id m) = Ok header \<and>
    bs = message_frame header (pm_is_legacy m) (roi_serialize R (pm_input m)))"
  using assms by (auto simp: serialize_def message_frame_def Let_def outcome_simps unat_of_nat)

lemma deserialize_serialize:
  assumes "roi_roundtrip R" and "network_header (pm_network_id m) = Ok header"
    and "network_string (pm_network_id m)" and "length (roi_serialize R (pm_input m)) < 2 ^ 32"
  shows "\<exists>bs. serialize R m = Ok bs \<and> deserialize R bs = Ok m"
proof -
  define bs where "bs = message_frame header (pm_is_legacy m) (roi_serialize R (pm_input m))"
  have "serialize R m = Ok bs" using assms by (auto simp: serialize_frame bs_def)
  moreover have "deserialize R bs = Ok m"
    unfolding deserialize_Ok_frame using assms by (auto simp: bs_def roi_roundtrip_def)
  ultimately show ?thesis by blast
qed

text \<open>
  C33: what the coordinator serialises, the signer reads back as the same message, and the
  challenge it then computes is the message hash of that very input, network and mode. It
  holds for messages whose custom name is a string of at most 20 bytes and whose input has
  fewer than \<open>2 ^ 32\<close> bytes, when the input serialisation of the hasher crate round trips.
\<close>

theorem challenge_of_serialized:
  assumes "roi_roundtrip R" and "network_header (pm_network_id m) = Ok header"
    and "network_string (pm_network_id m)" and "length (roi_serialize R (pm_input m)) < 2 ^ 32"
  shows "\<exists>bs. serialize R m = Ok bs \<and> deserialize R bs = Ok m \<and>
    challenge R H scalar_from into_affine r vk bs =
      Ok (message_hash R H scalar_from \<lparr>pk_point = into_affine vk\<rparr> (aff_x (into_affine r))
            (pm_input m) (pm_network_id m) (pm_is_legacy m))"
  using deserialize_serialize[OF assms] by (auto simp: challenge_def translate_pk_def)

lemma challenge_of_serialized_witness:
  "\<exists>bs. serialize roi_bytes_demo (from_parts [7, 8] (Custom (lit ''abc'')) True) = Ok bs \<and>
     deserialize roi_bytes_demo bs = Ok (from_parts [7, 8] (Custom (lit ''abc'')) True)"
proof -
  let ?m = "from_parts [7, 8] (Custom (lit ''abc'')) True"
  have "network_header (pm_network_id ?m) = Ok [2, 3, 97, 98, 99]" "network_string (pm_network_id ?m)"
    "length (roi_serialize roi_bytes_demo (pm_input ?m)) < 2 ^ 32"
    by (simp_all add: from_parts_def MAX_PREFIX_LENGTH_def utf8_seq_def roi_bytes_demo_def)
  from challenge_of_serialized[OF roi_bytes_demo_laws(1) this, of undefined] show ?thesis by fast
qed

end
