(* ===== verification/Transactions.thy ===== *)
theory Transactions
  imports Legacy_Tx Json_Depth Signature_Injection Pallas_Message
begin

text \<open>
  What a signing session signs: \<^verbatim>\<open>mina-tx/src/transactions.rs\<close>, the signed envelope of
  \<^verbatim>\<open>signatures.rs\<close>, the bridge to the signing message in
  \<^verbatim>\<open>bluepallas_compat.rs\<close>, and the GraphQL requests of \<^verbatim>\<open>graphql.rs\<close> and
  \<^verbatim>\<open>zkapp_graphql.rs\<close>.
\<close>

section \<open>Envelopes\<close>

datatype transaction_kind = ZkApp zkapp_command | Legacy legacy_transaction

record transaction_envelope =
  te_network_id :: network_id
  te_kind :: transaction_kind

fun kind_is_legacy :: "transaction_kind \<Rightarrow> bool" where
  "kind_is_legacy (Legacy _) = True"
| "kind_is_legacy (ZkApp _) = False"

definition is_legacy :: "transaction_envelope \<Rightarrow> bool" where
  "is_legacy e = kind_is_legacy (te_kind e)"

definition envelope_new :: "network_id \<Rightarrow> transaction_kind \<Rightarrow> transaction_envelope" where
  "envelope_new network_id k = \<lparr>te_network_id = network_id, te_kind = k\<rparr>"

definition new_zkapp :: "network_id \<Rightarrow> zkapp_command \<Rightarrow> transaction_envelope" where
  "new_zkapp network_id tx = envelope_new network_id (ZkApp tx)"

definition new_legacy :: "network_id \<Rightarrow> legacy_transaction \<Rightarrow> transaction_envelope" where
  "new_legacy network_id tx = envelope_new network_id (Legacy tx)"

definition envelope_domain_string :: "network_id \<Rightarrow> rstr option" where
  "envelope_domain_string network = Some (into_domain_string network)"

definition to_roinput :: "('r, 'sp) zk_env \<Rightarrow> transaction_envelope \<Rightarrow> (mina_tx_error, 'r) outcome" where
  "to_roinput Z e = (case te_kind e of
     ZkApp tx \<Rightarrow> zk_to_roinput Z tx (te_network_id e)
   | Legacy tx \<Rightarrow> Ok (legacy_to_roinput (zk_roi Z) tx))"

definition to_pallas_message ::
  "('r, 'sp) zk_env \<Rightarrow> transaction_envelope \<Rightarrow> (mina_tx_error, 'r pallas_message) outcome" where
  "to_pallas_message Z e =
     omap (\<lambda>input. from_parts input (te_network_id e) (is_legacy e)) (to_roinput Z e)"

section \<open>JSON\<close>

record ('r, 'sp) tx_env =
  tx_serde :: "('r, 'sp) serde_env"
  tx_bigint :: bigint_ext
  tx_json :: json_ext
  tx_pretty :: "json \<Rightarrow> rstr"
  tx_error_text :: "rstr \<Rightarrow> de_error \<Rightarrow> rstr"

abbreviation tx_address :: "('r, 'sp) tx_env \<Rightarrow> address_ext" where
  "tx_address E \<equiv> sd_address (tx_serde E)"

definition ser_network_id :: "network_id writer" where
  "ser_network_id n = Ok (JStr (network_id_to_str n))"

definition de_network_id :: "network_id reader" where
  "de_network_id jo = obind (de_string jo) (\<lambda>value. map_err (\<lambda>_. Malformed) (network_id_of_str value))"

fun de_legacy :: "('r, 'sp) tx_env \<Rightarrow> legacy_transaction reader" where
  "de_legacy E (Some j) = legacy_of_json (tx_address E) j"
| "de_legacy E None = Err Malformed"

definition ser_legacy :: "('r, 'sp) tx_env \<Rightarrow> legacy_transaction writer" where
  "ser_legacy E tx = legacy_to_json (tx_address E) (sd_utf8_error (tx_serde E)) tx"

text \<open>The kind is adjacently tagged: its variant's name, and the transaction.\<close>

definition kind_fields :: "rstr list" where
  "kind_fields = map lit [''tag'', ''transaction'']"

fun ser_kind :: "('r, 'sp) tx_env \<Rightarrow> transaction_kind writer" where
  "ser_kind E (ZkApp tx) = ser_struct kind_fields [ser_str (lit ''ZkApp''), ser_zkapp_command (tx_serde E) tx]"
| "ser_kind E (Legacy tx) = ser_struct kind_fields [ser_str (lit ''Legacy''), ser_legacy E tx]"

definition de_kind :: "('r, 'sp) tx_env \<Rightarrow> transaction_kind reader" where
  "de_kind E = de_struct kind_fields (\<lambda>vs.
     obind (de_unit_variant (vs ! 0)) (\<lambda>tag.
     if tag = lit ''ZkApp'' then omap ZkApp (de_zkapp_command (tx_serde E) (vs ! 1))
     else if tag = lit ''Legacy'' then omap Legacy (de_legacy E (vs ! 1))
     else Err Malformed))"

definition envelope_fields :: "rstr list" where
  "envelope_fields = map lit [''networkId'', ''kind'']"

definition ser_envelope :: "('r, 'sp) tx_env \<Rightarrow> transaction_envelope writer" where
  "ser_envelope E v = ser_struct envelope_fields [ser_network_id (te_network_id v), ser_kind E (te_kind v)]"

definition de_envelope :: "('r, 'sp) tx_env \<Rightarrow> transaction_envelope reader" where
  "de_envelope E = de_struct envelope_fields (\<lambda>vs.
     obind (de_network_id (vs ! 0)) (\<lambda>x0.
     obind (de_kind E (vs ! 1)) (\<lambda>x1.
     Ok \<lparr>te_network_id = x0, te_kind = x1\<rparr>)))"

definition envelope_serialize :: "('r, 'sp) tx_env \<Rightarrow> transaction_envelope \<Rightarrow> (de_error, bytes) outcome" where
  "envelope_serialize E e = omap (json_print (tx_json E)) (ser_envelope E e)"

text \<open>\<open>serde_json\<close> reads a text as a JSON value and then as the type.\<close>

definition from_json :: "('r, 'sp) tx_env \<Rightarrow> 'a reader \<Rightarrow> bytes \<Rightarrow> (de_error, 'a) outcome" where
  "from_json E de text = obind (ok_or Malformed (json_parse (tx_json E) text)) (\<lambda>j. de (Some j))"

definition envelope_deserialize :: "('r, 'sp) tx_env \<Rightarrow> bytes \<Rightarrow> (de_error, transaction_envelope) outcome" where
  "envelope_deserialize E bs = from_json E (de_envelope E) bs"

section \<open>Signed transactions\<close>

record transaction_signature =
  ts_public_key :: pubkey
  ts_signature :: sig
  ts_payload :: transaction_envelope

definition ser_sig :: "('r, 'sp) tx_env \<Rightarrow> sig writer" where
  "ser_sig E s =
     (let v = sig_serialize (sd_base58 (tx_serde E)) (tx_bigint E) s in
      ser_struct (map lit [''field'', ''scalar'', ''base58''])
        [ser_str (js_field v), ser_str (js_scalar v), ser_option ser_str (js_base58 v)])"

definition de_sig :: "('r, 'sp) tx_env \<Rightarrow> sig reader" where
  "de_sig E = de_struct (map lit [''field'', ''scalar'', ''base58'']) (\<lambda>vs.
     obind (de_string (vs ! 0)) (\<lambda>x0. obind (de_string (vs ! 1)) (\<lambda>x1. obind (de_option de_string (vs ! 2)) (\<lambda>x2.
     map_err CustomError (sig_deserialize (tx_bigint E) \<lparr>js_field = x0, js_scalar = x1, js_base58 = x2\<rparr>)))))"

definition ser_pub_key :: "('r, 'sp) tx_env \<Rightarrow> pubkey writer" where
  "ser_pub_key E k = ser_struct [lit ''address'']
     [ser_str (into_address (tx_address E) (into_compressed (tx_address E) k))]"

definition de_pub_key :: "('r, 'sp) tx_env \<Rightarrow> pubkey reader" where
  "de_pub_key E = de_struct [lit ''address''] (\<lambda>vs.
     obind (de_string (vs ! 0)) (\<lambda>address.
     ok_or (CustomError (lit ''Failed to parse 'address' as PubKey'')) (from_address (tx_address E) address)))"

definition signature_fields :: "rstr list" where
  "signature_fields = map lit [''publicKey'', ''signature'', ''payload'']"

definition ser_transaction_signature :: "('r, 'sp) tx_env \<Rightarrow> transaction_signature writer" where
  "ser_transaction_signature E v = ser_struct signature_fields
     [ser_pub_key E (ts_public_key v), ser_sig E (ts_signature v), ser_envelope E (ts_payload v)]"

definition de_transaction_signature :: "('r, 'sp) tx_env \<Rightarrow> transaction_signature reader" where
  "de_transaction_signature E = de_struct signature_fields (\<lambda>vs.
     obind (de_pub_key E (vs ! 0)) (\<lambda>x0.
     obind (de_sig E (vs ! 1)) (\<lambda>x1.
     obind (de_envelope E (vs ! 2)) (\<lambda>x2.
     Ok \<lparr>ts_public_key = x0, ts_signature = x1, ts_payload = x2\<rparr>))))"

definition new_with_zkapp_injection ::
  "base58_ext \<Rightarrow> address_ext \<Rightarrow> pubkey \<Rightarrow> sig \<Rightarrow> transaction_envelope \<Rightarrow>
    transaction_signature \<times> injection_result option" where
  "new_with_zkapp_injection B A group_key signature payload =
     (let (payload_kind, injection_result) = (case te_kind payload of
            ZkApp zkapp \<Rightarrow> let (zkapp', r) = inject_signature B A zkapp group_key signature in (ZkApp zkapp', Some r)
          | Legacy tx \<Rightarrow> (Legacy tx, None))
      in (\<lparr>ts_public_key = group_key, ts_signature = signature,
           ts_payload = payload\<lparr>te_kind := payload_kind\<rparr>\<rparr>, injection_result))"

text \<open>
  From a FROST signature: the coordinate of its commitment (absent for the point at infinity) and its
  scalar, both as integers.
\<close>

record ('el, 's) curve_ext =
  curve_affine :: "'el \<Rightarrow> affine"
  curve_x :: "'el \<Rightarrow> fp option"
  fp_bigint :: "fp \<Rightarrow> big_int"
  scalar_bigint :: "'s \<Rightarrow> big_int"
  frost_sig_deserialize :: "bytes \<Rightarrow> (rstr, 'el \<times> 's) outcome"

definition sig_of_frost :: "('el, 's) curve_ext \<Rightarrow> 'el \<times> 's \<Rightarrow> (mina_tx_error, sig) outcome" where
  "sig_of_frost C value =
     obind (ok_or (InvalidSignature (lit ''Failed to convert x coordinate to bigint'')) (curve_x C (fst value))) (\<lambda>x.
     Ok \<lparr>sig_field = fp_bigint C x, sig_scalar = scalar_bigint C (snd value)\<rparr>)"

definition pub_key_of_verifying_key :: "('el, 's) curve_ext \<Rightarrow> 'el \<Rightarrow> (mina_tx_error, pubkey) outcome" where
  "pub_key_of_verifying_key C vk =
     map_err (\<lambda>e. InvalidPublicKey (display_mina_tx_error e)) (translate_pk (curve_affine C) vk)"

definition from_frost_signature ::
  "('el, 's) curve_ext \<Rightarrow> base58_ext \<Rightarrow> address_ext \<Rightarrow> 'el \<Rightarrow> 'el \<times> 's \<Rightarrow> transaction_envelope \<Rightarrow>
    (mina_tx_error, transaction_signature \<times> injection_result option) outcome" where
  "from_frost_signature C B A vk signature payload =
     obind (pub_key_of_verifying_key C vk) (\<lambda>pubkey.
     obind (sig_of_frost C signature) (\<lambda>signature.
     Ok (new_with_zkapp_injection B A pubkey signature payload)))"

definition from_frost_signature_bytes ::
  "('el, 's) curve_ext \<Rightarrow> base58_ext \<Rightarrow> address_ext \<Rightarrow> 'el \<Rightarrow> bytes \<Rightarrow> transaction_envelope \<Rightarrow>
    (mina_tx_error, transaction_signature \<times> injection_result option) outcome" where
  "from_frost_signature_bytes C B A vk signature_bytes payload =
     obind (map_err DeSerializationError (frost_sig_deserialize C signature_bytes)) (\<lambda>signature.
     from_frost_signature C B A vk signature payload)"

section \<open>Reading a transaction of any kind\<close>

text \<open>\<open>str::trim\<close>: the characters of the Unicode property \<open>White_Space\<close>, in UTF-8.\<close>

definition white_space :: "rstr list" where
  "white_space = [[9], [10], [11], [12], [13], [32], [0xC2, 0x85], [0xC2, 0xA0], [0xE1, 0x9A, 0x80],
     [0xE2, 0x80, 0xA8], [0xE2, 0x80, 0xA9], [0xE2, 0x80, 0xAF], [0xE2, 0x81, 0x9F], [0xE3, 0x80, 0x80]] @
     map (\<lambda>i. [0xE2, 0x80, 0x80 + word_of_nat i]) [0..<11]"

function trim_with :: "rstr list \<Rightarrow> rstr \<Rightarrow> rstr" where
  "trim_with ws s = (case find (\<lambda>w. w \<noteq> [] \<and> take (length w) s = w) ws of
     None \<Rightarrow> s | Some w \<Rightarrow> trim_with ws (drop (length w) s))"
  by pat_completeness auto
termination
proof (relation "measure (\<lambda>(ws, s). length s)")
  fix ws s w assume "find (\<lambda>w. w \<noteq> [] \<and> take (length w) s = w) ws = Some (w :: rstr)"
  then have "w \<noteq> []" and "take (length w) s = w" by (auto simp: find_Some_iff)
  then show "((ws, drop (length w) s), ws, s) \<in> measure (\<lambda>(ws, s). length s)" by (cases s) auto
qed simp

declare trim_with.simps [simp del]

definition trim :: "rstr \<Rightarrow> rstr" where
  "trim s = rev (trim_with (map rev white_space) (rev (trim_with white_space s)))"

definition from_str_network :: "('r, 'sp) tx_env \<Rightarrow> rstr \<Rightarrow> network_id \<Rightarrow> (mina_tx_error, transaction_envelope) outcome" where
  "from_str_network E s network_id =
     (let s = trim s in
      case from_json E (de_transaction_signature E) s of
        Ok previous \<Rightarrow> Ok (ts_payload previous)
      | Panic \<Rightarrow> Panic
      | Err _ \<Rightarrow> (case from_json E (de_zkapp_command (tx_serde E)) s of
          Ok zkapp \<Rightarrow> Ok (new_zkapp network_id zkapp)
        | Panic \<Rightarrow> Panic
        | Err zkapp_err \<Rightarrow> (case from_json E (de_legacy E) s of
            Ok legacy \<Rightarrow> Ok (new_legacy network_id legacy)
          | Panic \<Rightarrow> Panic
          | Err legacy_err \<Rightarrow> Err (UnknownTransactionType (
              lit ''Unable to parse transaction as ZkApp or Legacy.'' @ [10] @
              lit ''  ZkApp parse error: '' @ tx_error_text E s zkapp_err @ [10] @
              lit ''  Legacy parse error: '' @ tx_error_text E s legacy_err)))))"

text \<open>The network asked for is the transaction's, unless the input is a signed transaction.\<close>

lemma from_str_network_network:
  assumes "from_str_network E s network = Ok tx"
  shows "case from_json E (de_transaction_signature E) (trim s) of
    Ok previous \<Rightarrow> tx = ts_payload previous | _ \<Rightarrow> te_network_id tx = network"
  using assms by (auto simp: from_str_network_def Let_def new_zkapp_def new_legacy_def envelope_new_def split: outcome.splits)

section \<open>From the payload of a session to the signed bytes\<close>

datatype payload_error = NotAnEnvelope de_error | NotSerializable mina_tx_error

definition signing_bytes :: "('r, 'sp) tx_env \<Rightarrow> bytes \<Rightarrow> (payload_error, bytes) outcome" where
  "signing_bytes E payload =
     (let Z = sd_zk (tx_serde E) in
      obind (map_err NotAnEnvelope (envelope_deserialize E payload)) (\<lambda>transaction.
      map_err NotSerializable (obind (to_pallas_message Z transaction) (serialize (zk_roi Z)))))"

section \<open>Display\<close>

text \<open>The pretty JSON, or the debug form of a value that cannot be written.\<close>

definition json_display :: "(json \<Rightarrow> rstr) \<Rightarrow> ('a \<Rightarrow> rstr) \<Rightarrow> 'a writer \<Rightarrow> 'a \<Rightarrow> (de_error, rstr) outcome" where
  "json_display pretty debug ser v = (case ser v of
     Ok j \<Rightarrow> Ok (pretty j) | Err _ \<Rightarrow> Ok (debug v) | Panic \<Rightarrow> Panic)"

definition display_envelope ::
  "('r, 'sp) tx_env \<Rightarrow> (transaction_envelope \<Rightarrow> rstr) \<Rightarrow> transaction_envelope \<Rightarrow> (de_error, rstr) outcome" where
  "display_envelope E debug e = json_display (tx_pretty E) debug (ser_envelope E) e"

section \<open>GraphQL\<close>

text \<open>A field that is skipped when it is \<open>None\<close>.\<close>

definition optional_field :: "string \<Rightarrow> json option \<Rightarrow> (rstr \<times> json) list" where
  "optional_field name v = (case v of None \<Rightarrow> [] | Some j \<Rightarrow> [(lit name, j)])"

record 'v graphql_request =
  operation_name :: "rstr option"
  query :: rstr
  variables :: "'v option"

definition graphql_to_json :: "('v \<Rightarrow> json) \<Rightarrow> 'v graphql_request \<Rightarrow> json" where
  "graphql_to_json to_json r = JObj (
     optional_field ''operationName'' (map_option JStr (operation_name r)) @ [(lit ''query'', JStr (query r))] @
     optional_field ''variables'' (map_option to_json (variables r)))"

record send_input =
  si_from :: rstr
  si_to :: rstr
  si_fee :: rstr
  si_nonce :: "u32 option"
  si_memo :: "rstr option"
  si_valid_until :: "u32 option"

record send_payment_input = send_input +
  si_amount :: rstr

datatype signature_input = Raw rstr | FieldScalar rstr rstr

text \<open>\<open>unwrap_or_default\<close>: a memo that is no string becomes empty.\<close>

definition memo_or_default :: "(bytes \<Rightarrow> rstr) \<Rightarrow> legacy_transaction \<Rightarrow> rstr" where
  "memo_or_default u tx = (case get_memo_string u tx of Ok s \<Rightarrow> s | _ \<Rightarrow> [])"

definition payment_input :: "address_ext \<Rightarrow> (bytes \<Rightarrow> rstr) \<Rightarrow> legacy_transaction \<Rightarrow> send_payment_input" where
  "payment_input A u tx = \<lparr>si_from = into_address A (lt_source_pk tx), si_to = into_address A (lt_receiver_pk tx),
     si_fee = show_nat (unat (lt_fee tx)), si_nonce = Some (lt_nonce tx), si_memo = Some (memo_or_default u tx),
     si_valid_until = Some (lt_valid_until tx), si_amount = show_nat (unat (lt_amount tx))\<rparr>"

definition delegation_input :: "address_ext \<Rightarrow> (bytes \<Rightarrow> rstr) \<Rightarrow> legacy_transaction \<Rightarrow> send_input" where
  "delegation_input A u tx = \<lparr>si_from = into_address A (lt_source_pk tx), si_to = into_address A (lt_receiver_pk tx),
     si_fee = show_nat (unat (lt_fee tx)), si_nonce = Some (lt_nonce tx), si_memo = Some (memo_or_default u tx),
     si_valid_until = Some (lt_valid_until tx)\<rparr>"

definition optional_fields_json :: "'a send_input_scheme \<Rightarrow> (rstr \<times> json) list" where
  "optional_fields_json i =
     optional_field ''nonce'' (map_option (\<lambda>n. JNum (int (unat n))) (si_nonce i)) @
     optional_field ''memo'' (map_option JStr (si_memo i)) @
     optional_field ''validUntil'' (map_option (\<lambda>n. JNum (int (unat n))) (si_valid_until i))"

definition payment_input_json :: "send_payment_input \<Rightarrow> json" where
  "payment_input_json i = JObj ([(lit ''from'', JStr (si_from i)), (lit ''to'', JStr (si_to i)),
     (lit ''amount'', JStr (si_amount i)), (lit ''fee'', JStr (si_fee i))] @ optional_fields_json i)"

definition delegation_input_json :: "send_input \<Rightarrow> json" where
  "delegation_input_json i = JObj ([(lit ''from'', JStr (si_from i)), (lit ''to'', JStr (si_to i)),
     (lit ''fee'', JStr (si_fee i))] @ optional_fields_json i)"

fun signature_input_json :: "signature_input \<Rightarrow> json" where
  "signature_input_json (Raw s) = JObj [(lit ''rawSignature'', JStr s)]"
| "signature_input_json (FieldScalar f s) = JObj [(lit ''field'', JStr f), (lit ''scalar'', JStr s)]"

definition signed_variables_json :: "('i \<Rightarrow> json) \<Rightarrow> 'i \<times> signature_input \<Rightarrow> json" where
  "signed_variables_json to_json v =
     JObj [(lit ''input'', to_json (fst v)), (lit ''signature'', signature_input_json (snd v))]"

text \<open>The query texts, line by line.\<close>

definition text_lines :: "string list \<Rightarrow> rstr" where
  "text_lines ls = (case ls of [] \<Rightarrow> [] | l # ls \<Rightarrow> lit l @ concat (map (\<lambda>l. 10 # lit l) ls))"

definition send_payment_query :: rstr where
  "send_payment_query = text_lines [
     ''mutation SendPaymentSigned($input: SendPaymentInput!, $signature: SignatureInput!) {'',
     ''  sendPayment(input: $input, signature: $signature) {'', ''    payment {'', ''      id'', ''      hash'',
     ''      kind'', ''      nonce'', ''      from'', ''      to'', ''      amount'', ''      fee'', ''      memo'',
     ''      failureReason'', ''    }'', ''  }'', ''}'']"

definition send_delegation_query :: rstr where
  "send_delegation_query = text_lines [
     ''mutation SendDelegationSigned($input: SendDelegationInput!, $signature: SignatureInput!) {'',
     ''  sendDelegation(input: $input, signature: $signature) {'', ''    delegation {'', ''      id'', ''      hash'',
     ''      kind'', ''      nonce'', ''      from'', ''      to'', ''      fee'', ''      memo'',
     ''      failureReason'', ''      ... on UserCommandDelegation {'', ''        delegator { publicKey }'',
     ''        delegatee { publicKey }'', ''      }'', ''    }'', ''  }'', ''}'']"

definition send_zkapp_query :: rstr where
  "send_zkapp_query = text_lines [
     ''mutation SendZkapp($input: SendZkappInput!) {'', ''  sendZkapp(input: $input) {'', ''    zkapp {'', ''      id'',
     ''      hash'', ''      failureReason {'', ''        index'', ''        failures'', ''      }'', ''    }'', ''  }'', ''}'']"

definition build_send_payment_mutation ::
  "send_payment_input \<Rightarrow> signature_input \<Rightarrow> (send_payment_input \<times> signature_input) graphql_request" where
  "build_send_payment_mutation i s = \<lparr>operation_name = Some (lit ''SendPaymentSigned''),
     query = send_payment_query, variables = Some (i, s)\<rparr>"

definition build_send_delegation_mutation ::
  "send_input \<Rightarrow> signature_input \<Rightarrow> (send_input \<times> signature_input) graphql_request" where
  "build_send_delegation_mutation i s = \<lparr>operation_name = Some (lit ''SendDelegationSigned''),
     query = send_delegation_query, variables = Some (i, s)\<rparr>"

definition build_send_zkapp_mutation :: "zkapp_command \<Rightarrow> zkapp_command graphql_request" where
  "build_send_zkapp_mutation cmd = \<lparr>operation_name = Some (lit ''SendZkapp''),
     query = send_zkapp_query, variables = Some cmd\<rparr>"

definition to_graphql_query_json ::
  "('r, 'sp) tx_env \<Rightarrow> transaction_envelope \<Rightarrow> sig \<Rightarrow> (de_error, rstr) outcome" where
  "to_graphql_query_json E e signature =
     (case te_kind e of
        ZkApp zkapp \<Rightarrow>
          obind (ser_zkapp_command (tx_serde E) zkapp) (\<lambda>command.
          Ok (tx_pretty E (graphql_to_json
            (\<lambda>_. JObj [(lit ''input'', JObj [(lit ''zkappCommand'', command)])]) (build_send_zkapp_mutation zkapp))))
      | Legacy tx \<Rightarrow>
          (let A = tx_address E; u = sd_utf8_error (tx_serde E);
               sig_input = FieldScalar (bigint_to_string (tx_bigint E) (sig_field signature))
                 (bigint_to_string (tx_bigint E) (sig_scalar signature))
           in if is_delegation tx
              then Ok (tx_pretty E (graphql_to_json (signed_variables_json delegation_input_json)
                     (build_send_delegation_mutation (delegation_input A u tx) sig_input)))
              else Ok (tx_pretty E (graphql_to_json (signed_variables_json payment_input_json)
                     (build_send_payment_mutation (payment_input A u tx) sig_input)))))"

definition signature_to_graphql_query_json ::
  "('r, 'sp) tx_env \<Rightarrow> transaction_signature \<Rightarrow> (de_error, rstr) outcome" where
  "signature_to_graphql_query_json E t = to_graphql_query_json E (ts_payload t) (ts_signature t)"

section \<open>Envelopes round trip\<close>

definition tx_laws :: "('r, 'sp) tx_env \<Rightarrow> bool" where
  "tx_laws E \<longleftrightarrow> serde_laws (tx_serde E) \<and> address_laws (tx_address E) \<and> json_laws (tx_json E)"

fun good_kind :: "('r, 'sp) tx_env \<Rightarrow> transaction_kind \<Rightarrow> bool" where
  "good_kind E (ZkApp tx) \<longleftrightarrow> good_zkapp_command (tx_serde E) tx"
| "good_kind E (Legacy tx) \<longleftrightarrow> legacy_normal (tx_address E) tx"

definition good_envelope :: "('r, 'sp) tx_env \<Rightarrow> transaction_envelope \<Rightarrow> bool" where
  "good_envelope E v \<longleftrightarrow> canonical_network (te_network_id v) \<and> good_kind E (te_kind v)"

lemma network_id_codec: "codec ser_network_id de_network_id canonical_network"
proof (rule codecI)
  fix n assume "canonical_network n"
  then show "obind (ser_network_id n) (\<lambda>j. de_network_id (Some j)) = Ok n"
    by (simp add: ser_network_id_def de_network_id_def network_str.dec_enc)
next
  fix jo n assume "de_network_id jo = Ok n"
  then show "canonical_network n"
    by (auto simp: de_network_id_def network_id_of_str_def canonical_network_def outcome_simps split: if_splits)
qed

lemma legacy_codec:
  assumes "address_laws (tx_address E)"
  shows "codec (ser_legacy E) (de_legacy E) (legacy_normal (tx_address E))"
proof (rule codecI)
  fix tx assume "legacy_normal (tx_address E) tx"
  from legacy_json_back[OF assms this] show "obind (ser_legacy E tx) (\<lambda>j. de_legacy E (Some j)) = Ok tx"
    by (simp add: ser_legacy_def)
next
  fix jo tx assume utf8: "field_utf8 jo" and ok: "de_legacy E jo = Ok tx"
  obtain j where j: "jo = Some j" using ok by (cases jo) auto
  with ok obtain d where d: "de_transaction_data j = Ok d" "legacy_of_data (tx_address E) d = Ok tx"
    by (auto simp: legacy_of_json_def outcome_simps)
  have "utf8_valid (td_memo d)"
  proof -
    obtain vs where vs: "struct_fields transaction_data_fields j = Ok vs" "de_string (vs ! 5) = Ok (td_memo d)"
      using d(1) by (auto simp: de_transaction_data_def outcome_simps)
    have "field_utf8 (vs ! 5)"
      using struct_fields_utf8[OF _ vs(1)] utf8 j by (simp add: field_utf8_def list_all_length transaction_data_fields_def)
    with vs(2) show ?thesis by (auto simp: outcome_simps)
  qed
  with d(2) show "legacy_normal (tx_address E) tx" by (rule legacy_of_data_normal)
qed

lemma kind_codec:
  assumes "tx_laws E"
  shows "codec (ser_kind E) (de_kind E) (good_kind E)"
proof (rule codecI)
  have laws: "serde_laws (tx_serde E)" "address_laws (tx_address E)" using assms by (simp_all add: tx_laws_def)
  note codecs = zkapp_command_codec[OF laws(1)] legacy_codec[OF laws(2)]
  have names: "distinct kind_fields" "length kind_fields = 2" by (simp_all add: kind_fields_def)
  {
    fix k assume good: "good_kind E k"
    show "obind (ser_kind E k) (\<lambda>j. de_kind E (Some j)) = Ok k"
    proof (cases k)
      case (ZkApp tx)
      have vs: "omap_list id [ser_str (lit ''ZkApp''), ser_zkapp_command (tx_serde E) tx] =
          Ok [JStr (lit ''ZkApp''), the_ok (ser_zkapp_command (tx_serde E) tx)]"
        using good ZkApp by (simp add: ser_str_def codecs[THEN codec_bind])
      show ?thesis using good ZkApp unfolding ZkApp ser_kind.simps de_kind_def
        by (subst struct_write[OF names(1) vs]) (simp_all add: names codecs[THEN codec_de])
    next
      case (Legacy tx)
      have vs: "omap_list id [ser_str (lit ''Legacy''), ser_legacy E tx] =
          Ok [JStr (lit ''Legacy''), the_ok (ser_legacy E tx)]"
        using good Legacy by (simp add: ser_str_def codecs[THEN codec_bind])
      show ?thesis using good Legacy unfolding Legacy ser_kind.simps de_kind_def
        by (subst struct_write[OF names(1) vs]) (simp_all add: names codecs[THEN codec_de] del: de_legacy.simps)
    qed
  next
    fix jo k assume "field_utf8 jo" and "de_kind E jo = Ok k"
    then show "good_kind E k"
      unfolding de_kind_def
      by (elim de_structE) (auto simp: names outcome_simps split: if_splits dest: codecs[THEN codec_good])
  }
qed

lemma envelope_codec:
  assumes "tx_laws E"
  shows "codec (ser_envelope E) (de_envelope E) (good_envelope E)"
proof -
  note codecs = network_id_codec kind_codec[OF assms]
  show ?thesis
    by (rule struct_codecI[OF ser_envelope_def de_envelope_def])
       ((simp add: envelope_fields_def good_envelope_def codecs[THEN codec_bind] codecs[THEN codec_de]; fail) |
        (auto simp: envelope_fields_def good_envelope_def outcome_simps dest: codecs[THEN codec_good]))+
qed

text \<open>The parser reads what is written, which nests at most eleven deep.\<close>

lemma at_depth_legacy [depths]: "2 \<le> n \<Longrightarrow> at_depth n (ser_legacy E tx)"
  by (auto simp: at_depth_def ser_legacy_def legacy_to_json_def outcome_simps split: prod.split)

lemma at_depth_envelope [depths]: "11 \<le> n \<Longrightarrow> at_depth n (ser_envelope E v)"
  by (cases "te_kind v") (simp_all add: depths ser_envelope_def ser_network_id_def)

lemma json_within_mono: "json_within n j \<Longrightarrow> n \<le> m \<Longrightarrow> json_within m j"
  by (induction n j arbitrary: m rule: json_within.induct) (auto simp: list_all_iff)

lemma json_reads_within: "json_reads J print \<Longrightarrow> at_depth 12 r \<Longrightarrow> r = Ok j \<Longrightarrow> json_parse J (print j) = Some j"
  using json_within_mono[of 12 j "RECURSION_LIMIT - 1"] by (simp add: json_reads_def at_depth_def RECURSION_LIMIT_def)

lemma envelope_back:
  assumes "tx_laws E" and "good_envelope E e"
  shows "obind (envelope_serialize E e) (envelope_deserialize E) = Ok e"
proof -
  obtain j where j: "ser_envelope E e = Ok j" "de_envelope E (Some j) = Ok e"
    using envelope_codec[OF assms(1)] assms(2) unfolding codec_def by blast
  have "json_parse (tx_json E) (json_print (tx_json E) j) = Some j"
    using json_reads_within[OF _ at_depth_envelope j(1)] assms(1) by (simp add: tx_laws_def json_laws_def)
  with j show ?thesis by (simp add: envelope_serialize_def envelope_deserialize_def from_json_def)
qed

text \<open>
  C30: an envelope whose network is not a custom one named like a built-in one, and whose transaction
  the formats can express (canonical field elements, keys that have an address, a readable memo), survives serialisation; and what is deserialised is always such an envelope.
\<close>

theorem envelope_roundtrip:
  assumes "tx_laws E"
  shows "(good_envelope E e \<longrightarrow> obind (envelope_serialize E e) (envelope_deserialize E) = Ok e) \<and>
    (envelope_deserialize E bs = Ok e \<and> pred_option json_utf8 (json_parse (tx_json E) bs) \<longrightarrow> good_envelope E e)"
proof (intro conjI impI)
  note codec = envelope_codec[OF assms]
  show "obind (envelope_serialize E e) (envelope_deserialize E) = Ok e" if "good_envelope E e"
    using envelope_back[OF assms that] .
  show "good_envelope E e"
    if read: "envelope_deserialize E bs = Ok e \<and> pred_option json_utf8 (json_parse (tx_json E) bs)"
  proof -
    obtain j where j: "json_parse (tx_json E) bs = Some j" "de_envelope E (Some j) = Ok e"
      using read by (auto simp: envelope_deserialize_def from_json_def outcome_simps)
    from codec_good[OF codec j(2)] j(1) read show ?thesis by (simp add: field_utf8_def)
  qed
qed

text \<open>Instances: JSON values by their number in an enumeration, and inputs by two lists in unary.\<close>

instance word :: (len) countable
  by (rule countable_classI[of unat]) (rule unsigned_word_eqI)

instance json :: countable
  by countable_datatype

definition json_demo :: json_ext where
  "json_demo = \<lparr>json_print = (\<lambda>j. replicate (to_nat j) 49), json_parse = (\<lambda>s. Some (from_nat (length s)))\<rparr>"

lemma json_demo_laws: "json_laws json_demo"
  by (simp add: json_laws_def json_reads_def json_demo_def)

lemma trim_with_ones:
  assumes "list_all (\<lambda>w. hd w \<noteq> 49) ws"
  shows "trim_with ws (replicate n 49) = replicate n 49"
proof -
  have "w = [] \<or> take (length w) (replicate n 49) \<noteq> w" if "w \<in> set ws" for w
  proof (rule ccontr)
    assume not: "\<not> (w = [] \<or> take (length w) (replicate n 49) \<noteq> w)"
    then obtain x xs where w: "w = x # xs" by (cases w) auto
    with not have "x # xs = take (Suc (length xs)) (replicate n 49)" by simp
    then have "x = 49" by (cases n) auto
    with that assms w show False by (auto simp: list_all_iff)
  qed
  then have "find (\<lambda>w. w \<noteq> [] \<and> take (length w) (replicate n 49) = w) ws = None"
    by (auto simp: find_None_iff)
  then show ?thesis by (simp add: trim_with.simps del: take_replicate)
qed

lemma trim_ones: "trim (replicate n 49) = replicate n 49"
proof -
  have "list_all (\<lambda>w. hd w \<noteq> 49) white_space" and "list_all (\<lambda>w. hd w \<noteq> 49) (map rev white_space)"
    by code_simp+
  then show ?thesis by (simp only: trim_def trim_with_ones rev_replicate)
qed

section \<open>Chained signing\<close>

lemma injected_message:
  "to_pallas_message Z (ts_payload (fst (new_with_zkapp_injection B A grp sg e))) = to_pallas_message Z e"
proof (cases "te_kind e")
  case (ZkApp tx)
  have "zk_commit Z (fst (inject_signature B A tx grp sg)) (te_network_id e) = zk_commit Z tx (te_network_id e)"
    by (rule zk_commit_bodies) (simp_all add: inject_signature_eq Let_def sign_update_def)
  with ZkApp show ?thesis
    by (simp add: new_with_zkapp_injection_def to_pallas_message_def to_roinput_def is_legacy_def zk_to_roinput_def
        case_prod_beta)
qed (simp add: new_with_zkapp_injection_def to_pallas_message_def to_roinput_def is_legacy_def)

lemma injected_good:
  assumes "good_envelope E e"
  shows "good_envelope E (ts_payload (fst (new_with_zkapp_injection B A grp sg e)))"
proof (cases "te_kind e")
  case (ZkApp tx)
  with assms have "good_zkapp_command (tx_serde E) (fst (inject_signature B A tx grp sg))"
    by (auto simp: good_envelope_def good_zkapp_command_def good_fee_payer_def good_account_update_def
        inject_signature_eq Let_def sign_update_def list_all_iff)
  with ZkApp assms show ?thesis
    by (simp add: new_with_zkapp_injection_def good_envelope_def case_prod_beta)
qed (use assms in \<open>simp add: new_with_zkapp_injection_def good_envelope_def\<close>)

definition good_signature :: "('r, 'sp) tx_env \<Rightarrow> transaction_signature \<Rightarrow> bool" where
  "good_signature E v \<longleftrightarrow> good_envelope E (ts_payload v) \<and>
     from_address (tx_address E) (into_address (tx_address E) (into_compressed (tx_address E) (ts_public_key v)))
       = Some (ts_public_key v)"

lemma transaction_signature_written:
  assumes "tx_laws E" and "bigint_laws (tx_bigint E)" and good: "good_signature E v"
  shows "obind (ser_transaction_signature E v) (\<lambda>j. de_transaction_signature E (Some j)) = Ok v"
proof -
  note envelope = envelope_codec[OF assms(1)]
  have key: "obind (ser_pub_key E (ts_public_key v)) (\<lambda>j. de_pub_key E (Some j)) = Ok (ts_public_key v)"
    using good by (simp add: good_signature_def ser_pub_key_def de_pub_key_def ser_struct_def ser_str_def
        object_field_def)
  have signature: "obind (ser_sig E s) (\<lambda>j. de_sig E (Some j)) = Ok s" for s
    using assms(2) by (simp add: ser_sig_def de_sig_def ser_struct_def ser_str_def Let_def sig_json_roundtrip
        object_field_def sig_serialize_def sig_deserialize_def bigint_laws_def)
  obtain k s where ks: "ser_pub_key E (ts_public_key v) = Ok k" "de_pub_key E (Some k) = Ok (ts_public_key v)"
    "ser_sig E (ts_signature v) = Ok s" "de_sig E (Some s) = Ok (ts_signature v)"
    using key signature[of "ts_signature v"] by (auto simp: obind_Ok_iff)
  have "good_envelope E (ts_payload v)" using good by (simp add: good_signature_def)
  note payload = codec_bind[OF envelope this] codec_de[OF envelope this]
  have vs: "omap_list id [ser_pub_key E (ts_public_key v), ser_sig E (ts_signature v), ser_envelope E (ts_payload v)] =
      Ok [k, s, the_ok (ser_envelope E (ts_payload v))]"
    by (simp add: ks payload)
  show ?thesis unfolding ser_transaction_signature_def de_transaction_signature_def
    by (subst struct_write[OF _ vs]) (simp_all add: signature_fields_def ks payload)
qed

lemma at_depth_signature [depths]: "12 \<le> n \<Longrightarrow> at_depth n (ser_transaction_signature E ts)"
  by (simp add: depths ser_transaction_signature_def ser_pub_key_def ser_sig_def Let_def)

lemma read_signed:
  assumes "tx_laws E" and "bigint_laws (tx_bigint E)" and "good_signature E ts"
    and "\<forall>j. trim (json_print (tx_json E) j) = json_print (tx_json E) j"
  obtains j where "ser_transaction_signature E ts = Ok j"
    "from_str_network E (json_print (tx_json E) j) network = Ok (ts_payload ts)"
proof -
  from transaction_signature_written[OF assms(1-3)] obtain j where
    j: "ser_transaction_signature E ts = Ok j" "de_transaction_signature E (Some j) = Ok ts"
    by (auto simp: obind_Ok_iff)
  have "json_parse (tx_json E) (json_print (tx_json E) j) = Some j"
    using json_reads_within[OF _ at_depth_signature j(1)] assms(1) by (simp add: tx_laws_def json_laws_def)
  with j assms(4) show thesis by (intro that[of j]) (simp_all add: from_str_network_def Let_def from_json_def)
qed

text \<open>
  C20: the output of one group's session can be the input of the next group's: what is written out
  after a signature was put into the envelope is read back as exactly the envelope with that
  signature, its network included, whatever network is asked for; and the message the next group
  signs is the one the first group signed.
\<close>

theorem chained_signing:
  assumes "tx_laws E" and "bigint_laws (tx_bigint E)" and "good_envelope E e"
    and "from_address (tx_address E) (into_address (tx_address E) (into_compressed (tx_address E) grp)) = Some grp"
    and "\<forall>j. trim (json_print (tx_json E) j) = json_print (tx_json E) j"
  shows "\<exists>text. omap (json_print (tx_json E)) (ser_transaction_signature E
        (fst (new_with_zkapp_injection B A grp sg e))) = Ok text \<and>
    (\<exists>e'. from_str_network E text network = Ok e' \<and>
       e' = e\<lparr>te_kind := (case te_kind e of ZkApp tx \<Rightarrow> ZkApp (fst (inject_signature B A tx grp sg)) | k \<Rightarrow> k)\<rparr> \<and>
       to_pallas_message Z e' = to_pallas_message Z e)"
proof -
  define ts where "ts = fst (new_with_zkapp_injection B A grp sg e)"
  have "ts_public_key ts = grp" and net: "ts_payload ts = e\<lparr>te_kind :=
      (case te_kind e of ZkApp tx \<Rightarrow> ZkApp (fst (inject_signature B A tx grp sg)) | k \<Rightarrow> k)\<rparr>"
    by (simp_all add: ts_def new_with_zkapp_injection_def split: transaction_kind.split prod.split)
  with assms injected_good[OF assms(3), of B A grp sg] have "good_signature E ts"
    by (simp add: good_signature_def ts_def)
  from read_signed[OF assms(1,2) this assms(5), of network] obtain j where
    j: "ser_transaction_signature E ts = Ok j" "from_str_network E (json_print (tx_json E) j) network = Ok (ts_payload ts)" .
  then show ?thesis using net injected_message[of Z B A grp sg e]
    by (simp flip: ts_def)
qed

definition tx_demo :: "(fp list \<times> bool list, fp list) tx_env" where
  "tx_demo = \<lparr>tx_serde = serde_demo,
     tx_bigint = \<lparr>bigint_to_string = (\<lambda>b. bigint_to_bytes b),
       bigint_parse = (\<lambda>s. Some (BigInt (word_of_nat (le_value (take 8 s)), word_of_nat (le_value (take 8 (drop 8 s))),
         word_of_nat (le_value (take 8 (drop 16 s))), word_of_nat (le_value (take 8 (drop 24 s))))))\<rparr>,
     tx_json = json_demo, tx_pretty = json_print json_demo, tx_error_text = (\<lambda>_ _. [])\<rparr>"

lemma tx_demo_laws: "tx_laws tx_demo" "bigint_laws (tx_bigint tx_demo)"
proof -
  show "tx_laws tx_demo"
    using serde_demo_laws address_demo_laws json_demo_laws by (simp add: tx_laws_def tx_demo_def serde_demo_def)
  have limb: "unat (w :: u64) mod 18446744073709551616 = unat w" for w
    using unsigned_less[of w, where ?'a = nat] by simp
  have "bigint_parse (tx_bigint tx_demo) (bigint_to_string (tx_bigint tx_demo) b) = Some b" for b
    by (cases b rule: bigint_to_bytes.cases) (simp add: tx_demo_def le_value_le_bytes limb)
  then show "bigint_laws (tx_bigint tx_demo)" by (simp add: bigint_laws_def)
qed

definition demo_envelope :: transaction_envelope where
  "demo_envelope = new_zkapp Mainnet written_command"

lemma demo_envelope_good: "good_envelope tx_demo demo_envelope"
  using written_command_good
  by (simp add: good_envelope_def demo_envelope_def new_zkapp_def envelope_new_def canonical_network_def tx_demo_def)

theorem envelope_roundtrip_witness:
  "obind (envelope_serialize tx_demo demo_envelope) (envelope_deserialize tx_demo) = Ok demo_envelope"
  using envelope_roundtrip[OF tx_demo_laws(1)] demo_envelope_good by blast

theorem chained_signing_witness:
  "\<exists>text e'. omap (json_print (tx_json tx_demo)) (ser_transaction_signature tx_demo
      (fst (new_with_zkapp_injection base58_demo address_demo demo_key sig_demo demo_envelope))) = Ok text \<and>
    from_str_network tx_demo text Testnet = Ok e' \<and> te_network_id e' = Mainnet \<and>
    te_kind e' = ZkApp (fst (inject_signature base58_demo address_demo written_command demo_key sig_demo))"
proof -
  have "from_address (tx_address tx_demo) (into_address (tx_address tx_demo) (into_compressed (tx_address tx_demo) demo_key))
      = Some demo_key"
    by (simp add: tx_demo_def serde_demo_def address_demo_def demo_key_def)
  moreover have "\<forall>j. trim (json_print (tx_json tx_demo) j) = json_print (tx_json tx_demo) j"
    by (simp add: tx_demo_def json_demo_def trim_ones)
  moreover have "te_network_id demo_envelope = Mainnet" "te_kind demo_envelope = ZkApp written_command"
    by (simp_all add: demo_envelope_def new_zkapp_def envelope_new_def)
  ultimately show ?thesis
    using chained_signing[OF tx_demo_laws demo_envelope_good, of demo_key base58_demo address_demo sig_demo Testnet zk_demo]
    by fastforce
qed

section \<open>What the signed bytes determine\<close>

definition same_content :: "('r, 'sp) zk_env \<Rightarrow> zkapp_command \<Rightarrow> zkapp_command \<Rightarrow> bool" where
  "same_content Z t t' \<longleftrightarrow>
     map (\<lambda>u. (view_body Z (au_body u), call_depth (au_body u))) (account_updates t) =
       map (\<lambda>u. (view_body Z (au_body u), call_depth (au_body u))) (account_updates t') \<and>
     memo_fields Z t = memo_fields Z t' \<and>
     (let f = fpay_body (fee_payer t); g = fpay_body (fee_payer t') in
      fpb_public_key f = fpb_public_key g \<and> fpb_fee f = fpb_fee g \<and> fpb_nonce f = fpb_nonce g \<and>
      case_option (- 1) id (fpb_valid_until f) = case_option (- 1) id (fpb_valid_until g))"

fun wf_kind :: "('r, 'sp) zk_env \<Rightarrow> transaction_kind \<Rightarrow> bool" where
  "wf_kind Z (ZkApp tx) \<longleftrightarrow> wf_command Z tx \<and> length (account_updates tx) < 2 ^ 32"
| "wf_kind Z (Legacy tx) \<longleftrightarrow> legacy_wf tx"

fun kind_queries :: "('r, 'sp) zk_env \<Rightarrow> network_id \<Rightarrow> transaction_kind \<Rightarrow> (rstr \<times> fp list) set" where
  "kind_queries Z network (ZkApp tx) = commit_queries Z network tx"
| "kind_queries Z network (Legacy tx) = {}"

text \<open>
  C3: the bytes that are signed determine what is signed: two envelopes whose messages serialise to
  the same bytes are for the same network and of the same kind; legacy transactions are equal, and
  zkApp commands have the same signed content (\<open>same_content\<close>: everything their commitment covers,
  which leaves out the authorizations and leading zero bytes of a URI), as long as the hash has no
  collision among the queries of the two.
\<close>

theorem signed_bytes_bind_transaction:
  assumes "field_laws Z" and "roi_observed (zk_roi Z) fs bs" and "roi_roundtrip (zk_roi Z)"
    and "wf_kind Z (te_kind e)" and "wf_kind Z (te_kind e')"
    and "network_string (te_network_id e)" and "network_string (te_network_id e')"
    and "to_pallas_message Z e = Ok m" and "to_pallas_message Z e' = Ok m'"
    and "length (roi_serialize (zk_roi Z) (pm_input m)) < 2 ^ 32"
    and "length (roi_serialize (zk_roi Z) (pm_input m')) < 2 ^ 32"
    and "serialize (zk_roi Z) m = Ok bytes" and "serialize (zk_roi Z) m' = Ok bytes"
    and "binding Z (kind_queries Z (te_network_id e) (te_kind e) \<union> kind_queries Z (te_network_id e') (te_kind e'))"
  shows "te_network_id e = te_network_id e' \<and>
    (case (te_kind e, te_kind e') of
       (Legacy t, Legacy t') \<Rightarrow> t = t' | (ZkApp t, ZkApp t') \<Rightarrow> same_content Z t t' | _ \<Rightarrow> False)"
proof -
  have net: "pm_network_id m = te_network_id e" "pm_network_id m' = te_network_id e'"
    and leg: "pm_is_legacy m = is_legacy e" "pm_is_legacy m' = is_legacy e'"
    and input: "to_roinput Z e = Ok (pm_input m)" "to_roinput Z e' = Ok (pm_input m')"
    using assms(8,9) by (auto simp: to_pallas_message_def from_parts_def outcome_simps)
  obtain h h' where h: "network_header (pm_network_id m) = Ok h" "network_header (pm_network_id m') = Ok h'"
    using assms(12,13) by (auto simp: serialize_def Let_def outcome_simps)
  from deserialize_serialize[OF assms(3) h(1) _ assms(10)] deserialize_serialize[OF assms(3) h(2) _ assms(11)]
  have "m = m'" using assms(6,7,12,13) net by auto
  then have same: "te_network_id e = te_network_id e'" "is_legacy e = is_legacy e'" "to_roinput Z e = to_roinput Z e'"
    using net leg input by auto
  show ?thesis
  proof (cases "te_kind e")
    case (Legacy t)
    with same(2) obtain t' where t': "te_kind e' = Legacy t'" by (cases "te_kind e'") (auto simp: is_legacy_def)
    have "t = t'"
      by (rule legacy_roinput_same[OF assms(2)]) (use assms(4,5) same(3) Legacy t' in \<open>auto simp: to_roinput_def\<close>)
    with Legacy t' same(1) show ?thesis by simp
  next
    case (ZkApp t)
    with same(2) obtain t' where t': "te_kind e' = ZkApp t'" by (cases "te_kind e'") (auto simp: is_legacy_def)
    let ?n = "te_network_id e"
    obtain a c a' c' where c: "zk_commit Z t ?n = Ok (a, c)" "zk_commit Z t' ?n = Ok (a', c')"
      "roi_append_field (zk_roi Z) (roi_new (zk_roi Z)) c = roi_append_field (zk_roi Z) (roi_new (zk_roi Z)) c'"
      using input same ZkApp t' \<open>m = m'\<close>
      by (auto simp: to_roinput_def zk_to_roinput_def outcome_simps)
    from arg_cong[OF c(3), of fs] have "c = c'" using assms(2) by (simp add: roi_observed_def)
    have "same_content Z t t'" unfolding same_content_def
      by (rule zk_commit_same_content[OF assms(1) _ _ _ _ _ c(1)])
         (use assms(4,5,14) ZkApp t' same(1) c(2) \<open>c = c'\<close> in auto)
    with ZkApp t' same(1) show ?thesis by simp
  qed
qed

text \<open>An instance with a serialisation: fields in unary, each closed by a 3, then a byte for each bit.\<close>

definition write_fields :: "fp list \<Rightarrow> bytes" where
  "write_fields fs = concat (map (\<lambda>f. replicate f 2 @ [3]) fs)"

fun read_fields :: "nat \<Rightarrow> bytes \<Rightarrow> fp list \<times> bytes" where
  "read_fields n [] = ([], [])"
| "read_fields n (b # bs) =
     (if b = 2 then read_fields (Suc n) bs
      else if b = 3 then (n # fst (read_fields 0 bs), snd (read_fields 0 bs)) else ([], b # bs))"

definition roi_wire_demo :: "(fp list \<times> bool list) roinput_ext" where
  "roi_wire_demo = roi_demo
     \<lparr>roi_serialize := (\<lambda>r. write_fields (fst r) @ map (\<lambda>b. if b then 1 else 0) (snd r)),
      roi_deserialize := (\<lambda>b. Some (fst (read_fields 0 b), map (\<lambda>x. x = 1) (snd (read_fields 0 b))))\<rparr>"

lemma read_write_fields:
  "list_all (\<lambda>b. b \<noteq> 2 \<and> b \<noteq> 3) rest \<Longrightarrow> read_fields 0 (write_fields fs @ rest) = (fs, rest)"
proof (induction fs)
  case Nil then show ?case by (cases rest) (simp_all add: write_fields_def)
next
  case (Cons f fs)
  have "read_fields n (replicate k 2 @ 3 # xs) = ((n + k) # fst (read_fields 0 xs), snd (read_fields 0 xs))" for n k xs
    by (induction k arbitrary: n) simp_all
  with Cons show ?case by (simp add: write_fields_def)
qed

lemma roi_wire_demo_laws: "roi_observed roi_wire_demo fst snd" "roi_roundtrip roi_wire_demo"
proof -
  show "roi_observed roi_wire_demo fst snd" by (simp add: roi_observed_def roi_wire_demo_def roi_demo_def)
  have "list_all (\<lambda>b. b \<noteq> 2 \<and> b \<noteq> 3) (map (\<lambda>b. if b then 1 else 0 :: u8) xs)" for xs
    by (auto simp: list_all_iff)
  then show "roi_roundtrip roi_wire_demo"
    by (simp add: roi_roundtrip_def roi_wire_demo_def read_write_fields comp_def)
qed

lemma length_demo_input:
  "length (roi_serialize roi_wire_demo (legacy_to_roinput roi_wire_demo tx)) =
    sum_list (map Suc [pk_x (lt_fee_payer_pk tx), pk_x (lt_source_pk tx), pk_x (lt_receiver_pk tx)]) +
    8 * (8 + 8 + 4 + 4 + length (lt_memo tx) + 8 + 8) + 7"
proof -
  have "length (write_fields fs) = sum_list (map Suc fs)" for fs
    by (induction fs) (simp_all add: write_fields_def)
  moreover have "roi_serialize roi_wire_demo r = write_fields (fst r) @ map (\<lambda>b. if b then 1 else 0) (snd r)" for r
    by (simp add: roi_wire_demo_def)
  ultimately show ?thesis
    by (simp add: legacy_roi_observed[OF roi_wire_demo_laws(1)] length_bytes_lsb_bits)
qed

definition zk_wire_demo :: "(fp list \<times> bool list, fp list) zk_env" where
  "zk_wire_demo = zk_demo\<lparr>zk_roi := roi_wire_demo\<rparr>"

theorem signed_bytes_bind_transaction_witness:
  "\<exists>m m' wire. to_pallas_message zk_wire_demo (new_legacy Mainnet demo_payment) = Ok m \<and>
    to_pallas_message zk_wire_demo (new_legacy Mainnet (set_valid_until 5 demo_payment)) = Ok m' \<and>
    serialize roi_wire_demo m = Ok wire \<and> serialize roi_wire_demo m' \<noteq> Ok wire"
proof -
  let ?t = "demo_payment" and ?t' = "set_valid_until 5 demo_payment"
  let ?m = "\<lambda>t. from_parts (legacy_to_roinput roi_wire_demo t) Mainnet True"
  have msg: "to_pallas_message zk_wire_demo (new_legacy Mainnet t) = Ok (?m t)" for t
    by (simp add: to_pallas_message_def to_roinput_def new_legacy_def envelope_new_def is_legacy_def zk_wire_demo_def)
  have wf: "wf_kind zk_wire_demo (te_kind (new_legacy Mainnet ?t))" "wf_kind zk_wire_demo (te_kind (new_legacy Mainnet ?t'))"
    by (simp_all add: new_legacy_def envelope_new_def legacy_wf_def demo_payment_def new_payment_def set_valid_until_def)
  have laws: "field_laws zk_wire_demo" "roi_observed (zk_roi zk_wire_demo) fst snd" "roi_roundtrip (zk_roi zk_wire_demo)"
    using roi_wire_demo_laws zk_demo_field by (simp_all add: zk_wire_demo_def field_laws_def)
  have net: "network_string (te_network_id (new_legacy Mainnet t))" for t
    by (simp add: new_legacy_def envelope_new_def)
  have len: "length (roi_serialize (zk_roi zk_wire_demo) (pm_input (?m t))) < 2 ^ 32" if "t \<in> {?t, ?t'}" for t
    using that
    by (auto simp: zk_wire_demo_def from_parts_def length_demo_input demo_payment_def new_payment_def
        set_valid_until_def address_demo_def demo_key_def MEMO_BYTES_def)
  obtain wire where wire: "serialize roi_wire_demo (?m ?t) = Ok wire"
    using deserialize_serialize[OF laws(3), of "?m ?t" "[1]"] len[of ?t] by (auto simp: from_parts_def zk_wire_demo_def)
  have "?t \<noteq> ?t'" by (simp add: demo_payment_def new_payment_def set_valid_until_def)
  moreover have "binding zk_wire_demo {}" by (auto simp: binding_def collision_free_def)
  ultimately have "serialize roi_wire_demo (?m ?t') \<noteq> Ok wire"
    using signed_bytes_bind_transaction[OF laws wf net net msg msg len len, of wire] wire
    by (auto simp: zk_wire_demo_def new_legacy_def envelope_new_def)
  with msg wire show ?thesis by blast
qed

end
