(* ===== verification/Signing_Payload.thy ===== *)
theory Signing_Payload
  imports Comms Transactions
begin

text \<open>
  What the coordinator and the participants share about the payload of a signing session: a FROST
  signing package, a parameter of the model, carries the serialised transaction envelope, and both
  sides sign the bytes of its Pallas message (\<^verbatim>\<open>coordinator/coordinate_signing.rs\<close> and
  \<^verbatim>\<open>participant/sign.rs\<close> of \<^verbatim>\<open>mina-frost-client\<close>).
\<close>

record ('id, 'c, 'sp) frost_package =
  package_new :: "('id, 'c) fmap \<Rightarrow> bytes \<Rightarrow> 'sp"
  package_message :: "'sp \<Rightarrow> bytes"
  package_commitments :: "'sp \<Rightarrow> ('id, 'c) fmap"

fun payload_report :: "('r, 'rs) tx_env \<Rightarrow> bytes \<Rightarrow> payload_error \<Rightarrow> 'se comms_error" where
  "payload_report X payload (NotAnEnvelope e) = Report (tx_error_text X payload e)"
| "payload_report X payload (NotSerializable e) = Report (display_mina_tx_error e)"

definition signing_bytes_step :: "('r, 'rs) tx_env \<Rightarrow> bytes \<Rightarrow> ('t, 'se comms_error, bytes) io" where
  "signing_bytes_step X payload = io_pure (map_err (payload_report X payload) (signing_bytes X payload))"

text \<open>The payload of the demonstration runs.\<close>

definition demo_payload :: bytes where
  "demo_payload = the_ok (envelope_serialize tx_demo (new_legacy Mainnet demo_delegation))"

lemma demo_envelope_legacy: "good_envelope tx_demo (new_legacy Mainnet demo_delegation)"
  using demo_delegation_normal
  by (simp add: good_envelope_def new_legacy_def envelope_new_def canonical_network_def tx_demo_def serde_demo_def)

lemma demo_deserialize: "envelope_deserialize tx_demo demo_payload = Ok (new_legacy Mainnet demo_delegation)"
proof -
  let ?e = "new_legacy Mainnet demo_delegation"
  from envelope_back[OF tx_demo_laws(1) demo_envelope_legacy] show ?thesis
    by (cases "envelope_serialize tx_demo ?e") (auto simp: demo_payload_def)
qed

lemma demo_wire: "\<exists>wire. signing_bytes tx_demo demo_payload = Ok wire"
  using demo_deserialize
  by (simp add: signing_bytes_def to_pallas_message_def to_roinput_def new_legacy_def envelope_new_def is_legacy_def
      serialize_def from_parts_def Let_def)

lemma demo_display: "\<exists>shown. display_envelope tx_demo debug (new_legacy Mainnet demo_delegation) = Ok shown"
proof -
  have "\<exists>j. ser_envelope tx_demo (new_legacy Mainnet demo_delegation) = Ok j"
    using envelope_codec[OF tx_demo_laws(1)] demo_envelope_legacy unfolding codec_def by blast
  then show ?thesis by (auto simp: display_envelope_def json_display_def)
qed

end
