(* ===== verification/Coordinator_Session.thy ===== *)
theory Coordinator_Session
  imports Collector
begin

text \<open>
  The coordinator's side of a signing session: \<open>CoordinatorSessionState\<close> of
  \<^verbatim>\<open>mina-frost-client/src/session.rs\<close>. Keys, identifiers, commitments and shares are
  abstract types; decoding a message body (\<open>serde_json::from_slice\<close>) is a pair of functions.
  A handler returns the new state and its result, and a \<open>panic!\<close> is the result \<open>Panic\<close>.
\<close>

section \<open>States\<close>

record coord_args =
  num_messages :: nat
  num_signers :: nat

datatype ('pk, 'id, 'c, 's) coordinator_state =
    WaitingForCommitments coord_args "('id, 'c list) hash_map" "('pk, 'id) hash_map"
  | WaitingForSignatureShares coord_args "('id, 'c list) hash_map" "('pk, 'id) hash_map"
      "('id, 's list) hash_map"
  | SignatureSharesReady coord_args "('id, 's list) hash_map"

record ('c, 's) coord_codec =
  decode_commitments :: "bytes \<Rightarrow> 'c list option"
  decode_shares :: "bytes \<Rightarrow> 's list option"

definition coordinator_new :: "nat \<Rightarrow> nat \<Rightarrow> ('pk, 'id) hash_map \<Rightarrow> ('pk, 'id, 'c, 's) coordinator_state" where
  "coordinator_new messages signers pubkeys =
     WaitingForCommitments \<lparr>num_messages = messages, num_signers = signers\<rparr> fmempty pubkeys"

section \<open>Handlers\<close>

fun handle_commitments ::
  "('pk, 'id, 'c, 's) coordinator_state \<Rightarrow> 'pk \<Rightarrow> 'c list \<Rightarrow>
    ('pk, 'id, 'c, 's) coordinator_state \<times> (session_error, unit) outcome" where
  "handle_commitments (WaitingForCommitments args commitments_map pubkeys) pubkey commitments =
     (let st = WaitingForCommitments args commitments_map pubkeys in
      if length commitments \<noteq> num_messages args
      then (st, Err (Eyre (lit ''wrong number of commitments'')))
      else case fmlookup pubkeys pubkey of
        None \<Rightarrow> (st, Err (Eyre (lit ''unknown participant'')))
      | Some identifier \<Rightarrow>
          (let commitments_map = fmupd identifier commitments commitments_map in
           if map_len commitments_map = num_signers args
           then (WaitingForSignatureShares args commitments_map pubkeys fmempty, Ok ())
           else (WaitingForCommitments args commitments_map pubkeys, Ok ())))"
| "handle_commitments st pubkey commitments = (st, Panic)"

fun handle_signature_share ::
  "('pk, 'id, 'c, 's) coordinator_state \<Rightarrow> 'pk \<Rightarrow> 's list \<Rightarrow>
    ('pk, 'id, 'c, 's) coordinator_state \<times> (session_error, unit) outcome" where
  "handle_signature_share (WaitingForSignatureShares args commitments pubkeys shares_map) pubkey signature_shares =
     (let st = WaitingForSignatureShares args commitments pubkeys shares_map in
      if length signature_shares \<noteq> num_messages args
      then (st, Err (Eyre (lit ''wrong number of signature shares'')))
      else case fmlookup pubkeys pubkey of
        None \<Rightarrow> (st, Err (Eyre (lit ''unknown participant'')))
      | Some identifier \<Rightarrow>
          if identifier |\<notin>| fmdom commitments then (st, Err (Eyre (lit ''invalid identifier'')))
          else (let shares_map = fmupd identifier signature_shares shares_map in
                if fmdom shares_map = fmdom commitments
                then (SignatureSharesReady args shares_map, Ok ())
                else (WaitingForSignatureShares args commitments pubkeys shares_map, Ok ())))"
| "handle_signature_share st pubkey signature_shares = (st, Panic)"

fun coord_recv ::
  "('c, 's) coord_codec \<Rightarrow> ('pk, 'id, 'c, 's) coordinator_state \<Rightarrow> 'pk msg \<Rightarrow>
    ('pk, 'id, 'c, 's) coordinator_state \<times> (session_error, unit) outcome" where
  "coord_recv C (WaitingForCommitments args commitments pubkeys) msg =
     (case decode_commitments C (msg_bytes msg) of
        None \<Rightarrow> (WaitingForCommitments args commitments pubkeys, Err Serde)
      | Some cs \<Rightarrow> handle_commitments (WaitingForCommitments args commitments pubkeys) (msg_sender msg) cs)"
| "coord_recv C (WaitingForSignatureShares args commitments pubkeys shares) msg =
     (case decode_shares C (msg_bytes msg) of
        None \<Rightarrow> (WaitingForSignatureShares args commitments pubkeys shares, Err Serde)
      | Some ss \<Rightarrow>
          handle_signature_share (WaitingForSignatureShares args commitments pubkeys shares) (msg_sender msg) ss)"
| "coord_recv C (SignatureSharesReady args shares) msg =
     (SignatureSharesReady args shares, Err (Eyre (lit ''received message during wrong state'')))"

fun has_commitments :: "('pk, 'id, 'c, 's) coordinator_state \<Rightarrow> bool" where
  "has_commitments (WaitingForSignatureShares _ _ _ _) = True"
| "has_commitments _ = False"

fun has_signature_shares :: "('pk, 'id, 'c, 's) coordinator_state \<Rightarrow> bool" where
  "has_signature_shares (SignatureSharesReady _ _) = True"
| "has_signature_shares _ = False"

text \<open>One map per message; \<open>c[i]\<close> panics when an entry is too short.\<close>

definition column :: "nat \<Rightarrow> ('id, 'a list) hash_map \<Rightarrow> (session_error, ('id, 'a) fmap) outcome" where
  "column i m = (if fmpred (\<lambda>_ xs. i < length xs) m then Ok (fmmap (\<lambda>xs. xs ! i) m) else Panic)"

definition columns :: "nat \<Rightarrow> ('id, 'a list) hash_map \<Rightarrow> (session_error, ('id, 'a) fmap list) outcome" where
  "columns n m = omap_list (\<lambda>i. column i m) [0..<n]"

fun session_commitments ::
  "('pk, 'id, 'c, 's) coordinator_state \<Rightarrow>
    (session_error, ('id, 'c) fmap list \<times> ('pk, 'id) hash_map) outcome" where
  "session_commitments (WaitingForSignatureShares args commitments pubkeys _) =
     obind (columns (num_messages args) commitments) (\<lambda>cs. Ok (cs, pubkeys))"
| "session_commitments _ = Panic"

fun session_signature_shares ::
  "('pk, 'id, 'c, 's) coordinator_state \<Rightarrow> (session_error, ('id, 's) fmap list) outcome" where
  "session_signature_shares (SignatureSharesReady args shares) = columns (num_messages args) shares"
| "session_signature_shares _ = Panic"

section \<open>Runs\<close>

abbreviation coord_step :: "('c, 's) coord_codec \<Rightarrow> ('pk, 'id, 'c, 's) coordinator_state \<Rightarrow> 'pk msg \<Rightarrow>
    ('pk, 'id, 'c, 's) coordinator_state" where
  "coord_step C st msg \<equiv> fst (coord_recv C st msg)"

abbreviation coord_run :: "('c, 's) coord_codec \<Rightarrow> ('pk, 'id, 'c, 's) coordinator_state \<Rightarrow> 'pk msg list \<Rightarrow>
    ('pk, 'id, 'c, 's) coordinator_state" where
  "coord_run C st msgs \<equiv> foldl (coord_step C) st msgs"

text \<open>The acceptable messages of the two rounds.\<close>

definition accept_commitments ::
  "('c, 's) coord_codec \<Rightarrow> coord_args \<Rightarrow> ('pk, 'id) hash_map \<Rightarrow> 'pk msg \<Rightarrow> ('id \<times> 'c list) option" where
  "accept_commitments C args pubkeys msg =
     (case (decode_commitments C (msg_bytes msg), fmlookup pubkeys (msg_sender msg)) of
        (Some cs, Some i) \<Rightarrow> if length cs = num_messages args then Some (i, cs) else None
      | _ \<Rightarrow> None)"

definition accept_shares ::
  "('c, 's) coord_codec \<Rightarrow> coord_args \<Rightarrow> ('pk, 'id) hash_map \<Rightarrow> 'id fset \<Rightarrow> 'pk msg \<Rightarrow> ('id \<times> 's list) option" where
  "accept_shares C args pubkeys signers msg =
     (case (decode_shares C (msg_bytes msg), fmlookup pubkeys (msg_sender msg)) of
        (Some ss, Some i) \<Rightarrow> if length ss = num_messages args \<and> i |\<in>| signers then Some (i, ss) else None
      | _ \<Rightarrow> None)"

fun commitment_phase :: "coord_args \<Rightarrow> ('pk, 'id) hash_map \<Rightarrow> ('pk, 'id, 'c, 's) coordinator_state \<Rightarrow>
    ('id, 'c list) fmap option" where
  "commitment_phase args pubkeys (WaitingForCommitments a cs p) = (if a = args \<and> p = pubkeys then Some cs else None)"
| "commitment_phase args pubkeys _ = None"

fun commitments_done :: "coord_args \<Rightarrow> ('pk, 'id) hash_map \<Rightarrow> ('pk, 'id, 'c, 's) coordinator_state \<Rightarrow>
    ('id, 'c list) fmap option" where
  "commitments_done args pubkeys (WaitingForSignatureShares a cs p ss) =
     (if a = args \<and> p = pubkeys \<and> ss = fmempty then Some cs else None)"
| "commitments_done args pubkeys _ = None"

fun share_phase :: "coord_args \<Rightarrow> ('pk, 'id) hash_map \<Rightarrow> ('id, 'c list) fmap \<Rightarrow>
    ('pk, 'id, 'c, 's) coordinator_state \<Rightarrow> ('id, 's list) fmap option" where
  "share_phase args pubkeys commitments (WaitingForSignatureShares a cs p ss) =
     (if a = args \<and> p = pubkeys \<and> cs = commitments then Some ss else None)"
| "share_phase args pubkeys commitments _ = None"

fun shares_done :: "coord_args \<Rightarrow> ('pk, 'id, 'c, 's) coordinator_state \<Rightarrow> ('id, 's list) fmap option" where
  "shares_done args (SignatureSharesReady a ss) = (if a = args then Some ss else None)"
| "shares_done args _ = None"

interpretation commit_round: collecting_phase "coord_step C" "commitment_phase args pubkeys"
  "commitments_done args pubkeys" "accept_commitments C args pubkeys" "\<lambda>m. map_len m = num_signers args"
  for C args pubkeys
proof unfold_locales
  fix s :: "('a, 'b, 'c, 'd) coordinator_state" and m msg
  assume phase: "commitment_phase args pubkeys s = Some m"
  then have s: "s = WaitingForCommitments args m pubkeys"
    by (cases s) (auto split: if_splits)
  show "accept_commitments C args pubkeys msg = None \<Longrightarrow>
      commitment_phase args pubkeys (coord_step C s msg) = Some m"
    by (auto simp: s accept_commitments_def Let_def split: option.splits if_splits)
  show "accept_commitments C args pubkeys msg = Some (i, v) \<Longrightarrow> map_len (fmupd i v m) \<noteq> num_signers args \<Longrightarrow>
      commitment_phase args pubkeys (coord_step C s msg) = Some (fmupd i v m)" for i v
    by (auto simp: s accept_commitments_def Let_def split: option.splits if_splits)
  show "accept_commitments C args pubkeys msg = Some (i, v) \<Longrightarrow> map_len (fmupd i v m) = num_signers args \<Longrightarrow>
      commitments_done args pubkeys (coord_step C s msg) = Some (fmupd i v m)" for i v
    by (auto simp: s accept_commitments_def Let_def split: option.splits if_splits)
qed

interpretation share_round: collecting_phase "coord_step C" "share_phase args pubkeys commitments"
  "shares_done args" "accept_shares C args pubkeys (fmdom commitments)" "\<lambda>m. fmdom m = fmdom commitments"
  for C args pubkeys commitments
proof unfold_locales
  fix s :: "('a, 'b, 'c, 'd) coordinator_state" and m msg
  assume phase: "share_phase args pubkeys commitments s = Some m"
  then have s: "s = WaitingForSignatureShares args commitments pubkeys m"
    by (cases s) (auto split: if_splits)
  show "accept_shares C args pubkeys (fmdom commitments) msg = None \<Longrightarrow>
      share_phase args pubkeys commitments (coord_step C s msg) = Some m"
    by (auto simp: s accept_shares_def Let_def split: option.splits if_splits)
  show "accept_shares C args pubkeys (fmdom commitments) msg = Some (i, v) \<Longrightarrow>
      fmdom (fmupd i v m) \<noteq> fmdom commitments \<Longrightarrow>
      share_phase args pubkeys commitments (coord_step C s msg) = Some (fmupd i v m)" for i v
    by (auto simp: s accept_shares_def Let_def split: option.splits if_splits)
  show "accept_shares C args pubkeys (fmdom commitments) msg = Some (i, v) \<Longrightarrow>
      fmdom (fmupd i v m) = fmdom commitments \<Longrightarrow>
      shares_done args (coord_step C s msg) = Some (fmupd i v m)" for i v
    by (auto simp: s accept_shares_def Let_def split: option.splits if_splits)
qed

section \<open>What a session computes\<close>

lemma coord_recv_no_panic: "snd (coord_recv C st msg) \<noteq> Panic"
  by (cases st) (auto simp: Let_def split: option.splits if_splits)

lemma ready_stays: "coord_run C (SignatureSharesReady args ss) msgs = SignatureSharesReady args ss"
  by (induction msgs) simp_all

text \<open>The whole run, by the two phases.\<close>

lemma commitments_doneD:
  "commitments_done args pubkeys s = Some m \<Longrightarrow> s = WaitingForSignatureShares args m pubkeys fmempty"
  by (cases s) (auto split: if_splits)

lemma shares_doneD: "shares_done args s = Some m \<Longrightarrow> s = SignatureSharesReady args m"
  by (cases s) (auto split: if_splits)

lemma share_phaseD:
  "share_phase args pubkeys cs s = Some m \<Longrightarrow> s = WaitingForSignatureShares args cs pubkeys m"
  by (cases s) (auto split: if_splits)

lemma commitment_phaseD:
  "commitment_phase args pubkeys s = Some m \<Longrightarrow> s = WaitingForCommitments args m pubkeys"
  by (cases s) (auto split: if_splits)

abbreviation collected_commitments where
  "collected_commitments C args pubkeys msgs \<equiv> add_entries (accept_commitments C args pubkeys) fmempty msgs"

abbreviation collected_shares where
  "collected_shares C args pubkeys signers msgs \<equiv>
     add_entries (accept_shares C args pubkeys signers) fmempty msgs"

lemma coord_run_cases:
  fixes C :: "('c, 's) coord_codec" and pubkeys :: "('pk, 'id) hash_map"
  assumes "args = \<lparr>num_messages = n, num_signers = k\<rparr>"
  obtains (committing) "coord_run C (coordinator_new n k pubkeys) msgs =
      WaitingForCommitments args (collected_commitments C args pubkeys msgs) pubkeys"
    and "\<And>xs y ys. msgs = xs @ y # ys \<Longrightarrow>
      \<not> finishing (accept_commitments C args pubkeys) (\<lambda>m. map_len m = k) (collected_commitments C args pubkeys xs) y"
  | (sharing) xs ys cs where "msgs = xs @ ys" and "cs = collected_commitments C args pubkeys xs"
      and "map_len cs = k"
      and "coord_run C (coordinator_new n k pubkeys) msgs =
        WaitingForSignatureShares args cs pubkeys (collected_shares C args pubkeys (fmdom cs) ys)"
      and "\<And>us v vs. ys = us @ v # vs \<Longrightarrow>
        \<not> finishing (accept_shares C args pubkeys (fmdom cs)) (\<lambda>m. fmdom m = fmdom cs) (collected_shares C args pubkeys (fmdom cs) us) v"
  | (ready) xs ys zs cs where "msgs = xs @ ys @ zs" and "cs = collected_commitments C args pubkeys xs"
      and "map_len cs = k" and "fmdom (collected_shares C args pubkeys (fmdom cs) ys) = fmdom cs"
      and "coord_run C (coordinator_new n k pubkeys) msgs =
        SignatureSharesReady args (collected_shares C args pubkeys (fmdom cs) ys)"
proof -
  let ?new = "coordinator_new n k pubkeys :: ('pk, 'id, 'c, 's) coordinator_state"
  have signers: "num_signers args = k" by (simp add: assms)
  have "commitment_phase args pubkeys ?new = Some fmempty"
    by (simp add: coordinator_new_def assms)
  then show ?thesis
  proof (cases rule: commit_round.phase_run[where C = C and msgs = msgs])
    case waiting
    show ?thesis
      by (rule committing[OF commitment_phaseD[OF waiting(2)] waiting(1)[unfolded signers]])
  next
    case (left xs y ys)
    define cs where "cs = collected_commitments C args pubkeys (xs @ [y])"
    have st: "coord_run C ?new (xs @ [y]) = WaitingForSignatureShares args cs pubkeys fmempty"
      using left(4) commitments_doneD unfolding cs_def by blast
    have k: "map_len cs = k" using left(3) by (auto simp: cs_def finishing_def assms)
    have msgs: "msgs = (xs @ [y]) @ ys" using left(1) by simp
    let ?mid = "WaitingForSignatureShares args cs pubkeys fmempty :: ('pk, 'id, 'c, 's) coordinator_state"
    have run: "coord_run C ?new msgs = coord_run C ?mid ys" using st by (simp add: msgs)
    have "share_phase args pubkeys cs ?mid = Some fmempty" by simp
    then show ?thesis
    proof (cases rule: share_round.phase_run[where C = C and msgs = ys])
      case waiting
      have "coord_run C ?new msgs =
          WaitingForSignatureShares args cs pubkeys (collected_shares C args pubkeys (fmdom cs) ys)"
        unfolding run by (rule share_phaseD[OF waiting(2)])
      then show ?thesis by (rule sharing[OF msgs cs_def k _ waiting(1)])
    next
      case l2: (left us v vs)
      let ?ss = "collected_shares C args pubkeys (fmdom cs) (us @ [v])"
      have "coord_run C ?mid ys = SignatureSharesReady args ?ss"
        using shares_doneD[OF l2(4)] ready_stays by (simp add: l2(1))
      moreover have "fmdom ?ss = fmdom cs" using l2(3) by (simp add: finishing_def)
      ultimately show ?thesis
        using ready[of "xs @ [y]" "us @ [v]" vs cs] run k l2(1) msgs by (simp add: cs_def)
    qed
  qed
qed

lemma columns_Ok:
  assumes "\<And>i xs. fmlookup m i = Some xs \<Longrightarrow> length xs = n"
  shows "columns n m = Ok (map (\<lambda>i. fmmap (\<lambda>xs. xs ! i) m) [0..<n])"
  unfolding columns_def
  by (rule omap_list_all_Ok) (auto simp: column_def assms intro!: fmpredI)

lemma accept_commitments_Some:
  "accept_commitments C args pubkeys msg = Some (i, cs) \<longleftrightarrow>
    fmlookup pubkeys (msg_sender msg) = Some i \<and> decode_commitments C (msg_bytes msg) = Some cs \<and>
    length cs = num_messages args"
  by (auto simp: accept_commitments_def split: option.splits)

lemma accept_shares_Some:
  "accept_shares C args pubkeys signers msg = Some (i, ss) \<longleftrightarrow>
    fmlookup pubkeys (msg_sender msg) = Some i \<and> decode_shares C (msg_bytes msg) = Some ss \<and>
    length ss = num_messages args \<and> i |\<in>| signers"
  by (auto simp: accept_shares_def split: option.splits)

lemma collected_source:
  "fmlookup (add_entries accept fmempty msgs) i = Some v \<Longrightarrow> \<exists>msg \<in> set msgs. accept msg = Some (i, v)"
  using add_entries_source[of accept fmempty msgs i v] by simp

text \<open>
  When the coordinator has all commitments, fetching them does not panic and yields one map
  per message, all with the same \<open>num_signers\<close> participants, in which each participant's entry
  is the one it sent last, in an authenticated message with one commitment per message.
\<close>

theorem commitments_from_signers:
  assumes "has_commitments (coord_run C (coordinator_new n k pubkeys) msgs)"
  shows "\<exists>xs ys cols signers. msgs = xs @ ys \<and>
    session_commitments (coord_run C (coordinator_new n k pubkeys) msgs) = Ok (cols, pubkeys) \<and>
    length cols = n \<and> fcard signers = k \<and>
    (\<forall>i < n. fmdom (cols ! i) = signers \<and> (\<forall>id c. fmlookup (cols ! i) id = Some c \<longrightarrow>
       (\<exists>msg \<in> set xs. \<exists>cs. fmlookup pubkeys (msg_sender msg) = Some id \<and>
          decode_commitments C (msg_bytes msg) = Some cs \<and> length cs = n \<and> c = cs ! i \<and>
          cs = last (values_for (accept_commitments C \<lparr>num_messages = n, num_signers = k\<rparr> pubkeys) id xs))))"
proof (cases rule: coord_run_cases[OF refl, of C n k pubkeys msgs, case_names committing sharing ready])
  case (sharing xs ys cs)
  let ?a = "accept_commitments C \<lparr>num_messages = n, num_signers = k\<rparr> pubkeys"
  have len: "length l = n" if "fmlookup cs i = Some l" for i l
    using collected_source[OF that[unfolded sharing(2)]] by (auto simp: accept_commitments_Some)
  let ?cols = "map (\<lambda>i. fmmap (\<lambda>xs. xs ! i) cs) [0..<n]"
  have "session_commitments (coord_run C (coordinator_new n k pubkeys) msgs) = Ok (?cols, pubkeys)"
    using columns_Ok[of cs n, OF len] sharing(4) by simp
  moreover have "\<exists>msg \<in> set xs. \<exists>l. fmlookup pubkeys (msg_sender msg) = Some id \<and>
          decode_commitments C (msg_bytes msg) = Some l \<and> length l = n \<and> c = l ! i \<and>
          l = last (values_for ?a id xs)"
    if i: "i < n" and c: "fmlookup (?cols ! i) id = Some c" for i id c
  proof -
    obtain l where l: "fmlookup cs id = Some l" "c = l ! i" using i c by auto
    then have "l = last (values_for ?a id xs)"
      unfolding sharing(2) by (auto simp: add_entries_lookup split: if_splits)
    then show ?thesis
      using l(2) collected_source[OF l(1)[unfolded sharing(2)]] by (fastforce simp: accept_commitments_Some)
  qed
  ultimately show ?thesis using sharing(1,3) by (intro exI[of _ xs] exI[of _ ys] exI[of _ ?cols] exI[of _ "fmdom cs"]) auto
qed (use assms in simp_all)

text \<open>
  When the signature shares are ready, they come from exactly the \<open>num_signers\<close>
  participants whose commitments completed the first round: one map per message, each entry
  decoded from a message that participant sent after the first round.
\<close>

theorem shares_from_committed_signers:
  assumes "has_signature_shares (coord_run C (coordinator_new n k pubkeys) msgs)"
  shows "\<exists>xs ys zs cols signers. msgs = xs @ ys @ zs \<and>
    session_signature_shares (coord_run C (coordinator_new n k pubkeys) msgs) = Ok cols \<and>
    length cols = n \<and> fcard signers = k \<and>
    (\<forall>id. id |\<in>| signers \<longleftrightarrow> (\<exists>msg \<in> set xs. \<exists>cs. fmlookup pubkeys (msg_sender msg) = Some id \<and>
       decode_commitments C (msg_bytes msg) = Some cs \<and> length cs = n)) \<and>
    (\<forall>i < n. fmdom (cols ! i) = signers \<and> (\<forall>id s. fmlookup (cols ! i) id = Some s \<longrightarrow>
       (\<exists>msg \<in> set ys. \<exists>ss. fmlookup pubkeys (msg_sender msg) = Some id \<and>
          decode_shares C (msg_bytes msg) = Some ss \<and> length ss = n \<and> s = ss ! i)))"
proof (cases rule: coord_run_cases[OF refl, of C n k pubkeys msgs, case_names committing sharing ready])
  case (ready xs ys zs cs)
  let ?args = "\<lparr>num_messages = n, num_signers = k\<rparr>"
  define shares where "shares = collected_shares C ?args pubkeys (fmdom cs) ys"
  have src: "\<exists>msg \<in> set ys. fmlookup pubkeys (msg_sender msg) = Some id \<and>
      decode_shares C (msg_bytes msg) = Some l \<and> length l = n" if "fmlookup shares id = Some l" for id l
    using collected_source[OF that[unfolded shares_def]] by (fastforce simp: accept_shares_Some)
  let ?cols = "map (\<lambda>i. fmmap (\<lambda>xs. xs ! i) shares) [0..<n]"
  have "columns n shares = Ok ?cols" by (rule columns_Ok) (use src in blast)
  then have "session_signature_shares (coord_run C (coordinator_new n k pubkeys) msgs) = Ok ?cols"
    using ready(5) by (simp add: shares_def)
  moreover have "fmdom shares = fmdom cs" using ready(4) by (simp add: shares_def)
  moreover have "id |\<in>| fmdom cs \<longleftrightarrow> (\<exists>msg \<in> set xs. \<exists>l. fmlookup pubkeys (msg_sender msg) = Some id \<and>
       decode_commitments C (msg_bytes msg) = Some l \<and> length l = n)" for id
    unfolding ready(2) fmember_add_entries by (auto simp: accept_commitments_Some)
  moreover have "\<exists>msg \<in> set ys. \<exists>l. fmlookup pubkeys (msg_sender msg) = Some id \<and>
          decode_shares C (msg_bytes msg) = Some l \<and> length l = n \<and> s = l ! i"
    if "i < n" "fmlookup (?cols ! i) id = Some s" for i id s
    using that src by fastforce
  ultimately show ?thesis
    using ready(1,3) by (intro exI[of _ xs] exI[of _ ys] exI[of _ zs] exI[of _ ?cols] exI[of _ "fmdom cs"]) auto
qed (use assms in simp_all)

text \<open>
  No message can hold a session up. Once \<open>num_signers\<close> (at least one) participants have
  each sent acceptable commitments, the first round is over, whatever else arrived in between.
\<close>

theorem enough_commitments_advance:
  assumes "0 < k" and "k \<le> fcard ids"
    and "\<forall>id. id |\<in>| ids \<longrightarrow> (\<exists>msg \<in> set msgs. \<exists>cs. fmlookup pubkeys (msg_sender msg) = Some id \<and>
           decode_commitments C (msg_bytes msg) = Some cs \<and> length cs = n)"
  shows "let st = coord_run C (coordinator_new n k pubkeys) msgs in
    has_commitments st \<or> has_signature_shares st"
proof (cases rule: coord_run_cases[OF refl, of C n k pubkeys msgs, case_names committing sharing ready])
  case committing
  let ?args = "\<lparr>num_messages = n, num_signers = k\<rparr>"
  have "ids |\<subseteq>| fmdom (collected_commitments C ?args pubkeys msgs)"
  proof
    fix id assume "id |\<in>| ids"
    then show "id |\<in>| fmdom (collected_commitments C ?args pubkeys msgs)"
      using assms(3) by (fastforce simp: fmember_add_entries accept_commitments_Some)
  qed
  then have "k \<le> fcard (fmdom (collected_commitments C ?args pubkeys msgs))"
    using assms(2) fcard_mono by (metis le_trans)
  then show ?thesis
    using card_reached[of fmempty k "accept_commitments C ?args pubkeys" msgs] committing(2) assms(1)
    by (simp only: map_len_empty) blast
qed simp_all

text \<open>
  The same for the second round: once every committed signer has sent acceptable shares,
  the shares are ready.
\<close>

theorem all_shares_advance:
  assumes "st = WaitingForSignatureShares args cs pubkeys fmempty" and "cs \<noteq> fmempty"
    and "\<forall>id. id |\<in>| fmdom cs \<longrightarrow> (\<exists>msg \<in> set msgs. \<exists>ss. fmlookup pubkeys (msg_sender msg) = Some id \<and>
           decode_shares C (msg_bytes msg) = Some ss \<and> length ss = num_messages args)"
  shows "has_signature_shares (coord_run C st msgs)"
proof -
  let ?a = "accept_shares C args pubkeys (fmdom cs)"
  have phase: "share_phase args pubkeys cs st = Some fmempty" by (simp add: assms(1))
  have "fmdom cs |\<subseteq>| fmdom (add_entries ?a fmempty msgs)"
  proof
    fix id assume "id |\<in>| fmdom cs"
    then show "id |\<in>| fmdom (add_entries ?a fmempty msgs)"
      using assms(3) by (fastforce simp: fmember_add_entries accept_shares_Some)
  qed
  moreover have "fmdom fmempty |\<subset>| fmdom cs"
    using assms(2) by (rule fmdom_psubset)
  ultimately obtain xs y ys where
    fin: "msgs = xs @ y # ys" "finishing ?a (\<lambda>m. fmdom m = fmdom cs) (add_entries ?a fmempty xs) y"
    using dom_reached[of fmempty "fmdom cs" ?a msgs] by (auto simp: accept_shares_Some)
  obtain xs' y' ys' where msgs: "msgs = xs' @ y' # ys'"
    and "shares_done args (coord_run C st (xs' @ [y'])) = Some (add_entries ?a fmempty (xs' @ [y']))"
    using share_round.phase_leaves[OF phase fin] by blast
  then have "coord_run C st (xs' @ [y']) = SignatureSharesReady args (add_entries ?a fmempty (xs' @ [y']))"
    by (metis shares_doneD)
  then have "coord_run C st msgs = SignatureSharesReady args (add_entries ?a fmempty (xs' @ [y']))"
    using ready_stays by (simp add: msgs)
  then show ?thesis by simp
qed

section \<open>A session of two signers and one message\<close>

definition demo_codec :: "(nat, nat) coord_codec" where
  "demo_codec = \<lparr>decode_commitments = (\<lambda>bs. Some (map unat bs)), decode_shares = (\<lambda>bs. Some (map unat bs))\<rparr>"

definition demo_pubkeys :: "(nat, nat) hash_map" where
  "demo_pubkeys = fmupd 1 10 (fmupd 2 20 fmempty)"

definition demo_commits :: "nat msg list" where
  "demo_commits = [\<lparr>msg_sender = 1, msg_bytes = [5]\<rparr>, \<lparr>msg_sender = 9, msg_bytes = [4]\<rparr>,
     \<lparr>msg_sender = 2, msg_bytes = [6]\<rparr>]"

definition demo_shares :: "nat msg list" where
  "demo_shares = [\<lparr>msg_sender = 1, msg_bytes = [7]\<rparr>, \<lparr>msg_sender = 2, msg_bytes = [8]\<rparr>]"

definition demo_commitment_map :: "(nat, nat list) hash_map" where
  "demo_commitment_map = fmupd 20 [6] (fmupd 10 [5] fmempty)"

lemmas demo_defs = demo_codec_def demo_pubkeys_def demo_commits_def demo_shares_def
  demo_commitment_map_def coordinator_new_def fcard.rep_eq

lemma demo_committed: "coord_run demo_codec (coordinator_new 1 2 demo_pubkeys) demo_commits =
    WaitingForSignatureShares \<lparr>num_messages = 1, num_signers = 2\<rparr> demo_commitment_map demo_pubkeys fmempty"
  by (simp add: demo_defs)

lemma demo_ready: "has_signature_shares
    (coord_run demo_codec (coordinator_new 1 2 demo_pubkeys) (demo_commits @ demo_shares))"
  by (simp only: foldl_append demo_committed) (simp add: demo_defs)

lemma commitments_from_signers_witness:
  "\<exists>cols. session_commitments (coord_run demo_codec (coordinator_new 1 2 demo_pubkeys) demo_commits) =
     Ok (cols, demo_pubkeys) \<and> length cols = 1"
proof -
  have "has_commitments (coord_run demo_codec (coordinator_new 1 2 demo_pubkeys) demo_commits)"
    unfolding demo_committed by simp
  from commitments_from_signers[OF this] show ?thesis by blast
qed

lemma shares_from_committed_signers_witness:
  "\<exists>cols. session_signature_shares
     (coord_run demo_codec (coordinator_new 1 2 demo_pubkeys) (demo_commits @ demo_shares)) = Ok cols \<and>
   length cols = 1"
  using shares_from_committed_signers[OF demo_ready] by blast

lemma enough_commitments_advance_witness:
  "let st = coord_run demo_codec (coordinator_new 1 2 demo_pubkeys) demo_commits in
    has_commitments st \<or> has_signature_shares st"
  by (rule enough_commitments_advance[where ids = "{|10, 20|}"])
    (auto simp: demo_defs)

lemma all_shares_advance_witness:
  "has_signature_shares (coord_run demo_codec (WaitingForSignatureShares
     \<lparr>num_messages = 1, num_signers = 2\<rparr> demo_commitment_map demo_pubkeys fmempty) demo_shares)"
proof (rule all_shares_advance[OF refl])
  show "demo_commitment_map \<noteq> fmempty"
    by (metis demo_commitment_map_def fmdom_empty fmdom_fmupd finsert_not_fempty)
qed (auto simp: demo_defs)

end
