(* ===== verification/Coordinator_Comms.thy ===== *)
theory Coordinator_Comms
  imports Signing_Payload Coordinator_Session
begin

text \<open>
  The coordinator's run of a signing session over the server:
  \<^verbatim>\<open>mina-frost-client/src/coordinator/comms/http.rs\<close> and
  \<^verbatim>\<open>coordinator/coordinate_signing.rs\<close>. The signing package and the aggregation of FROST are
  parameters; polling runs for a number of rounds that is an argument. The set of senders a loop
  has accepted is kept in the state, emptied where the loop begins.
\<close>

section \<open>Configuration and state\<close>

record ('id, 'pkp) coord_config =
  cc_signers :: "(comm_key, 'id) hash_map"
  cc_num_signers :: u16
  cc_public_key_package :: 'pkp
  cc_message :: bytes
  cc_comm_privkey :: "bytes option"
  cc_comm_pubkey :: "comm_key option"

record ('c, 's, 'sp, 'hs, 'ts, 'se, 'w) coord_env = "('hs, 'ts, 'se, 'w) comms_env" +
  session_codec :: "('c, 's) coord_codec"
  encode_package :: "'sp send_signing_package_args \<Rightarrow> bytes option"

record ('id, 'c, 's, 'hs, 'ts, 'w) coord_comms = "('hs, 'ts, 'w) comms" +
  co_state :: "(comm_key, 'id, 'c, 's) coordinator_state"
  co_pubkeys :: "(comm_key, 'id) hash_map"
  co_seen :: "comm_key fset"

definition coord_comms_new :: "('id, 'pkp) coord_config \<Rightarrow> 'w \<Rightarrow> ('id, 'c, 's, 'hs, 'ts, 'w) coord_comms" where
  "coord_comms_new K w = \<lparr>session_id = None, cipher_of = None, world = w,
     co_state = coordinator_new 1 (unat (cc_num_signers K)) (cc_signers K), co_pubkeys = fmempty,
     co_seen = {||}\<rparr>"

type_synonym ('id, 'c, 's, 'hs, 'ts, 'se, 'w, 'a) coord_io =
  "(('id, 'c, 's, 'hs, 'ts, 'w) coord_comms, 'se comms_error, 'a) io"

section \<open>Receiving\<close>

text \<open>
  One message of a batch. A second message of an accepted sender, one that does not decrypt and
  one the session refuses are skipped with a warning.
\<close>

definition coord_handle ::
  "('c, 's, 'sp, 'hs, 'ts, 'se, 'w) coord_env \<Rightarrow> comm_key msg \<Rightarrow> ('id, 'c, 's, 'hs, 'ts, 'se, 'w, unit) coord_io" where
  "coord_handle E msg s =
     (if msg_sender msg |\<in>| co_seen s then (Some (Ok ()), s)
      else case (decrypt_step E msg :: ('id, 'c, 's, 'hs, 'ts, 'se, 'w, comm_key msg) coord_io) s of
        (Some (Ok m), s) \<Rightarrow>
          (case coord_recv (session_codec E) (co_state s) m of
             (st, Ok _) \<Rightarrow> (Some (Ok ()), s\<lparr>co_state := st, co_seen := finsert (msg_sender msg) (co_seen s)\<rparr>)
           | (st, Err e) \<Rightarrow> (Some (Ok ()), s\<lparr>co_state := st\<rparr>)
           | (st, Panic) \<Rightarrow> (Some Panic, s\<lparr>co_state := st\<rparr>))
      | (Some (Err e), s) \<Rightarrow> (Some (Ok ()), s)
      | (Some Panic, s) \<Rightarrow> (Some Panic, s)
      | (None, s) \<Rightarrow> (None, s))"

definition coord_batch ::
  "('c, 's, 'sp, 'hs, 'ts, 'se, 'w) coord_env \<Rightarrow> ('id, 'c, 's, 'hs, 'ts, 'se, 'w, unit) coord_io" where
  "coord_batch E = io_bind (receive_step E True) (io_for (coord_handle E))"

definition coord_receive_until ::
  "('c, 's, 'sp, 'hs, 'ts, 'se, 'w) coord_env \<Rightarrow> nat \<Rightarrow> ((comm_key, 'id, 'c, 's) coordinator_state \<Rightarrow> bool) \<Rightarrow>
    ('id, 'c, 's, 'hs, 'ts, 'se, 'w, unit) coord_io" where
  "coord_receive_until E n finished =
     io_bind (io_set (\<lambda>s. s\<lparr>co_seen := {||}\<rparr>)) (\<lambda>_. io_poll n (coord_batch E) (\<lambda>s. finished (co_state s)))"

section \<open>The two rounds\<close>

definition commitments_step ::
  "('id, 'c, 's, 'hs, 'ts, 'se, 'w, ('id, 'c) fmap list \<times> (comm_key, 'id) hash_map) coord_io" where
  "commitments_step = io_get (\<lambda>s. map_err SessionErr (session_commitments (co_state s)))"

definition get_signing_commitments ::
  "('id, 'pkp) coord_config \<Rightarrow> ('c, 's, 'sp, 'hs, 'ts, 'se, 'w) coord_env \<Rightarrow> nat \<Rightarrow>
    ('id, 'c, 's, 'hs, 'ts, 'se, 'w, ('id, 'c) fmap) coord_io" where
  "get_signing_commitments K E n =
     io_bind (log_in E (cc_comm_privkey K) (cc_comm_pubkey K)) (\<lambda>_.
     io_bind (ask (srv_create_new_session (srv E)
       \<lparr>create_pubkeys = key_order E (fmdom (cc_signers K)), create_message_count = 1\<rparr>)) (\<lambda>sid.
     io_bind (io_set (\<lambda>s. s\<lparr>session_id := Some sid\<rparr>)) (\<lambda>_.
     io_bind (need (lit ''comm_privkey must be specified'') (cc_comm_privkey K)) (\<lambda>privkey.
     io_bind (set_cipher E privkey (key_order E (fmdom (cc_signers K)))) (\<lambda>_.
     io_bind (coord_receive_until E n has_commitments) (\<lambda>_.
     io_bind commitments_step (\<lambda>(commitments, pks).
     io_bind (io_set (\<lambda>s. s\<lparr>co_pubkeys := pks\<rparr>)) (\<lambda>_.
     io_pure (idx commitments 0)))))))))"

definition coord_cipher :: "('id, 'c, 's, 'hs, 'ts, 'se, 'w, unit) coord_io" where
  "coord_cipher = io_get (\<lambda>s. case cipher_of s of Some _ \<Rightarrow> Ok () | None \<Rightarrow> Panic)"

definition send_package ::
  "('c, 's, 'sp, 'hs, 'ts, 'se, 'w) coord_env \<Rightarrow> 'sp \<Rightarrow> ('id, 'c, 's, 'hs, 'ts, 'se, 'w, unit) coord_io" where
  "send_package E package =
     io_bind (io_get (\<lambda>s. Ok (key_order E (fmdom (co_pubkeys s)))))
       (io_for (\<lambda>recipient. send_step E (Some recipient)
         (encode_package E \<lparr>signing_package = [package], aux_msg = []\<rparr>)))"

definition send_signing_package_and_get_signature_shares ::
  "('c, 's, 'sp, 'hs, 'ts, 'se, 'w) coord_env \<Rightarrow> nat \<Rightarrow> 'sp \<Rightarrow> ('id, 'c, 's, 'hs, 'ts, 'se, 'w, ('id, 's) fmap) coord_io" where
  "send_signing_package_and_get_signature_shares E n package =
     io_bind coord_cipher (\<lambda>_.
     io_bind (send_package E package) (\<lambda>_.
     io_bind (coord_receive_until E n has_signature_shares) (\<lambda>_.
     io_bind (close_step E) (\<lambda>_.
     io_bind (ask (srv_logout (srv E))) (\<lambda>_.
     io_bind (io_get (\<lambda>s. map_err SessionErr (session_signature_shares (co_state s)))) (\<lambda>shares.
     io_pure (idx shares 0)))))))"

section \<open>The session\<close>

record ('id, 'c, 's, 'sp, 'pkp, 'sg) frost_signing = "('id, 'c, 'sp) frost_package" +
  aggregate :: "'sp \<Rightarrow> ('id, 's) fmap \<Rightarrow> 'pkp \<Rightarrow> 'sg option"
  signature_bytes :: "'sg \<Rightarrow> bytes option"

definition coordinate_signing ::
  "('id, 'pkp) coord_config \<Rightarrow> ('c, 's, 'sp, 'hs, 'ts, 'se, 'w) coord_env \<Rightarrow> ('r, 'rs) tx_env \<Rightarrow>
    ('id, 'c, 's, 'sp, 'pkp, 'sg) frost_signing \<Rightarrow> nat \<Rightarrow> 'w \<Rightarrow>
    ('se comms_error, bytes) outcome option \<times> ('id, 'c, 's, 'hs, 'ts, 'w) coord_comms" where
  "coordinate_signing K E X F n w =
     io_bind (or_cleanup E (get_signing_commitments K E n)) (\<lambda>commitments.
     let package = package_new F commitments (cc_message K) in
     io_bind (or_cleanup E (send_signing_package_and_get_signature_shares E n package)) (\<lambda>signatures.
     io_bind (signing_bytes_step X (package_message F package)) (\<lambda>pallas_message_bytes.
     io_bind (or_cleanup E (io_pure (ok_or Frost
       (aggregate F (package_new F commitments pallas_message_bytes) signatures (cc_public_key_package K))))) (\<lambda>sg.
     or_cleanup E (io_pure (ok_or Frost (signature_bytes F sg))))))) (coord_comms_new K w)"

section \<open>No message stops the coordinator\<close>

lemma coord_recv_Err: "coord_recv C st m = (st', Err e) \<Longrightarrow> st' = st"
  by (cases st) (auto simp: Let_def split: option.splits if_splits)

lemma coord_handle_total:
  fixes E :: "('c, 's, 'sp, 'hs, 'ts, 'se, 'w) coord_env" and s :: "('id, 'c, 's, 'hs, 'ts, 'w) coord_comms"
  assumes "snow_total (snow E)" and "has_cipher s"
  obtains s' where "coord_handle E msg s = (Some (Ok ()), s')" "has_cipher s'"
    "session_id s' = session_id s" "world s' = world s"
proof (cases "msg_sender msg |\<in>| co_seen s")
  case True
  then show ?thesis using that[of s] assms(2) by (simp add: coord_handle_def)
next
  case False
  obtain r t where
    t: "decrypt_step E msg s = (Some (r :: ('se comms_error, comm_key msg) outcome), t)" "r \<noteq> Panic" "has_cipher t"
    "world t = world s" "session_id t = session_id s"
    by (rule decrypt_step_ok[OF assms, of msg])
  note handle = coord_handle_def[of E msg s] False t(1)
  show ?thesis
  proof (cases r)
    case (Ok m)
    obtain st r' where recv: "coord_recv (session_codec E) (co_state t) m = (st, r')"
      by (cases "coord_recv (session_codec E) (co_state t) m")
    show ?thesis
    proof (cases r')
      case ok: (Ok u)
      show ?thesis
        by (rule that[of "t\<lparr>co_state := st, co_seen := finsert (msg_sender msg) (co_seen t)\<rparr>"])
           (use t in \<open>simp_all add: handle Ok recv ok has_cipher_def split: unit.split\<close>)
    next
      case (Err e)
      show ?thesis
        by (rule that[of "t\<lparr>co_state := st\<rparr>"]) (use t in \<open>simp_all add: handle Ok recv Err has_cipher_def\<close>)
    next
      case Panic
      then show ?thesis using coord_recv_no_panic[of "session_codec E" "co_state t" m] recv by simp
    qed
  next
    case (Err e)
    show ?thesis by (rule that[of t]) (use t in \<open>simp_all add: handle Err\<close>)
  qed (use t in simp)
qed

lemma coord_batch_total:
  fixes E :: "('c, 's, 'sp, 'hs, 'ts, 'se, 'w) coord_env" and s :: "('id, 'c, 's, 'hs, 'ts, 'w) coord_comms"
  assumes "snow_total (snow E)" and "has_cipher s" and "session_id s = Some sid"
    and "\<And>args w. \<exists>ms w'. srv_receive (srv E) args w = (Ok ms, w')"
  obtains s' where "coord_batch E s = (Some (Ok ()), s')" "has_cipher s'" "session_id s' = Some sid"
proof -
  have all: "\<exists>s'. io_for (coord_handle E) ms t = (Some (Ok ()), s') \<and> has_cipher s' \<and> session_id s' = Some sid"
    if "has_cipher t" "session_id t = Some sid" for ms t
    using that
  proof (induction ms arbitrary: t)
    case (Cons m ms)
    from coord_handle_total[OF assms(1) Cons.prems(1), of m] obtain t' where
      "coord_handle E m t = (Some (Ok ()), t')" "has_cipher t'" "session_id t' = Some sid"
      using Cons.prems(2) by metis
    with Cons.IH[of t'] show ?case by simp
  qed simp
  from assms(4) obtain ms w' where ms:
    "srv_receive (srv E) \<lparr>receive_session_id = sid, as_coordinator = True\<rparr> (world s) = (Ok ms, w')" by blast
  then have "receive_step E True s = (Some (Ok ms), s\<lparr>world := w'\<rparr>)"
    using assms(3) by (simp add: receive_step_def the_session_def io_bind_def ask_def)
  moreover obtain s' where "io_for (coord_handle E) ms (s\<lparr>world := w'\<rparr>) = (Some (Ok ()), s')"
    "has_cipher s'" "session_id s' = Some sid"
    using all[of "s\<lparr>world := w'\<rparr>" ms] assms(2,3) by (auto simp: has_cipher_def)
  ultimately show ?thesis using that by (simp add: coord_batch_def)
qed

text \<open>
  C15: no participant can stop the coordinator: as long as the server answers, a polling loop of the
  coordinator never ends with an error or a panic, whatever messages arrive.
\<close>

theorem coordinator_survives:
  fixes E :: "('c, 's, 'sp, 'hs, 'ts, 'se, 'w) coord_env" and s :: "('id, 'c, 's, 'hs, 'ts, 'w) coord_comms"
  assumes "snow_total (snow E)" and "has_cipher s" and "session_id s = Some sid"
    and "\<And>args w. \<exists>ms w'. srv_receive (srv E) args w = (Ok ms, w')"
  shows "fst (coord_receive_until E n finished s) \<in> {None, Some (Ok ())}"
proof -
  have "fst (io_poll n (coord_batch E) (\<lambda>s. finished (co_state s)) t) \<in> {None, Some (Ok ())}"
    if "has_cipher t" "session_id t = Some sid" for t
    using that
  proof (induction n arbitrary: t)
    case (Suc n)
    from coord_batch_total[OF assms(1) Suc.prems assms(4)] obtain t' where
      t': "coord_batch E t = (Some (Ok ()), t')" "has_cipher t'" "session_id t' = Some sid" by metis
    then show ?case using Suc.IH[OF t'(2,3)] by simp
  qed simp
  then show ?thesis using assms(2,3) by (simp add: coord_receive_until_def has_cipher_def)
qed

section \<open>What the coordinator aggregates\<close>

text \<open>
  What the session's state holds in a run whose messages are genuine: entries decoded from messages
  of the participants they belong to.
\<close>

definition genuine_entries ::
  "('pk msg \<Rightarrow> bool) \<Rightarrow> (bytes \<Rightarrow> 'a list option) \<Rightarrow> ('pk, 'id) hash_map \<Rightarrow> ('id, 'a list) fmap \<Rightarrow> bool" where
  "genuine_entries genuine decode pks entries \<longleftrightarrow> (\<forall>id xs. fmlookup entries id = Some xs \<longrightarrow>
     (\<exists>m. genuine m \<and> fmlookup pks (msg_sender m) = Some id \<and> decode (msg_bytes m) = Some xs \<and> length xs = 1))"

fun session_inv ::
  "('pk msg \<Rightarrow> bool) \<Rightarrow> ('c, 's) coord_codec \<Rightarrow> nat \<Rightarrow> ('pk, 'id) hash_map \<Rightarrow>
    ('pk, 'id, 'c, 's) coordinator_state \<Rightarrow> bool" where
  "session_inv genuine C k pks (WaitingForCommitments args cs p) \<longleftrightarrow>
     args = \<lparr>num_messages = 1, num_signers = k\<rparr> \<and> p = pks \<and> genuine_entries genuine (decode_commitments C) pks cs"
| "session_inv genuine C k pks (WaitingForSignatureShares args cs p ss) \<longleftrightarrow>
     args = \<lparr>num_messages = 1, num_signers = k\<rparr> \<and> p = pks \<and> map_len cs = k \<and>
     genuine_entries genuine (decode_commitments C) pks cs \<and> genuine_entries genuine (decode_shares C) pks ss"
| "session_inv genuine C k pks (SignatureSharesReady args ss) \<longleftrightarrow>
     args = \<lparr>num_messages = 1, num_signers = k\<rparr> \<and> genuine_entries genuine (decode_shares C) pks ss"

fun shares_of :: "('id, 'c list) fmap \<Rightarrow> ('pk, 'id, 'c, 's) coordinator_state \<Rightarrow> bool" where
  "shares_of cs (WaitingForCommitments _ _ _) \<longleftrightarrow> False"
| "shares_of cs (WaitingForSignatureShares _ cs' _ _) \<longleftrightarrow> cs' = cs"
| "shares_of cs (SignatureSharesReady _ ss) \<longleftrightarrow> fmdom ss = fmdom cs"

lemma genuine_entries_upd:
  "genuine_entries genuine decode pks entries \<Longrightarrow> genuine m \<Longrightarrow> fmlookup pks (msg_sender m) = Some i \<Longrightarrow>
    decode (msg_bytes m) = Some xs \<Longrightarrow> length xs = Suc 0 \<Longrightarrow> genuine_entries genuine decode pks (fmupd i xs entries)"
  unfolding genuine_entries_def by auto

lemma genuine_entries_empty [simp]: "genuine_entries genuine decode pks fmempty"
  by (simp add: genuine_entries_def)

lemma session_inv_recv:
  assumes "genuine m" and "session_inv genuine C k pks st"
  shows "session_inv genuine C k pks (fst (coord_recv C st m))"
proof (cases st)
  case (WaitingForCommitments args cs p)
  with assms show ?thesis
    by (auto simp: Let_def intro!: genuine_entries_upd[where m = m] split: option.split)
next
  case (WaitingForSignatureShares args cs p ss)
  with assms show ?thesis
    by (auto simp: Let_def intro!: genuine_entries_upd[where m = m] split: option.split)
qed (use assms in simp)

lemma shares_of_recv: "shares_of cs st \<Longrightarrow> shares_of cs (fst (coord_recv C st m))"
  by (cases st) (auto simp: Let_def split: option.split)

lemma session_inv_new: "session_inv genuine C k pks (coordinator_new 1 k pks)"
  by (simp add: coordinator_new_def)

abbreviation on_session ::
  "((comm_key, 'id, 'c, 's) coordinator_state \<Rightarrow> bool) \<Rightarrow> ('id, 'c, 's, 'hs, 'ts, 'w) coord_comms \<Rightarrow> bool" where
  "on_session P \<equiv> \<lambda>s. P (co_state s)"

text \<open>A property of the session's state that genuine messages keep is kept by every step.\<close>

lemma coord_fields_of_more:
  fixes s t :: "('id, 'c, 's, 'hs, 'ts, 'w) coord_comms"
  assumes "comms.more s = comms.more t"
  shows "co_state s = co_state t" and "co_pubkeys s = co_pubkeys t"
  using assms by (cases s; cases t; simp)+

lemma frame_coord:
  fixes m :: "('id, 'c, 's, 'hs, 'ts, 'se, 'w, 'a) coord_io"
  assumes "frame m"
  shows "ensures (on_session P) m (\<lambda>_. on_session P)"
  unfolding ensures_def
proof (intro allI impI)
  fix s a s' assume "P (co_state s)" and "m s = (Some (Ok a), s')"
  then show "P (co_state s')" using frameD[OF assms] coord_fields_of_more(1)[of s' s] by metis
qed

lemma coord_handle_ensures:
  fixes E :: "('c, 's, 'sp, 'hs, 'ts, 'se, 'w) coord_env"
    and P :: "(comm_key, 'id, 'c, 's) coordinator_state \<Rightarrow> bool"
  assumes keep: "\<And>m st. genuine m \<Longrightarrow> P st \<Longrightarrow> P (fst (coord_recv (session_codec E) st m))"
    and gen: "\<forall>c m c'. decrypt (snow E) c msg = (Ok m, c') \<longrightarrow> genuine m"
  shows "ensures (on_session P) (coord_handle E msg) (\<lambda>_. on_session P)"
  unfolding ensures_def
proof (intro allI impI)
  fix s :: "('id, 'c, 's, 'hs, 'ts, 'w) coord_comms" and a s'
  assume P: "P (co_state s)" and run: "coord_handle E msg s = (Some (Ok a) :: ('se comms_error, unit) outcome option, s')"
  show "P (co_state s')"
  proof (cases "msg_sender msg |\<in>| co_seen s")
    case True then show ?thesis using P run by (simp add: coord_handle_def)
  next
    case False
    obtain r t where d: "decrypt_step E msg s = (r :: ('se comms_error, comm_key msg) outcome option, t)"
      by (cases "decrypt_step E msg s :: ('se comms_error, comm_key msg) outcome option \<times> _")
    have more: "co_state t = co_state s" using frameD[OF frame_decrypt d] coord_fields_of_more(1) by blast
    note handle = coord_handle_def[of E msg s] False d
    show ?thesis
    proof (cases r)
      case None then show ?thesis using run by (simp add: handle)
    next
      case (Some r')
      show ?thesis
      proof (cases r')
        case (Ok m)
        then have "genuine m" using gen d Some
          by (auto simp: decrypt_step_def outcome_simps split: option.splits prod.splits)
        then have "P (fst (coord_recv (session_codec E) (co_state t) m))" using keep P more by simp
        then show ?thesis using run Some Ok
          by (cases "coord_recv (session_codec E) (co_state t) m") (auto simp: handle split: outcome.splits unit.splits)
      qed (use run Some P more in \<open>auto simp: handle\<close>)
    qed
  qed
qed

lemma coord_until_ensures:
  fixes E :: "('c, 's, 'sp, 'hs, 'ts, 'se, 'w) coord_env"
    and P :: "(comm_key, 'id, 'c, 's) coordinator_state \<Rightarrow> bool"
  assumes keep: "\<And>m st. genuine m \<Longrightarrow> P st \<Longrightarrow> P (fst (coord_recv (session_codec E) st m))"
    and "brings E genuine"
  shows "ensures (on_session P) (coord_receive_until E n finished) (\<lambda>_ s. on_session P s \<and> finished (co_state s))"
  unfolding coord_receive_until_def
proof (rule ensures_bind[OF ensures_set ensures_poll])
  show "ensures (on_session P) (coord_batch E) (\<lambda>_. on_session P)"
    unfolding coord_batch_def
  proof (rule ensures_bind)
    show "ensures (on_session P) (receive_step E True) (\<lambda>ms s. on_session P s \<and>
        (\<forall>msg \<in> set ms. \<forall>c m c'. decrypt (snow E) c msg = (Ok m, c') \<longrightarrow> genuine m))"
      using receive_step_ensures[OF assms(2), of "on_session P" True] frame_coord[OF frame_receive, of P E True]
      unfolding ensures_def by blast
  next
    fix ms
    show "ensures (\<lambda>s. on_session P s \<and> (\<forall>msg \<in> set ms. \<forall>c m c'. decrypt (snow E) c msg = (Ok m, c') \<longrightarrow> genuine m))
        (io_for (coord_handle E) ms) (\<lambda>_. on_session P)"
    proof (cases "\<forall>msg \<in> set ms. \<forall>c m c'. decrypt (snow E) c msg = (Ok m, c') \<longrightarrow> genuine m")
      case True
      then have "ensures (on_session P) (io_for (coord_handle E) ms) (\<lambda>_. on_session P)"
        by (intro ensures_for coord_handle_ensures[where genuine = genuine] keep) blast+
      then show ?thesis unfolding ensures_def by blast
    qed (auto simp: ensures_def)
  qed
qed simp

lemma columns_one:
  assumes "genuine_entries genuine decode pks m"
  shows "columns 1 m = Ok [fmmap (\<lambda>xs. xs ! 0) m]"
proof -
  have "columns 1 m = Ok (map (\<lambda>i. fmmap (\<lambda>xs. xs ! i) m) [0..<1])"
    by (rule columns_Ok) (use assms in \<open>auto simp: genuine_entries_def\<close>)
  then show ?thesis by simp
qed

definition commitments_of ::
  "(comm_key msg \<Rightarrow> bool) \<Rightarrow> ('c, 's) coord_codec \<Rightarrow> nat \<Rightarrow> (comm_key, 'id) hash_map \<Rightarrow> ('id, 'c list) fmap \<Rightarrow>
    ('id, 'c) fmap \<Rightarrow> (comm_key, 'id, 'c, 's) coordinator_state \<Rightarrow> bool" where
  "commitments_of genuine C k pks cmap cs st \<longleftrightarrow> session_inv genuine C k pks st \<and> shares_of cmap st \<and>
     cs = fmmap (\<lambda>xs. xs ! 0) cmap \<and> map_len cmap = k \<and> genuine_entries genuine (decode_commitments C) pks cmap"

lemma get_signing_commitments_ensures:
  fixes E :: "('c, 's, 'sp, 'hs, 'ts, 'se, 'w) coord_env" and K :: "('id, 'pkp) coord_config"
  assumes "brings E genuine"
  shows "ensures (on_session (session_inv genuine (session_codec E) k pks)) (get_signing_commitments K E n)
    (\<lambda>cs s. \<exists>cmap. commitments_of genuine (session_codec E) k pks cmap cs (co_state s))"
proof -
  let ?I = "session_inv genuine (session_codec E) k pks"
  have got: "ensures (\<lambda>s. on_session ?I s \<and> has_commitments (co_state s))
      (commitments_step :: ('id, 'c, 's, 'hs, 'ts, 'se, 'w, ('id, 'c) fmap list \<times> (comm_key, 'id) hash_map) coord_io)
      (\<lambda>(cols, _) s. \<exists>cmap. cols = [fmmap (\<lambda>xs. xs ! 0) cmap] \<and>
        commitments_of genuine (session_codec E) k pks cmap (fmmap (\<lambda>xs. xs ! 0) cmap) (co_state s))"
    unfolding commitments_step_def
  proof (rule ensures_get)
    fix s :: "('id, 'c, 's, 'hs, 'ts, 'w) coord_comms" and r
    assume s: "on_session ?I s \<and> has_commitments (co_state s)"
      and ok: "map_err SessionErr (session_commitments (co_state s)) =
        (Ok r :: ('se comms_error, ('id, 'c) fmap list \<times> (comm_key, 'id) hash_map) outcome)"
    then obtain args cs p ss where st: "co_state s = WaitingForSignatureShares args cs p ss"
      by (cases "co_state s") auto
    with s have gen: "genuine_entries genuine (decode_commitments (session_codec E)) pks cs" by simp
    have "fst r = [fmmap (\<lambda>xs. xs ! 0) cs]"
      using ok s st columns_one[OF gen] by (auto simp: outcome_simps)
    then show "(case r of (cols, _) \<Rightarrow> \<lambda>s. \<exists>cmap. cols = [fmmap (\<lambda>xs. xs ! 0) cmap] \<and>
        commitments_of genuine (session_codec E) k pks cmap (fmmap (\<lambda>xs. xs ! 0) cmap) (co_state s)) s"
      using s st gen by (auto simp: commitments_of_def split: prod.split)
  qed
  have last: "ensures (\<lambda>s :: ('id, 'c, 's, 'hs, 'ts, 'w) coord_comms. \<exists>cmap. cols = [fmmap (\<lambda>xs. xs ! 0) cmap] \<and>
        commitments_of genuine (session_codec E) k pks cmap (fmmap (\<lambda>xs. xs ! 0) cmap) (co_state s))
      (io_bind (io_set (co_pubkeys_update (\<lambda>_. p))) (\<lambda>_. io_pure (idx cols 0)) ::
        ('id, 'c, 's, 'hs, 'ts, 'se, 'w, ('id, 'c) fmap) coord_io)
      (\<lambda>cs s. \<exists>cmap. commitments_of genuine (session_codec E) k pks cmap cs (co_state s))" for cols p
    by (auto simp: ensures_def)
  have tail: "ensures (\<lambda>s. on_session ?I s \<and> has_commitments (co_state s))
      (io_bind commitments_step (\<lambda>(commitments, pks). io_bind (io_set (\<lambda>s. s\<lparr>co_pubkeys := pks\<rparr>)) (\<lambda>_. io_pure (idx commitments 0))) ::
        ('id, 'c, 's, 'hs, 'ts, 'se, 'w, ('id, 'c) fmap) coord_io)
      (\<lambda>cs s. \<exists>cmap. commitments_of genuine (session_codec E) k pks cmap cs (co_state s))"
  proof (rule ensures_bind[OF got])
    fix r :: "('id, 'c) fmap list \<times> (comm_key, 'id) hash_map"
    obtain cols p where r: "r = (cols, p)" by (cases r)
    show "ensures (case r of (cols, _) \<Rightarrow> \<lambda>s. \<exists>cmap. cols = [fmmap (\<lambda>xs. xs ! 0) cmap] \<and>
          commitments_of genuine (session_codec E) k pks cmap (fmmap (\<lambda>xs. xs ! 0) cmap) (co_state s))
        ((case r of (commitments, pks) \<Rightarrow> io_bind (io_set (\<lambda>s. s\<lparr>co_pubkeys := pks\<rparr>)) (\<lambda>_. io_pure (idx commitments 0))) ::
          ('id, 'c, 's, 'hs, 'ts, 'se, 'w, ('id, 'c) fmap) coord_io)
        (\<lambda>cs s. \<exists>cmap. commitments_of genuine (session_codec E) k pks cmap cs (co_state s))"
      unfolding r prod.case by (rule last)
  qed
  have set: "ensures (on_session ?I) (io_set (\<lambda>s. s\<lparr>session_id := sid\<rparr>) :: ('id, 'c, 's, 'hs, 'ts, 'se, 'w, unit) coord_io)
      (\<lambda>_. on_session ?I)" for sid
    by (rule ensures_set) simp
  have keep: "genuine m \<Longrightarrow> ?I st \<Longrightarrow> ?I (fst (coord_recv (session_codec E) st m))" for m st
    by (rule session_inv_recv)
  have until: "ensures (on_session ?I) (coord_receive_until E n has_commitments)
      (\<lambda>_ s. on_session ?I s \<and> has_commitments (co_state s))"
    by (rule coord_until_ensures[where P = ?I, OF keep assms])
  note before = frame_coord[where P = ?I]
  show ?thesis
    unfolding get_signing_commitments_def
    by (rule ensures_bind[OF before[OF frame_log_in]] ensures_bind[OF before[OF frame_ask]]
        ensures_bind[OF set] ensures_bind[OF before[OF frame_need]] ensures_bind[OF before[OF frame_set_cipher]]
        ensures_bind[OF until] tail)+
qed

lemma get_shares_ensures:
  fixes E :: "('c, 's, 'sp, 'hs, 'ts, 'se, 'w) coord_env"
    and pks :: "(comm_key, 'id) hash_map" and cmap :: "('id, 'c list) fmap"
  assumes "brings E genuine"
  shows "ensures (on_session (\<lambda>st. session_inv genuine (session_codec E) k pks st \<and> shares_of cmap st))
    (send_signing_package_and_get_signature_shares E n package)
    (\<lambda>ss _. \<exists>smap. ss = fmmap (\<lambda>xs. xs ! 0) smap \<and> fmdom smap = fmdom cmap \<and>
      genuine_entries genuine (decode_shares (session_codec E)) pks smap)"
proof -
  let ?I = "\<lambda>st :: (comm_key, 'id, 'c, 's) coordinator_state. session_inv genuine (session_codec E) k pks st \<and> shares_of cmap st"
  have keep: "genuine m \<Longrightarrow> ?I st \<Longrightarrow> ?I (fst (coord_recv (session_codec E) st m))" for m st
    using session_inv_recv shares_of_recv by blast
  have send: "frame (send_package E package)" unfolding send_package_def by (intro frames)
  have cipher: "frame coord_cipher" unfolding coord_cipher_def by (intro frames)
  have ready: "ensures (on_session (\<lambda>st. ?I st \<and> has_signature_shares st))
      (io_bind (io_get (\<lambda>s. map_err SessionErr (session_signature_shares (co_state s)))) (\<lambda>shares. io_pure (idx shares 0)))
      (\<lambda>ss _. \<exists>smap. ss = fmmap (\<lambda>xs. xs ! 0) smap \<and> fmdom smap = fmdom cmap \<and>
        genuine_entries genuine (decode_shares (session_codec E)) pks smap)"
    unfolding ensures_def
  proof (intro allI impI)
    fix s a s'
    assume s: "on_session (\<lambda>st. ?I st \<and> has_signature_shares st) s"
      and run: "io_bind (io_get (\<lambda>s. map_err SessionErr (session_signature_shares (co_state s)))) (\<lambda>shares. io_pure (idx shares 0)) s
        = (Some (Ok a), s')"
    then obtain args ss where st: "co_state s = SignatureSharesReady args ss" by (cases "co_state s") auto
    with s have ss: "genuine_entries genuine (decode_shares (session_codec E)) pks ss" "fmdom ss = fmdom cmap"
      and "num_messages args = 1" by simp_all
    then show "\<exists>smap. a = fmmap (\<lambda>xs. xs ! 0) smap \<and> fmdom smap = fmdom cmap \<and>
        genuine_entries genuine (decode_shares (session_codec E)) pks smap"
      using run st columns_one[OF ss(1)] by (auto simp: io_bind_Ok outcome_simps)
  qed
  have until: "ensures (on_session ?I) (coord_receive_until E n has_signature_shares)
      (\<lambda>_. on_session (\<lambda>st. ?I st \<and> has_signature_shares st))"
    by (rule coord_until_ensures[where P = ?I, OF keep assms])
  note after = frame_coord[where P = "\<lambda>st. ?I st \<and> has_signature_shares st"]
  show ?thesis
    unfolding send_signing_package_and_get_signature_shares_def
    by (rule ensures_bind[OF frame_coord[where P = ?I, OF cipher]] ensures_bind[OF frame_coord[where P = ?I, OF send]]
        ensures_bind[OF until] ensures_bind[OF after[OF frame_close]] ensures_bind[OF after[OF frame_ask]] ready)+
qed

lemma coordinate_signing_Ok:
  fixes E :: "('c, 's, 'sp, 'hs, 'ts, 'se, 'w) coord_env" and K :: "('id, 'pkp) coord_config"
    and F :: "('id, 'c, 's, 'sp, 'pkp, 'sg) frost_signing"
  assumes "coordinate_signing K E X F n w = (Some (Ok bytes), s)"
  obtains cs ss wire sg t t' where
    "get_signing_commitments K E n (coord_comms_new K w) = (Some (Ok cs), t)"
    "send_signing_package_and_get_signature_shares E n (package_new F cs (cc_message K)) t = (Some (Ok ss), t')"
    "signing_bytes X (package_message F (package_new F cs (cc_message K))) = Ok wire"
    "aggregate F (package_new F cs wire) ss (cc_public_key_package K) = Some sg"
    "signature_bytes F sg = Some bytes"
proof -
  from assms obtain cs t ss t' wire sg where
    "or_cleanup E (get_signing_commitments K E n) (coord_comms_new K w) = (Some (Ok cs), t)"
    "or_cleanup E (send_signing_package_and_get_signature_shares E n (package_new F cs (cc_message K))) t = (Some (Ok ss), t')"
    "map_err (payload_report X (package_message F (package_new F cs (cc_message K))))
      (signing_bytes X (package_message F (package_new F cs (cc_message K)))) = (Ok wire :: ('se comms_error, bytes) outcome)"
    "ok_or Frost (aggregate F (package_new F cs wire) ss (cc_public_key_package K)) = (Ok sg :: ('se comms_error, 'sg) outcome)"
    "ok_or Frost (signature_bytes F sg) = (Ok bytes :: ('se comms_error, bytes) outcome)"
    unfolding coordinate_signing_def Let_def signing_bytes_step_def io_bind_Ok or_cleanup_Ok
    by (auto simp: or_cleanup_Ok)
  then show ?thesis
    by (intro that[of cs t ss t' wire sg]) (auto simp: or_cleanup_Ok outcome_simps)
qed

text \<open>
  C5: a signature the coordinator returns aggregates genuine contributions over one message: exactly
  the configured number of participants each sent one commitment and one share, and the shares
  are aggregated over the signing bytes of the configured transaction.
\<close>

theorem coordinator_aggregates:
  fixes E :: "('c, 's, 'sp, 'hs, 'ts, 'se, 'w) coord_env" and K :: "('id, 'pkp) coord_config"
  assumes "brings E genuine"
    and "\<And>cs m. package_message F (package_new F cs m) = m"
    and "coordinate_signing K E X F n w = (Some (Ok bytes), s)"
  shows "\<exists>cmap smap wire sg. signing_bytes X (cc_message K) = Ok wire \<and>
    aggregate F (package_new F (fmmap (\<lambda>xs. xs ! 0) cmap) wire) (fmmap (\<lambda>xs. xs ! 0) smap)
      (cc_public_key_package K) = Some sg \<and>
    signature_bytes F sg = Some bytes \<and>
    fcard (fmdom cmap) = unat (cc_num_signers K) \<and> fmdom smap = fmdom cmap \<and>
    genuine_entries genuine (decode_commitments (session_codec E)) (cc_signers K) cmap \<and>
    genuine_entries genuine (decode_shares (session_codec E)) (cc_signers K) smap"
proof -
  let ?k = "unat (cc_num_signers K)" and ?C = "session_codec E"
  from assms(3) obtain cs ss wire sg t t' where run:
    "get_signing_commitments K E n (coord_comms_new K w) = (Some (Ok cs), t)"
    "send_signing_package_and_get_signature_shares E n (package_new F cs (cc_message K)) t = (Some (Ok ss), t')"
    and crypto: "signing_bytes X (package_message F (package_new F cs (cc_message K))) = Ok wire"
    "aggregate F (package_new F cs wire) ss (cc_public_key_package K) = Some sg" "signature_bytes F sg = Some bytes"
    by (rule coordinate_signing_Ok)
  have "session_inv genuine ?C ?k (cc_signers K) (co_state (coord_comms_new K w))"
    using session_inv_new[of genuine ?C ?k "cc_signers K"] by (simp add: coord_comms_new_def)
  with run(1) get_signing_commitments_ensures[OF assms(1), of ?k "cc_signers K" K n]
  obtain cmap where cmap: "commitments_of genuine ?C ?k (cc_signers K) cmap cs (co_state t)"
    unfolding ensures_def by blast
  with run(2) get_shares_ensures[OF assms(1), of ?k "cc_signers K" cmap n]
  obtain smap where smap: "ss = fmmap (\<lambda>xs. xs ! 0) smap" "fmdom smap = fmdom cmap"
    "genuine_entries genuine (decode_shares ?C) (cc_signers K) smap"
    unfolding ensures_def commitments_of_def by blast
  from cmap crypto smap assms(2) show ?thesis
    unfolding commitments_of_def by (metis (no_types, lifting))
qed

section \<open>Runs of one participant\<close>

text \<open>A commitment and a share are bytes, a signature is the signed message.\<close>

definition coord_demo :: "comm_key msg list list \<Rightarrow> (bytes, bytes, (nat, bytes) fmap \<times> bytes, unit, unit, unit, nat) coord_env" where
  "coord_demo batches = \<lparr>srv = demo_server [[2]] batches, snow = snow_plain,
     xed_sign = (\<lambda>_ _ w. ([], w)), key_order = (\<lambda>A. filter (\<lambda>k. k |\<in>| A) [[2]]),
     session_codec = \<lparr>decode_commitments = (\<lambda>bs. Some [bs]), decode_shares = (\<lambda>bs. Some [bs])\<rparr>,
     encode_package = (\<lambda>_. Some [])\<rparr>"

definition demo_signing :: "(nat, bytes, bytes, (nat, bytes) fmap \<times> bytes, unit, bytes) frost_signing" where
  "demo_signing = \<lparr>package_new = Pair, package_message = snd, package_commitments = fst,
     aggregate = (\<lambda>package shares _. if fmdom shares = fmdom (fst package) then Some (snd package) else None),
     signature_bytes = Some\<rparr>"

definition coord_demo_config :: "(nat, unit) coord_config" where
  "coord_demo_config = \<lparr>cc_signers = fmupd [2] 20 fmempty, cc_num_signers = 1, cc_public_key_package = (),
     cc_message = demo_payload, cc_comm_privkey = Some (replicate 32 0), cc_comm_pubkey = Some [1]\<rparr>"

lemmas coord_demo_defs = coord_demo_def demo_server_def snow_plain_def coord_demo_config_def demo_signing_def

lemma demo_columns: "columns (Suc 0) (fmupd i [x] fmempty) = Ok [fmupd i x fmempty]"
proof -
  have "columns 1 (fmupd i [x] fmempty) = Ok (map (\<lambda>k. fmmap (\<lambda>xs. xs ! k) (fmupd i [x] fmempty)) [0..<1])"
    by (rule columns_Ok) (auto split: if_splits)
  moreover have "fmmap (\<lambda>xs. xs ! 0) (fmupd i [x] fmempty) = fmupd i x fmempty" by (rule fmap_ext) simp
  ultimately show ?thesis by simp
qed

definition commitment_msg :: "comm_key msg" where
  "commitment_msg = \<lparr>msg_sender = [2], msg_bytes = [4]\<rparr>"

definition share_msg :: "comm_key msg" where
  "share_msg = \<lparr>msg_sender = [2], msg_bytes = [5]\<rparr>"

lemma demo_run:
  assumes "signing_bytes tx_demo demo_payload = Ok wire"
  shows "\<exists>s. coordinate_signing coord_demo_config (coord_demo [[commitment_msg], [share_msg]]) tx_demo demo_signing 1 0 =
    (Some (Ok wire), s)"
  using assms
  by (simp add: coordinate_signing_def or_cleanup_def get_signing_commitments_def log_in_def
      send_signing_package_and_get_signature_shares_def send_package_def coord_cipher_def close_step_def
      coord_receive_until_def coord_batch_def coord_handle_def commitments_step_def signing_bytes_step_def
      coord_comms_new_def coordinator_new_def coord_demo_defs sign_step_def private_key_sign_def step_eval
      commitment_msg_def share_msg_def demo_columns outcome_simps Let_def fcard.rep_eq)

lemma coordinator_aggregates_witness:
  "\<exists>cmap smap wire sg. signing_bytes tx_demo demo_payload = Ok wire \<and>
    aggregate demo_signing (package_new demo_signing (fmmap (\<lambda>xs. xs ! 0) cmap) wire)
      (fmmap (\<lambda>xs. xs ! 0) smap) () = Some sg \<and> fcard (fmdom cmap) = 1 \<and> fmdom smap = fmdom cmap"
proof -
  let ?E = "coord_demo [[commitment_msg], [share_msg]]"
  obtain wire s where "coordinate_signing coord_demo_config ?E tx_demo demo_signing 1 0 = (Some (Ok wire), s)"
    using demo_wire demo_run by blast
  moreover have "brings ?E (\<lambda>m. msg_sender m = [2])"
    by (rule demo_brings[where batches = "[[commitment_msg], [share_msg]]" and keys = "[[2]]"])
      (simp_all add: coord_demo_def commitment_msg_def share_msg_def)
  moreover have "package_message demo_signing (package_new demo_signing cs m) = m" for cs m
    by (simp add: demo_signing_def)
  ultimately show ?thesis
    using coordinator_aggregates[of ?E "\<lambda>m. msg_sender m = [2]" demo_signing coord_demo_config tx_demo 1 0 wire s]
    by (fastforce simp: coord_demo_config_def)
qed

lemma coordinator_survives_witness:
  "fst (coord_receive_until (coord_demo [[share_msg, commitment_msg, commitment_msg]]) 5 has_signature_shares
    ((coord_comms_new coord_demo_config 0)\<lparr>session_id := Some [7], cipher_of := Some (plain_cipher [[2]])\<rparr>))
    \<in> {None, Some (Ok ())}"
  by (rule coordinator_survives)
    (simp_all add: coord_demo_def demo_server_def snow_plain_total has_cipher_def plain_cipher_ok)

end
