(* ===== verification/Deliveries.thy ===== *)
theory Deliveries
  imports Comms
begin

text \<open>
  What a server delivers in a number of batches, and what of it can be decrypted: the terms in which
  the ends of the polling loops of \<^verbatim>\<open>coordinator/comms/http.rs\<close> and
  \<^verbatim>\<open>dkg/comms/http.rs\<close> in \<^verbatim>\<open>mina-frost-client/src\<close> are stated.
\<close>

section \<open>What the server delivers\<close>

text \<open>The messages of the first \<open>n\<close> batches of a session, for its coordinator or for a participant.\<close>

fun delivered :: "('w, comm_key, uuid) server_ext \<Rightarrow> bool \<Rightarrow> uuid \<Rightarrow> nat \<Rightarrow> 'w \<Rightarrow> comm_key msg list" where
  "delivered S coordinator sid 0 w = []"
| "delivered S coordinator sid (Suc n) w =
     (case srv_receive S \<lparr>receive_session_id = sid, as_coordinator = coordinator\<rparr> w of
        (Ok ms, w') \<Rightarrow> ms @ delivered S coordinator sid n w'
      | _ \<Rightarrow> [])"

text \<open>
  The first message of a participant decrypts, with the cipher the loop starts with, to what the
  round waits for.
\<close>

definition opens_with ::
  "('hs, 'ts, comm_key, 'se) snow_ext \<Rightarrow> (bytes \<Rightarrow> bool) \<Rightarrow> ('hs, 'ts, comm_key) cipher \<Rightarrow> comm_key msg list \<Rightarrow>
    comm_key \<Rightarrow> bool" where
  "opens_with N wanted c msgs pk \<longleftrightarrow>
     (\<exists>msg m c'. List.find (\<lambda>m. msg_sender m = pk) msgs = Some msg \<and> decrypt N c msg = (Ok m, c') \<and>
        wanted (msg_bytes m))"

lemma find_append:
  "List.find P (xs @ ys) = (case List.find P xs of None \<Rightarrow> List.find P ys | Some x \<Rightarrow> Some x)"
  by (induction xs) auto

lemma find_sender_None: "List.find (\<lambda>m. msg_sender m = pk) msgs = None \<longleftrightarrow> pk \<notin> msg_sender ` set msgs"
  by (auto simp: find_None_iff)

lemma opens_with_Nil [simp]: "\<not> opens_with N wanted c [] pk"
  by (simp add: opens_with_def)

lemma opens_with_snoc:
  "opens_with N wanted c (msgs @ [msg]) pk \<Longrightarrow> opens_with N wanted c msgs pk \<or>
    (msg_sender msg = pk \<and> pk \<notin> msg_sender ` set msgs \<and>
      (\<exists>m c'. decrypt N c msg = (Ok m, c') \<and> wanted (msg_bytes m)))"
  by (auto simp: opens_with_def find_append find_sender_None split: option.splits if_splits)

lemma opens_with_old:
  "opens_with N wanted c (msgs @ [msg]) pk \<Longrightarrow> msg_sender msg \<in> msg_sender ` set msgs \<Longrightarrow> opens_with N wanted c msgs pk"
  using opens_with_snoc by blast

text \<open>Decrypting reads and changes the Noise state of the sender only.\<close>

lemma decrypt_same_noise:
  assumes "fmlookup (recv_noise_map c) (msg_sender msg) = fmlookup (recv_noise_map c1) (msg_sender msg)"
  shows "fst (decrypt N c msg) = fst (decrypt N c1 msg)"
  using assms by (auto simp: decrypt_def split: option.split prod.split)

lemma decrypt_other_noise:
  "pk \<noteq> msg_sender msg \<Longrightarrow> fmlookup (recv_noise_map (snd (decrypt N c msg))) pk = fmlookup (recv_noise_map c) pk"
  by (auto simp: decrypt_def split: option.split prod.split)

text \<open>No two communication keys stand for the same signer.\<close>

definition distinct_ids :: "(comm_key, 'id) hash_map \<Rightarrow> bool" where
  "distinct_ids signers \<longleftrightarrow>
     (\<forall>pk pk' id. fmlookup signers pk = Some id \<longrightarrow> fmlookup signers pk' = Some id \<longrightarrow> pk = pk')"

end
