(* ===== verification/Coordinator_Progress.thy ===== *)
theory Coordinator_Progress
  imports Coordinator_Comms Deliveries
begin

text \<open>
  The coordinator's two waiting loops end
  (\<^verbatim>\<open>mina-frost-client/src/coordinator/comms/http.rs\<close>): once the first message of enough
  participants carries what the loop waits for, whatever else was delivered before, between and
  after. What the loops need of the session's state machine is a locale, which its two rounds
  interpret.
\<close>

section \<open>What the rounds wait for\<close>

definition one_commitment :: "('c, 's) coord_codec \<Rightarrow> bytes \<Rightarrow> bool" where
  "one_commitment C data \<longleftrightarrow> (\<exists>x. decode_commitments C data = Some [x])"

definition one_share :: "('c, 's) coord_codec \<Rightarrow> bytes \<Rightarrow> bool" where
  "one_share C data \<longleftrightarrow> (\<exists>x. decode_shares C data = Some [x])"

section \<open>The contract of a round\<close>

text \<open>
  After the messages \<open>msgs\<close>: the Noise states of participants that have not sent are those of the
  cipher \<open>c\<close>, only senders are accepted, and the session has made its progress with what those
  participants sent who opened with what the round waits for.
\<close>

definition loop_progress ::
  "('c, 's, 'sp, 'hs, 'ts, 'se, 'w) coord_env \<Rightarrow> (bytes \<Rightarrow> bool) \<Rightarrow>
    ((comm_key \<Rightarrow> bool) \<Rightarrow> comm_key fset \<Rightarrow> (comm_key, 'id, 'c, 's) coordinator_state \<Rightarrow> bool) \<Rightarrow>
    ('hs, 'ts, comm_key) cipher \<Rightarrow> comm_key msg list \<Rightarrow> ('id, 'c, 's, 'hs, 'ts, 'w) coord_comms \<Rightarrow> bool" where
  "loop_progress E wanted progress c msgs s \<longleftrightarrow>
     (\<exists>c1. cipher_of s = Some c1 \<and> cipher_ok c1 \<and>
        (\<forall>pk. pk \<notin> msg_sender ` set msgs \<longrightarrow> fmlookup (recv_noise_map c1) pk = fmlookup (recv_noise_map c) pk)) \<and>
     (\<forall>pk. pk |\<in>| co_seen s \<longrightarrow> pk \<in> msg_sender ` set msgs) \<and>
     progress (opens_with (snow E) wanted c msgs) (co_seen s) (co_state s)"

lemma loop_progress_grows:
  assumes "cipher_of s = Some c2" and "cipher_ok c2"
    and "\<And>pk. pk \<notin> msg_sender ` set (msgs @ [msg]) \<Longrightarrow> fmlookup (recv_noise_map c2) pk = fmlookup (recv_noise_map c) pk"
    and "\<And>pk. pk |\<in>| co_seen s \<Longrightarrow> pk = msg_sender msg \<or> pk \<in> msg_sender ` set msgs"
    and "progress (opens_with (snow E) wanted c (msgs @ [msg])) (co_seen s) (co_state s)"
  shows "loop_progress E wanted progress c (msgs @ [msg]) s"
  using assms unfolding loop_progress_def by fastforce

text \<open>
  \<open>progress good seen st\<close>: in state \<open>st\<close>, having accepted a message of everybody in \<open>seen\<close>,
  the round has not missed what the participants in \<open>good\<close> sent. A message that is refused
  was not the one the round waits for.
\<close>

locale receiving_round =
  fixes C :: "('c, 's) coord_codec"
    and wanted :: "bytes \<Rightarrow> bool"
    and progress :: "(comm_key \<Rightarrow> bool) \<Rightarrow> comm_key fset \<Rightarrow> (comm_key, 'id, 'c, 's) coordinator_state \<Rightarrow> bool"
  assumes mono: "progress good seen st \<Longrightarrow> (\<And>pk. good' pk \<Longrightarrow> good pk) \<Longrightarrow> progress good' seen st"
    and accepted: "progress good seen st \<Longrightarrow> coord_recv C st m = (st', Ok ()) \<Longrightarrow> msg_sender m |\<notin>| seen \<Longrightarrow>
      progress (\<lambda>pk. good pk \<or> pk = msg_sender m) (finsert (msg_sender m) seen) st'"
    and refused: "progress good seen st \<Longrightarrow> coord_recv C st m = (st, Err e) \<Longrightarrow>
      (\<And>pk. good' pk \<Longrightarrow> good pk \<or> pk = msg_sender m \<and> wanted (msg_bytes m)) \<Longrightarrow> progress good' seen st"
begin

lemma progress_handle:
  fixes E :: "('c, 's, 'sp, 'hs, 'ts, 'se, 'w) coord_env" and s :: "('id, 'c, 's, 'hs, 'ts, 'w) coord_comms"
  assumes "snow_total (snow E)" and codec: "session_codec E = C"
    and "loop_progress E wanted progress c msgs s"
    and run: "coord_handle E msg s = (Some (Ok ()) :: ('se comms_error, unit) outcome option, s')"
  shows "loop_progress E wanted progress c (msgs @ [msg]) s'"
proof -
  from assms(3) obtain c1 where c1: "cipher_of s = Some c1" "cipher_ok c1"
    "\<And>pk. pk \<notin> msg_sender ` set msgs \<Longrightarrow> fmlookup (recv_noise_map c1) pk = fmlookup (recv_noise_map c) pk"
    and seen: "\<And>pk. pk |\<in>| co_seen s \<Longrightarrow> pk \<in> msg_sender ` set msgs"
    and progress: "progress (opens_with (snow E) wanted c msgs) (co_seen s) (co_state s)"
    unfolding loop_progress_def by blast
  show ?thesis
  proof (cases "msg_sender msg |\<in>| co_seen s")
    case True
    then have "s' = s" using run by (simp add: coord_handle_def)
    moreover have "progress (opens_with (snow E) wanted c (msgs @ [msg])) (co_seen s) (co_state s)"
      using mono[OF progress] opens_with_old[of "snow E" wanted c msgs msg] seen[OF True] by blast
    ultimately show ?thesis using c1 seen by (intro loop_progress_grows[of _ c1]) auto
  next
    case False
    obtain r c2 where d: "decrypt (snow E) c1 msg = (r, c2)" by (cases "decrypt (snow E) c1 msg")
    have c2: "r \<noteq> Panic" "cipher_ok c2" using decrypt_ok[OF assms(1) c1(2), of msg] d by simp_all
    have noise: "fmlookup (recv_noise_map c2) pk = fmlookup (recv_noise_map c) pk" if "pk \<notin> msg_sender ` set (msgs @ [msg])" for pk
      using that c1(3) decrypt_other_noise[of pk msg "snow E" c1] d by simp
    let ?t = "s\<lparr>cipher_of := Some c2\<rparr>"
    have step: "decrypt_step E msg s = (Some (map_err CipherErr r), ?t)" by (simp add: decrypt_step_def c1(1) d)
    have opens: "opens_with (snow E) wanted c msgs pk \<or> pk = msg_sender msg \<and> (\<exists>m. r = Ok m \<and> wanted (msg_bytes m))"
      if "opens_with (snow E) wanted c (msgs @ [msg]) pk" for pk
    proof -
      have "fst (decrypt (snow E) c msg) = r" if "msg_sender msg \<notin> msg_sender ` set msgs"
        using decrypt_same_noise[of c msg c1 "snow E"] c1(3)[OF that] d by simp
      with opens_with_snoc[OF that] show ?thesis by force
    qed
    have same: ?thesis if "s' = ?t" "progress (opens_with (snow E) wanted c (msgs @ [msg])) (co_seen s) (co_state s)"
      using that seen by (intro loop_progress_grows[OF _ c2(2) noise]) auto
    show ?thesis
    proof (cases r)
      case (Ok m)
      have sender: "msg_sender m = msg_sender msg" using d Ok decrypt_sender by metis
      obtain st r' where recv: "coord_recv C (co_state s) m = (st, r')" by (cases "coord_recv C (co_state s) m")
      note handle = coord_handle_def[of E msg s] False step Ok codec recv
      show ?thesis
      proof (cases r')
        case ok: (Ok u)
        then have s': "s' = ?t\<lparr>co_state := st, co_seen := finsert (msg_sender msg) (co_seen s)\<rparr>"
          using run by (simp add: handle split: unit.splits)
        have "progress (\<lambda>pk. opens_with (snow E) wanted c msgs pk \<or> pk = msg_sender msg) (finsert (msg_sender msg) (co_seen s)) st"
          using accepted[OF progress, of m st] recv ok False by (simp add: sender)
        then have "progress (opens_with (snow E) wanted c (msgs @ [msg])) (finsert (msg_sender msg) (co_seen s)) st"
          by (rule mono) (use opens in blast)
        then show ?thesis using seen by (intro loop_progress_grows[OF _ c2(2) noise]) (auto simp: s')
      next
        case (Err e)
        then have "st = co_state s" using recv coord_recv_Err by blast
        moreover have "progress (opens_with (snow E) wanted c (msgs @ [msg])) (co_seen s) (co_state s)"
          by (rule refused[OF progress, of m e]) (use recv Err calculation opens Ok sender in auto)
        ultimately show ?thesis using run Err by (intro same) (simp_all add: handle)
      next
        case Panic
        then show ?thesis using run by (simp add: handle)
      qed
    next
      case (Err e)
      have "progress (opens_with (snow E) wanted c (msgs @ [msg])) (co_seen s) (co_state s)"
        using opens Err by (intro mono[OF progress]) blast
      then show ?thesis using run False Err by (intro same) (simp_all add: coord_handle_def step)
    qed (use c2 in simp)
  qed
qed

lemma progress_messages:
  fixes E :: "('c, 's, 'sp, 'hs, 'ts, 'se, 'w) coord_env" and s :: "('id, 'c, 's, 'hs, 'ts, 'w) coord_comms"
  assumes "snow_total (snow E)" and "session_codec E = C" and "loop_progress E wanted progress c msgs s"
  shows "\<exists>s'. io_for (coord_handle E) ms s = (Some (Ok ()) :: ('se comms_error, unit) outcome option, s') \<and>
    loop_progress E wanted progress c (msgs @ ms) s' \<and> session_id s' = session_id s \<and> world s' = world s"
  using assms(3)
proof (induction ms arbitrary: msgs s)
  case (Cons m ms)
  have "has_cipher s" using Cons.prems unfolding loop_progress_def has_cipher_def by blast
  then obtain t where t: "coord_handle E m s = (Some (Ok ()) :: ('se comms_error, unit) outcome option, t)"
    "session_id t = session_id s" "world t = world s"
    using coord_handle_total[OF assms(1), of s m] by metis
  from Cons.IH[OF progress_handle[OF assms(1,2) Cons.prems t(1)]] t show ?case by simp
qed simp

lemma progress_poll:
  fixes E :: "('c, 's, 'sp, 'hs, 'ts, 'se, 'w) coord_env" and s :: "('id, 'c, 's, 'hs, 'ts, 'w) coord_comms"
  assumes "snow_total (snow E)" and "session_codec E = C"
    and server: "\<And>args w. \<exists>ms w'. srv_receive (srv E) args w = (Ok ms, w')"
    and "loop_progress E wanted progress c msgs s" and "session_id s = Some sid" and "0 < n"
    and enough: "\<And>seen st. progress (opens_with (snow E) wanted c (msgs @ delivered (srv E) True sid n (world s))) seen st \<Longrightarrow> finished st"
  shows "\<exists>s' msgs'. io_poll n (coord_batch E) (\<lambda>s. finished (co_state s)) s = (Some (Ok ()), s') \<and>
    progress (opens_with (snow E) wanted c msgs') (co_seen s') (co_state s') \<and> finished (co_state s')"
  using assms(4-)
proof (induction n arbitrary: msgs s)
  case (Suc n)
  obtain ms w' where recv: "srv_receive (srv E) \<lparr>receive_session_id = sid, as_coordinator = True\<rparr> (world s) = (Ok ms, w')"
    using server by blast
  have "loop_progress E wanted progress c msgs (s\<lparr>world := w'\<rparr>)"
    using Suc.prems(1) unfolding loop_progress_def by simp
  from progress_messages[OF assms(1,2) this, of ms] obtain t where
    t: "io_for (coord_handle E) ms (s\<lparr>world := w'\<rparr>) = (Some (Ok ()) :: ('se comms_error, unit) outcome option, t)"
      "loop_progress E wanted progress c (msgs @ ms) t" "session_id t = Some sid" "world t = w'"
    using Suc.prems(2) by auto
  have batch: "coord_batch E s = (Some (Ok ()), t)"
    using t(1) recv Suc.prems(2) by (simp add: coord_batch_def receive_step_def the_session_def io_bind_def ask_def)
  have now: "progress (opens_with (snow E) wanted c (msgs @ ms)) (co_seen t) (co_state t)"
    using t(2) unfolding loop_progress_def by blast
  show ?case
  proof (cases "finished (co_state t)")
    case True
    then show ?thesis using now by (auto simp: batch)
  next
    case False
    have "0 < n" using Suc.prems(4)[of "co_seen t" "co_state t"] False now recv by (cases n) auto
    moreover have "finished st" if "progress (opens_with (snow E) wanted c ((msgs @ ms) @ delivered (srv E) True sid n (world t))) seen st" for seen st
      using that Suc.prems(4)[of seen st] recv t(4) by simp
    ultimately show ?thesis using Suc.IH[OF t(2,3)] False by (simp add: batch)
  qed
qed simp

lemma round_returns:
  fixes E :: "('c, 's, 'sp, 'hs, 'ts, 'se, 'w) coord_env" and s :: "('id, 'c, 's, 'hs, 'ts, 'w) coord_comms"
  assumes "snow_total (snow E)" and "session_codec E = C"
    and "\<And>args w. \<exists>ms w'. srv_receive (srv E) args w = (Ok ms, w')"
    and "cipher_of s = Some c" and "cipher_ok c" and "session_id s = Some sid"
    and start: "progress (\<lambda>pk. False) {||} (co_state s)" and "0 < n"
    and enough: "\<And>seen st. progress (opens_with (snow E) wanted c (delivered (srv E) True sid n (world s))) seen st \<Longrightarrow> finished st"
  shows "\<exists>good seen s'. coord_receive_until E n finished s = (Some (Ok ()), s') \<and>
    progress good seen (co_state s') \<and> finished (co_state s')"
proof -
  let ?s = "s\<lparr>co_seen := {||}\<rparr>"
  have "progress (opens_with (snow E) wanted c []) {||} (co_state s)" by (rule mono[OF start]) simp
  then have "loop_progress E wanted progress c [] ?s"
    using assms(4,5) unfolding loop_progress_def by auto
  from progress_poll[OF assms(1-3) this _ assms(8), of sid finished] assms(6) enough
  show ?thesis by (fastforce simp: coord_receive_until_def io_bind_simps)
qed

end

section \<open>The two rounds of the session\<close>

abbreviation one_message :: "nat \<Rightarrow> coord_args" where
  "one_message k \<equiv> \<lparr>num_messages = 1, num_signers = k\<rparr>"

text \<open>
  Participants in \<open>good\<close> have their entry as long as commitments are collected; everybody with an
  entry is in the set of accepted senders, which is why no share is taken for early.
\<close>

definition session_with ::
  "nat \<Rightarrow> (comm_key, 'id) hash_map \<Rightarrow> (comm_key \<Rightarrow> bool) \<Rightarrow> comm_key fset \<Rightarrow> ('id, 'c list) hash_map \<Rightarrow>
    (comm_key, 'id, 'c, 's) coordinator_state \<Rightarrow> bool" where
  "session_with k signers good seen cs st \<longleftrightarrow>
     (st = WaitingForCommitments (one_message k) cs signers \<and> map_len cs < k \<and>
        (\<forall>pk id. fmlookup signers pk = Some id \<longrightarrow> good pk \<longrightarrow> id |\<in>| fmdom cs) \<or>
      st = WaitingForSignatureShares (one_message k) cs signers fmempty \<and> map_len cs = k) \<and>
     (\<forall>pk id. fmlookup signers pk = Some id \<longrightarrow> id |\<in>| fmdom cs \<longrightarrow> pk |\<in>| seen)"

lemma session_with_cases:
  assumes "session_with k signers good seen cs st"
  obtains (committing) "st = WaitingForCommitments (one_message k) cs signers" "map_len cs < k"
      "\<And>pk id. fmlookup signers pk = Some id \<Longrightarrow> good pk \<Longrightarrow> id |\<in>| fmdom cs"
      "\<And>pk id. fmlookup signers pk = Some id \<Longrightarrow> id |\<in>| fmdom cs \<Longrightarrow> pk |\<in>| seen"
  | (sharing) "st = WaitingForSignatureShares (one_message k) cs signers fmempty" "map_len cs = k"
      "\<And>pk id. fmlookup signers pk = Some id \<Longrightarrow> id |\<in>| fmdom cs \<Longrightarrow> pk |\<in>| seen"
  using assms unfolding session_with_def by blast

lemma session_with_mono:
  "session_with k signers good seen cs st \<Longrightarrow> (\<And>pk. good' pk \<Longrightarrow> good pk) \<Longrightarrow> session_with k signers good' seen cs st"
  unfolding session_with_def by meson

lemma session_with_Ok:
  assumes "session_with k signers good seen cs st" and "coord_recv C st m = (st', Ok u)"
    and "msg_sender m |\<notin>| seen"
    and inj: "distinct_ids signers"
  shows "\<exists>cs'. session_with k signers (\<lambda>pk. good pk \<or> pk = msg_sender m) (finsert (msg_sender m) seen) cs' st'"
  using assms(1)
proof (cases rule: session_with_cases)
  case committing
  from assms(2) committing(1) obtain xs id where id: "fmlookup signers (msg_sender m) = Some id"
    and st': "st' = (if map_len (fmupd id xs cs) = k then WaitingForSignatureShares (one_message k) (fmupd id xs cs) signers fmempty
      else WaitingForCommitments (one_message k) (fmupd id xs cs) signers)"
    by (auto simp: Let_def split: option.splits if_splits)
  have "pk |\<in>| finsert (msg_sender m) seen" if "fmlookup signers pk = Some i" "i |\<in>| fmdom (fmupd id xs cs)" for pk i
    using that id committing(4) inj unfolding distinct_ids_def by (metis fmlookup_dom_iff fmupd_lookup finsert_iff)
  moreover have "i |\<in>| fmdom (fmupd id xs cs)" if "fmlookup signers pk = Some i" "good pk \<or> pk = msg_sender m" for pk i
    using that committing(3) id by auto
  moreover have "map_len (fmupd id xs cs) \<le> k" using committing(2) by (auto simp: fcard_finsert_if)
  ultimately show ?thesis unfolding session_with_def st'
    by (intro exI[of _ "fmupd id xs cs"]) (auto simp del: fmdom_fmupd)
next
  case sharing
  with assms(2) have "msg_sender m |\<in>| seen" by (auto simp: Let_def split: option.splits if_splits)
  with assms(3) show ?thesis by simp
qed

lemma session_with_Err:
  assumes "session_with k signers good seen cs st" and "coord_recv C st m = (st', Err e)"
    and "\<And>pk. good' pk \<Longrightarrow> good pk \<or> pk = msg_sender m \<and> (\<exists>x. decode_commitments C (msg_bytes m) = Some [x])"
  shows "session_with k signers good' seen cs st"
  using assms(1)
proof (cases rule: session_with_cases)
  case committing
  have "good pk" if "fmlookup signers pk = Some id" "good' pk" for pk id
    using assms(3)[OF that(2)] that(1) assms(2) committing(1) by (auto simp: Let_def split: if_splits)
  with committing show ?thesis unfolding session_with_def by blast
qed (auto simp: session_with_def)

definition commit_progress ::
  "nat \<Rightarrow> (comm_key, 'id) hash_map \<Rightarrow> (comm_key \<Rightarrow> bool) \<Rightarrow> comm_key fset \<Rightarrow> (comm_key, 'id, 'c, 's) coordinator_state \<Rightarrow> bool" where
  "commit_progress k signers good seen st \<longleftrightarrow> distinct_ids signers \<and> (\<exists>cs. session_with k signers good seen cs st)"

interpretation commit_loop: receiving_round C "one_commitment C" "commit_progress k signers"
  for C :: "('c, 's) coord_codec" and k and signers :: "(comm_key, 'id) hash_map"
proof
  fix good good' :: "comm_key \<Rightarrow> bool" and seen and st :: "(comm_key, 'id, 'c, 's) coordinator_state"
  assume "commit_progress k signers good seen st" and "\<And>pk. good' pk \<Longrightarrow> good pk"
  then show "commit_progress k signers good' seen st" unfolding commit_progress_def using session_with_mono by blast
next
  fix good seen and st st' :: "(comm_key, 'id, 'c, 's) coordinator_state" and m
  assume "commit_progress k signers good seen st" and "coord_recv C st m = (st', Ok ())" and "msg_sender m |\<notin>| seen"
  then show "commit_progress k signers (\<lambda>pk. good pk \<or> pk = msg_sender m) (finsert (msg_sender m) seen) st'"
    unfolding commit_progress_def using session_with_Ok by blast
next
  fix good good' :: "comm_key \<Rightarrow> bool" and seen and st :: "(comm_key, 'id, 'c, 's) coordinator_state" and m e
  assume "commit_progress k signers good seen st" and "coord_recv C st m = (st, Err e)"
    and "\<And>pk. good' pk \<Longrightarrow> good pk \<or> pk = msg_sender m \<and> one_commitment C (msg_bytes m)"
  then show "commit_progress k signers good' seen st"
    unfolding commit_progress_def one_commitment_def using session_with_Err by blast
qed

text \<open>In the second round nothing depends on who was accepted before.\<close>

definition share_progress ::
  "nat \<Rightarrow> ('id, 'c list) hash_map \<Rightarrow> (comm_key, 'id) hash_map \<Rightarrow> (comm_key \<Rightarrow> bool) \<Rightarrow> comm_key fset \<Rightarrow>
    (comm_key, 'id, 'c, 's) coordinator_state \<Rightarrow> bool" where
  "share_progress k cs signers good seen st \<longleftrightarrow>
     (\<exists>ss. st = SignatureSharesReady (one_message k) ss \<and> fmdom ss = fmdom cs \<or>
       st = WaitingForSignatureShares (one_message k) cs signers ss \<and> fmdom ss |\<subset>| fmdom cs \<and>
       (\<forall>pk id. fmlookup signers pk = Some id \<longrightarrow> id |\<in>| fmdom cs \<longrightarrow> good pk \<longrightarrow> id |\<in>| fmdom ss))"

lemma share_progress_cases:
  assumes "share_progress k cs signers good seen st"
  obtains (ready) ss where "st = SignatureSharesReady (one_message k) ss" "fmdom ss = fmdom cs"
  | (waiting) ss where "st = WaitingForSignatureShares (one_message k) cs signers ss" "fmdom ss |\<subset>| fmdom cs"
      "\<And>pk id. fmlookup signers pk = Some id \<Longrightarrow> id |\<in>| fmdom cs \<Longrightarrow> good pk \<Longrightarrow> id |\<in>| fmdom ss"
  using assms unfolding share_progress_def by blast

interpretation share_loop: receiving_round C "one_share C" "share_progress k cs signers"
  for C :: "('c, 's) coord_codec" and k and cs :: "('id, 'c list) hash_map" and signers
proof
  fix good good' :: "comm_key \<Rightarrow> bool" and seen and st :: "(comm_key, 'id, 'c, 's) coordinator_state"
  assume "share_progress k cs signers good seen st" and "\<And>pk. good' pk \<Longrightarrow> good pk"
  then show "share_progress k cs signers good' seen st"
    by (cases rule: share_progress_cases) (unfold share_progress_def, blast+)
next
  fix good seen and st st' :: "(comm_key, 'id, 'c, 's) coordinator_state" and m
  assume "share_progress k cs signers good seen st" and recv: "coord_recv C st m = (st', Ok ())"
  then show "share_progress k cs signers (\<lambda>pk. good pk \<or> pk = msg_sender m) (finsert (msg_sender m) seen) st'"
  proof (cases rule: share_progress_cases)
    case (waiting ss)
    from recv waiting(1) obtain xs where xs: "decode_shares C (msg_bytes m) = Some xs" by (auto split: option.splits)
    from recv waiting(1) xs obtain id where id: "fmlookup signers (msg_sender m) = Some id" "id |\<in>| fmdom cs"
      and len: "length xs = 1"
      by (simp add: Let_def split: option.splits if_splits)
    have st': "st' = (if fmdom (fmupd id xs ss) = fmdom cs then SignatureSharesReady (one_message k) (fmupd id xs ss)
        else WaitingForSignatureShares (one_message k) cs signers (fmupd id xs ss))"
      using recv xs id len unfolding waiting(1) by (simp add: Let_def split: if_splits)
    have "fmdom (fmupd id xs ss) |\<subseteq>| fmdom cs" using waiting(2) id(2) by auto
    moreover have "i |\<in>| fmdom (fmupd id xs ss)" if "fmlookup signers pk = Some i" "i |\<in>| fmdom cs" "good pk \<or> pk = msg_sender m" for pk i
      using that waiting(3) id by auto
    ultimately show ?thesis unfolding share_progress_def st'
      by (intro exI[of _ "fmupd id xs ss"]) (auto simp del: fmdom_fmupd)
  qed simp
next
  fix good good' :: "comm_key \<Rightarrow> bool" and seen and st :: "(comm_key, 'id, 'c, 's) coordinator_state" and m e
  assume "share_progress k cs signers good seen st" and recv: "coord_recv C st m = (st, Err e)"
    and grows: "\<And>pk. good' pk \<Longrightarrow> good pk \<or> pk = msg_sender m \<and> one_share C (msg_bytes m)"
  then show "share_progress k cs signers good' seen st"
  proof (cases rule: share_progress_cases)
    case (waiting ss)
    have "good pk" if "fmlookup signers pk = Some id" "id |\<in>| fmdom cs" "good' pk" for pk id
      using grows[OF that(3)] that(1,2) recv waiting(1) by (auto simp: one_share_def Let_def split: if_splits)
    with waiting show ?thesis unfolding share_progress_def by blast
  qed (auto simp: share_progress_def)
qed

section \<open>The loops end\<close>

lemma commitments_loop_lemma:
  fixes E :: "('c, 's, 'sp, 'hs, 'ts, 'se, 'w) coord_env" and s :: "('id, 'c, 's, 'hs, 'ts, 'w) coord_comms"
  assumes "snow_total (snow E)" and "cipher_of s = Some c" and "cipher_ok c" and "session_id s = Some sid"
    and server: "\<And>args w. \<exists>ms w'. srv_receive (srv E) args w = (Ok ms, w')"
    and "co_state s = coordinator_new 1 k signers" and "0 < k" and "k \<le> fcard ids"
    and "distinct_ids signers"
    and sent: "\<And>id. id |\<in>| ids \<Longrightarrow> \<exists>pk. fmlookup signers pk = Some id \<and>
      opens_with (snow E) (one_commitment (session_codec E)) c (delivered (srv E) True sid n (world s)) pk"
  shows "\<exists>cs s'. coord_receive_until E n has_commitments s = (Some (Ok ()), s') \<and>
    co_state s' = WaitingForSignatureShares (one_message k) cs signers fmempty \<and> map_len cs = k"
proof -
  let ?C = "session_codec E"
  have start: "commit_progress k signers (\<lambda>pk. False) {||} (co_state s)"
    using assms(6,7,9) by (auto simp: commit_progress_def session_with_def coordinator_new_def fcard.rep_eq intro!: exI[of _ fmempty])
  have "ids \<noteq> {||}" using assms(7,8) by (auto simp: fcard.rep_eq)
  then have "0 < n" using sent by (cases n) auto
  have enough: "has_commitments st"
    if "commit_progress k signers (opens_with (snow E) (one_commitment ?C) c (delivered (srv E) True sid n (world s))) seen st"
    for seen and st :: "(comm_key, 'id, 'c, 's) coordinator_state"
  proof -
    from that obtain cs where
      "session_with k signers (opens_with (snow E) (one_commitment ?C) c (delivered (srv E) True sid n (world s))) seen cs st"
      unfolding commit_progress_def by blast
    then show ?thesis
    proof (cases rule: session_with_cases)
      case committing
      have "ids |\<subseteq>| fmdom cs" using sent committing(3) by blast
      then have "k \<le> map_len cs" using assms(8) fcard_mono le_trans by blast
      with committing(2) show ?thesis by simp
    qed simp
  qed
  from commit_loop.round_returns[OF assms(1) refl server assms(2-4) start \<open>0 < n\<close>, of has_commitments] enough
  obtain good seen s' where run: "coord_receive_until E n has_commitments s = (Some (Ok ()), s')"
    "commit_progress k signers good seen (co_state s')" "has_commitments (co_state s')" by blast
  from run(2) obtain cs where "session_with k signers good seen cs (co_state s')" unfolding commit_progress_def by blast
  then have "co_state s' = WaitingForSignatureShares (one_message k) cs signers fmempty \<and> map_len cs = k"
    using run(3) by (cases rule: session_with_cases) auto
  then show ?thesis using run(1) by blast
qed

lemma shares_loop_lemma:
  fixes E :: "('c, 's, 'sp, 'hs, 'ts, 'se, 'w) coord_env" and s :: "('id, 'c, 's, 'hs, 'ts, 'w) coord_comms"
  assumes "snow_total (snow E)" and "cipher_of s = Some c" and "cipher_ok c" and "session_id s = Some sid"
    and server: "\<And>args w. \<exists>ms w'. srv_receive (srv E) args w = (Ok ms, w')"
    and "co_state s = WaitingForSignatureShares (one_message k) cs signers fmempty" and "cs \<noteq> fmempty"
    and sent: "\<And>id. id |\<in>| fmdom cs \<Longrightarrow> \<exists>pk. fmlookup signers pk = Some id \<and>
      opens_with (snow E) (one_share (session_codec E)) c (delivered (srv E) True sid n (world s)) pk"
  shows "\<exists>ss s'. coord_receive_until E n has_signature_shares s = (Some (Ok ()), s') \<and>
    co_state s' = SignatureSharesReady (one_message k) ss \<and> fmdom ss = fmdom cs"
proof -
  let ?C = "session_codec E"
  have empty: "fmdom fmempty |\<subset>| fmdom cs" using assms(7) by (rule fmdom_psubset)
  have start: "share_progress k cs signers (\<lambda>pk. False) {||} (co_state s)"
    using empty assms(6) by (auto simp: share_progress_def)
  have "0 < n" using sent empty by (cases n) auto
  have enough: "has_signature_shares st"
    if "share_progress k cs signers (opens_with (snow E) (one_share ?C) c (delivered (srv E) True sid n (world s))) seen st"
    for seen and st :: "(comm_key, 'id, 'c, 's) coordinator_state"
    using that
  proof (cases rule: share_progress_cases)
    case (waiting ss)
    have "fmdom cs |\<subseteq>| fmdom ss" using sent waiting(3) by blast
    with waiting(2) show ?thesis by blast
  qed simp
  from share_loop.round_returns[OF assms(1) refl server assms(2-4) start \<open>0 < n\<close>, of has_signature_shares] enough
  obtain good seen s' where run: "coord_receive_until E n has_signature_shares s = (Some (Ok ()), s')"
    "share_progress k cs signers good seen (co_state s')" "has_signature_shares (co_state s')" by blast
  from run(2) obtain ss where "co_state s' = SignatureSharesReady (one_message k) ss \<and> fmdom ss = fmdom cs"
    using run(3) by (cases rule: share_progress_cases) auto
  then show ?thesis using run(1) by blast
qed

text \<open>
  C9: the coordinator's wait for commitments ends: if within \<open>n\<close> batches the first message of
  enough participants carries their commitments, the loop returns within \<open>n\<close> rounds, with exactly
  the configured number of commitments and without having taken a share for early, whatever
  other messages the server delivers in between.
\<close>

theorem commitments_loop_returns:
  fixes E :: "('c, 's, 'sp, 'hs, 'ts, 'se, 'w) coord_env" and s :: "('id, 'c, 's, 'hs, 'ts, 'w) coord_comms"
  assumes "snow_total (snow E)" and "cipher_of s = Some c" and "cipher_ok c" and "session_id s = Some sid"
    and "\<And>args w. \<exists>ms w'. srv_receive (srv E) args w = (Ok ms, w')"
    and "co_state s = coordinator_new 1 k signers" and "0 < k" and "k \<le> fcard ids"
    and "distinct_ids signers"
    and "\<And>id. id |\<in>| ids \<Longrightarrow> \<exists>pk. fmlookup signers pk = Some id \<and>
      opens_with (snow E) (one_commitment (session_codec E)) c (delivered (srv E) True sid n (world s)) pk"
  shows "\<exists>cs s'. coord_receive_until E n has_commitments s = (Some (Ok ()), s') \<and>
    co_state s' = WaitingForSignatureShares (one_message k) cs signers fmempty \<and> map_len cs = k"
  by (rule commitments_loop_lemma[OF assms])

text \<open>
  C10: the coordinator's wait for signature shares ends: if within \<open>n\<close> batches the first message of
  every participant with commitments carries its share, the loop returns within \<open>n\<close> rounds with one
  entry of each of them, whatever other messages the server delivers in between.
\<close>

theorem shares_loop_returns:
  fixes E :: "('c, 's, 'sp, 'hs, 'ts, 'se, 'w) coord_env" and s :: "('id, 'c, 's, 'hs, 'ts, 'w) coord_comms"
  assumes "snow_total (snow E)" and "cipher_of s = Some c" and "cipher_ok c" and "session_id s = Some sid"
    and "\<And>args w. \<exists>ms w'. srv_receive (srv E) args w = (Ok ms, w')"
    and "co_state s = WaitingForSignatureShares (one_message k) cs signers fmempty" and "cs \<noteq> fmempty"
    and "\<And>id. id |\<in>| fmdom cs \<Longrightarrow> \<exists>pk. fmlookup signers pk = Some id \<and>
      opens_with (snow E) (one_share (session_codec E)) c (delivered (srv E) True sid n (world s)) pk"
  shows "\<exists>ss s'. coord_receive_until E n has_signature_shares s = (Some (Ok ()), s') \<and>
    co_state s' = SignatureSharesReady (one_message k) ss \<and> fmdom ss = fmdom cs"
  by (rule shares_loop_lemma[OF assms])

section \<open>Runs with a stranger\<close>

definition stranger_msg :: "comm_key msg" where
  "stranger_msg = \<lparr>msg_sender = [9], msg_bytes = [4]\<rparr>"

text \<open>A stranger's message arrives before that of the only signer, in another batch.\<close>

definition progress_env :: "(bytes, bytes, (nat, bytes) fmap \<times> bytes, unit, unit, unit, nat) coord_env" where
  "progress_env = coord_demo [[stranger_msg], [commitment_msg, share_msg], [stranger_msg], [share_msg]]"

definition progress_start :: "nat \<Rightarrow> (nat, bytes, bytes, unit, unit, nat) coord_comms" where
  "progress_start w = (coord_comms_new coord_demo_config w)\<lparr>session_id := Some [7], cipher_of := Some (plain_cipher [[2]])\<rparr>"

lemma progress_env_facts:
  "snow_total (snow progress_env)" "\<exists>ms w'. srv_receive (srv progress_env) args w = (Ok ms, w')"
  "cipher_of (progress_start w) = Some (plain_cipher [[2]])" "session_id (progress_start w) = Some [7]"
  "world (progress_start w) = w" "co_state (progress_start w) = coordinator_new 1 1 (fmupd [2] 20 fmempty)"
  by (simp_all add: progress_env_def progress_start_def coord_demo_def demo_server_def snow_plain_total coord_comms_new_def
      coord_demo_config_def)

lemma progress_opens:
  "opens_with (snow progress_env) (one_commitment (session_codec progress_env)) (plain_cipher [[2]]) (delivered (srv progress_env) True [7] 2 0) [2]"
  "opens_with (snow progress_env) (one_share (session_codec progress_env)) (plain_cipher [[2]]) (delivered (srv progress_env) True [7] 2 2) [2]"
  by (simp_all add: opens_with_def one_commitment_def one_share_def progress_env_def coord_demo_defs eval_nat_numeral step_eval
      plain_cipher_def stranger_msg_def commitment_msg_def share_msg_def outcome_simps)

lemma commitments_loop_returns_witness:
  "\<exists>cs s'. coord_receive_until progress_env 2 has_commitments (progress_start 0) = (Some (Ok ()), s') \<and>
    co_state s' = WaitingForSignatureShares (one_message 1) cs (fmupd [2] 20 fmempty) fmempty \<and> map_len cs = 1"
proof (rule commitments_loop_returns[where ids = "{|20|}" and c = "plain_cipher [[2]]" and sid = "[7]"])
  fix id :: nat
  assume "id |\<in>| {|20|}"
  then show "\<exists>pk. fmlookup (fmupd [2] 20 fmempty) pk = Some id \<and>
      opens_with (snow progress_env) (one_commitment (session_codec progress_env)) (plain_cipher [[2]])
        (delivered (srv progress_env) True [7] 2 (world (progress_start 0))) pk"
    using progress_opens(1) by (intro exI[of _ "[2]"]) (simp add: progress_env_facts(5))
qed (simp_all add: progress_env_facts plain_cipher_ok fcard.rep_eq distinct_ids_def)

lemma shares_loop_returns_witness:
  "\<exists>ss s'. coord_receive_until progress_env 2 has_signature_shares
      ((progress_start 2)\<lparr>co_state := WaitingForSignatureShares (one_message 1) (fmupd 20 [[4]] fmempty) (fmupd [2] 20 fmempty) fmempty\<rparr>) =
      (Some (Ok ()), s') \<and>
    co_state s' = SignatureSharesReady (one_message 1) ss \<and> fmdom ss = {|20|}"
proof -
  let ?s = "(progress_start 2)\<lparr>co_state := WaitingForSignatureShares (one_message 1) (fmupd 20 [[4]] fmempty) (fmupd [2] 20 fmempty) fmempty\<rparr>"
  have sent: "\<exists>pk. fmlookup (fmupd [2] 20 fmempty) pk = Some id \<and>
      opens_with (snow progress_env) (one_share (session_codec progress_env)) (plain_cipher [[2]])
        (delivered (srv progress_env) True [7] 2 (world ?s)) pk" if "id |\<in>| fmdom (fmupd 20 [[4]] fmempty)" for id :: nat
    using progress_opens(2) that by (intro exI[of _ "[2]"]) (simp add: progress_env_facts(5))
  have "fmupd 20 [[4]] fmempty \<noteq> (fmempty :: (nat, bytes list) fmap)" by (metis fmdom_empty fmdom_fmupd finsert_not_fempty)
  from shares_loop_returns[OF progress_env_facts(1) _ plain_cipher_ok _ progress_env_facts(2) _ this sent]
  show ?thesis by (simp add: progress_env_facts)
qed

end
