(* ===== verification/Dkg_Session.thy ===== *)
theory Dkg_Session
  imports Collector
begin

text \<open>
  A participant's side of a distributed key generation: \<open>DKGSessionState\<close> of
  \<^verbatim>\<open>mina-frost-client/src/session.rs\<close>, with its echo broadcast of the round-1 packages.
  Keys, identifiers and packages are abstract types; decoding is a record of functions.
\<close>

section \<open>States\<close>

datatype ('pk, 'id, 'p1, 'p2) dkg_state =
    WaitingForRound1Packages "('pk, 'id) hash_map" "('id, 'p1) hash_map"
  | WaitingForRound1PackagesBroadcast "('pk, 'id) hash_map" "('id, 'p1) hash_map"
      "('id, ('id, 'p1) hash_map) hash_map"
  | WaitingForRound2Packages "('pk, 'id) hash_map" "('id, 'p1) hash_map" "('id, 'p2) hash_map"
  | Round2PackagesReady "('pk, 'id) hash_map" "('id, 'p2) hash_map"

record ('id, 'p1, 'p2) dkg_codec =
  decode_round1 :: "bytes \<Rightarrow> 'p1 option"
  decode_echo :: "bytes \<Rightarrow> ('id \<times> 'p1) option"
  decode_round2 :: "bytes \<Rightarrow> 'p2 option"

definition dkg_default :: "('pk, 'id, 'p1, 'p2) dkg_state" where
  "dkg_default = WaitingForRound1Packages fmempty fmempty"

section \<open>Handlers\<close>

fun handle_round1_package ::
  "('pk, 'id, 'p1, 'p2) dkg_state \<Rightarrow> 'pk \<Rightarrow> 'p1 \<Rightarrow> ('pk, 'id, 'p1, 'p2) dkg_state \<times> (session_error, unit) outcome" where
  "handle_round1_package (WaitingForRound1Packages pubkeys round1_packages) pubkey round1_package =
     (case fmlookup pubkeys pubkey of
        None \<Rightarrow> (WaitingForRound1Packages pubkeys round1_packages, Err (Eyre (lit ''unknown participant'')))
      | Some identifier \<Rightarrow>
          (let round1_packages = fmupd identifier round1_package round1_packages in
           if map_len round1_packages = map_len pubkeys - 1
           then if map_len pubkeys > 2
                then (WaitingForRound1PackagesBroadcast pubkeys round1_packages fmempty, Ok ())
                else (WaitingForRound2Packages pubkeys round1_packages fmempty, Ok ())
           else (WaitingForRound1Packages pubkeys round1_packages, Ok ())))"
| "handle_round1_package st pubkey round1_package = (st, Panic)"

text \<open>\<open>entry(o).or_insert_with(new).insert(s, p)\<close> and whether it replaced an entry.\<close>

definition echo_map :: "('id, ('id, 'p1) hash_map) hash_map \<Rightarrow> 'id \<Rightarrow> ('id, 'p1) hash_map" where
  "echo_map broadcasted original = (case fmlookup broadcasted original of Some m \<Rightarrow> m | None \<Rightarrow> fmempty)"

definition insert_echo :: "('id, ('id, 'p1) hash_map) hash_map \<Rightarrow> 'id \<Rightarrow> 'id \<Rightarrow> 'p1 \<Rightarrow>
    ('id, ('id, 'p1) hash_map) hash_map" where
  "insert_echo broadcasted original sender package =
     fmupd original (fmupd sender package (echo_map broadcasted original)) broadcasted"

definition echoes_complete :: "('id, 'p1) hash_map \<Rightarrow> ('id, ('id, 'p1) hash_map) hash_map \<Rightarrow> bool" where
  "echoes_complete round1_packages broadcasted \<longleftrightarrow>
     (let other_identifiers = fmdom round1_packages in
      fmdom broadcasted = other_identifiers \<and>
      fmpred (\<lambda>original m. finsert original (fmdom m) = other_identifiers \<and>
        fmpred (\<lambda>_ package. Some package = fmlookup round1_packages original) m) broadcasted)"

fun handle_round1_package_broadcast ::
  "('pk, 'id, 'p1, 'p2) dkg_state \<Rightarrow> 'pk \<Rightarrow> 'id \<Rightarrow> 'id \<Rightarrow> 'p1 \<Rightarrow>
    ('pk, 'id, 'p1, 'p2) dkg_state \<times> (session_error, unit) outcome" where
  "handle_round1_package_broadcast (WaitingForRound1PackagesBroadcast pubkeys round1_packages broadcasted)
     sender_pubkey self_identifier original_identifier round1_package =
     (let st = WaitingForRound1PackagesBroadcast pubkeys round1_packages broadcasted in
      case fmlookup pubkeys sender_pubkey of
        None \<Rightarrow> (st, Err (Eyre (lit ''unknown participant'')))
      | Some sender_identifier \<Rightarrow>
          if original_identifier |\<notin>| fmran pubkeys then (st, Err (Eyre (lit ''unknown participant'')))
          else if original_identifier = self_identifier
          then (st, Err (Eyre (lit ''received own broadcast Round 1 Package'')))
          else if original_identifier = sender_identifier
          then (st, Err (Eyre (lit ''received redundant broadcast Round 1 Package'')))
          else case fmlookup round1_packages original_identifier of
            None \<Rightarrow> (st, Err (Eyre (lit ''Round 1 Package not found'')))
          | Some original_package \<Rightarrow>
              if original_package \<noteq> round1_package then (st, Err (Eyre (lit ''broadcast mismatch'')))
              else (let replaced = (fmlookup (echo_map broadcasted original_identifier) sender_identifier \<noteq> None);
                        broadcasted = insert_echo broadcasted original_identifier sender_identifier round1_package
                    in if replaced
                       then (WaitingForRound1PackagesBroadcast pubkeys round1_packages broadcasted,
                             Err (Eyre (lit ''duplicated broadcast Round 1 Package'')))
                       else if echoes_complete round1_packages broadcasted
                       then (WaitingForRound2Packages pubkeys round1_packages fmempty, Ok ())
                       else (WaitingForRound1PackagesBroadcast pubkeys round1_packages broadcasted, Ok ())))"
| "handle_round1_package_broadcast st sender_pubkey self_identifier original_identifier round1_package = (st, Panic)"

fun handle_round2_package ::
  "('pk, 'id, 'p1, 'p2) dkg_state \<Rightarrow> 'pk \<Rightarrow> 'p2 \<Rightarrow> ('pk, 'id, 'p1, 'p2) dkg_state \<times> (session_error, unit) outcome" where
  "handle_round2_package (WaitingForRound2Packages pubkeys round1_packages round2_packages) pubkey round2_package =
     (let st = WaitingForRound2Packages pubkeys round1_packages round2_packages in
      case fmlookup pubkeys pubkey of
        None \<Rightarrow> (st, Err (Eyre (lit ''unknown participant'')))
      | Some identifier \<Rightarrow>
          if identifier |\<notin>| fmdom round1_packages then (st, Err (Eyre (lit ''unkown participant'')))
          else (let round2_packages = fmupd identifier round2_package round2_packages in
                if fmdom round2_packages = fmdom round1_packages
                then (Round2PackagesReady pubkeys round2_packages, Ok ())
                else (WaitingForRound2Packages pubkeys round1_packages round2_packages, Ok ())))"
| "handle_round2_package st pubkey round2_package = (st, Panic)"

fun dkg_recv ::
  "('id, 'p1, 'p2) dkg_codec \<Rightarrow> 'id \<Rightarrow> ('pk, 'id, 'p1, 'p2) dkg_state \<Rightarrow> 'pk msg \<Rightarrow>
    ('pk, 'id, 'p1, 'p2) dkg_state \<times> (session_error, unit) outcome" where
  "dkg_recv C self_identifier (WaitingForRound1Packages pubkeys r1) msg =
     (case decode_round1 C (msg_bytes msg) of
        None \<Rightarrow> (WaitingForRound1Packages pubkeys r1, Err Serde)
      | Some p \<Rightarrow> handle_round1_package (WaitingForRound1Packages pubkeys r1) (msg_sender msg) p)"
| "dkg_recv C self_identifier (WaitingForRound1PackagesBroadcast pubkeys r1 bc) msg =
     (case decode_echo C (msg_bytes msg) of
        None \<Rightarrow> (WaitingForRound1PackagesBroadcast pubkeys r1 bc, Err Serde)
      | Some (original, p) \<Rightarrow>
          handle_round1_package_broadcast (WaitingForRound1PackagesBroadcast pubkeys r1 bc)
            (msg_sender msg) self_identifier original p)"
| "dkg_recv C self_identifier (WaitingForRound2Packages pubkeys r1 r2) msg =
     (case decode_round2 C (msg_bytes msg) of
        None \<Rightarrow> (WaitingForRound2Packages pubkeys r1 r2, Err Serde)
      | Some p \<Rightarrow> handle_round2_package (WaitingForRound2Packages pubkeys r1 r2) (msg_sender msg) p)"
| "dkg_recv C self_identifier (Round2PackagesReady pubkeys r2) msg =
     (Round2PackagesReady pubkeys r2, Err (Eyre (lit ''received message during wrong state'')))"

fun has_round1_packages :: "('pk, 'id, 'p1, 'p2) dkg_state \<Rightarrow> bool" where
  "has_round1_packages (WaitingForRound1PackagesBroadcast _ _ _) = True"
| "has_round1_packages (WaitingForRound2Packages _ _ _) = True"
| "has_round1_packages _ = False"

fun session_round1_packages :: "('pk, 'id, 'p1, 'p2) dkg_state \<Rightarrow> (session_error, ('id, 'p1) hash_map) outcome" where
  "session_round1_packages (WaitingForRound2Packages _ r1 _) = Ok r1"
| "session_round1_packages (WaitingForRound1PackagesBroadcast _ r1 _) = Ok r1"
| "session_round1_packages _ = Panic"

fun has_round1_broadcast_packages :: "('pk, 'id, 'p1, 'p2) dkg_state \<Rightarrow> bool" where
  "has_round1_broadcast_packages (WaitingForRound2Packages _ _ _) = True"
| "has_round1_broadcast_packages _ = False"

fun has_round2_packages :: "('pk, 'id, 'p1, 'p2) dkg_state \<Rightarrow> bool" where
  "has_round2_packages (Round2PackagesReady _ _) = True"
| "has_round2_packages _ = False"

fun session_round2_packages :: "('pk, 'id, 'p1, 'p2) dkg_state \<Rightarrow> (session_error, ('id, 'p2) hash_map) outcome" where
  "session_round2_packages (Round2PackagesReady _ r2) = Ok r2"
| "session_round2_packages _ = Panic"

lemma dkg_recv_no_panic: "snd (dkg_recv C me st msg) \<noteq> Panic"
  by (cases st) (auto simp: Let_def split: option.splits prod.splits)

section \<open>The two collecting rounds\<close>

abbreviation dkg_step :: "('id, 'p1, 'p2) dkg_codec \<Rightarrow> 'id \<Rightarrow> ('pk, 'id, 'p1, 'p2) dkg_state \<Rightarrow> 'pk msg \<Rightarrow>
    ('pk, 'id, 'p1, 'p2) dkg_state" where
  "dkg_step C me st msg \<equiv> fst (dkg_recv C me st msg)"

abbreviation dkg_run :: "('id, 'p1, 'p2) dkg_codec \<Rightarrow> 'id \<Rightarrow> ('pk, 'id, 'p1, 'p2) dkg_state \<Rightarrow> 'pk msg list \<Rightarrow>
    ('pk, 'id, 'p1, 'p2) dkg_state" where
  "dkg_run C me st msgs \<equiv> foldl (dkg_step C me) st msgs"

definition accept_round1 ::
  "('id, 'p1, 'p2) dkg_codec \<Rightarrow> ('pk, 'id) hash_map \<Rightarrow> 'pk msg \<Rightarrow> ('id \<times> 'p1) option" where
  "accept_round1 C pubkeys msg =
     (case (decode_round1 C (msg_bytes msg), fmlookup pubkeys (msg_sender msg)) of
        (Some p, Some i) \<Rightarrow> Some (i, p) | _ \<Rightarrow> None)"

definition accept_round2 ::
  "('id, 'p1, 'p2) dkg_codec \<Rightarrow> ('pk, 'id) hash_map \<Rightarrow> 'id fset \<Rightarrow> 'pk msg \<Rightarrow> ('id \<times> 'p2) option" where
  "accept_round2 C pubkeys others msg =
     (case (decode_round2 C (msg_bytes msg), fmlookup pubkeys (msg_sender msg)) of
        (Some p, Some i) \<Rightarrow> if i |\<in>| others then Some (i, p) else None | _ \<Rightarrow> None)"

fun round1_phase :: "('pk, 'id) hash_map \<Rightarrow> ('pk, 'id, 'p1, 'p2) dkg_state \<Rightarrow> ('id, 'p1) fmap option" where
  "round1_phase pubkeys (WaitingForRound1Packages p r1) = (if p = pubkeys then Some r1 else None)"
| "round1_phase pubkeys _ = None"

fun round1_done :: "('pk, 'id) hash_map \<Rightarrow> ('pk, 'id, 'p1, 'p2) dkg_state \<Rightarrow> ('id, 'p1) fmap option" where
  "round1_done pubkeys (WaitingForRound1PackagesBroadcast p r1 bc) =
     (if p = pubkeys \<and> bc = fmempty \<and> map_len pubkeys > 2 then Some r1 else None)"
| "round1_done pubkeys (WaitingForRound2Packages p r1 r2) =
     (if p = pubkeys \<and> r2 = fmempty \<and> \<not> map_len pubkeys > 2 then Some r1 else None)"
| "round1_done pubkeys _ = None"

fun round2_phase :: "('pk, 'id) hash_map \<Rightarrow> ('id, 'p1) fmap \<Rightarrow> ('pk, 'id, 'p1, 'p2) dkg_state \<Rightarrow>
    ('id, 'p2) fmap option" where
  "round2_phase pubkeys r1 (WaitingForRound2Packages p q r2) = (if p = pubkeys \<and> q = r1 then Some r2 else None)"
| "round2_phase pubkeys r1 _ = None"

fun round2_done :: "('pk, 'id) hash_map \<Rightarrow> ('pk, 'id, 'p1, 'p2) dkg_state \<Rightarrow> ('id, 'p2) fmap option" where
  "round2_done pubkeys (Round2PackagesReady p r2) = (if p = pubkeys then Some r2 else None)"
| "round2_done pubkeys _ = None"

interpretation round1: collecting_phase "dkg_step C me" "round1_phase pubkeys" "round1_done pubkeys"
  "accept_round1 C pubkeys" "\<lambda>m. map_len m = map_len pubkeys - 1"
  for C me pubkeys
proof unfold_locales
  fix s :: "('a, 'b, 'c, 'd) dkg_state" and m msg
  assume "round1_phase pubkeys s = Some m"
  then have s: "s = WaitingForRound1Packages pubkeys m" by (cases s) (auto split: if_splits)
  show "accept_round1 C pubkeys msg = None \<Longrightarrow> round1_phase pubkeys (dkg_step C me s msg) = Some m"
    by (auto simp: s accept_round1_def Let_def split: option.splits if_splits)
  show "accept_round1 C pubkeys msg = Some (i, v) \<Longrightarrow> map_len (fmupd i v m) \<noteq> map_len pubkeys - 1 \<Longrightarrow>
      round1_phase pubkeys (dkg_step C me s msg) = Some (fmupd i v m)" for i v
    by (auto simp: s accept_round1_def Let_def split: option.splits if_splits)
  show "accept_round1 C pubkeys msg = Some (i, v) \<Longrightarrow> map_len (fmupd i v m) = map_len pubkeys - 1 \<Longrightarrow>
      round1_done pubkeys (dkg_step C me s msg) = Some (fmupd i v m)" for i v
    by (auto simp: s accept_round1_def Let_def split: option.splits if_splits)
qed

interpretation round2: collecting_phase "dkg_step C me" "round2_phase pubkeys r1" "round2_done pubkeys"
  "accept_round2 C pubkeys (fmdom r1)" "\<lambda>m. fmdom m = fmdom r1"
  for C me pubkeys r1
proof unfold_locales
  fix s :: "('a, 'b, 'c, 'd) dkg_state" and m msg
  assume "round2_phase pubkeys r1 s = Some m"
  then have s: "s = WaitingForRound2Packages pubkeys r1 m" by (cases s) (auto split: if_splits)
  show "accept_round2 C pubkeys (fmdom r1) msg = None \<Longrightarrow> round2_phase pubkeys r1 (dkg_step C me s msg) = Some m"
    by (auto simp: s accept_round2_def Let_def split: option.splits if_splits)
  show "accept_round2 C pubkeys (fmdom r1) msg = Some (i, v) \<Longrightarrow> fmdom (fmupd i v m) \<noteq> fmdom r1 \<Longrightarrow>
      round2_phase pubkeys r1 (dkg_step C me s msg) = Some (fmupd i v m)" for i v
    by (auto simp: s accept_round2_def Let_def split: option.splits if_splits)
  show "accept_round2 C pubkeys (fmdom r1) msg = Some (i, v) \<Longrightarrow> fmdom (fmupd i v m) = fmdom r1 \<Longrightarrow>
      round2_done pubkeys (dkg_step C me s msg) = Some (fmupd i v m)" for i v
    by (auto simp: s accept_round2_def Let_def split: option.splits if_splits)
qed

lemma round1_doneD:
  "round1_done pubkeys s = Some r1 \<Longrightarrow>
    s = (if map_len pubkeys > 2 then WaitingForRound1PackagesBroadcast pubkeys r1 fmempty
         else WaitingForRound2Packages pubkeys r1 fmempty)"
  by (cases s) (auto split: if_splits)

lemma round2_phaseD: "round2_phase pubkeys r1 s = Some r2 \<Longrightarrow> s = WaitingForRound2Packages pubkeys r1 r2"
  by (cases s) (auto split: if_splits)

lemma round2_doneD: "round2_done pubkeys s = Some r2 \<Longrightarrow> s = Round2PackagesReady pubkeys r2"
  by (cases s) (auto split: if_splits)

lemma round1_phaseD: "round1_phase pubkeys s = Some r1 \<Longrightarrow> s = WaitingForRound1Packages pubkeys r1"
  by (cases s) (auto split: if_splits)

lemma round2_ready_stays:
  "dkg_run C me (Round2PackagesReady pubkeys r2) msgs = Round2PackagesReady pubkeys r2"
  by (induction msgs) simp_all

section \<open>The echo round\<close>

text \<open>What is known of every echo that has been recorded.\<close>

definition echoes_from ::
  "('id, 'p1, 'p2) dkg_codec \<Rightarrow> 'id \<Rightarrow> ('pk, 'id) hash_map \<Rightarrow> ('id, 'p1) hash_map \<Rightarrow> 'pk msg list \<Rightarrow>
    ('id, ('id, 'p1) hash_map) hash_map \<Rightarrow> bool" where
  "echoes_from C me pubkeys r1 msgs bc \<longleftrightarrow>
     (\<forall>org m s p. fmlookup bc org = Some m \<longrightarrow> fmlookup m s = Some p \<longrightarrow>
        fmlookup r1 org = Some p \<and> org \<noteq> s \<and> org \<noteq> me \<and>
        (\<exists>msg \<in> set msgs. fmlookup pubkeys (msg_sender msg) = Some s \<and>
           decode_echo C (msg_bytes msg) = Some (org, p)))"

lemma echoes_from_mono: "echoes_from C me pubkeys r1 xs bc \<Longrightarrow> echoes_from C me pubkeys r1 (xs @ ys) bc"
  unfolding echoes_from_def by fastforce

lemma echoes_from_insert:
  assumes "echoes_from C me pubkeys r1 xs bc" and "fmlookup pubkeys (msg_sender msg) = Some s"
    and "decode_echo C (msg_bytes msg) = Some (org, p)" and "fmlookup r1 org = Some p"
    and "org \<noteq> s" and "org \<noteq> me"
  shows "echoes_from C me pubkeys r1 (xs @ [msg]) (insert_echo bc org s p)"
  unfolding echoes_from_def
proof (intro allI impI)
  fix o' m s' p'
  assume look: "fmlookup (insert_echo bc org s p) o' = Some m" "fmlookup m s' = Some p'"
  show "fmlookup r1 o' = Some p' \<and> o' \<noteq> s' \<and> o' \<noteq> me \<and>
      (\<exists>msg \<in> set (xs @ [msg]). fmlookup pubkeys (msg_sender msg) = Some s' \<and>
         decode_echo C (msg_bytes msg) = Some (o', p'))"
  proof (cases "o' = org \<and> s' = s")
    case True
    then show ?thesis using look assms(2-6) by (auto simp: insert_echo_def)
  next
    case False
    then obtain m' where "fmlookup bc o' = Some m'" "fmlookup m' s' = Some p'"
      using look by (auto simp: insert_echo_def echo_map_def split: if_splits option.splits)
    then show ?thesis using assms(1) unfolding echoes_from_def by fastforce
  qed
qed

lemma echo_step:
  assumes "echoes_from C me pubkeys r1 xs bc"
  obtains (more) bc' where "dkg_step C me (WaitingForRound1PackagesBroadcast pubkeys r1 bc) msg =
      WaitingForRound1PackagesBroadcast pubkeys r1 bc'" and "echoes_from C me pubkeys r1 (xs @ [msg]) bc'"
  | (last) bc' where "dkg_step C me (WaitingForRound1PackagesBroadcast pubkeys r1 bc) msg =
      WaitingForRound2Packages pubkeys r1 fmempty" and "echoes_from C me pubkeys r1 (xs @ [msg]) bc'"
      and "echoes_complete r1 bc'"
proof (cases "decode_echo C (msg_bytes msg)")
  case None
  then show ?thesis using more[of bc] echoes_from_mono[OF assms] by simp
next
  case (Some e)
  obtain org p where e: "e = (org, p)" by (cases e)
  show ?thesis
  proof (cases "\<exists>s. fmlookup pubkeys (msg_sender msg) = Some s \<and> org |\<in>| fmran pubkeys \<and>
      org \<noteq> me \<and> org \<noteq> s \<and> fmlookup r1 org = Some p")
    case True
    then obtain s where s: "fmlookup pubkeys (msg_sender msg) = Some s" "org |\<in>| fmran pubkeys"
      "org \<noteq> me" "org \<noteq> s" "fmlookup r1 org = Some p" by blast
    have ef: "echoes_from C me pubkeys r1 (xs @ [msg]) (insert_echo bc org s p)"
      by (rule echoes_from_insert[OF assms]) (use s Some e in auto)
    show ?thesis
    proof (cases "fmlookup (echo_map bc org) s = None \<and> echoes_complete r1 (insert_echo bc org s p)")
      case True
      then show ?thesis using last[OF _ ef] s Some e by (simp add: Let_def)
    next
      case False
      then show ?thesis using more[OF _ ef] s Some e by (auto simp: Let_def)
    qed
  next
    case False
    then have "dkg_step C me (WaitingForRound1PackagesBroadcast pubkeys r1 bc) msg =
        WaitingForRound1PackagesBroadcast pubkeys r1 bc"
      using Some e by (auto simp: Let_def split: option.splits if_splits)
    then show ?thesis using more[of bc] echoes_from_mono[OF assms] by simp
  qed
qed

lemma echo_run:
  assumes "echoes_from C me pubkeys r1 pre bc"
  shows "(\<exists>bc'. dkg_run C me (WaitingForRound1PackagesBroadcast pubkeys r1 bc) msgs =
      WaitingForRound1PackagesBroadcast pubkeys r1 bc' \<and> echoes_from C me pubkeys r1 (pre @ msgs) bc') \<or>
    (\<exists>xs ys bc'. msgs = xs @ ys \<and> dkg_run C me (WaitingForRound1PackagesBroadcast pubkeys r1 bc) xs =
      WaitingForRound2Packages pubkeys r1 fmempty \<and> echoes_from C me pubkeys r1 (pre @ xs) bc' \<and>
      echoes_complete r1 bc')"
  using assms
proof (induction msgs arbitrary: pre bc)
  case (Cons msg msgs)
  from Cons.prems show ?case
  proof (cases rule: echo_step[where msg = msg])
    case (more bc')
    from Cons.IH[OF more(2)] show ?thesis
    proof
      assume "\<exists>xs ys bc''. msgs = xs @ ys \<and> dkg_run C me (WaitingForRound1PackagesBroadcast pubkeys r1 bc') xs =
          WaitingForRound2Packages pubkeys r1 fmempty \<and>
          echoes_from C me pubkeys r1 ((pre @ [msg]) @ xs) bc'' \<and> echoes_complete r1 bc''"
      then obtain xs ys bc'' where "msgs = xs @ ys"
        "dkg_run C me (WaitingForRound1PackagesBroadcast pubkeys r1 bc') xs = WaitingForRound2Packages pubkeys r1 fmempty"
        "echoes_from C me pubkeys r1 ((pre @ [msg]) @ xs) bc''" "echoes_complete r1 bc''" by blast
      then show ?thesis
        using more(1) by (intro disjI2 exI[of _ "msg # xs"] exI[of _ ys] exI[of _ bc'']) simp
    qed (use more(1) in auto)
  next
    case (last bc')
    then show ?thesis
      by (intro disjI2 exI[of _ "[msg]"] exI[of _ msgs] exI[of _ bc']) simp
  qed
qed auto

lemma echoes_completeD:
  assumes "echoes_complete r1 bc" and "fmlookup r1 org = Some p" and "s |\<in>| fmdom r1" and "s \<noteq> org"
  shows "\<exists>m. fmlookup bc org = Some m \<and> fmlookup m s = Some p"
proof -
  have "org |\<in>| fmdom r1" using assms(2) by (simp add: fmdomI)
  then have "org |\<in>| fmdom bc" using assms(1) by (simp add: echoes_complete_def Let_def)
  then obtain m where m: "fmlookup bc org = Some m" by (auto simp: fmlookup_dom_iff)
  have "finsert org (fmdom m) = fmdom r1" "fmpred (\<lambda>_ package. Some package = fmlookup r1 org) m"
    using assms(1) m by (auto simp: echoes_complete_def Let_def dest: fmpredD)
  moreover from this(1) obtain q where "fmlookup m s = Some q"
    using assms(3,4) by (metis finsert_iff fmlookup_dom_iff)
  ultimately show ?thesis using m assms(2) by (auto dest!: fmpredD)
qed

definition past_echo :: "('pk, 'id, 'p1, 'p2) dkg_state \<Rightarrow> bool" where
  "past_echo st \<longleftrightarrow> has_round1_broadcast_packages st \<or> has_round2_packages st"

lemma echo_round_result:
  assumes "past_echo (dkg_run C me (WaitingForRound1PackagesBroadcast pubkeys r1 fmempty) msgs)"
    and "fmlookup r1 org = Some p" and "s |\<in>| fmdom r1" and "s \<noteq> org"
  shows "\<exists>msg \<in> set msgs. fmlookup pubkeys (msg_sender msg) = Some s \<and>
    decode_echo C (msg_bytes msg) = Some (org, p)"
proof -
  have "echoes_from C me pubkeys r1 [] fmempty" by (simp add: echoes_from_def)
  from echo_run[OF this, of msgs] show ?thesis
  proof
    assume "\<exists>xs ys bc'. msgs = xs @ ys \<and>
      dkg_run C me (WaitingForRound1PackagesBroadcast pubkeys r1 fmempty) xs =
      WaitingForRound2Packages pubkeys r1 fmempty \<and> echoes_from C me pubkeys r1 ([] @ xs) bc' \<and>
      echoes_complete r1 bc'"
    then obtain xs ys bc' where "msgs = xs @ ys" "echoes_from C me pubkeys r1 xs bc'"
      "echoes_complete r1 bc'" by auto
    then show ?thesis
      using echoes_completeD[OF _ assms(2-4)] unfolding echoes_from_def by fastforce
  qed (use assms(1) in \<open>auto simp: past_echo_def\<close>)
qed

text \<open>
  C16: the echo round makes honest participants agree. If participant \<open>b\<close> gets past it, and
  every echo it received from \<open>a\<close> is a package \<open>a\<close> itself holds, then every package \<open>b\<close> holds
  of a participant other than \<open>a\<close> is the one \<open>a\<close> holds, whatever anybody else sent.
\<close>

theorem echo_broadcast_agreement:
  assumes "past_echo (dkg_run C b (WaitingForRound1PackagesBroadcast pubkeys r1b fmempty) msgs)"
    and "a |\<in>| fmdom r1b"
    and "\<forall>msg \<in> set msgs. fmlookup pubkeys (msg_sender msg) = Some a \<longrightarrow>
      (\<forall>org p. decode_echo C (msg_bytes msg) = Some (org, p) \<longrightarrow> fmlookup r1a org = Some p)"
    and "org \<noteq> a" and "fmlookup r1b org = Some p"
  shows "fmlookup r1a org = Some p"
proof -
  obtain msg where "msg \<in> set msgs" "fmlookup pubkeys (msg_sender msg) = Some a"
    "decode_echo C (msg_bytes msg) = Some (org, p)"
    using echo_round_result[OF assms(1,5,2)] assms(4) by blast
  then show ?thesis using assms(3) by blast
qed

text \<open>
  C38: without an echo from every other participant about every other one, the echo round does
  not end: a single participant that never sends its echoes holds up all the others.
\<close>

theorem missing_echoes_block:
  assumes "a |\<in>| fmdom r1" and "org |\<in>| fmdom r1" and "a \<noteq> org"
    and "\<forall>msg \<in> set msgs. fmlookup pubkeys (msg_sender msg) = Some a \<longrightarrow>
      (\<forall>p. decode_echo C (msg_bytes msg) \<noteq> Some (org, p))"
  shows "\<not> past_echo (dkg_run C me (WaitingForRound1PackagesBroadcast pubkeys r1 fmempty) msgs)"
proof
  assume past: "past_echo (dkg_run C me (WaitingForRound1PackagesBroadcast pubkeys r1 fmempty) msgs)"
  obtain p where "fmlookup r1 org = Some p" using assms(2) by (auto simp: fmlookup_dom_iff)
  from echo_round_result[OF past this assms(1,3)] show False using assms(4) by blast
qed

section \<open>Round 1 and round 2 results\<close>

lemma accept_round1_Some:
  "accept_round1 C pubkeys msg = Some (i, p) \<longleftrightarrow>
    fmlookup pubkeys (msg_sender msg) = Some i \<and> decode_round1 C (msg_bytes msg) = Some p"
  by (auto simp: accept_round1_def split: option.splits)

lemma accept_round2_Some:
  "accept_round2 C pubkeys others msg = Some (i, p) \<longleftrightarrow>
    fmlookup pubkeys (msg_sender msg) = Some i \<and> decode_round2 C (msg_bytes msg) = Some p \<and> i |\<in>| others"
  by (auto simp: accept_round2_def split: option.splits)

text \<open>The packages of round 1 are fixed when the round ends.\<close>

fun round1_of :: "('pk, 'id, 'p1, 'p2) dkg_state \<Rightarrow> ('id, 'p1) hash_map option" where
  "round1_of (WaitingForRound1PackagesBroadcast _ r1 _) = Some r1"
| "round1_of (WaitingForRound2Packages _ r1 _) = Some r1"
| "round1_of _ = None"

lemma round1_of_step:
  "round1_of st = Some r1 \<Longrightarrow> \<not> has_round2_packages (dkg_step C me st msg) \<Longrightarrow>
    round1_of (dkg_step C me st msg) = Some r1"
  by (cases st) (auto simp: Let_def split: option.splits prod.splits if_splits)

lemma ready_forever:
  "has_round2_packages st \<Longrightarrow> has_round2_packages (dkg_run C me st msgs)"
  by (cases st) (simp_all add: round2_ready_stays)

lemma round1_of_run:
  "round1_of st = Some r1 \<Longrightarrow> \<not> has_round2_packages (dkg_run C me st msgs) \<Longrightarrow>
    round1_of (dkg_run C me st msgs) = Some r1"
proof (induction msgs arbitrary: st)
  case (Cons msg msgs)
  then have "\<not> has_round2_packages (dkg_step C me st msg)" using ready_forever by fastforce
  then show ?case using Cons round1_of_step[of st r1] by simp
qed simp

lemma fcard_fmran:
  assumes "\<forall>a b. fmlookup m a = fmlookup m b \<longrightarrow> fmlookup m a \<noteq> None \<longrightarrow> a = b"
  shows "fcard (fmran m) = map_len m"
proof -
  have "fmran m = (\<lambda>a. the (fmlookup m a)) |`| fmdom m"
  proof (rule fset_eqI)
    fix x
    have "x |\<in>| (\<lambda>a. the (fmlookup m a)) |`| fmdom m \<longleftrightarrow> (\<exists>a. a |\<in>| fmdom m \<and> x = the (fmlookup m a))"
      by auto
    also have "\<dots> \<longleftrightarrow> (\<exists>a. fmlookup m a = Some x)"
      unfolding fmlookup_dom_iff by force
    finally show "x |\<in>| fmran m \<longleftrightarrow> x |\<in>| (\<lambda>a. the (fmlookup m a)) |`| fmdom m"
      by (simp add: fmlookup_ran_iff)
  qed
  moreover have "inj_on (\<lambda>a. the (fmlookup m a)) (fset (fmdom m))"
  proof (rule inj_onI)
    fix a b assume "a \<in> fset (fmdom m)" "b \<in> fset (fmdom m)" "the (fmlookup m a) = the (fmlookup m b)"
    then have "fmlookup m a = fmlookup m b" "fmlookup m a \<noteq> None" by (auto simp: fmlookup_dom_iff)
    then show "a = b" using assms by blast
  qed
  ultimately show ?thesis by (simp add: fcard.rep_eq card_image)
qed

lemma round1_split:
  assumes "has_round1_packages (dkg_run C me (WaitingForRound1Packages pubkeys fmempty) msgs)"
  obtains pre post r1 where "msgs = pre @ post"
    and "dkg_run C me (WaitingForRound1Packages pubkeys fmempty) pre =
      (if map_len pubkeys > 2 then WaitingForRound1PackagesBroadcast pubkeys r1 fmempty
       else WaitingForRound2Packages pubkeys r1 fmempty)"
    and "r1 = add_entries (accept_round1 C pubkeys) fmempty pre" and "map_len r1 = map_len pubkeys - 1"
    and "session_round1_packages (dkg_run C me (WaitingForRound1Packages pubkeys fmempty) msgs) = Ok r1"
proof -
  let ?st = "WaitingForRound1Packages pubkeys fmempty :: ('a, 'b, 'c, 'd) dkg_state"
  have "round1_phase pubkeys ?st = Some fmempty" by simp
  then obtain xs y ys where split: "msgs = (xs @ [y]) @ ys"
    and fin: "finishing (accept_round1 C pubkeys) (\<lambda>m. map_len m = map_len pubkeys - 1)
        (add_entries (accept_round1 C pubkeys) fmempty xs) y"
    and "round1_done pubkeys (dkg_run C me ?st (xs @ [y])) =
        Some (add_entries (accept_round1 C pubkeys) fmempty (xs @ [y]))"
    by (cases rule: round1.phase_run[where C = C and me = me and msgs = msgs])
      (use assms in \<open>auto dest: round1_phaseD\<close>)
  note left = round1_doneD[OF this(3)]
  define r1 where "r1 = add_entries (accept_round1 C pubkeys) fmempty (xs @ [y])"
  have r1: "round1_of (dkg_run C me ?st (xs @ [y])) = Some r1" unfolding left r1_def by simp
  have "\<not> has_round2_packages (dkg_run C me ?st msgs)"
    using assms by (cases "dkg_run C me ?st msgs") simp_all
  then have "round1_of (dkg_run C me ?st msgs) = Some r1"
    using round1_of_run[OF r1, of C me ys] by (simp add: split)
  then have "session_round1_packages (dkg_run C me ?st msgs) = Ok r1"
    by (cases "dkg_run C me ?st msgs") simp_all
  moreover have "map_len r1 = map_len pubkeys - 1" using fin by (simp add: finishing_def r1_def)
  ultimately show ?thesis using that[OF split left[folded r1_def] r1_def] by blast
qed

lemma round1_result:
  assumes "\<forall>a b. fmlookup pubkeys a = fmlookup pubkeys b \<longrightarrow> fmlookup pubkeys a \<noteq> None \<longrightarrow> a = b"
    and "fmlookup pubkeys mine = Some me" and "\<forall>msg \<in> set msgs. msg_sender msg \<noteq> mine"
    and "has_round1_packages (dkg_run C me (WaitingForRound1Packages pubkeys fmempty) msgs)"
  shows "\<exists>r1. session_round1_packages (dkg_run C me (WaitingForRound1Packages pubkeys fmempty) msgs) = Ok r1 \<and>
    fmdom r1 = fmran pubkeys |-| {|me|} \<and>
    (\<forall>id p. fmlookup r1 id = Some p \<longrightarrow> (\<exists>msg \<in> set msgs.
       fmlookup pubkeys (msg_sender msg) = Some id \<and> decode_round1 C (msg_bytes msg) = Some p))"
proof (cases rule: round1_split[OF assms(4)])
  case (1 pre post r1)
  have source: "\<exists>msg \<in> set msgs. fmlookup pubkeys (msg_sender msg) = Some id \<and>
      decode_round1 C (msg_bytes msg) = Some p" if "fmlookup r1 id = Some p" for id p
    using add_entries_source[of _ fmempty pre id p] that
    by (fastforce simp: 1(1,3) accept_round1_Some)
  have "fmdom r1 |\<subseteq>| fmran pubkeys |-| {|me|}"
  proof
    fix id assume "id |\<in>| fmdom r1"
    then obtain msg where "msg \<in> set msgs" "fmlookup pubkeys (msg_sender msg) = Some id"
      using source by (auto simp: fmlookup_dom_iff)
    then show "id |\<in>| fmran pubkeys |-| {|me|}"
      using assms(1,2,3) by (auto simp: fmlookup_ran_iff)
  qed
  moreover have "fcard (fmdom r1) = fcard (fmran pubkeys |-| {|me|})"
  proof -
    have "me |\<in>| fmran pubkeys" using assms(2) by (rule fmranI)
    then show ?thesis using fcard_fmran[OF assms(1)] 1(4) by (simp add: fcard_fminus_fsingleton)
  qed
  ultimately have "fmdom r1 = fmran pubkeys |-| {|me|}" using fcard_seteq by (metis order_refl)
  then show ?thesis using 1(5) source by blast
qed

text \<open>
  When the first round is over, the packages come one from each other participant: if
  the participants' identifiers are distinct and the server never delivers a participant's own
  messages, their senders are all identifiers but one's own, and each package was decoded from a
  message of its sender.
\<close>

theorem round1_packages_of_the_others:
  assumes "\<forall>a b. fmlookup pubkeys a = fmlookup pubkeys b \<longrightarrow> fmlookup pubkeys a \<noteq> None \<longrightarrow> a = b"
    and "fmlookup pubkeys mine = Some me" and "\<forall>msg \<in> set msgs. msg_sender msg \<noteq> mine"
    and "has_round1_packages (dkg_run C me (WaitingForRound1Packages pubkeys fmempty) msgs)"
  shows "\<exists>r1. session_round1_packages (dkg_run C me (WaitingForRound1Packages pubkeys fmempty) msgs) = Ok r1 \<and>
    fmdom r1 = fmran pubkeys |-| {|me|} \<and>
    (\<forall>id p. fmlookup r1 id = Some p \<longrightarrow> (\<exists>msg \<in> set msgs.
       fmlookup pubkeys (msg_sender msg) = Some id \<and> decode_round1 C (msg_bytes msg) = Some p))"
  using assms by (rule round1_result)

lemma round2_result:
  assumes "has_round2_packages (dkg_run C me (WaitingForRound2Packages pubkeys r1 r2a) msgs)"
  shows "\<exists>r2. dkg_run C me (WaitingForRound2Packages pubkeys r1 r2a) msgs = Round2PackagesReady pubkeys r2 \<and>
    fmdom r2 = fmdom r1 \<and>
    (\<forall>id p. fmlookup r2 id = Some p \<longrightarrow> fmlookup r2a id = Some p \<or> (\<exists>msg \<in> set msgs.
       fmlookup pubkeys (msg_sender msg) = Some id \<and> decode_round2 C (msg_bytes msg) = Some p))"
proof -
  let ?st = "WaitingForRound2Packages pubkeys r1 r2a"
  have "round2_phase pubkeys r1 ?st = Some r2a" by simp
  then obtain xs y ys where split: "msgs = (xs @ [y]) @ ys"
    and fin: "finishing (accept_round2 C pubkeys (fmdom r1)) (\<lambda>m. fmdom m = fmdom r1)
        (add_entries (accept_round2 C pubkeys (fmdom r1)) r2a xs) y"
    and "round2_done pubkeys (dkg_run C me ?st (xs @ [y])) =
        Some (add_entries (accept_round2 C pubkeys (fmdom r1)) r2a (xs @ [y]))"
    by (cases rule: round2.phase_run[where C = C and me = me and msgs = msgs])
      (use assms in \<open>auto dest: round2_phaseD\<close>)
  note left = round2_doneD[OF this(3)]
  let ?r2 = "add_entries (accept_round2 C pubkeys (fmdom r1)) r2a (xs @ [y])"
  have "dkg_run C me ?st msgs = dkg_run C me (dkg_run C me ?st (xs @ [y])) ys"
    unfolding split foldl_append ..
  then have "dkg_run C me ?st msgs = Round2PackagesReady pubkeys ?r2"
    unfolding left round2_ready_stays .
  moreover have "fmdom ?r2 = fmdom r1" using fin by (simp add: finishing_def)
  moreover have "fmlookup r2a id = Some p \<or> (\<exists>msg \<in> set msgs. fmlookup pubkeys (msg_sender msg) = Some id \<and>
      decode_round2 C (msg_bytes msg) = Some p)" if "fmlookup ?r2 id = Some p" for id p
    using add_entries_source[OF that] by (fastforce simp: split accept_round2_Some)
  ultimately show ?thesis by auto
qed

text \<open>
  The second round ends with one package from each of the participants of round 1, each
  decoded from a message of its sender.
\<close>

theorem round2_packages_of_the_others:
  assumes "has_round2_packages (dkg_run C me (WaitingForRound2Packages pubkeys r1 fmempty) msgs)"
  shows "\<exists>r2. session_round2_packages (dkg_run C me (WaitingForRound2Packages pubkeys r1 fmempty) msgs) = Ok r2 \<and>
    fmdom r2 = fmdom r1 \<and>
    (\<forall>id p. fmlookup r2 id = Some p \<longrightarrow> (\<exists>msg \<in> set msgs.
       fmlookup pubkeys (msg_sender msg) = Some id \<and> decode_round2 C (msg_bytes msg) = Some p))"
  using round2_result[OF assms] by fastforce

section \<open>Batches\<close>

text \<open>The messages of a batch one after the other, up to the first error.\<close>

fun dkg_recv_all ::
  "('id, 'p1, 'p2) dkg_codec \<Rightarrow> 'id \<Rightarrow> ('pk, 'id, 'p1, 'p2) dkg_state \<Rightarrow> 'pk msg list \<Rightarrow>
    ('pk, 'id, 'p1, 'p2) dkg_state \<times> (session_error, unit) outcome" where
  "dkg_recv_all C me st [] = (st, Ok ())"
| "dkg_recv_all C me st (msg # msgs) =
     (case dkg_recv C me st msg of
        (st, Ok _) \<Rightarrow> dkg_recv_all C me st msgs
      | (st, Err e) \<Rightarrow> (st, Err e)
      | (st, Panic) \<Rightarrow> (st, Panic))"

lemma dkg_recv_all_run:
  "dkg_recv_all C me st msgs = (st', Ok ()) \<Longrightarrow> st' = dkg_run C me st msgs"
proof (induction msgs arbitrary: st)
  case (Cons msg msgs)
  then show ?case by (cases "dkg_recv C me st msg"; cases "snd (dkg_recv C me st msg)") auto
qed simp

text \<open>With two participants, the peer's packages of both rounds can come in one batch.\<close>

lemma both_packages_of_the_peer:
  assumes "map_len pubkeys = 2" and "fmlookup pubkeys (msg_sender m1) = Some i"
    and "fmlookup pubkeys (msg_sender m2) = Some i" and "decode_round1 C (msg_bytes m1) = Some p1"
    and "decode_round2 C (msg_bytes m2) = Some p2"
  shows "dkg_recv_all C me (WaitingForRound1Packages pubkeys fmempty) [m1, m2] =
    (Round2PackagesReady pubkeys (fmupd i p2 fmempty), Ok ())"
  using assms by (simp add: Let_def fcard.rep_eq)

section \<open>The echo round ends\<close>

text \<open>An echo that the round accepts.\<close>

definition truthful ::
  "('id, 'p1, 'p2) dkg_codec \<Rightarrow> ('pk, 'id) hash_map \<Rightarrow> ('id, 'p1) hash_map \<Rightarrow> 'id \<Rightarrow> 'id \<Rightarrow> 'pk msg \<Rightarrow> bool" where
  "truthful C pubkeys r1 s org msg \<longleftrightarrow> fmlookup pubkeys (msg_sender msg) = Some s \<and>
     (\<exists>p. decode_echo C (msg_bytes msg) = Some (org, p) \<and> fmlookup r1 org = Some p)"

text \<open>The echoes recorded at a point of the round, and that the round has not ended.\<close>

definition echo_pending ::
  "('pk, 'id) hash_map \<Rightarrow> ('id, 'p1) hash_map \<Rightarrow> 'id \<Rightarrow> ('id \<times> 'id) set \<Rightarrow> ('pk, 'id, 'p1, 'p2) dkg_state \<Rightarrow> bool" where
  "echo_pending pubkeys r1 me E st \<longleftrightarrow>
     (\<exists>bc. st = WaitingForRound1PackagesBroadcast pubkeys r1 bc \<and> \<not> echoes_complete r1 bc \<and>
        (\<forall>org s. (org, s) \<in> E \<longrightarrow> s |\<in>| fmdom (echo_map bc org)) \<and>
        (\<forall>org m. fmlookup bc org = Some m \<longrightarrow> org |\<in>| fmdom r1 \<and> fmdom m |\<subseteq>| fmdom r1 |-| {|org|} \<and>
           (\<forall>s p. fmlookup m s = Some p \<longrightarrow> fmlookup r1 org = Some p)))"

lemma insert_echo_same:
  assumes "fmlookup (echo_map bc org) s = Some p"
  shows "insert_echo bc org s p = bc"
proof -
  obtain m where m: "fmlookup bc org = Some m" "fmlookup m s = Some p"
    using assms by (auto simp: echo_map_def split: option.splits)
  then have "fmupd s p m = m" by (intro fmap_ext) auto
  then show ?thesis using m by (intro fmap_ext) (auto simp: insert_echo_def echo_map_def)
qed

lemma echo_pending_step:
  assumes "echo_pending pubkeys r1 me E st"
    and "\<forall>s. fmlookup pubkeys (msg_sender msg) = Some s \<longrightarrow> s |\<in>| fmdom r1"
    and "\<forall>id. id |\<in>| fmdom r1 \<longrightarrow> id |\<in>| fmran pubkeys \<and> id \<noteq> me"
    and "\<not> past_echo (dkg_step C me st msg)"
  shows "echo_pending pubkeys r1 me
    (E \<union> {(org, s). org \<noteq> s \<and> truthful C pubkeys r1 s org msg}) (dkg_step C me st msg)"
proof -
  obtain bc where st: "st = WaitingForRound1PackagesBroadcast pubkeys r1 bc" "\<not> echoes_complete r1 bc"
    and E: "\<And>org s. (org, s) \<in> E \<Longrightarrow> s |\<in>| fmdom (echo_map bc org)"
    and bc: "\<And>org m. fmlookup bc org = Some m \<Longrightarrow> org |\<in>| fmdom r1 \<and> fmdom m |\<subseteq>| fmdom r1 |-| {|org|} \<and>
           (\<forall>s p. fmlookup m s = Some p \<longrightarrow> fmlookup r1 org = Some p)"
    using assms(1) unfolding echo_pending_def by blast
  show ?thesis
  proof (cases "\<exists>s org. org \<noteq> s \<and> truthful C pubkeys r1 s org msg")
    case False
    then have "dkg_step C me st msg = st"
      using assms(2,3) unfolding st truthful_def
      by (auto simp: Let_def fmlookup_dom_iff split: option.splits prod.splits)
    then show ?thesis using assms(1) False by (simp add: echo_pending_def) blast
  next
    case True
    then obtain s org p where t: "org \<noteq> s" "fmlookup pubkeys (msg_sender msg) = Some s"
      "decode_echo C (msg_bytes msg) = Some (org, p)" "fmlookup r1 org = Some p"
      unfolding truthful_def by blast
    then have org: "org |\<in>| fmran pubkeys" "org \<noteq> me" "org |\<in>| fmdom r1" "s |\<in>| fmdom r1"
      using assms(2,3) fmdomI by fast+
    define bc' where "bc' = insert_echo bc org s p"
    have new: "{(org, s). org \<noteq> s \<and> truthful C pubkeys r1 s org msg} = {(org, s)}"
      using t by (auto simp: truthful_def)
    have step: "dkg_step C me st msg = WaitingForRound1PackagesBroadcast pubkeys r1 bc'" and "\<not> echoes_complete r1 bc'"
    proof -
      have "fmlookup (echo_map bc org) s = None \<or> fmlookup (echo_map bc org) s = Some p"
        using bc[of org] t(4)
        by (cases "fmlookup (echo_map bc org) s") (auto simp: echo_map_def split: option.splits)
      then have "dkg_step C me st msg = WaitingForRound1PackagesBroadcast pubkeys r1 bc' \<and> \<not> echoes_complete r1 bc'"
        using t org st assms(4) insert_echo_same[of bc org s p]
        by (auto simp: Let_def bc'_def past_echo_def split: if_splits)
      then show "dkg_step C me st msg = WaitingForRound1PackagesBroadcast pubkeys r1 bc'" "\<not> echoes_complete r1 bc'"
        by simp_all
    qed
    moreover have "s' |\<in>| fmdom (echo_map bc' org')" if "(org', s') \<in> E \<union> {(org, s)}" for org' s'
      using that E[of org' s'] by (auto simp: bc'_def insert_echo_def echo_map_def split: if_splits)
    moreover have "org' |\<in>| fmdom r1 \<and> fmdom m |\<subseteq>| fmdom r1 |-| {|org'|} \<and>
        (\<forall>s p. fmlookup m s = Some p \<longrightarrow> fmlookup r1 org' = Some p)" if "fmlookup bc' org' = Some m" for org' m
      using that bc[of org'] bc[of org] org t
      by (auto simp: bc'_def insert_echo_def echo_map_def split: if_splits option.splits)
    ultimately show ?thesis unfolding new echo_pending_def by blast
  qed
qed

lemma past_echo_step: "past_echo st \<Longrightarrow> past_echo (dkg_step C me st msg)"
  by (cases st) (auto simp: past_echo_def Let_def split: option.splits)

lemma past_echo_run: "past_echo st \<Longrightarrow> past_echo (dkg_run C me st msgs)"
  by (induction msgs arbitrary: st) (simp_all add: past_echo_step)

lemma echo_pending_run:
  assumes "echo_pending pubkeys r1 me E st"
    and "\<forall>msg \<in> set msgs. \<forall>s. fmlookup pubkeys (msg_sender msg) = Some s \<longrightarrow> s |\<in>| fmdom r1"
    and "\<forall>id. id |\<in>| fmdom r1 \<longrightarrow> id |\<in>| fmran pubkeys \<and> id \<noteq> me"
    and "\<not> past_echo (dkg_run C me st msgs)"
  shows "echo_pending pubkeys r1 me
    (E \<union> {(org, s). org \<noteq> s \<and> (\<exists>msg \<in> set msgs. truthful C pubkeys r1 s org msg)}) (dkg_run C me st msgs)"
  using assms(1,2,4)
proof (induction msgs arbitrary: st E)
  case (Cons msg msgs)
  have "\<not> past_echo (dkg_step C me st msg)" using Cons.prems(3) past_echo_run by fastforce
  then have "echo_pending pubkeys r1 me
      (E \<union> {(org, s). org \<noteq> s \<and> truthful C pubkeys r1 s org msg}) (dkg_step C me st msg)"
    using Cons.prems(1,2) assms(3) by (intro echo_pending_step) auto
  from Cons.IH[OF this] have "echo_pending pubkeys r1 me
      ((E \<union> {(org, s). org \<noteq> s \<and> truthful C pubkeys r1 s org msg}) \<union>
       {(org, s). org \<noteq> s \<and> (\<exists>msg \<in> set msgs. truthful C pubkeys r1 s org msg)})
      (dkg_run C me st (msg # msgs))"
    using Cons.prems(2,3) by simp
  moreover have "(E \<union> {(org, s). org \<noteq> s \<and> truthful C pubkeys r1 s org msg}) \<union>
       {(org, s). org \<noteq> s \<and> (\<exists>msg \<in> set msgs. truthful C pubkeys r1 s org msg)} =
      E \<union> {(org, s). org \<noteq> s \<and> (\<exists>msg \<in> set (msg # msgs). truthful C pubkeys r1 s org msg)}" by auto
  ultimately show ?case by metis
qed (simp add: Un_def)

text \<open>Nothing but echoes of all others about all others is missing.\<close>

lemma full_echoes_complete:
  assumes "2 \<le> map_len r1"
    and rec: "\<And>org s. org |\<in>| fmdom r1 \<Longrightarrow> s |\<in>| fmdom r1 \<Longrightarrow> org \<noteq> s \<Longrightarrow> s |\<in>| fmdom (echo_map bc org)"
    and bc: "\<And>org m. fmlookup bc org = Some m \<Longrightarrow> org |\<in>| fmdom r1 \<and> fmdom m |\<subseteq>| fmdom r1 |-| {|org|} \<and>
           (\<forall>s p. fmlookup m s = Some p \<longrightarrow> fmlookup r1 org = Some p)"
  shows "echoes_complete r1 bc"
proof -
  have other: "\<exists>s. s |\<in>| fmdom r1 \<and> s \<noteq> org" for org
  proof (rule ccontr)
    assume "\<nexists>s. s |\<in>| fmdom r1 \<and> s \<noteq> org"
    then have "fmdom r1 |\<subseteq>| {|org|}" by auto
    then have "map_len r1 \<le> fcard {|org|}" by (rule fcard_mono)
    then show False using assms(1) by (simp add: fcard.rep_eq)
  qed
  have present: "\<exists>m. fmlookup bc org = Some m" if "org |\<in>| fmdom r1" for org
    using rec[OF that] other[of org] by (fastforce simp: echo_map_def split: option.splits)
  have "fmdom bc = fmdom r1"
    using present bc by (auto simp: fmlookup_dom_iff)
  moreover have "finsert org (fmdom m) = fmdom r1" if "fmlookup bc org = Some m" for org m
  proof -
    have "org |\<in>| fmdom r1" "fmdom m |\<subseteq>| fmdom r1 |-| {|org|}" using bc[OF that] by blast+
    moreover have "echo_map bc org = m" using that by (simp add: echo_map_def)
    ultimately show ?thesis using rec[of org] by (intro fset_eqI) blast
  qed
  ultimately show ?thesis
    using bc by (auto simp: echoes_complete_def Let_def intro!: fmpredI)
qed

lemma all_echoes_end_round:
  assumes "\<forall>id. id |\<in>| fmdom r1 \<longrightarrow> id |\<in>| fmran pubkeys \<and> id \<noteq> me"
    and "\<forall>msg \<in> set msgs. \<forall>s. fmlookup pubkeys (msg_sender msg) = Some s \<longrightarrow> s |\<in>| fmdom r1"
    and "2 \<le> map_len r1"
    and "\<forall>org s. org |\<in>| fmdom r1 \<longrightarrow> s |\<in>| fmdom r1 \<longrightarrow> org \<noteq> s \<longrightarrow>
      (\<exists>msg \<in> set msgs. truthful C pubkeys r1 s org msg)"
  shows "past_echo (dkg_run C me (WaitingForRound1PackagesBroadcast pubkeys r1 fmempty) msgs)"
proof (rule ccontr)
  let ?st = "WaitingForRound1PackagesBroadcast pubkeys r1 fmempty"
  assume "\<not> past_echo (dkg_run C me ?st msgs)"
  moreover have "fmdom r1 \<noteq> {||}" using assms(3) by (auto simp: fcard.rep_eq)
  then have "echo_pending pubkeys r1 me {} ?st"
    by (auto simp: echo_pending_def echoes_complete_def Let_def)
  ultimately have "echo_pending pubkeys r1 me
      ({} \<union> {(org, s). org \<noteq> s \<and> (\<exists>msg \<in> set msgs. truthful C pubkeys r1 s org msg)}) (dkg_run C me ?st msgs)"
    using assms(1,2) by (intro echo_pending_run)
  then obtain bc where open_bc: "\<not> echoes_complete r1 bc"
    and all: "\<And>org s. org \<noteq> s \<Longrightarrow> \<exists>msg \<in> set msgs. truthful C pubkeys r1 s org msg \<Longrightarrow> s |\<in>| fmdom (echo_map bc org)"
    and bc: "\<And>org m. fmlookup bc org = Some m \<Longrightarrow> org |\<in>| fmdom r1 \<and> fmdom m |\<subseteq>| fmdom r1 |-| {|org|} \<and>
           (\<forall>s p. fmlookup m s = Some p \<longrightarrow> fmlookup r1 org = Some p)"
    unfolding echo_pending_def by blast
  have rec: "s |\<in>| fmdom (echo_map bc org)" if "org |\<in>| fmdom r1" "s |\<in>| fmdom r1" "org \<noteq> s" for org s
    using all that assms(4) by blast
  from full_echoes_complete[OF assms(3) rec bc] have "echoes_complete r1 bc" by blast
  with open_bc show False ..
qed

text \<open>
  The echo round ends. If every other participant has sent a truthful echo about every
  other one (at least two of them), the participant gets past the round, whatever else those
  participants or strangers sent.
\<close>

theorem echo_round_ends:
  assumes "\<forall>id. id |\<in>| fmdom r1 \<longrightarrow> id |\<in>| fmran pubkeys \<and> id \<noteq> me"
    and "\<forall>msg \<in> set msgs. \<forall>s. fmlookup pubkeys (msg_sender msg) = Some s \<longrightarrow> s |\<in>| fmdom r1"
    and "2 \<le> map_len r1"
    and "\<forall>org s. org |\<in>| fmdom r1 \<longrightarrow> s |\<in>| fmdom r1 \<longrightarrow> org \<noteq> s \<longrightarrow>
      (\<exists>msg \<in> set msgs. truthful C pubkeys r1 s org msg)"
  shows "past_echo (dkg_run C me (WaitingForRound1PackagesBroadcast pubkeys r1 fmempty) msgs)"
  using assms by (rule all_echoes_end_round)

section \<open>A key generation of three participants\<close>

definition demo3_codec :: "(nat, nat, nat) dkg_codec" where
  "demo3_codec = \<lparr>decode_round1 = (\<lambda>bs. case bs of [x] \<Rightarrow> Some (unat x) | _ \<Rightarrow> None),
     decode_echo = (\<lambda>bs. case bs of [i, x] \<Rightarrow> Some (unat i, unat x) | _ \<Rightarrow> None),
     decode_round2 = (\<lambda>bs. case bs of [x, y, z] \<Rightarrow> Some (unat x) | _ \<Rightarrow> None)\<rparr>"

definition demo3_pubkeys :: "(nat, nat) hash_map" where
  "demo3_pubkeys = fmupd 1 10 (fmupd 2 20 (fmupd 3 30 fmempty))"

definition demo3_round1 :: "(nat, nat) hash_map" where
  "demo3_round1 = fmupd 30 5 (fmupd 20 4 fmempty)"

definition demo3_packages :: "nat msg list" where
  "demo3_packages = [\<lparr>msg_sender = 2, msg_bytes = [4]\<rparr>, \<lparr>msg_sender = 3, msg_bytes = [5]\<rparr>]"

definition demo3_echoes :: "nat msg list" where
  "demo3_echoes = [\<lparr>msg_sender = 2, msg_bytes = [30, 5]\<rparr>, \<lparr>msg_sender = 3, msg_bytes = [20, 4]\<rparr>]"

definition demo3_round2 :: "nat msg list" where
  "demo3_round2 = [\<lparr>msg_sender = 2, msg_bytes = [7, 0, 0]\<rparr>, \<lparr>msg_sender = 3, msg_bytes = [8, 0, 0]\<rparr>]"

lemmas demo3_defs = demo3_codec_def demo3_pubkeys_def demo3_round1_def demo3_packages_def
  demo3_echoes_def demo3_round2_def

lemma demo3_echo_premises:
  "\<forall>id. id |\<in>| fmdom demo3_round1 \<longrightarrow> id |\<in>| fmran demo3_pubkeys \<and> id \<noteq> 10"
  "\<forall>msg \<in> set demo3_echoes. \<forall>s. fmlookup demo3_pubkeys (msg_sender msg) = Some s \<longrightarrow> s |\<in>| fmdom demo3_round1"
  "2 \<le> map_len demo3_round1"
  "\<forall>org s. org |\<in>| fmdom demo3_round1 \<longrightarrow> s |\<in>| fmdom demo3_round1 \<longrightarrow> org \<noteq> s \<longrightarrow>
     (\<exists>msg \<in> set demo3_echoes. truthful demo3_codec demo3_pubkeys demo3_round1 s org msg)"
  by (auto simp: demo3_defs fmlookup_ran_iff fcard.rep_eq truthful_def intro: exI[of _ 2])

lemma demo3_past: "past_echo (dkg_run demo3_codec 10
    (WaitingForRound1PackagesBroadcast demo3_pubkeys demo3_round1 fmempty) demo3_echoes)"
  by (rule all_echoes_end_round[OF demo3_echo_premises])

lemma echo_round_ends_witness: "past_echo (dkg_run demo3_codec 10
    (WaitingForRound1PackagesBroadcast demo3_pubkeys demo3_round1 fmempty) demo3_echoes)"
  by (rule echo_round_ends[OF demo3_echo_premises])

lemma echo_broadcast_agreement_witness:
  "fmlookup (fmupd 10 3 (fmupd 30 5 fmempty)) (30::nat) = Some (5::nat)"
  by (rule echo_broadcast_agreement[OF demo3_past, of 20]) (auto simp: demo3_defs)

lemma missing_echoes_block_witness: "\<not> past_echo (dkg_run demo3_codec 10
    (WaitingForRound1PackagesBroadcast demo3_pubkeys demo3_round1 fmempty) (tl demo3_echoes))"
  by (rule missing_echoes_block[of 20 _ 30]) (auto simp: demo3_defs)

lemma round1_packages_of_the_others_witness:
  "\<exists>r1. session_round1_packages (dkg_run demo3_codec 10
     (WaitingForRound1Packages demo3_pubkeys fmempty) demo3_packages) = Ok r1 \<and>
   fmdom r1 = fmran demo3_pubkeys |-| {|10|}"
proof -
  have "\<forall>a b. fmlookup demo3_pubkeys a = fmlookup demo3_pubkeys b \<longrightarrow> fmlookup demo3_pubkeys a \<noteq> None \<longrightarrow> a = b"
    "fmlookup demo3_pubkeys 1 = Some 10" "\<forall>msg \<in> set demo3_packages. msg_sender msg \<noteq> 1"
    "has_round1_packages (dkg_run demo3_codec 10 (WaitingForRound1Packages demo3_pubkeys fmempty) demo3_packages)"
    by (auto simp: demo3_defs fcard.rep_eq)
  from round1_packages_of_the_others[OF this] show ?thesis by blast
qed

lemma round2_packages_of_the_others_witness:
  "\<exists>r2. session_round2_packages (dkg_run demo3_codec 10
     (WaitingForRound2Packages demo3_pubkeys demo3_round1 fmempty) demo3_round2) = Ok r2 \<and>
   fmdom r2 = fmdom demo3_round1"
proof -
  have "has_round2_packages (dkg_run demo3_codec 10
      (WaitingForRound2Packages demo3_pubkeys demo3_round1 fmempty) demo3_round2)"
    by (simp add: demo3_defs)
  from round2_packages_of_the_others[OF this] show ?thesis by blast
qed

end
