(* ===== verification/Dkg_Comms.thy ===== *)
theory Dkg_Comms
  imports Comms Dkg_Session
begin

text \<open>
  A participant's run of the distributed key generation over the server:
  \<^verbatim>\<open>mina-frost-client/src/dkg/comms/http.rs\<close> and \<^verbatim>\<open>dkg/keygen.rs\<close>. The rounds of
  FROST itself (\<open>frost_core::keys::dkg\<close>), JSON and the derivation of identifiers are
  parameters; polling runs for a number of rounds that is an argument.
\<close>

section \<open>Configuration and state\<close>

record dkg_config =
  comm_privkey :: "bytes option"
  comm_pubkey :: "comm_key option"
  participant_getter :: "(comm_key \<Rightarrow> comm_key option) option"
  min_signers :: u16
  participants :: "comm_key list"

record ('id, 'p1, 'p2, 'hs, 'ts, 'se, 'w) dkg_env = "('hs, 'ts, 'se, 'w) comms_env" +
  codec :: "('id, 'p1, 'p2) dkg_codec"
  encode_round1 :: "'p1 \<Rightarrow> bytes option"
  encode_echo :: "'id \<times> 'p1 \<Rightarrow> bytes option"
  encode_round2 :: "'p2 \<Rightarrow> bytes option"
  derive :: "bytes \<Rightarrow> 'id option"
  id_order :: "'id fset \<Rightarrow> 'id list"

record ('id, 'p1, 'p2, 'hs, 'ts, 'w) dkg_comms = "('hs, 'ts, 'w) comms" +
  own_identifier :: "'id option"
  pubkeys :: "(comm_key, 'id) hash_map"
  state :: "(comm_key, 'id, 'p1, 'p2) dkg_state"

definition dkg_comms_new :: "'w \<Rightarrow> ('id, 'p1, 'p2, 'hs, 'ts, 'w) dkg_comms" where
  "dkg_comms_new w = \<lparr>session_id = None, cipher_of = None, world = w, own_identifier = None,
     pubkeys = fmempty, state = dkg_default\<rparr>"

type_synonym ('id, 'p1, 'p2, 'hs, 'ts, 'se, 'w, 'a) dkg_io =
  "(('id, 'p1, 'p2, 'hs, 'ts, 'w) dkg_comms, 'se comms_error, 'a) io"

section \<open>Joining\<close>

definition choose_session ::
  "dkg_config \<Rightarrow> ('id, 'p1, 'p2, 'hs, 'ts, 'se, 'w) dkg_env \<Rightarrow>
    ('id, 'p1, 'p2, 'hs, 'ts, 'se, 'w, uuid) dkg_io" where
  "choose_session K E =
     (if participants K \<noteq> [] then
        ask (srv_create_new_session (srv E) \<lparr>create_pubkeys = participants K, create_message_count = 1\<rparr>)
      else
        io_bind (io_get (\<lambda>s. Ok (session_id s))) (\<lambda>given.
        case given of
          Some sid \<Rightarrow> io_pure (Ok sid)
        | None \<Rightarrow>
            io_bind (ask (srv_list_sessions (srv E))) (\<lambda>session_ids.
            io_pure (if length session_ids > 1 then Err (Report (lit ''user has more than one FROST session active; use `mina-frost-client sessions` to list them and specify the session ID with `-S`''))
              else if session_ids = [] then Err (Report (lit ''User has no current sessions active''))
              else idx session_ids 0))))"

definition derive_identifier ::
  "('id, 'p1, 'p2, 'hs, 'ts, 'se, 'w) dkg_env \<Rightarrow> uuid \<Rightarrow> comm_key \<Rightarrow> ('se comms_error, 'id) outcome" where
  "derive_identifier E sid pk = ok_or Frost (derive E (sid @ pk))"

definition derive_pubkeys ::
  "('id, 'p1, 'p2, 'hs, 'ts, 'se, 'w) dkg_env \<Rightarrow> uuid \<Rightarrow> comm_key list \<Rightarrow>
    ('se comms_error, (comm_key, 'id) hash_map) outcome" where
  "derive_pubkeys E sid pks =
     omap fmap_of_list (omap_list (\<lambda>pk. omap (Pair pk) (derive_identifier E sid pk)) pks)"

text \<open>\<open>match self.state\<close>, with its \<open>unreachable!\<close>.\<close>

definition set_state_pubkeys :: "('id, 'p1, 'p2, 'hs, 'ts, 'se, 'w, unit) dkg_io" where
  "set_state_pubkeys s =
     (case state s of
        WaitingForRound1Packages _ r1 \<Rightarrow>
          (Some (Ok ()), s\<lparr>state := WaitingForRound1Packages (pubkeys s) r1\<rparr>)
      | _ \<Rightarrow> (Some Panic, s))"

definition get_identifier_and_max_signers ::
  "dkg_config \<Rightarrow> ('id, 'p1, 'p2, 'hs, 'ts, 'se, 'w) dkg_env \<Rightarrow>
    ('id, 'p1, 'p2, 'hs, 'ts, 'se, 'w, 'id \<times> u16) dkg_io" where
  "get_identifier_and_max_signers K E =
     io_bind (log_in E (comm_privkey K) (comm_pubkey K)) (\<lambda>own_pubkey.
     io_bind (choose_session K E) (\<lambda>sid.
     io_bind (io_set (\<lambda>s. s\<lparr>session_id := Some sid\<rparr>)) (\<lambda>_.
     io_bind (ask (srv_get_session_info (srv E) sid)) (\<lambda>session_info.
     io_bind (io_pure (derive_pubkeys E sid (info_pubkeys session_info))) (\<lambda>pks.
     io_bind (io_set (\<lambda>s. s\<lparr>pubkeys := pks\<rparr>)) (\<lambda>_.
     io_bind (io_pure (if map_len pks < 2 then Err (Report (lit ''DKG session must have at least 2 participants''))
                       else Ok ())) (\<lambda>_.
     io_bind set_state_pubkeys (\<lambda>_.
     io_bind (io_pure (derive_identifier E sid own_pubkey)) (\<lambda>me.
     io_bind (io_set (\<lambda>s. s\<lparr>own_identifier := Some me\<rparr>)) (\<lambda>_.
     io_pure (Ok (me, word_of_nat (map_len pks)))))))))))))"

section \<open>Round 1\<close>

definition entries_by :: "('k fset \<Rightarrow> 'k list) \<Rightarrow> ('k, 'v) hash_map \<Rightarrow> ('k \<times> 'v) list" where
  "entries_by order m = map (\<lambda>k. (k, the (fmlookup m k))) (order (fmdom m))"

definition peer_keys ::
  "(comm_key \<Rightarrow> comm_key option) \<Rightarrow> comm_key list \<Rightarrow> ('se comms_error, comm_key list) outcome" where
  "peer_keys getter = omap_list (\<lambda>pk. ok_or (Report (lit ''A participant in specified FROST session is not registered in the user's address book'')) (getter pk))"

definition send_to_others ::
  "dkg_config \<Rightarrow> ('id, 'p1, 'p2, 'hs, 'ts, 'se, 'w) dkg_env \<Rightarrow>
    (comm_key \<times> 'id \<Rightarrow> ('id, 'p1, 'p2, 'hs, 'ts, 'se, 'w, unit) dkg_io) \<Rightarrow>
    ('id, 'p1, 'p2, 'hs, 'ts, 'se, 'w, unit) dkg_io" where
  "send_to_others K E send =
     io_bind (io_get (\<lambda>s. Ok (entries_by (key_order E) (pubkeys s))))
       (io_for (\<lambda>(pk, id). if Some pk = comm_pubkey K then io_pure (Ok ()) else send (pk, id)))"

text \<open>One message of a batch, and the loop that receives until a condition holds.\<close>

definition dkg_handle ::
  "('id, 'p1, 'p2, 'hs, 'ts, 'se, 'w) dkg_env \<Rightarrow> comm_key msg \<Rightarrow>
    ('id, 'p1, 'p2, 'hs, 'ts, 'se, 'w, unit) dkg_io" where
  "dkg_handle E msg =
     io_bind (decrypt_step E msg) (\<lambda>msg s.
       case own_identifier s of
         None \<Rightarrow> (Some Panic, s)
       | Some me \<Rightarrow> (case dkg_recv (codec E) me (state s) msg of
           (st, r) \<Rightarrow> (Some (map_err SessionErr r), s\<lparr>state := st\<rparr>)))"

definition receive_batch ::
  "('id, 'p1, 'p2, 'hs, 'ts, 'se, 'w) dkg_env \<Rightarrow> ('id, 'p1, 'p2, 'hs, 'ts, 'se, 'w, unit) dkg_io" where
  "receive_batch E = io_bind (receive_step E False) (io_for (dkg_handle E))"

definition receive_until ::
  "('id, 'p1, 'p2, 'hs, 'ts, 'se, 'w) dkg_env \<Rightarrow> nat \<Rightarrow> ((comm_key, 'id, 'p1, 'p2) dkg_state \<Rightarrow> bool) \<Rightarrow>
    ('id, 'p1, 'p2, 'hs, 'ts, 'se, 'w, unit) dkg_io" where
  "receive_until E n finished = io_poll n (receive_batch E) (\<lambda>s. finished (state s))"

definition round1_packages_step :: "('id, 'p1, 'p2, 'hs, 'ts, 'se, 'w, ('id, 'p1) hash_map) dkg_io" where
  "round1_packages_step = io_get (\<lambda>s. map_err SessionErr (session_round1_packages (state s)))"

definition echo_to ::
  "('id, 'p1, 'p2, 'hs, 'ts, 'se, 'w) dkg_env \<Rightarrow> comm_key \<times> 'id \<Rightarrow>
    ('id, 'p1, 'p2, 'hs, 'ts, 'se, 'w, unit) dkg_io" where
  "echo_to E = (\<lambda>(recipient_pubkey, recipient_identifier).
     io_bind round1_packages_step (\<lambda>r1.
     io_for (\<lambda>(sender_identifier, package).
       if sender_identifier = recipient_identifier then io_pure (Ok ())
       else send_step E (Some recipient_pubkey) (encode_echo E (sender_identifier, package)))
       (entries_by (id_order E) r1)))"

definition echo_round ::
  "dkg_config \<Rightarrow> ('id, 'p1, 'p2, 'hs, 'ts, 'se, 'w) dkg_env \<Rightarrow> nat \<Rightarrow>
    ('id, 'p1, 'p2, 'hs, 'ts, 'se, 'w, unit) dkg_io" where
  "echo_round K E n =
     io_bind (io_get (\<lambda>s. Ok (has_round1_broadcast_packages (state s)))) (\<lambda>skip.
     if skip then io_pure (Ok ())
     else io_bind (send_to_others K E (echo_to E)) (\<lambda>_. receive_until E n has_round1_broadcast_packages))"

definition get_round1_packages ::
  "dkg_config \<Rightarrow> ('id, 'p1, 'p2, 'hs, 'ts, 'se, 'w) dkg_env \<Rightarrow> nat \<Rightarrow> 'p1 \<Rightarrow>
    ('id, 'p1, 'p2, 'hs, 'ts, 'se, 'w, ('id, 'p1) hash_map) dkg_io" where
  "get_round1_packages K E n round1_package =
     (case (comm_privkey K, participant_getter K) of
        (Some privkey, Some getter) \<Rightarrow>
          io_bind (io_get (\<lambda>s. peer_keys getter (key_order E (fmdom (pubkeys s))))) (\<lambda>peers.
          io_bind (set_cipher E privkey peers) (\<lambda>_.
          io_bind (send_to_others K E (\<lambda>(pk, _). send_step E (Some pk) (encode_round1 E round1_package))) (\<lambda>_.
          io_bind (receive_until E n has_round1_packages) (\<lambda>_.
          io_bind (echo_round K E n) (\<lambda>_.
          round1_packages_step)))))
      | _ \<Rightarrow> io_pure (Err (Report (lit ''comm_privkey and comm_participant_pubkey_getter must be specified''))))"

section \<open>Round 2\<close>

definition the_cipher :: "('id, 'p1, 'p2, 'hs, 'ts, 'se, 'w, unit) dkg_io" where
  "the_cipher = io_get (\<lambda>s. case cipher_of s of Some _ \<Rightarrow> Ok () | None \<Rightarrow> Panic)"

definition get_round2_packages ::
  "dkg_config \<Rightarrow> ('id, 'p1, 'p2, 'hs, 'ts, 'se, 'w) dkg_env \<Rightarrow> nat \<Rightarrow> ('id, 'p2) hash_map \<Rightarrow>
    ('id, 'p1, 'p2, 'hs, 'ts, 'se, 'w, ('id, 'p2) hash_map) dkg_io" where
  "get_round2_packages K E n round2_packages =
     io_bind the_cipher (\<lambda>_.
     io_bind (send_to_others K E (\<lambda>(pk, id).
       io_bind (need (lit ''must have Round 2 Package for the given identifier'') (fmlookup round2_packages id)) (\<lambda>p.
       send_step E (Some pk) (encode_round2 E p)))) (\<lambda>_.
     io_bind (receive_until E n has_round2_packages) (\<lambda>_.
     io_bind (if participants K \<noteq> [] then close_step E else io_pure (Ok ())) (\<lambda>_.
     io_bind (ask (srv_logout (srv E))) (\<lambda>_.
     io_get (\<lambda>s. map_err SessionErr (session_round2_packages (state s))))))))"

definition get_pubkey_identifier_map ::
  "('id, 'p1, 'p2, 'hs, 'ts, 'se, 'w, (comm_key, 'id) hash_map) dkg_io" where
  "get_pubkey_identifier_map = io_get (\<lambda>s.
     case state s of Round2PackagesReady pks _ \<Rightarrow> Ok pks | _ \<Rightarrow> Err (Report (lit ''wrong state'')))"

section \<open>The key generation\<close>

text \<open>The three parts of \<open>frost_core::keys::dkg\<close>; the first one draws randomness.\<close>

record ('id, 'p1, 'p2, 's1, 's2, 'out, 'w) frost_dkg =
  part1 :: "'id \<Rightarrow> u16 \<Rightarrow> u16 \<Rightarrow> 'w \<Rightarrow> ('s1 \<times> 'p1) option \<times> 'w"
  part2 :: "'s1 \<Rightarrow> ('id, 'p1) hash_map \<Rightarrow> ('s2 \<times> ('id, 'p2) hash_map) option"
  part3 :: "'s2 \<Rightarrow> ('id, 'p1) hash_map \<Rightarrow> ('id, 'p2) hash_map \<Rightarrow> 'out option"

definition part1_step ::
  "('id, 'p1, 'p2, 's1, 's2, 'out, 'w) frost_dkg \<Rightarrow> 'id \<Rightarrow> u16 \<Rightarrow> u16 \<Rightarrow>
    ('id, 'p1, 'p2, 'hs, 'ts, 'se, 'w, 's1 \<times> 'p1) dkg_io" where
  "part1_step F me max_signers threshold s =
     (case part1 F me max_signers threshold (world s) of (r, w) \<Rightarrow> (Some (ok_or Frost r), s\<lparr>world := w\<rparr>))"

definition keygen_rounds ::
  "dkg_config \<Rightarrow> ('id, 'p1, 'p2, 'hs, 'ts, 'se, 'w) dkg_env \<Rightarrow> ('id, 'p1, 'p2, 's1, 's2, 'out, 'w) frost_dkg \<Rightarrow>
    nat \<Rightarrow> ('id, 'p1, 'p2, 'hs, 'ts, 'se, 'w, 'out \<times> (comm_key, 'id) hash_map) dkg_io" where
  "keygen_rounds K E F n =
     io_bind (get_identifier_and_max_signers K E) (\<lambda>(me, max_signers).
     io_bind (part1_step F me max_signers (min_signers K)) (\<lambda>(round1_secret, round1_package).
     io_bind (get_round1_packages K E n round1_package) (\<lambda>received_round1.
     io_bind (io_pure (ok_or Frost (part2 F round1_secret received_round1))) (\<lambda>(round2_secret, round2_packages).
     io_bind (get_round2_packages K E n round2_packages) (\<lambda>received_round2.
     io_bind (io_pure (ok_or Frost (part3 F round2_secret received_round1 received_round2))) (\<lambda>out.
     io_bind get_pubkey_identifier_map (\<lambda>pubkey_map.
     io_pure (Ok (out, pubkey_map)))))))))"

definition keygen ::
  "dkg_config \<Rightarrow> ('id, 'p1, 'p2, 'hs, 'ts, 'se, 'w) dkg_env \<Rightarrow> ('id, 'p1, 'p2, 's1, 's2, 'out, 'w) frost_dkg \<Rightarrow>
    nat \<Rightarrow> 'w \<Rightarrow> ('se comms_error, 'out \<times> (comm_key, 'id) hash_map) outcome option \<times>
      ('id, 'p1, 'p2, 'hs, 'ts, 'w) dkg_comms" where
  "keygen K E F n w = or_cleanup E (keygen_rounds K E F n) (dkg_comms_new w)"

section \<open>The run of the session that the communication performs\<close>

lemma dkg_fields_of_more:
  fixes s t :: "('id, 'p1, 'p2, 'hs, 'ts, 'w) dkg_comms"
  assumes "comms.more s = comms.more t"
  shows "own_identifier s = own_identifier t" and "pubkeys s = pubkeys t" and "state s = state t"
  using assms by (cases s; cases t; simp)+

lemma frame_dkg:
  fixes m :: "(('id, 'p1, 'p2, 'hs, 'ts, 'w) dkg_comms, 'e, 'a) io"
  assumes "frame m" and "m s = (r, s')"
  shows "own_identifier s' = own_identifier s" and "pubkeys s' = pubkeys s" and "state s' = state s"
  using frameD[OF assms] by (auto intro: dkg_fields_of_more)

definition runs_from ::
  "('id, 'p1, 'p2, 'hs, 'ts, 'se, 'w) dkg_env \<Rightarrow> (comm_key msg \<Rightarrow> bool) \<Rightarrow> 'id \<Rightarrow>
    (comm_key, 'id, 'p1, 'p2) dkg_state \<Rightarrow> ('id, 'p1, 'p2, 'hs, 'ts, 'w) dkg_comms \<Rightarrow> bool" where
  "runs_from E genuine me st0 s \<longleftrightarrow> own_identifier s = Some me \<and>
     (\<exists>msgs. (\<forall>m \<in> set msgs. genuine m) \<and> state s = dkg_run (codec E) me st0 msgs)"

lemma frame_runs_from: "frame m \<Longrightarrow> ensures (runs_from E genuine me st0) m (\<lambda>_. runs_from E genuine me st0)"
  unfolding ensures_def
proof (intro allI impI)
  fix s a s'
  assume "frame m" and "runs_from E genuine me st0 s" and step: "m s = (Some (Ok a), s')"
  then show "runs_from E genuine me st0 s'"
    using frame_dkg(1,3)[OF \<open>frame m\<close> step] unfolding runs_from_def by simp
qed

lemma dkg_handle_ensures:
  assumes "\<forall>c m c'. decrypt (snow E) c msg = (Ok m, c') \<longrightarrow> genuine m"
  shows "ensures (runs_from E genuine me st0) (dkg_handle E msg) (\<lambda>_. runs_from E genuine me st0)"
  unfolding dkg_handle_def
proof (rule ensures_bind)
  show "ensures (runs_from E genuine me st0) (decrypt_step E msg) (\<lambda>m s. runs_from E genuine me st0 s \<and> genuine m)"
    unfolding ensures_def
  proof (intro allI impI)
    fix s m s'
    assume run: "runs_from E genuine me st0 s" and step: "decrypt_step E msg s = (Some (Ok m), s')"
    then have "genuine m"
      using assms by (auto simp: decrypt_step_def outcome_simps split: option.splits prod.splits)
    moreover have "runs_from E genuine me st0 s'"
      using ensuresD[OF frame_runs_from[OF frame_decrypt] run step] .
    ultimately show "runs_from E genuine me st0 s' \<and> genuine m" by simp
  qed
next
  fix m
  show "ensures (\<lambda>s. runs_from E genuine me st0 s \<and> genuine m)
      (\<lambda>s. case own_identifier s of None \<Rightarrow> (Some Panic, s)
        | Some me \<Rightarrow> (case dkg_recv (codec E) me (state s) m of
            (st, r) \<Rightarrow> (Some (map_err SessionErr r), s\<lparr>state := st\<rparr>)))
      (\<lambda>_. runs_from E genuine me st0)"
    unfolding ensures_def
  proof (intro allI impI)
    fix s a s'
    assume run: "runs_from E genuine me st0 s \<and> genuine m"
      and step: "(case own_identifier s of None \<Rightarrow> (Some Panic, s)
        | Some me \<Rightarrow> (case dkg_recv (codec E) me (state s) m of
            (st, r) \<Rightarrow> (Some (map_err SessionErr r), s\<lparr>state := st\<rparr>))) = (Some (Ok a), s')"
    then obtain msgs where msgs: "\<forall>m \<in> set msgs. genuine m" "state s = dkg_run (codec E) me st0 msgs"
      "own_identifier s = Some me" by (auto simp: runs_from_def)
    then have "s' = s\<lparr>state := dkg_run (codec E) me st0 (msgs @ [m])\<rparr>"
      using step by (auto split: prod.splits)
    then show "runs_from E genuine me st0 s'"
      using msgs run by (auto simp: runs_from_def intro!: exI[of _ "msgs @ [m]"])
  qed
qed

lemma receive_batch_ensures:
  assumes "brings E genuine"
  shows "ensures (runs_from E genuine me st0) (receive_batch E) (\<lambda>_. runs_from E genuine me st0)"
  unfolding receive_batch_def
proof (rule ensures_bind)
  show "ensures (runs_from E genuine me st0) (receive_step E False) (\<lambda>ms s. runs_from E genuine me st0 s \<and>
      (\<forall>msg \<in> set ms. \<forall>c m c'. decrypt (snow E) c msg = (Ok m, c') \<longrightarrow> genuine m))"
    using receive_step_ensures[OF assms, of "runs_from E genuine me st0" False]
      frame_runs_from[OF frame_receive, of E genuine me st0 E False]
    unfolding ensures_def by blast
next
  fix ms
  show "ensures (\<lambda>s. runs_from E genuine me st0 s \<and> (\<forall>msg \<in> set ms. \<forall>c m c'.
      decrypt (snow E) c msg = (Ok m, c') \<longrightarrow> genuine m)) (io_for (dkg_handle E) ms)
      (\<lambda>_. runs_from E genuine me st0)"
  proof (cases "\<forall>msg \<in> set ms. \<forall>c m c'. decrypt (snow E) c msg = (Ok m, c') \<longrightarrow> genuine m")
    case True
    then have "ensures (runs_from E genuine me st0) (io_for (dkg_handle E) ms) (\<lambda>_. runs_from E genuine me st0)"
      by (intro ensures_for dkg_handle_ensures) blast
    then show ?thesis unfolding ensures_def by blast
  qed (auto simp: ensures_def)
qed

lemma receive_until_ensures:
  "brings E genuine \<Longrightarrow> ensures (runs_from E genuine me st0) (receive_until E n finished)
    (\<lambda>_ s. runs_from E genuine me st0 s \<and> finished (state s))"
  unfolding receive_until_def by (intro ensures_poll receive_batch_ensures)

lemma frame_send_to_others [frames]: "(\<And>x. frame (send x)) \<Longrightarrow> frame (send_to_others K E send)"
  unfolding send_to_others_def by (intro frames) (auto intro: frames split: prod.splits)

lemma frame_echo_to [frames]: "frame (echo_to E x)"
  unfolding echo_to_def round1_packages_step_def by (cases x) (auto intro!: frames split: prod.splits)

lemma echo_round_ensures:
  assumes "brings E genuine"
  shows "ensures (runs_from E genuine me st0) (echo_round K E n)
    (\<lambda>_ s. runs_from E genuine me st0 s \<and> has_round1_broadcast_packages (state s))"
  unfolding echo_round_def
proof (rule ensures_bind)
  show "ensures (runs_from E genuine me st0) (io_get (\<lambda>s. Ok (has_round1_broadcast_packages (state s))))
      (\<lambda>skip s. runs_from E genuine me st0 s \<and> skip = has_round1_broadcast_packages (state s))"
    by (rule ensures_get) simp
next
  fix skip
  have "ensures (runs_from E genuine me st0)
      (io_bind (send_to_others K E (echo_to E)) (\<lambda>_. receive_until E n has_round1_broadcast_packages))
      (\<lambda>_ s. runs_from E genuine me st0 s \<and> has_round1_broadcast_packages (state s))"
    by (rule ensures_bind[OF frame_runs_from receive_until_ensures[OF assms]]) (intro frames)
  then show "ensures (\<lambda>s. runs_from E genuine me st0 s \<and> skip = has_round1_broadcast_packages (state s))
      (if skip then io_pure (Ok ()) else
        io_bind (send_to_others K E (echo_to E)) (\<lambda>_. receive_until E n has_round1_broadcast_packages))
      (\<lambda>_ s. runs_from E genuine me st0 s \<and> has_round1_broadcast_packages (state s))"
    by (auto simp: ensures_def)
qed

lemma has_broadcast_has_round1: "has_round1_broadcast_packages st \<Longrightarrow> has_round1_packages st"
  by (cases st) simp_all

lemma wait_and_echo_ensures:
  assumes "brings E genuine"
  shows "ensures (runs_from E genuine me st0)
    (io_bind (receive_until E n has_round1_packages) (\<lambda>_. io_bind (echo_round K E n) (\<lambda>_. round1_packages_step)))
    (\<lambda>r1 s. runs_from E genuine me st0 s \<and> has_round1_broadcast_packages (state s) \<and>
       session_round1_packages (state s) = Ok r1)"
proof (rule ensures_bind)
  show "ensures (runs_from E genuine me st0) (receive_until E n has_round1_packages)
      (\<lambda>_. runs_from E genuine me st0)"
    by (rule ensures_weaken[OF receive_until_ensures[OF assms]]) blast
next
  show "ensures (runs_from E genuine me st0) (io_bind (echo_round K E n) (\<lambda>_. round1_packages_step))
      (\<lambda>r1 s. runs_from E genuine me st0 s \<and> has_round1_broadcast_packages (state s) \<and>
         session_round1_packages (state s) = Ok r1)"
    unfolding round1_packages_step_def
    by (rule ensures_bind[OF echo_round_ensures[OF assms] ensures_get]) (simp add: outcome_simps)
qed

lemma get_round1_packages_ensures:
  assumes "brings E genuine"
  shows "ensures (runs_from E genuine me st0) (get_round1_packages K E n package)
    (\<lambda>r1 s. runs_from E genuine me st0 s \<and> has_round1_broadcast_packages (state s) \<and>
       session_round1_packages (state s) = Ok r1)"
proof (cases "\<exists>sk get. comm_privkey K = Some sk \<and> participant_getter K = Some get")
  case False
  then show ?thesis by (auto simp: get_round1_packages_def ensures_def split: option.splits)
next
  case True
  then obtain sk get where some: "comm_privkey K = Some sk" "participant_getter K = Some get" by blast
  have send: "frame (send_to_others K E (\<lambda>(pk, _). send_step E (Some pk) (encode_round1 E package)))"
    by (intro frames) (auto intro: frames split: prod.splits)
  show ?thesis
    unfolding get_round1_packages_def some prod.case option.case
    by (rule ensures_bind[OF frame_runs_from[OF frame_get]]
        ensures_bind[OF frame_runs_from[OF frame_set_cipher]]
        ensures_bind[OF frame_runs_from[OF send]] wait_and_echo_ensures[OF assms])+
qed

text \<open>
  C17: the round-1 exchange, from the network up to what the next round is given. Let
  identifiers be distinct and no genuine message come from oneself. Whatever is sent, by
  whomever and in whatever batches: if the exchange returns packages, they are of exactly the
  other participants, each from a genuine message of its sender; and with more than two
  participants, each of them was also echoed, unchanged, by every third one.
\<close>

theorem round1_exchange_agrees:
  fixes E :: "('id, 'p1, 'p2, 'hs, 'ts, 'se, 'w) dkg_env"
  assumes "get_round1_packages K E n package s = (Some (Ok r1), s')"
    and "own_identifier s = Some me" and "state s = WaitingForRound1Packages pks fmempty"
    and "fmlookup pks mine = Some me"
    and "\<forall>a b. fmlookup pks a = fmlookup pks b \<longrightarrow> fmlookup pks a \<noteq> None \<longrightarrow> a = b"
    and "brings E genuine" and "\<forall>m. genuine m \<longrightarrow> msg_sender m \<noteq> mine"
  shows "fmdom r1 = fmran pks |-| {|me|} \<and>
    (\<forall>id p. fmlookup r1 id = Some p \<longrightarrow> (\<exists>m. genuine m \<and>
       fmlookup pks (msg_sender m) = Some id \<and> decode_round1 (codec E) (msg_bytes m) = Some p)) \<and>
    (map_len pks > 2 \<longrightarrow> (\<forall>org p third. fmlookup r1 org = Some p \<longrightarrow> third |\<in>| fmdom r1 \<longrightarrow> third \<noteq> org \<longrightarrow>
       (\<exists>m. genuine m \<and> fmlookup pks (msg_sender m) = Some third \<and>
          decode_echo (codec E) (msg_bytes m) = Some (org, p))))"
proof -
  let ?st = "WaitingForRound1Packages pks fmempty :: (comm_key, 'id, 'p1, 'p2) dkg_state"
  have "runs_from E genuine me ?st s"
    using assms(2,3) by (auto simp: runs_from_def intro!: exI[of _ "[]"])
  from ensuresD[OF get_round1_packages_ensures[OF assms(6)] this assms(1)] obtain msgs where
    msgs: "\<forall>m \<in> set msgs. genuine m" "state s' = dkg_run (codec E) me ?st msgs"
    and fin: "has_round1_broadcast_packages (state s')" "session_round1_packages (state s') = Ok r1"
    by (auto simp: runs_from_def)
  have has1: "has_round1_packages (dkg_run (codec E) me ?st msgs)"
    using has_broadcast_has_round1[OF fin(1)] unfolding msgs(2) .
  have others: "\<forall>m \<in> set msgs. msg_sender m \<noteq> mine" using msgs(1) assms(7) by blast
  from round1_result[OF assms(5,4) others has1] fin(2) msgs(2) have r1: "fmdom r1 = fmran pks |-| {|me|}"
    "\<forall>id p. fmlookup r1 id = Some p \<longrightarrow> (\<exists>m \<in> set msgs. fmlookup pks (msg_sender m) = Some id \<and>
       decode_round1 (codec E) (msg_bytes m) = Some p)" by auto
  have src: "\<exists>m. genuine m \<and> fmlookup pks (msg_sender m) = Some id \<and>
      decode_round1 (codec E) (msg_bytes m) = Some p" if "fmlookup r1 id = Some p" for id p
    using r1(2) that msgs(1) by blast
  have echo: "\<exists>m. genuine m \<and> fmlookup pks (msg_sender m) = Some third \<and>
      decode_echo (codec E) (msg_bytes m) = Some (org, p)"
    if "map_len pks > 2" "fmlookup r1 org = Some p" "third |\<in>| fmdom r1" "third \<noteq> org" for org p third
  proof (cases rule: round1_split[OF has1])
    case (1 pre post q)
    then have "q = r1" using fin(2) msgs(2) by simp
    have "dkg_run (codec E) me ?st msgs =
        dkg_run (codec E) me (WaitingForRound1PackagesBroadcast pks r1 fmempty) post"
      unfolding 1(1) foldl_append 1(2) using that(1) \<open>q = r1\<close> by simp
    then have "past_echo (dkg_run (codec E) me (WaitingForRound1PackagesBroadcast pks r1 fmempty) post)"
      using fin(1) msgs(2) by (simp add: past_echo_def)
    from echo_round_result[OF this that(2,3,4)] show ?thesis using msgs(1) 1(1) by auto
  qed
  show ?thesis by (intro conjI allI impI r1(1) src echo)
qed

section \<open>Batches that come early\<close>

lemma dkg_handle_decrypted:
  assumes "cipher_of s = Some c" and "decrypt (snow E) c raw = (Ok m, c')" and "own_identifier s = Some me"
  shows "dkg_handle E raw s = (case dkg_recv (codec E) me (state s) m of
    (st, r) \<Rightarrow> (Some (map_err SessionErr r), s\<lparr>cipher_of := Some c', state := st\<rparr>))"
  using assms by (simp add: dkg_handle_def io_bind_def decrypt_step_def split: prod.splits)

lemma dkg_handle_all:
  "cipher_of s = Some c \<Longrightarrow> own_identifier s = Some me \<Longrightarrow> run_all (decrypt (snow E)) c raws = (map Ok ms, c') \<Longrightarrow>
    dkg_recv_all (codec E) me (state s) ms = (st, Ok ()) \<Longrightarrow>
    io_for (dkg_handle E) raws s = (Some (Ok ()), s\<lparr>cipher_of := Some c', state := st\<rparr>)"
proof (induction raws arbitrary: s c ms)
  case Nil
  then show ?case by simp
next
  case (Cons raw raws)
  obtain r c1 where d: "decrypt (snow E) c raw = (r, c1)" by (cases "decrypt (snow E) c raw")
  obtain rs c2 where rest: "run_all (decrypt (snow E)) c1 raws = (rs, c2)"
    by (cases "run_all (decrypt (snow E)) c1 raws")
  from Cons.prems(3) d rest obtain m ms' where ms: "ms = m # ms'" "r = Ok m" "rs = map Ok ms'" "c2 = c'"
    by (cases ms) auto
  obtain st1 o1 where r1: "dkg_recv (codec E) me (state s) m = (st1, o1)" by (cases "dkg_recv (codec E) me (state s) m")
  with Cons.prems(4) have ok: "o1 = Ok ()" "dkg_recv_all (codec E) me st1 ms' = (st, Ok ())"
    by (cases o1; simp add: ms(1))+
  let ?s1 = "s\<lparr>cipher_of := Some c1, state := st1\<rparr>"
  have "dkg_handle E raw s = (Some (Ok ()), ?s1)"
    using dkg_handle_decrypted[of s c E raw m c1 me] Cons.prems(1,2) d ms(2) r1 ok(1) by simp
  moreover have "io_for (dkg_handle E) raws ?s1 = (Some (Ok ()), ?s1\<lparr>cipher_of := Some c', state := st\<rparr>)"
    using Cons.IH[of ?s1 c1 ms'] Cons.prems(2) rest ms(3,4) ok(2) by simp
  ultimately show ?case by simp
qed

text \<open>The server's next batch is \<open>raws\<close>, and it decrypts to \<open>ms\<close>.\<close>

definition next_batch ::
  "('id, 'p1, 'p2, 'hs, 'ts, 'se, 'w) dkg_env \<Rightarrow> ('id, 'p1, 'p2, 'hs, 'ts, 'w) dkg_comms \<Rightarrow>
    comm_key msg list \<Rightarrow> ('hs, 'ts, comm_key) cipher \<Rightarrow> 'w \<Rightarrow> bool" where
  "next_batch E s ms c' w' \<longleftrightarrow> (\<exists>sid c raws. session_id s = Some sid \<and> cipher_of s = Some c \<and>
     srv_receive (srv E) \<lparr>receive_session_id = sid, as_coordinator = False\<rparr> (world s) = (Ok raws, w') \<and>
     run_all (decrypt (snow E)) c raws = (map Ok ms, c'))"

lemma receive_batch_next:
  assumes "next_batch E s ms c' w'" and "own_identifier s = Some me"
    and "dkg_recv_all (codec E) me (state s) ms = (st, Ok ())"
  shows "receive_batch E s = (Some (Ok ()), s\<lparr>cipher_of := Some c', world := w', state := st\<rparr>)"
proof -
  from assms(1) obtain sid c raws where b: "session_id s = Some sid" "cipher_of s = Some c"
    "srv_receive (srv E) \<lparr>receive_session_id = sid, as_coordinator = False\<rparr> (world s) = (Ok raws, w')"
    "run_all (decrypt (snow E)) c raws = (map Ok ms, c')" unfolding next_batch_def by blast
  have "receive_step E False s = (Some (Ok raws), s\<lparr>world := w'\<rparr>)"
    using b(1,3) by (simp add: receive_step_def the_session_def ask_def)
  moreover have "io_for (dkg_handle E) raws (s\<lparr>world := w'\<rparr>) =
      (Some (Ok ()), s\<lparr>world := w'\<rparr>\<lparr>cipher_of := Some c', state := st\<rparr>)"
    using dkg_handle_all[of "s\<lparr>world := w'\<rparr>" c me E raws ms c' st] b(2,4) assms(2,3) by simp
  ultimately show ?thesis by (simp add: receive_batch_def)
qed

lemma frame_ready: "frame m \<Longrightarrow> ensures (\<lambda>s. has_round2_packages (state s)) m (\<lambda>_ s. has_round2_packages (state s))"
  for m :: "(('id, 'p1, 'p2, 'hs, 'ts, 'w) dkg_comms, 'e, 'a) io"
  unfolding ensures_def by (metis frame_dkg(3))

lemma dkg_handle_ready:
  fixes E :: "('id, 'p1, 'p2, 'hs, 'ts, 'se, 'w) dkg_env"
  shows "ensures (\<lambda>s. has_round2_packages (state s)) (dkg_handle E msg) (\<lambda>_ s. has_round2_packages (state s))"
  unfolding dkg_handle_def
proof (rule ensures_bind[OF frame_ready[OF frame_decrypt]])
  fix m
  show "ensures (\<lambda>s :: ('id, 'p1, 'p2, 'hs, 'ts, 'w) dkg_comms. has_round2_packages (state s))
      (\<lambda>s. case own_identifier s of None \<Rightarrow> (Some Panic, s)
        | Some me \<Rightarrow> (case dkg_recv (codec E) me (state s) m of
            (st, r) \<Rightarrow> (Some (map_err SessionErr r :: ('se comms_error, unit) outcome), s\<lparr>state := st\<rparr>)))
      (\<lambda>_ s. has_round2_packages (state s))"
    unfolding ensures_def
  proof (intro allI impI)
    fix s :: "('id, 'p1, 'p2, 'hs, 'ts, 'w) dkg_comms" and a s'
    assume "has_round2_packages (state s)" and "(case own_identifier s of None \<Rightarrow> (Some Panic, s)
        | Some me \<Rightarrow> (case dkg_recv (codec E) me (state s) m of
            (st, r) \<Rightarrow> (Some (map_err SessionErr r :: ('se comms_error, unit) outcome), s\<lparr>state := st\<rparr>))) =
        (Some (Ok a), s')"
    then show "has_round2_packages (state s')" by (cases "state s") (auto split: option.splits)
  qed
qed

lemma ready_batch:
  assumes "has_round2_packages (state s)" and "receive_batch E s = (Some (Ok ()), s')"
  shows "has_round2_packages (state s')"
proof -
  have "ensures (\<lambda>s. has_round2_packages (state s)) (receive_batch E) (\<lambda>_ s. has_round2_packages (state s))"
    unfolding receive_batch_def
    by (rule ensures_bind[OF frame_ready[OF frame_receive] ensures_for[OF dkg_handle_ready]])
  from ensuresD[OF this assms] show ?thesis .
qed

text \<open>A server that from now on only has empty batches, in every state in which \<open>quiet\<close> holds.\<close>

definition idle_server :: "('id, 'p1, 'p2, 'hs, 'ts, 'se, 'w) dkg_env \<Rightarrow> ('w \<Rightarrow> bool) \<Rightarrow> bool" where
  "idle_server E quiet \<longleftrightarrow> (\<forall>w args. quiet w \<longrightarrow> (\<exists>w'. srv_receive (srv E) args w = (Ok [], w') \<and> quiet w'))"

lemma idle_batch:
  assumes "idle_server E quiet" and "quiet (world s)" and "session_id s = Some sid"
  obtains w' where "receive_batch E s = (Some (Ok ()), s\<lparr>world := w'\<rparr>)" "quiet w'"
proof -
  from assms(1,2) obtain w' where w: "srv_receive (srv E) \<lparr>receive_session_id = sid, as_coordinator = False\<rparr> (world s) = (Ok [], w')"
    "quiet w'" unfolding idle_server_def by blast
  with assms(3) have "receive_batch E s = (Some (Ok ()), s\<lparr>world := w'\<rparr>)"
    by (simp add: receive_batch_def receive_step_def the_session_def ask_def io_bind_def)
  with that w(2) show thesis by blast
qed

text \<open>
  C39: a batch that completes round 2 makes round 1 wait in vain. When the batch that brings the
  last round-1 package brings all round-2 packages too (with two participants: both packages of
  the peer), the state machine is past the states the first loop waits for: the wait never
  succeeds, however long it polls and whatever the server sends; and while nothing more arrives,
  as when the peers have sent all they have, it does not end at all.
\<close>

theorem early_round2_hangs_round1:
  fixes E :: "('id, 'p1, 'p2, 'hs, 'ts, 'se, 'w) dkg_env"
  assumes "next_batch E s ms c' w'" and "own_identifier s = Some me"
    and "dkg_recv_all (codec E) me (state s) ms = (Round2PackagesReady pks r2, Ok ())"
  shows "fst (receive_until E n has_round1_packages s) \<noteq> Some (Ok ()) \<and>
    (idle_server E quiet \<and> quiet w' \<longrightarrow> fst (receive_until E n has_round1_packages s) = None)"
proof (cases n)
  case (Suc k)
  let ?s1 = "s\<lparr>cipher_of := Some c', world := w', state := Round2PackagesReady pks r2\<rparr>"
  let ?wait = "fst (io_poll k (receive_batch E) (\<lambda>s. has_round1_packages (state s)) ?s1)"
  have "?wait \<noteq> Some (Ok ())"
  proof (rule io_poll_never[where I = "\<lambda>s. has_round2_packages (state s)"])
    fix t r t'
    assume "has_round2_packages (state t)" "receive_batch E t = (r, t')" "r = Some (Ok ())"
    then have "has_round2_packages (state t')" using ready_batch by blast
    then show "has_round2_packages (state t') \<and> \<not> has_round1_packages (state t')" by (cases "state t'") simp_all
  qed simp
  moreover have "?wait = None" if idle: "idle_server E quiet" and quiet: "quiet w'"
  proof (rule io_poll_idle[where I = "\<lambda>s. state s = Round2PackagesReady pks r2 \<and> session_id s \<noteq> None \<and> quiet (world s)"])
    fix t :: "('id, 'p1, 'p2, 'hs, 'ts, 'w) dkg_comms"
    assume t: "state t = Round2PackagesReady pks r2 \<and> session_id t \<noteq> None \<and> quiet (world t)"
    then obtain sid where "session_id t = Some sid" by blast
    with idle t obtain w2 where "receive_batch E t = (Some (Ok ()), t\<lparr>world := w2\<rparr>)" "quiet w2"
      using idle_batch[of E quiet t sid] by blast
    with t show "\<exists>t'. receive_batch E t = (Some (Ok ()), t') \<and>
        (state t' = Round2PackagesReady pks r2 \<and> session_id t' \<noteq> None \<and> quiet (world t')) \<and> \<not> has_round1_packages (state t')"
      by simp
  qed (use assms(1) quiet in \<open>auto simp: next_batch_def\<close>)
  ultimately show ?thesis using receive_batch_next[OF assms] by (simp add: receive_until_def Suc)
qed (simp add: receive_until_def)

text \<open>
  A batch that completes the echo round silences the participant. When the batch that brings
  the last round-1 package brings every echo too, the participant finds the echo round over and
  returns its packages without having sent any echo of its own: nothing is sent after the
  batch was received.
\<close>

theorem early_echoes_suppress_own:
  assumes "next_batch E s ms c' w'" and "own_identifier s = Some me"
    and "dkg_recv_all (codec E) me (state s) ms = (WaitingForRound2Packages pks r1 r2, Ok ())"
    and "0 < n"
  shows "io_bind (receive_until E n has_round1_packages) (\<lambda>_. io_bind (echo_round K E n) (\<lambda>_. round1_packages_step)) s =
    (Some (Ok r1), s\<lparr>cipher_of := Some c', world := w', state := WaitingForRound2Packages pks r1 r2\<rparr>)"
proof -
  let ?s1 = "s\<lparr>cipher_of := Some c', world := w', state := WaitingForRound2Packages pks r1 r2\<rparr>"
  obtain k where "n = Suc k" using assms(4) by (cases n) simp_all
  then have "receive_until E n has_round1_packages s = (Some (Ok ()), ?s1)"
    using receive_batch_next[OF assms(1-3)] by (simp add: receive_until_def)
  moreover have "echo_round K E n ?s1 = (Some (Ok ()), ?s1)" by (simp add: echo_round_def io_bind_def)
  ultimately show ?thesis by (simp add: round1_packages_step_def)
qed

section \<open>Round 2 and the end\<close>

lemma frame_keeps_ready:
  assumes "frame m"
  shows "ensures (\<lambda>s. runs_from E genuine me st0 s \<and> has_round2_packages (state s)) m
    (\<lambda>_ s. runs_from E genuine me st0 s \<and> has_round2_packages (state s))"
  unfolding ensures_def
proof (intro allI impI)
  fix s a s'
  assume run: "runs_from E genuine me st0 s \<and> has_round2_packages (state s)" and m: "m s = (Some (Ok a), s')"
  from run have "runs_from E genuine me st0 s'" using ensuresD[OF frame_runs_from[OF assms] _ m] by blast
  then show "runs_from E genuine me st0 s' \<and> has_round2_packages (state s')"
    using frame_dkg(3)[OF assms m] run by simp
qed

lemma get_round2_packages_ensures:
  assumes "brings E genuine"
  shows "ensures (runs_from E genuine me st0) (get_round2_packages K E n packages)
    (\<lambda>r2 s. runs_from E genuine me st0 s \<and> session_round2_packages (state s) = Ok r2)"
proof -
  have close: "frame (if participants K \<noteq> [] then close_step E else io_pure (Ok ()))"
    by (simp add: frame_close frame_pure)
  have send: "frame (send_to_others K E (\<lambda>(pk, id). io_bind
      (need (lit ''must have Round 2 Package for the given identifier'') (fmlookup packages id))
      (\<lambda>p. send_step E (Some pk) (encode_round2 E p))))"
    by (intro frames) (auto intro!: frames split: prod.splits)
  show ?thesis
    unfolding get_round2_packages_def the_cipher_def
    by (rule ensures_bind[OF frame_runs_from[OF frame_get]] ensures_bind[OF frame_runs_from[OF send]]
        ensures_bind[OF receive_until_ensures[OF assms]] ensures_bind[OF frame_keeps_ready[OF close]]
        ensures_bind[OF frame_keeps_ready[OF frame_ask]] ensures_get)+ (auto simp: outcome_simps)
qed

text \<open>
  The round-2 exchange: packages it returns are of exactly the participants whose round-1
  packages were used, each one held already or from a genuine message of its sender.
\<close>

theorem round2_exchange_complete:
  assumes "get_round2_packages K E n packages s = (Some (Ok r2), s')"
    and "own_identifier s = Some me" and "state s = WaitingForRound2Packages pks r1 early"
    and "brings E genuine"
  shows "fmdom r2 = fmdom r1 \<and>
    (\<forall>id p. fmlookup r2 id = Some p \<longrightarrow> fmlookup early id = Some p \<or> (\<exists>m. genuine m \<and>
       fmlookup pks (msg_sender m) = Some id \<and> decode_round2 (codec E) (msg_bytes m) = Some p))"
proof -
  have "runs_from E genuine me (WaitingForRound2Packages pks r1 early) s"
    using assms(2,3) by (auto simp: runs_from_def intro!: exI[of _ "[]"])
  from ensuresD[OF get_round2_packages_ensures[OF assms(4)] this assms(1)] obtain msgs where
    msgs: "\<forall>m \<in> set msgs. genuine m"
      "state s' = dkg_run (codec E) me (WaitingForRound2Packages pks r1 early) msgs"
    and fin: "session_round2_packages (state s') = Ok r2" by (auto simp: runs_from_def)
  have "has_round2_packages (state s')" using fin by (cases "state s'") simp_all
  from round2_result[OF this[unfolded msgs(2)]] fin[unfolded msgs(2)] show ?thesis using msgs(1) by fastforce
qed

text \<open>
  A session that fails is closed: whenever the key generation returns an error after a
  session was joined or created, the last thing it did was to ask the server to close it.
\<close>

theorem keygen_closes_on_error:
  assumes "keygen K E F n w = (Some (Err e), s)" and "session_id s = Some sid"
  shows "\<exists>w'. world s = snd (srv_close_session (srv E) sid w')"
  using or_cleanup_closes assms unfolding keygen_def by blast

lemma derive_pubkeys_Ok:
  "derive_pubkeys E sid pks = Ok m \<Longrightarrow> fmdom m = fset_of_list pks \<and>
    (\<forall>pk id. fmlookup m pk = Some id \<longrightarrow> derive E (sid @ pk) = Some id)"
proof -
  assume "derive_pubkeys E sid pks = Ok m"
  then obtain kvs where kvs: "omap_list (\<lambda>pk. omap (Pair pk) (derive_identifier E sid pk)) pks = Ok kvs"
    and m: "m = fmap_of_list kvs" by (auto simp: derive_pubkeys_def outcome_simps)
  have "map fst kvs = pks \<and> (\<forall>(pk, id) \<in> set kvs. derive E (sid @ pk) = Some id)"
    using kvs
  proof (induction pks arbitrary: kvs)
    case (Cons pk pks)
    then show ?case by (fastforce simp: outcome_simps derive_identifier_def)
  qed simp
  then show ?thesis
    by (auto simp: m fmap_of_list.rep_eq fset_of_list_map[symmetric] dest!: map_of_SomeD)
qed

lemma log_in_Ok: "log_in E sk pk s = (Some (Ok own), s') \<Longrightarrow> pk = Some own"
  by (auto simp: log_in_def io_bind_Ok need_def outcome_simps)

lemma set_state_pubkeys_Ok:
  "set_state_pubkeys s = (Some (Ok ()), s') \<Longrightarrow>
    \<exists>old r1. state s = WaitingForRound1Packages old r1 \<and> s' = s\<lparr>state := WaitingForRound1Packages (pubkeys s) r1\<rparr>"
  by (auto simp: set_state_pubkeys_def split: dkg_state.splits)

text \<open>
  Identifiers are derived, for everybody alike, from the session and the communication key,
  and a session of fewer than two participants is refused.
\<close>

theorem identifiers_derived:
  fixes E :: "('id, 'p1, 'p2, 'hs, 'ts, 'se, 'w) dkg_env"
  assumes "get_identifier_and_max_signers K E s = (Some (Ok (me, max_signers)), s')"
  shows "\<exists>sid own. session_id s' = Some sid \<and> comm_pubkey K = Some own \<and>
    own_identifier s' = Some me \<and> derive E (sid @ own) = Some me \<and>
    (\<forall>pk id. fmlookup (pubkeys s') pk = Some id \<longrightarrow> derive E (sid @ pk) = Some id) \<and>
    2 \<le> map_len (pubkeys s') \<and> max_signers = word_of_nat (map_len (pubkeys s')) \<and>
    (\<exists>r1. state s' = WaitingForRound1Packages (pubkeys s') r1)"
proof -
  from assms[unfolded get_identifier_and_max_signers_def io_bind_Ok]
  obtain own s1 sid s2 u1 t1 info s3 pks t2 u2 t3 u3 t4 u4 s4 me' t5 u5 t6 where
    own: "log_in E (comm_privkey K) (comm_pubkey K) s = (Some (Ok own :: ('se comms_error, comm_key) outcome), s1)"
    and "choose_session K E s1 = (Some (Ok sid), s2)"
    and t1: "io_set (\<lambda>s. s\<lparr>session_id := Some sid\<rparr>) s2 = (Some (Ok u1 :: ('se comms_error, unit) outcome), t1)"
    and info: "ask (srv_get_session_info (srv E) sid) t1 =
      (Some (Ok info :: ('se comms_error, comm_key session_info_output) outcome), s3)"
    and t2: "io_pure (derive_pubkeys E sid (info_pubkeys info)) s3 = (Some (Ok pks), t2)"
    and t3: "io_set (\<lambda>s. s\<lparr>pubkeys := pks\<rparr>) t2 = (Some (Ok u2 :: ('se comms_error, unit) outcome), t3)"
    and t4: "io_pure (if map_len pks < 2 then Err (Report (lit ''DKG session must have at least 2 participants''))
        else Ok ()) t3 = (Some (Ok u3 :: ('se comms_error, unit) outcome), t4)"
    and st: "set_state_pubkeys t4 = (Some (Ok u4 :: ('se comms_error, unit) outcome), s4)"
    and t5: "io_pure (derive_identifier E sid own) s4 = (Some (Ok me'), t5)"
    and t6: "io_set (\<lambda>s. s\<lparr>own_identifier := Some me'\<rparr>) t5 = (Some (Ok u5 :: ('se comms_error, unit) outcome), t6)"
    and last: "io_pure (Ok (me', word_of_nat (map_len pks))) t6 =
      (Some (Ok (me, max_signers) :: ('se comms_error, 'id \<times> u16) outcome), s')" by blast
  have pks: "derive_pubkeys E sid (info_pubkeys info) = Ok pks" and len: "\<not> map_len pks < 2"
    and t: "t2 = s3" "t4 = s3\<lparr>pubkeys := pks\<rparr>" and max: "max_signers = word_of_nat (map_len pks)"
    and me: "derive_identifier E sid own = Ok me" and s': "s' = s4\<lparr>own_identifier := Some me\<rparr>"
    using t2 t3 t4 t5 t6 last by (auto split: if_splits)
  have sid: "session_id s3 = Some sid" using frameD[OF frame_ask, OF info] t1 by auto
  from set_state_pubkeys_Ok[of t4] st obtain r1 where
    s4: "s4 = s3\<lparr>pubkeys := pks, state := WaitingForRound1Packages pks r1\<rparr>" by (auto simp: t)
  have "derive E (sid @ own) = Some me" using me by (simp add: derive_identifier_def outcome_simps)
  then show ?thesis
    using derive_pubkeys_Ok[OF pks] log_in_Ok[OF own] sid len max
    by (intro exI[of _ sid] exI[of _ own]) (simp add: s' s4)
qed

section \<open>Runs of two and of three participants\<close>

text \<open>The fixed server and cipher of the shared part, and identifiers that are ten times the key.\<close>

definition demo_dkg :: "comm_key list \<Rightarrow> comm_key msg list list \<Rightarrow> (nat, nat, nat, unit, unit, unit, nat) dkg_env" where
  "demo_dkg keys batches = \<lparr>srv = demo_server keys batches, snow = snow_plain,
     xed_sign = (\<lambda>_ _ w. ([], w)), key_order = (\<lambda>A. filter (\<lambda>k. k |\<in>| A) keys),
     codec = demo3_codec, encode_round1 = (\<lambda>p. Some [word_of_nat p]),
     encode_echo = (\<lambda>(i, p). Some [word_of_nat i, word_of_nat p]),
     encode_round2 = (\<lambda>p. Some [word_of_nat p, 0, 0]),
     derive = (\<lambda>bs. Some (10 * unat (last bs))), id_order = (\<lambda>A. filter (\<lambda>i. i |\<in>| A) [10, 20, 30])\<rparr>"

definition demo_config :: dkg_config where
  "demo_config = \<lparr>comm_privkey = Some (replicate 32 0), comm_pubkey = Some [1],
     participant_getter = Some Some, min_signers = 2, participants = []\<rparr>"

lemmas demo_dkg_defs = demo_dkg_def demo_server_def snow_plain_def demo_config_def demo3_codec_def

lemma identifiers_derived_witness:
  "\<exists>sid own. Some [7] = Some sid \<and> comm_pubkey demo_config = Some own \<and>
    derive (demo_dkg [[1], [2]] []) (sid @ own) = Some 10"
proof -
  have "get_identifier_and_max_signers demo_config (demo_dkg [[1], [2]] []) (dkg_comms_new 0) =
      (Some (Ok (10, 2)), \<lparr>session_id = Some [7], cipher_of = None, world = 0, own_identifier = Some 10,
        pubkeys = fmap_of_list [([1], 10), ([2], 20)],
        state = WaitingForRound1Packages (fmap_of_list [([1], 10), ([2], 20)]) fmempty\<rparr>)"
    by (simp add: demo_dkg_defs get_identifier_and_max_signers_def log_in_def ask_def need_def sign_step_def
        private_key_sign_def choose_session_def dkg_comms_new_def io_bind_def derive_pubkeys_def
        derive_identifier_def set_state_pubkeys_def dkg_default_def fcard.rep_eq)
  from identifiers_derived[OF this] show ?thesis by fastforce
qed

text \<open>Three participants: the packages of the two others, then their echoes.\<close>

definition three_keys :: "(comm_key, nat) hash_map" where
  "three_keys = fmap_of_list [([1], 10), ([2], 20), ([3], 30)]"

definition packages_batch :: "comm_key msg list" where
  "packages_batch = [\<lparr>msg_sender = [2], msg_bytes = [4]\<rparr>, \<lparr>msg_sender = [3], msg_bytes = [5]\<rparr>]"

definition echoes_batch :: "comm_key msg list" where
  "echoes_batch = [\<lparr>msg_sender = [2], msg_bytes = [30, 5]\<rparr>, \<lparr>msg_sender = [3], msg_bytes = [20, 4]\<rparr>]"

definition joined :: "(comm_key, nat) hash_map \<Rightarrow> (nat, nat, nat, unit, unit, nat) dkg_comms" where
  "joined pks = \<lparr>session_id = Some [7], cipher_of = None, world = 0, own_identifier = Some 10,
     pubkeys = pks, state = WaitingForRound1Packages pks fmempty\<rparr>"

lemmas demo_run_defs = demo_dkg_defs joined_def three_keys_def packages_batch_def echoes_batch_def

lemma demo_dkg_brings:
  "(\<forall>b \<in> set batches. \<forall>msg \<in> set b. msg_sender msg \<noteq> [1]) \<Longrightarrow>
    brings (demo_dkg keys batches) (\<lambda>m. msg_sender m \<noteq> [1])"
  by (rule demo_brings) (simp_all add: demo_dkg_def)

lemma three_keys_simps [simp]:
  "fmlookup three_keys [1] = Some 10" "fmlookup three_keys [2] = Some 20" "fmlookup three_keys [3] = Some 30"
  "fmdom three_keys = {|[1], [2], [3]|}" "fmran three_keys = {|10, 20, 30|}" "map_len three_keys = 3"
  by (auto simp: three_keys_def fmap_of_list.rep_eq fcard.rep_eq fmlookup_ran_iff split: if_splits)

definition three_env :: "(nat, nat, nat, unit, unit, unit, nat) dkg_env" where
  "three_env = demo_dkg [[1], [2], [3]] [packages_batch, echoes_batch]"

lemmas demo_eval = step_eval send_to_others_def entries_by_def
  peer_keys_def dkg_handle_def receive_batch_def receive_until_def

lemma three_echo_states [simp]:
  "echoes_complete (fmupd 30 5 (fmupd 20 4 fmempty)) (insert_echo fmempty (30::nat) 20 (5::nat)) = False"
  "echoes_complete (fmupd 30 5 (fmupd 20 4 fmempty)) (insert_echo (insert_echo fmempty (30::nat) 20 (5::nat)) 20 30 4) = True"
  by (auto simp: echoes_complete_def insert_echo_def echo_map_def Let_def fmpred_iff split: if_splits)

lemma echo_map_first [simp]:
  "echo_map fmempty a = fmempty"
  "echo_map (insert_echo fmempty a s p) b = (if a = b then fmupd s p fmempty else fmempty)"
  by (auto simp: echo_map_def insert_echo_def)

lemma three_run:
  "\<exists>s'. get_round1_packages demo_config three_env (Suc (Suc 0)) 9 (joined three_keys) =
    (Some (Ok (fmupd 30 5 (fmupd 20 4 fmempty))), s')"
  apply (simp add: get_round1_packages_def three_env_def demo_dkg_defs joined_def demo_eval Let_def fcard.rep_eq)
  apply (simp add: demo_eval packages_batch_def Let_def fcard.rep_eq echo_round_def echo_to_def round1_packages_step_def)
  apply (simp add: round1_packages_step_def demo_eval echoes_batch_def Let_def)
  done

lemma round1_exchange_agrees_witness:
  "\<exists>m :: comm_key msg. msg_sender m \<noteq> [1] \<and> fmlookup three_keys (msg_sender m) = Some 20 \<and>
    decode_echo demo3_codec (msg_bytes m) = Some (30, 5)"
proof -
  let ?r1 = "fmupd 30 5 (fmupd 20 4 fmempty) :: (nat, nat) hash_map"
  obtain s' where run: "get_round1_packages demo_config three_env (Suc (Suc 0)) 9 (joined three_keys) = (Some (Ok ?r1), s')"
    using three_run by blast
  have inj: "\<forall>a b. fmlookup three_keys a = fmlookup three_keys b \<longrightarrow> fmlookup three_keys a \<noteq> None \<longrightarrow> a = b"
    by (auto simp: three_keys_def fmap_of_list.rep_eq split: if_splits)
  have brings: "brings three_env (\<lambda>m. msg_sender m \<noteq> [1])"
    unfolding three_env_def by (rule demo_dkg_brings) (simp add: packages_batch_def echoes_batch_def)
  have "own_identifier (joined three_keys) = Some 10"
    "state (joined three_keys) = WaitingForRound1Packages three_keys fmempty" by (simp_all add: joined_def)
  note agree = round1_exchange_agrees[OF run this three_keys_simps(1) inj brings]
  have "\<exists>m :: comm_key msg. msg_sender m \<noteq> [1] \<and> fmlookup three_keys (msg_sender m) = Some 20 \<and>
      decode_echo (codec three_env) (msg_bytes m) = Some (30, 5)"
    using agree[THEN conjunct2, THEN conjunct2, rule_format, of 30 5 20] by (simp add: fcard.rep_eq)
  then show ?thesis by (simp add: three_env_def demo_dkg_def)
qed

text \<open>A batch with all the packages and echoes silences the third participant.\<close>

lemma early_echoes_suppress_own_witness:
  "\<exists>c w. fst (io_bind (receive_until (demo_dkg [[1], [2], [3]] [packages_batch @ echoes_batch]) 1 has_round1_packages)
      (\<lambda>_. io_bind (echo_round demo_config (demo_dkg [[1], [2], [3]] [packages_batch @ echoes_batch]) 1) (\<lambda>_. round1_packages_step))
      (joined three_keys\<lparr>cipher_of := Some (plain_cipher [[1], [2], [3]])\<rparr>)) = Some (Ok (fmupd 30 5 (fmupd 20 4 fmempty)))"
proof -
  let ?E = "demo_dkg [[1], [2], [3]] [packages_batch @ echoes_batch]"
  let ?s = "joined three_keys\<lparr>cipher_of := Some (plain_cipher [[1], [2], [3]])\<rparr>"
  have "\<exists>c w. next_batch ?E ?s (packages_batch @ echoes_batch) c w"
    by (simp add: next_batch_def demo_dkg_defs joined_def demo_eval plain_cipher_def packages_batch_def echoes_batch_def)
  then obtain c w where "next_batch ?E ?s (packages_batch @ echoes_batch) c w" by blast
  moreover have "own_identifier ?s = Some 10" by (simp add: joined_def)
  moreover have "dkg_recv_all (codec ?E) 10 (state ?s) (packages_batch @ echoes_batch) =
      (WaitingForRound2Packages three_keys (fmupd 30 5 (fmupd 20 4 fmempty)) fmempty, Ok ())"
    by (simp add: demo_dkg_def demo3_codec_def joined_def packages_batch_def echoes_batch_def Let_def fcard.rep_eq)
  ultimately show ?thesis using early_echoes_suppress_own[of ?E ?s _ c w 10 _ _ _ 1 demo_config] by fastforce
qed

text \<open>Two participants whose peer is a round ahead.\<close>

definition two_keys :: "(comm_key, nat) hash_map" where
  "two_keys = fmap_of_list [([1], 10), ([2], 20)]"

definition ahead_batch :: "comm_key msg list" where
  "ahead_batch = [\<lparr>msg_sender = [2], msg_bytes = [4]\<rparr>, \<lparr>msg_sender = [2], msg_bytes = [7, 0, 0]\<rparr>]"

lemma early_round2_hangs_round1_witness:
  "fst (receive_until (demo_dkg [[1], [2]] [ahead_batch]) 1000 has_round1_packages
    (joined two_keys\<lparr>cipher_of := Some (plain_cipher [[1], [2]])\<rparr>)) = None"
proof -
  let ?E = "demo_dkg [[1], [2]] [ahead_batch]"
  let ?s = "joined two_keys\<lparr>cipher_of := Some (plain_cipher [[1], [2]])\<rparr>"
  have "\<exists>c w. next_batch ?E ?s ahead_batch c w \<and> 1 \<le> w"
    by (simp add: next_batch_def demo_dkg_defs joined_def demo_eval plain_cipher_def ahead_batch_def)
  then obtain c w where batch: "next_batch ?E ?s ahead_batch c w" "1 \<le> w" by blast
  have idle: "idle_server ?E (\<lambda>w. 1 \<le> w)" by (simp add: idle_server_def demo_dkg_def demo_server_def)
  have ready: "state ?s = WaitingForRound1Packages two_keys fmempty" by (simp add: joined_def)
  have "dkg_recv_all (codec ?E) 10 (state ?s) ahead_batch =
      (Round2PackagesReady two_keys (fmupd 20 7 fmempty), Ok ())"
    unfolding ahead_batch_def ready
    by (rule both_packages_of_the_peer)
      (simp_all add: two_keys_def fmap_of_list.rep_eq fcard.rep_eq demo_dkg_def demo3_codec_def)
  moreover have "own_identifier ?s = Some 10" by (simp add: joined_def)
  ultimately show ?thesis using early_round2_hangs_round1[OF batch(1), of 10 _ _ 1000 "\<lambda>w. 1 \<le> w"] idle batch(2) by blast
qed

lemma round2_exchange_complete_witness:
  "fmdom (fmupd (20::nat) (7::nat) fmempty) = fmdom (fmupd (20::nat) (4::nat) fmempty)"
proof -
  let ?E = "demo_dkg [[1], [2]] [[\<lparr>msg_sender = [2], msg_bytes = [7, 0, 0]\<rparr>]]"
  let ?s = "joined two_keys\<lparr>cipher_of := Some (plain_cipher [[1], [2]]),
    state := WaitingForRound2Packages two_keys (fmupd 20 4 fmempty) fmempty\<rparr>"
  have "\<exists>s'. get_round2_packages demo_config ?E 1 (fmupd 20 3 fmempty) ?s = (Some (Ok (fmupd 20 7 fmempty)), s')"
    by (simp add: get_round2_packages_def demo_dkg_defs joined_def demo_eval plain_cipher_def two_keys_def
        the_cipher_def Let_def)
  then obtain s' where run: "get_round2_packages demo_config ?E 1 (fmupd 20 3 fmempty) ?s =
      (Some (Ok (fmupd 20 7 fmempty)), s')" by blast
  have "brings ?E (\<lambda>m. msg_sender m \<noteq> [1])" by (rule demo_dkg_brings) simp
  from round2_exchange_complete[OF run _ _ this, of 10 two_keys "fmupd 20 4 fmempty" fmempty] show ?thesis
    by (simp add: joined_def)
qed

text \<open>A key generation whose first part fails.\<close>

definition failing_frost :: "(nat, nat, nat, unit, unit, unit, nat) frost_dkg" where
  "failing_frost = \<lparr>part1 = (\<lambda>_ _ _ w. (None, w)), part2 = (\<lambda>_ _. None), part3 = (\<lambda>_ _ _. None)\<rparr>"

lemma keygen_closes_on_error_witness: "\<exists>w'. 99 = snd (srv_close_session (demo_server [[1], [2]] []) [7] w')"
proof -
  have "\<exists>s. keygen demo_config (demo_dkg [[1], [2]] []) failing_frost 1 0 = (Some (Err Frost), s) \<and>
      session_id s = Some [7] \<and> world s = 99"
    by (simp add: keygen_def or_cleanup_def keygen_rounds_def failing_frost_def part1_step_def cleanup_on_error_def
        demo_dkg_defs get_identifier_and_max_signers_def log_in_def ask_def need_def sign_step_def
        private_key_sign_def choose_session_def dkg_comms_new_def io_bind_def derive_pubkeys_def
        derive_identifier_def set_state_pubkeys_def dkg_default_def fcard.rep_eq)
  then obtain s where "keygen demo_config (demo_dkg [[1], [2]] []) failing_frost 1 0 = (Some (Err Frost), s)"
    "session_id s = Some [7]" "world s = 99" by blast
  from keygen_closes_on_error[OF this(1,2)] this(3) show ?thesis by (simp add: demo_dkg_def)
qed

end
