(* ===== verification/Dkg_Progress.thy ===== *)
theory Dkg_Progress
  imports Dkg_Comms Deliveries
begin

text \<open>
  The waiting loops of the key generation end (\<^verbatim>\<open>mina-frost-client/src/dkg/comms/http.rs\<close>): as
  soon as the others have sent as many messages as a round takes, it has its packages or an
  error, unless everybody is ahead of the round. A message the session refuses ends the key
  generation, so a wait either keeps up with what was sent or is over; this is a locale, which the
  three rounds interpret.
\<close>

section \<open>The contract of a wait\<close>

lemma dkg_handle_returns:
  fixes E :: "('id, 'p1, 'p2, 'hs, 'ts, 'se, 'w) dkg_env" and s :: "('id, 'p1, 'p2, 'hs, 'ts, 'w) dkg_comms"
  assumes "snow_total (snow E)" and "has_cipher s" and "own_identifier s = Some me"
  obtains r s' where "dkg_handle E msg s = (Some r, s')" "r \<noteq> Panic" "has_cipher s'" "own_identifier s' = Some me"
    "session_id s' = session_id s" "world s' = world s"
    "r = Ok () \<Longrightarrow> \<exists>m. msg_sender m = msg_sender msg \<and> dkg_recv (codec E) me (state s) m = (state s', Ok ())"
proof -
  obtain c where c: "cipher_of s = Some c" "cipher_ok c" using assms(2) unfolding has_cipher_def by blast
  obtain d c1 where d: "decrypt (snow E) c msg = (d, c1)" by (cases "decrypt (snow E) c msg")
  have c1: "d \<noteq> Panic" "cipher_ok c1" using decrypt_ok[OF assms(1) c(2), of msg] d by simp_all
  have step: "decrypt_step E msg s = (Some (map_err CipherErr d), s\<lparr>cipher_of := Some c1\<rparr>)"
    by (simp add: decrypt_step_def c(1) d)
  show thesis
  proof (cases d)
    case (Ok m)
    obtain st r where recv: "dkg_recv (codec E) me (state s) m = (st, r)" by (cases "dkg_recv (codec E) me (state s) m")
    have "r \<noteq> Panic" using dkg_recv_no_panic[of "codec E" me "state s" m] recv by simp
    then show thesis
      using recv decrypt_sender[OF d[unfolded Ok]] c1(2)
      by (intro that[of "map_err SessionErr r" "s\<lparr>cipher_of := Some c1, state := st\<rparr>"])
        (auto simp: dkg_handle_decrypted[OF c(1) d[unfolded Ok] assms(3)] has_cipher_def assms(3) outcome_simps)
  next
    case (Err e)
    then show thesis
      using c1(2) assms(3)
      by (intro that[of "Err (CipherErr e)" "s\<lparr>cipher_of := Some c1\<rparr>"])
        (simp_all add: dkg_handle_def step has_cipher_def)
  qed (use c1 in simp)
qed

text \<open>\<open>progress senders st\<close>: \<open>st\<close> has accepted messages of \<open>senders\<close>, in this order.\<close>

locale dkg_wait =
  fixes C :: "('id, 'p1, 'p2) dkg_codec"
    and me :: 'id
    and progress :: "comm_key list \<Rightarrow> (comm_key, 'id, 'p1, 'p2) dkg_state \<Rightarrow> bool"
  assumes accepted: "progress senders st \<Longrightarrow> dkg_recv C me st m = (st', Ok ()) \<Longrightarrow>
      progress (senders @ [msg_sender m]) st'"
begin

lemma accepted_all:
  "progress senders st \<Longrightarrow> dkg_recv_all C me st ms = (st', Ok ()) \<Longrightarrow> progress (senders @ map msg_sender ms) st'"
proof (induction ms arbitrary: senders st)
  case (Cons m ms)
  then obtain st1 where st1: "dkg_recv C me st m = (st1, Ok ())" "dkg_recv_all C me st1 ms = (st', Ok ())"
    by (auto split: prod.splits outcome.splits)
  from Cons.IH[OF accepted[OF Cons.prems(1) st1(1)] st1(2)] show ?case by simp
qed simp

lemma wait_messages:
  fixes E :: "('id, 'p1, 'p2, 'hs, 'ts, 'se, 'w) dkg_env" and s :: "('id, 'p1, 'p2, 'hs, 'ts, 'w) dkg_comms"
  assumes "snow_total (snow E)" and "codec E = C" and "has_cipher s" and "own_identifier s = Some me"
    and "progress senders (state s)"
  shows "\<exists>r s'. io_for (dkg_handle E) ms s = (Some (r :: ('se comms_error, unit) outcome), s') \<and> r \<noteq> Panic \<and>
    (r = Ok () \<longrightarrow> progress (senders @ map msg_sender ms) (state s') \<and> has_cipher s' \<and> own_identifier s' = Some me \<and>
      session_id s' = session_id s \<and> world s' = world s)"
  using assms(3-)
proof (induction ms arbitrary: senders s)
  case (Cons m ms)
  obtain r t where t: "dkg_handle E m s = (Some (r :: ('se comms_error, unit) outcome), t)" "r \<noteq> Panic" "has_cipher t"
    "own_identifier t = Some me" "session_id t = session_id s" "world t = world s"
    "r = Ok () \<Longrightarrow> \<exists>m'. msg_sender m' = msg_sender m \<and> dkg_recv (codec E) me (state s) m' = (state t, Ok ())"
    by (rule dkg_handle_returns[OF assms(1) Cons.prems(1,2), of m]) blast
  show ?case
  proof (cases r)
    case (Ok u)
    then have "progress (senders @ [msg_sender m]) (state t)"
      using accepted[OF Cons.prems(3)] t(7) assms(2) by fastforce
    from Cons.IH[OF t(3,4) this] show ?thesis using t(1,5,6) Ok by simp
  qed (use t in simp_all)
qed simp

lemma wait_returns:
  fixes E :: "('id, 'p1, 'p2, 'hs, 'ts, 'se, 'w) dkg_env" and s :: "('id, 'p1, 'p2, 'hs, 'ts, 'w) dkg_comms"
  assumes "snow_total (snow E)" and "codec E = C"
    and server: "\<And>args w. \<exists>ms w'. srv_receive (srv E) args w = (Ok ms, w')"
    and "has_cipher s" and "own_identifier s = Some me" and "session_id s = Some sid"
    and "progress senders (state s)" and "0 < n"
    and enough: "\<And>st. progress (senders @ map msg_sender (delivered (srv E) False sid n (world s))) st \<Longrightarrow> finished st"
  shows "\<exists>r s'. receive_until E n finished s = (Some r, s') \<and> r \<noteq> Panic \<and>
    (r = Ok () \<longrightarrow> finished (state s') \<and> (\<exists>senders'. progress senders' (state s')))"
  unfolding receive_until_def using assms(4-)
proof (induction n arbitrary: senders s)
  case (Suc n)
  obtain ms w' where recv: "srv_receive (srv E) \<lparr>receive_session_id = sid, as_coordinator = False\<rparr> (world s) = (Ok ms, w')"
    using server by blast
  let ?s = "s\<lparr>world := w'\<rparr>"
  have s: "has_cipher ?s" "own_identifier ?s = Some me" "progress senders (state ?s)"
    using Suc.prems(1,2,4) by (simp_all add: has_cipher_def)
  obtain r t where t: "io_for (dkg_handle E) ms ?s = (Some (r :: ('se comms_error, unit) outcome), t)" "r \<noteq> Panic"
    "r = Ok () \<longrightarrow> progress (senders @ map msg_sender ms) (state t) \<and> has_cipher t \<and> own_identifier t = Some me \<and>
      session_id t = session_id ?s \<and> world t = world ?s"
    using wait_messages[OF assms(1,2) s, of ms] by blast
  have batch: "receive_batch E s = (Some r, t)"
    using t(1) recv Suc.prems(3) by (simp add: receive_batch_def receive_step_def the_session_def io_bind_def ask_def)
  show ?case
  proof (cases r)
    case (Ok u)
    with t(3) Suc.prems(3) have now: "progress (senders @ map msg_sender ms) (state t)" "has_cipher t" "own_identifier t = Some me"
      "session_id t = Some sid" "world t = w'" by simp_all
    show ?thesis
    proof (cases "finished (state t)")
      case True
      then show ?thesis using batch Ok now(1) by auto
    next
      case False
      have "0 < n" using Suc.prems(6)[of "state t"] False now(1) recv by (cases n) auto
      moreover have "finished st"
        if "progress ((senders @ map msg_sender ms) @ map msg_sender (delivered (srv E) False sid n (world t))) st" for st
        using that Suc.prems(6)[of st] recv now(5) by simp
      ultimately show ?thesis using Suc.IH[OF now(2-4,1)] batch Ok False by simp
    qed
  qed (use t(2) batch in simp_all)
qed simp

end


section \<open>The wait for round 2\<close>

text \<open>Everybody who was heard has an entry.\<close>

definition round2_progress ::
  "(comm_key, 'id) hash_map \<Rightarrow> ('id, 'p1) hash_map \<Rightarrow> ('id, 'p2) hash_map \<Rightarrow> comm_key list \<Rightarrow>
    (comm_key, 'id, 'p1, 'p2) dkg_state \<Rightarrow> bool" where
  "round2_progress pks r1 old senders st \<longleftrightarrow>
     (\<exists>r2. st = Round2PackagesReady pks r2 \<and> fmdom r2 = fmdom r1 \<or>
       st = WaitingForRound2Packages pks r1 r2 \<and> fmdom r2 |\<subset>| fmdom r1 \<and> fmdom old |\<subseteq>| fmdom r2 \<and>
       (\<forall>pk id. pk \<in> set senders \<longrightarrow> fmlookup pks pk = Some id \<longrightarrow> id |\<in>| fmdom r2))"

lemma round2_progress_cases:
  assumes "round2_progress pks r1 old senders st"
  obtains (ready) r2 where "st = Round2PackagesReady pks r2" "fmdom r2 = fmdom r1"
  | (waiting) r2 where "st = WaitingForRound2Packages pks r1 r2" "fmdom r2 |\<subset>| fmdom r1" "fmdom old |\<subseteq>| fmdom r2"
      "\<And>pk id. pk \<in> set senders \<Longrightarrow> fmlookup pks pk = Some id \<Longrightarrow> id |\<in>| fmdom r2"
  using assms unfolding round2_progress_def by blast

lemma round2_recv_Ok:
  assumes "dkg_recv C me (WaitingForRound2Packages pks r1 r2) m = (st', Ok u)"
  obtains id p where "fmlookup pks (msg_sender m) = Some id" "id |\<in>| fmdom r1"
    "st' = (if fmdom (fmupd id p r2) = fmdom r1 then Round2PackagesReady pks (fmupd id p r2)
      else WaitingForRound2Packages pks r1 (fmupd id p r2))"
proof -
  from assms obtain p where p: "decode_round2 C (msg_bytes m) = Some p" by (auto split: option.splits)
  from assms p obtain id where id: "fmlookup pks (msg_sender m) = Some id" "id |\<in>| fmdom r1"
    by (auto simp: Let_def split: option.splits if_splits)
  show thesis by (rule that[OF id, of p]) (use assms p id in \<open>simp add: Let_def split: if_splits\<close>)
qed

interpretation round2_wait: dkg_wait C me "round2_progress pks r1 old"
  for C :: "('id, 'p1, 'p2) dkg_codec" and me pks r1 old
proof
  fix senders and st st' :: "(comm_key, 'id, 'p1, 'p2) dkg_state" and m
  assume "round2_progress pks r1 old senders st" and recv: "dkg_recv C me st m = (st', Ok ())"
  then show "round2_progress pks r1 old (senders @ [msg_sender m]) st'"
  proof (cases rule: round2_progress_cases)
    case (waiting r2)
    from recv[unfolded waiting(1)] obtain id p where id: "fmlookup pks (msg_sender m) = Some id" "id |\<in>| fmdom r1"
      and st': "st' = (if fmdom (fmupd id p r2) = fmdom r1 then Round2PackagesReady pks (fmupd id p r2)
        else WaitingForRound2Packages pks r1 (fmupd id p r2))" by (rule round2_recv_Ok)
    have "fmdom (fmupd id p r2) |\<subseteq>| fmdom r1" using waiting(2) id(2) by auto
    moreover have "fmdom old |\<subseteq>| fmdom (fmupd id p r2)" using waiting(3) by auto
    moreover have "i |\<in>| fmdom (fmupd id p r2)" if "pk \<in> set (senders @ [msg_sender m])" "fmlookup pks pk = Some i" for pk i
      using that waiting(4) id(1) by auto
    ultimately show ?thesis
      unfolding round2_progress_def st' by (intro exI[of _ "fmupd id p r2"]) (auto simp del: fmdom_fmupd)
  qed simp
qed

lemma round2_wait_lemma:
  fixes E :: "('id, 'p1, 'p2, 'hs, 'ts, 'se, 'w) dkg_env" and s :: "('id, 'p1, 'p2, 'hs, 'ts, 'w) dkg_comms"
  assumes "snow_total (snow E)" and "has_cipher s" and "own_identifier s = Some me" and "session_id s = Some sid"
    and "\<And>args w. \<exists>ms w'. srv_receive (srv E) args w = (Ok ms, w')"
    and "state s = WaitingForRound2Packages pks r1 r2" and "fmdom r2 |\<subset>| fmdom r1"
    and sent: "\<And>id. id |\<in>| fmdom r1 |-| fmdom r2 \<Longrightarrow> \<exists>pk. fmlookup pks pk = Some id \<and>
      pk \<in> msg_sender ` set (delivered (srv E) False sid n (world s))"
  shows "\<exists>r s'. receive_until E n has_round2_packages s = (Some r, s') \<and> r \<noteq> Panic \<and>
    (r = Ok () \<longrightarrow> (\<exists>r2'. state s' = Round2PackagesReady pks r2' \<and> fmdom r2' = fmdom r1))"
proof -
  have start: "round2_progress pks r1 r2 [] (state s)" using assms(6,7) by (simp add: round2_progress_def)
  have "0 < n" using sent assms(7) by (cases n) auto
  have "has_round2_packages st"
    if "round2_progress pks r1 r2 ([] @ map msg_sender (delivered (srv E) False sid n (world s))) st"
    for st :: "(comm_key, 'id, 'p1, 'p2) dkg_state"
    using that
  proof (cases rule: round2_progress_cases)
    case (waiting r2')
    have "fmdom r1 |\<subseteq>| fmdom r2'"
    proof
      fix id assume "id |\<in>| fmdom r1"
      then show "id |\<in>| fmdom r2'" using sent[of id] waiting(3,4) by (cases "id |\<in>| fmdom r2") auto
    qed
    with waiting(2) show ?thesis by blast
  qed simp
  from round2_wait.wait_returns[OF assms(1) refl assms(5,2-4) start \<open>0 < n\<close>, where finished = has_round2_packages] this
  obtain r s' where run: "receive_until E n has_round2_packages s = (Some r, s')" "r \<noteq> Panic"
    and fin: "r = Ok () \<longrightarrow> has_round2_packages (state s') \<and> (\<exists>senders. round2_progress pks r1 r2 senders (state s'))" by blast
  have "\<exists>r2'. state s' = Round2PackagesReady pks r2' \<and> fmdom r2' = fmdom r1" if "r = Ok ()"
  proof -
    from fin that obtain senders where "round2_progress pks r1 r2 senders (state s')" "has_round2_packages (state s')" by blast
    then show ?thesis by (cases rule: round2_progress_cases) auto
  qed
  with run show ?thesis by blast
qed

section \<open>The wait for round 1\<close>

text \<open>
  \<open>slow\<close> is a participant who has sent one message so far; whoever is past round 1 has heard it,
  and cannot be past round 2.
\<close>

definition slow_heard ::
  "(comm_key, 'id) hash_map \<Rightarrow> comm_key \<Rightarrow> (comm_key, 'id, 'p1, 'p2) dkg_state \<Rightarrow> bool" where
  "slow_heard pks slow st \<longleftrightarrow> (\<exists>id r1. fmlookup pks slow = Some id \<and> id |\<in>| fmdom r1 \<and>
     ((\<exists>bc. st = WaitingForRound1PackagesBroadcast pks r1 bc) \<or>
      (\<exists>r2. st = WaitingForRound2Packages pks r1 r2 \<and> id |\<notin>| fmdom r2)))"

lemma slow_heard_step:
  assumes "slow_heard pks slow st" and "dkg_recv C me st m = (st', Ok u)" and "msg_sender m \<noteq> slow" and "distinct_ids pks"
  shows "slow_heard pks slow st'"
proof -
  from assms(1) obtain id r1 where id: "fmlookup pks slow = Some id" "id |\<in>| fmdom r1"
    and "(\<exists>bc. st = WaitingForRound1PackagesBroadcast pks r1 bc) \<or>
      (\<exists>r2. st = WaitingForRound2Packages pks r1 r2 \<and> id |\<notin>| fmdom r2)" unfolding slow_heard_def by blast
  then consider (echo) bc where "st = WaitingForRound1PackagesBroadcast pks r1 bc"
    | (round2) r2 where "st = WaitingForRound2Packages pks r1 r2" "id |\<notin>| fmdom r2" by blast
  then show ?thesis
  proof cases
    case echo
    from assms(2)[unfolded echo] have "(\<exists>bc'. st' = WaitingForRound1PackagesBroadcast pks r1 bc') \<or>
        st' = WaitingForRound2Packages pks r1 fmempty"
      by (auto simp: Let_def split: option.splits if_splits prod.splits)
    then show ?thesis using id unfolding slow_heard_def by force
  next
    case round2
    from assms(2)[unfolded round2(1)] obtain i p where i: "fmlookup pks (msg_sender m) = Some i"
      and st': "st' = (if fmdom (fmupd i p r2) = fmdom r1 then Round2PackagesReady pks (fmupd i p r2)
        else WaitingForRound2Packages pks r1 (fmupd i p r2))" by (rule round2_recv_Ok)
    have "id \<noteq> i" using i id(1) assms(3,4) unfolding distinct_ids_def by metis
    then have "id |\<notin>| fmdom (fmupd i p r2)" using round2(2) by auto
    moreover from this have "fmdom (fmupd i p r2) \<noteq> fmdom r1" using id(2) by metis
    ultimately show ?thesis using id unfolding slow_heard_def st' by force
  qed
qed


definition round1_progress ::
  "(comm_key, 'id) hash_map \<Rightarrow> comm_key \<Rightarrow> comm_key \<Rightarrow> comm_key list \<Rightarrow> (comm_key, 'id, 'p1, 'p2) dkg_state \<Rightarrow> bool" where
  "round1_progress pks mine slow senders st \<longleftrightarrow>
     distinct_ids pks \<and> slow |\<in>| fmdom pks \<and> mine |\<in>| fmdom pks \<and> slow \<noteq> mine \<and>
     (mine \<notin> set senders \<and> count_list senders slow \<le> 1 \<longrightarrow>
       (\<exists>r1. st = WaitingForRound1Packages pks r1 \<and> map_len r1 < map_len pks - 1 \<and>
          (\<forall>id. id |\<in>| fmdom r1 \<longleftrightarrow> (\<exists>pk \<in> set senders. fmlookup pks pk = Some id))) \<or>
       slow \<in> set senders \<and> slow_heard pks slow st)"

text \<open>Entries of one less than all the participants, none of them the own one, are of all the others.\<close>

lemma others_complete:
  assumes "distinct_ids pks" and "fmlookup pks mine = Some me"
    and "m \<notin> A" and "mine = m" and "map_len r1 = map_len pks - 1"
    and dom: "\<And>id. id |\<in>| fmdom r1 \<longleftrightarrow> (\<exists>pk \<in> A. fmlookup pks pk = Some id)"
  shows "fmdom r1 = fmran pks |-| {|me|}"
proof -
  have "me |\<notin>| fmdom r1" using assms(1-4) unfolding dom distinct_ids_def by metis
  then have sub: "fmdom r1 |\<subseteq>| fmran pks |-| {|me|}" by (auto simp: dom fmlookup_ran_iff)
  have "me |\<in>| fmran pks" using assms(2) by (auto simp: fmlookup_ran_iff)
  moreover have "fcard (fmran pks) = map_len pks"
    by (rule fcard_fmran) (use assms(1) in \<open>unfold distinct_ids_def, metis not_Some_eq\<close>)
  ultimately have "fcard (fmran pks |-| {|me|}) = map_len pks - 1" by (simp add: fcard.rep_eq)
  then show ?thesis using sub assms(5) by (simp add: fcard_seteq)
qed

interpretation round1_wait: dkg_wait C me "round1_progress pks mine slow"
  for C :: "('id, 'p1, 'p2) dkg_codec" and me and pks :: "(comm_key, 'id) hash_map" and mine slow
proof
  fix senders and st st' :: "(comm_key, 'id, 'p1, 'p2) dkg_state" and m
  assume progress: "round1_progress pks mine slow senders st" and recv: "dkg_recv C me st m = (st', Ok ())"
  let ?new = "senders @ [msg_sender m]"
  have ctx: "distinct_ids pks" "slow |\<in>| fmdom pks" "mine |\<in>| fmdom pks" "slow \<noteq> mine"
    using progress unfolding round1_progress_def by blast+
  show "round1_progress pks mine slow ?new st'"
  proof (cases "mine \<notin> set ?new \<and> count_list ?new slow \<le> 1")
    case True
    then have "mine \<notin> set senders \<and> count_list senders slow \<le> 1" by auto
    with progress consider (early) r1 where "st = WaitingForRound1Packages pks r1" "map_len r1 < map_len pks - 1"
        "\<And>id. id |\<in>| fmdom r1 \<longleftrightarrow> (\<exists>pk \<in> set senders. fmlookup pks pk = Some id)"
      | (heard) "slow \<in> set senders" "slow_heard pks slow st" unfolding round1_progress_def by blast
    then show ?thesis
    proof cases
      case early
      from recv[unfolded early(1)] obtain id p where id: "fmlookup pks (msg_sender m) = Some id"
        and st': "st' = (if map_len (fmupd id p r1) = map_len pks - 1 then
            if map_len pks > 2 then WaitingForRound1PackagesBroadcast pks (fmupd id p r1) fmempty
            else WaitingForRound2Packages pks (fmupd id p r1) fmempty
          else WaitingForRound1Packages pks (fmupd id p r1))"
        by (auto simp: Let_def split: option.splits if_splits)
      have dom: "i |\<in>| fmdom (fmupd id p r1) \<longleftrightarrow> (\<exists>pk \<in> set ?new. fmlookup pks pk = Some i)" for i
        using id by (auto simp: early(3))
      show ?thesis
      proof (cases "map_len (fmupd id p r1) = map_len pks - 1")
        case full: True
        obtain own where own: "fmlookup pks mine = Some own" using ctx(3) by (auto simp: fmlookup_dom_iff)
        obtain i where i: "fmlookup pks slow = Some i" using ctx(2) by (auto simp: fmlookup_dom_iff)
        have all: "fmdom (fmupd id p r1) = fmran pks |-| {|own|}"
          by (rule others_complete[OF ctx(1) own _ refl full dom]) (use True in blast)
        have "i \<noteq> own" using ctx(1,4) i own unfolding distinct_ids_def by metis
        then have "i |\<in>| fmdom (fmupd id p r1)" using i unfolding all by (auto simp: fmlookup_ran_iff)
        moreover from this have "slow \<in> set ?new" using ctx(1) i unfolding dom distinct_ids_def by metis
        ultimately show ?thesis
          using ctx i full unfolding round1_progress_def slow_heard_def st' by (auto simp del: fmdom_fmupd)
      next
        case False
        have "map_len (fmupd id p r1) \<le> map_len r1 + 1" by (simp add: fcard_finsert_if)
        then have "map_len (fmupd id p r1) < map_len pks - 1" using early(2) False by linarith
        then show ?thesis using ctx dom False unfolding round1_progress_def st' by (auto simp del: fmdom_fmupd)
      qed
    next
      case heard
      have "msg_sender m \<noteq> slow" using heard(1) True by (auto simp: count_list_0_iff)
      then show ?thesis
        using slow_heard_step[OF heard(2) recv _ ctx(1)] ctx heard(1) unfolding round1_progress_def by simp
    qed
  next
    case False
    then show ?thesis using ctx unfolding round1_progress_def by blast
  qed
qed

lemma round1_wait_lemma:
  fixes E :: "('id, 'p1, 'p2, 'hs, 'ts, 'se, 'w) dkg_env" and s :: "('id, 'p1, 'p2, 'hs, 'ts, 'w) dkg_comms"
  assumes "snow_total (snow E)" and "has_cipher s" and "own_identifier s = Some me" and "session_id s = Some sid"
    and "\<And>args w. \<exists>ms w'. srv_receive (srv E) args w = (Ok ms, w')"
    and "state s = WaitingForRound1Packages pks fmempty" and "distinct_ids pks" and "mine |\<in>| fmdom pks"
    and "senders = map msg_sender (delivered (srv E) False sid n (world s))"
    and "\<And>pk. pk |\<in>| fmdom pks \<Longrightarrow> pk \<in> set senders \<longleftrightarrow> pk \<noteq> mine"
    and "slow |\<in>| fmdom pks" and "count_list senders slow = 1"
  shows "\<exists>r s'. receive_until E n has_round1_packages s = (Some r, s') \<and> r \<noteq> Panic \<and>
    (r = Ok () \<longrightarrow> has_round1_packages (state s'))"
proof -
  have slow: "slow \<noteq> mine" using assms(8,10,12) by (metis count_list_0_iff zero_neq_one)
  have two: "2 \<le> map_len pks"
  proof -
    have "fcard {|mine, slow|} \<le> map_len pks" using assms(8,11) by (intro fcard_mono) auto
    then show ?thesis using slow by (simp add: fcard_finsert_if)
  qed
  have start: "round1_progress pks mine slow [] (state s)"
    using assms(6-8,11) slow two by (auto simp: round1_progress_def fcard.rep_eq)
  have "0 < n" using assms(9,12) by (cases n) auto
  have "has_round1_packages st" if "round1_progress pks mine slow ([] @ senders) st" for st :: "(comm_key, 'id, 'p1, 'p2) dkg_state"
  proof -
    have "mine \<notin> set senders \<and> count_list senders slow \<le> 1" using assms(8,10,12) by simp
    with that consider (early) r1 where "st = WaitingForRound1Packages pks r1" "map_len r1 < map_len pks - 1"
        "\<And>id. id |\<in>| fmdom r1 \<longleftrightarrow> (\<exists>pk \<in> set senders. fmlookup pks pk = Some id)"
      | (heard) "slow_heard pks slow st" unfolding round1_progress_def by auto
    then show ?thesis
    proof cases
      case early
      obtain own where own: "fmlookup pks mine = Some own" using assms(8) by (auto simp: fmlookup_dom_iff)
      have "fmran pks |-| {|own|} |\<subseteq>| fmdom r1"
      proof
        fix id assume "id |\<in>| fmran pks |-| {|own|}"
        then obtain pk where pk: "fmlookup pks pk = Some id" "id \<noteq> own" by (auto simp: fmlookup_ran_iff)
        then have "pk \<in> set senders" using assms(10)[of pk] own fmdomI[OF pk(1)] by auto
        then show "id |\<in>| fmdom r1" using pk(1) early(3) by blast
      qed
      then have "fcard (fmran pks |-| {|own|}) \<le> map_len r1" by (rule fcard_mono)
      moreover have "fcard (fmran pks) = map_len pks"
        by (rule fcard_fmran) (use assms(7) in \<open>unfold distinct_ids_def, metis not_Some_eq\<close>)
      ultimately show ?thesis using early(2) by (simp add: fcard.rep_eq card_Diff_singleton_if split: if_splits)
    qed (auto simp: slow_heard_def)
  qed
  from round1_wait.wait_returns[OF assms(1) refl assms(5,2-4) start \<open>0 < n\<close>, where finished = has_round1_packages] this[unfolded assms(9)]
  show ?thesis by blast
qed



lemma no_way_back:
  assumes "has_round1_broadcast_packages st" and "dkg_recv C me st m = (st', Ok u)"
  shows "has_round1_broadcast_packages st' \<or> has_round2_packages st'"
proof -
  from assms(1) obtain pks r1 r2 where st: "st = WaitingForRound2Packages pks r1 r2" by (cases st) auto
  from assms(2)[unfolded st] show ?thesis by (rule round2_recv_Ok) (simp split: if_splits)
qed

section \<open>The wait for the echoes\<close>

text \<open>
  Of every participant as many echoes are recorded as it has sent messages; \<open>slow\<close> has not sent
  more than it has others to echo, so whoever is past the round has not yet heard of it in
  round 2.
\<close>

definition echoes_of :: "('id, ('id, 'p1) hash_map) hash_map \<Rightarrow> 'id \<Rightarrow> 'id set" where
  "echoes_of bc i = {org. i |\<in>| fmdom (echo_map bc org)}"

definition echo_progress ::
  "'id \<Rightarrow> (comm_key, 'id) hash_map \<Rightarrow> comm_key \<Rightarrow> ('id, 'p1) hash_map \<Rightarrow> comm_key \<Rightarrow> comm_key list \<Rightarrow>
    (comm_key, 'id, 'p1, 'p2) dkg_state \<Rightarrow> bool" where
  "echo_progress me pks mine r1 slow senders st \<longleftrightarrow>
     distinct_ids pks \<and> slow |\<in>| fmdom pks \<and> fmlookup pks mine = Some me \<and> slow \<noteq> mine \<and>
     fmdom r1 = fmran pks |-| {|me|} \<and>
     (mine \<notin> set senders \<and> count_list senders slow \<le> map_len r1 - 1 \<longrightarrow>
       (\<exists>bc. st = WaitingForRound1PackagesBroadcast pks r1 bc \<and> echo_pending pks r1 me {} st \<and>
          (\<forall>pk i. fmlookup pks pk = Some i \<longrightarrow> card (echoes_of bc i) = count_list senders pk)) \<or>
       count_list senders slow = map_len r1 - 1 \<and> has_round1_broadcast_packages st \<and> slow_heard pks slow st)"

lemma echo_recv_Ok:
  assumes "dkg_recv C me (WaitingForRound1PackagesBroadcast pks r1 bc) m = (st', Ok u)"
  obtains s org p where "fmlookup pks (msg_sender m) = Some s" "org \<noteq> s" "fmlookup r1 org = Some p"
    "org \<notin> echoes_of bc s" 
    "st' = (if echoes_complete r1 (insert_echo bc org s p) then WaitingForRound2Packages pks r1 fmempty
      else WaitingForRound1PackagesBroadcast pks r1 (insert_echo bc org s p))"
proof -
  from assms obtain org p where e: "decode_echo C (msg_bytes m) = Some (org, p)"
    by (auto split: option.splits prod.splits)
  from assms e obtain s where s: "fmlookup pks (msg_sender m) = Some s" "org \<noteq> s"
    by (auto simp: Let_def split: option.splits if_splits)
  from assms e s have "fmlookup r1 org = Some p" "fmlookup (echo_map bc org) s = None"
    and st': "st' = (if echoes_complete r1 (insert_echo bc org s p) then WaitingForRound2Packages pks r1 fmempty
      else WaitingForRound1PackagesBroadcast pks r1 (insert_echo bc org s p))"
    by (auto simp: Let_def split: option.splits if_splits)
  then show thesis using s by (intro that[OF s]) (auto simp: echoes_of_def fmdom_notI)
qed

lemma echoes_of_insert:
  "echoes_of (insert_echo bc org s p) i = (if i = s then insert org (echoes_of bc i) else echoes_of bc i)"
  by (auto simp: echoes_of_def insert_echo_def echo_map_def split: option.splits if_splits)

lemma echoes_of_others:
  assumes "\<And>org m. fmlookup bc org = Some m \<Longrightarrow> org |\<in>| fmdom r1 \<and> fmdom m |\<subseteq>| fmdom r1 |-| {|org|}"
  shows "echoes_of bc i \<subseteq> fset (fmdom r1) - {i}"
proof
  fix org assume "org \<in> echoes_of bc i"
  then obtain m where "fmlookup bc org = Some m" "i |\<in>| fmdom m"
    by (cases "fmlookup bc org") (auto simp: echoes_of_def echo_map_def)
  then show "org \<in> fset (fmdom r1) - {i}" using assms by fastforce
qed


lemma echo_pendingD:
  assumes "echo_pending pks r1 me E (WaitingForRound1PackagesBroadcast pks r1 bc)"
  shows "\<not> echoes_complete r1 bc"
    and "fmlookup bc org = Some m \<Longrightarrow> org |\<in>| fmdom r1 \<and> fmdom m |\<subseteq>| fmdom r1 |-| {|org|} \<and>
      (\<forall>s p. fmlookup m s = Some p \<longrightarrow> fmlookup r1 org = Some p)"
  using assms unfolding echo_pending_def by auto

lemma echo_pending_weaken: "echo_pending pks r1 me E st \<Longrightarrow> echo_pending pks r1 me {} st"
  unfolding echo_pending_def by blast

lemma insert_echo_others:
  assumes old: "\<And>org' m. fmlookup bc org' = Some m \<Longrightarrow> org' |\<in>| fmdom r1 \<and> fmdom m |\<subseteq>| fmdom r1 |-| {|org'|} \<and>
      (\<forall>s p. fmlookup m s = Some p \<longrightarrow> fmlookup r1 org' = Some p)"
    and "org \<noteq> s" and "fmlookup r1 org = Some p" and "s |\<in>| fmdom r1"
    and "fmlookup (insert_echo bc org s p) org' = Some m'"
  shows "org' |\<in>| fmdom r1 \<and> fmdom m' |\<subseteq>| fmdom r1 |-| {|org'|} \<and> (\<forall>s p. fmlookup m' s = Some p \<longrightarrow> fmlookup r1 org' = Some p)"
proof (cases "org' = org")
  case True
  then have m': "m' = fmupd s p (echo_map bc org)" using assms(5) by (simp add: insert_echo_def)
  have "fmdom (echo_map bc org) |\<subseteq>| fmdom r1 |-| {|org|} \<and> (\<forall>s p. fmlookup (echo_map bc org) s = Some p \<longrightarrow> fmlookup r1 org = Some p)"
    using old[of org] by (cases "fmlookup bc org") (simp_all add: echo_map_def)
  then show ?thesis using assms(2-4) True fmdomI[OF assms(3)] unfolding m' by auto
next
  case False
  then have "fmlookup bc org' = Some m'" using assms(5) by (simp add: insert_echo_def)
  from old[OF this] show ?thesis .
qed

lemma card_others: "card (fset (fmdom r1) - {i}) = map_len r1 - 1" if "i |\<in>| fmdom r1"
  using that by (simp add: fcard.rep_eq)

interpretation echo_wait: dkg_wait C me "echo_progress me pks mine r1 slow"
  for C :: "('id, 'p1, 'p2) dkg_codec" and me and pks :: "(comm_key, 'id) hash_map" and mine r1 slow
proof
  fix senders and st st' :: "(comm_key, 'id, 'p1, 'p2) dkg_state" and m
  assume progress: "echo_progress me pks mine r1 slow senders st" and recv: "dkg_recv C me st m = (st', Ok ())"
  let ?new = "senders @ [msg_sender m]" and ?k = "map_len r1 - 1"
  have ctx: "distinct_ids pks" "slow |\<in>| fmdom pks" "fmlookup pks mine = Some me" "slow \<noteq> mine" "fmdom r1 = fmran pks |-| {|me|}"
    using progress unfolding echo_progress_def by blast+
  obtain i where i: "fmlookup pks slow = Some i" using ctx(2) by (auto simp: fmlookup_dom_iff)
  have "i \<noteq> me" using ctx(1,3,4) i unfolding distinct_ids_def by metis
  then have i_r1: "i |\<in>| fmdom r1" using i by (auto simp: ctx(5) fmlookup_ran_iff)
  show "echo_progress me pks mine r1 slow ?new st'"
  proof (cases "mine \<notin> set ?new \<and> count_list ?new slow \<le> ?k")
    case True
    then have "mine \<notin> set senders \<and> count_list senders slow \<le> ?k" by auto
    with progress consider (echoing) bc where "st = WaitingForRound1PackagesBroadcast pks r1 bc" "echo_pending pks r1 me {} st"
        "\<And>pk i. fmlookup pks pk = Some i \<Longrightarrow> card (echoes_of bc i) = count_list senders pk"
      | (heard) "count_list senders slow = ?k" "has_round1_broadcast_packages st" "slow_heard pks slow st"
      unfolding echo_progress_def by blast
    then show ?thesis
    proof cases
      case echoing
      from recv[unfolded echoing(1)] obtain s org p where s: "fmlookup pks (msg_sender m) = Some s" "org \<noteq> s"
        "fmlookup r1 org = Some p" "org \<notin> echoes_of bc s"
        and st': "st' = (if echoes_complete r1 (insert_echo bc org s p) then WaitingForRound2Packages pks r1 fmempty
          else WaitingForRound1PackagesBroadcast pks r1 (insert_echo bc org s p))" by (rule echo_recv_Ok)
      let ?bc = "insert_echo bc org s p"
      note pending = echo_pendingD[OF echoing(2)[unfolded echoing(1)]]
      have sub: "echoes_of bc j \<subseteq> fset (fmdom r1) - {j}" for j by (rule echoes_of_others) (use pending(2) in blast)
      then have fin: "finite (echoes_of bc j)" for j by (meson finite_Diff finite_fset finite_subset)
      have "s \<noteq> me" using s(1) ctx(1,3) True unfolding distinct_ids_def by fastforce
      then have s_r1: "s |\<in>| fmdom r1" using s(1) by (auto simp: ctx(5) fmlookup_ran_iff)
      have counts: "card (echoes_of ?bc j) = count_list ?new pk" if "fmlookup pks pk = Some j" for pk j
      proof -
        have "msg_sender m = pk \<longleftrightarrow> j = s" using that s(1) ctx(1) unfolding distinct_ids_def by (metis option.inject)
        then show ?thesis using echoing(3)[OF that] s(4) fin[of s] by (auto simp: echoes_of_insert)
      qed
      have pending': "org' |\<in>| fmdom r1 \<and> fmdom m' |\<subseteq>| fmdom r1 |-| {|org'|} \<and> (\<forall>s p. fmlookup m' s = Some p \<longrightarrow> fmlookup r1 org' = Some p)"
        if "fmlookup ?bc org' = Some m'" for org' m'
        by (rule insert_echo_others[OF _ s(2,3) s_r1 that]) (use pending(2) in blast)
      show ?thesis
      proof (cases "echoes_complete r1 ?bc")
        case complete: True
        have "org' \<in> echoes_of ?bc i" if r: "org' |\<in>| fmdom r1" "org' \<noteq> i" for org'
        proof -
          obtain p' where "fmlookup r1 org' = Some p'" using r(1) by (auto simp: fmlookup_dom_iff)
          from echoes_completeD[OF complete this i_r1] r(2) obtain m' where
            "fmlookup ?bc org' = Some m'" "fmlookup m' i = Some p'" by blast
          then show ?thesis by (auto simp: echoes_of_def echo_map_def fmdomI)
        qed
        moreover have "echoes_of ?bc i \<subseteq> fset (fmdom r1) - {i}" by (rule echoes_of_others) (use pending' in blast)
        ultimately have "echoes_of ?bc i = fset (fmdom r1) - {i}" by blast
        then have "count_list ?new slow = ?k" using counts[OF i] card_others[OF i_r1] by simp
        moreover have "slow_heard pks slow st'" using i i_r1 complete by (simp add: slow_heard_def st')
        ultimately show ?thesis using ctx complete unfolding echo_progress_def by (simp add: st')
      next
        case False
        then have "echo_pending pks r1 me {} st'" using pending' by (simp add: echo_pending_def st')
        then show ?thesis using ctx counts False unfolding echo_progress_def st' by auto
      qed
    next
      case heard
      have "msg_sender m \<noteq> slow" using heard(1) True by auto
      moreover from this have "slow_heard pks slow st'" using slow_heard_step[OF heard(3) recv _ ctx(1)] by blast
      moreover have "has_round1_broadcast_packages st'"
        using no_way_back[OF heard(2) recv] calculation(2) by (auto simp: slow_heard_def)
      ultimately show ?thesis using heard(1) ctx unfolding echo_progress_def by simp
    qed
  next
    case False
    then show ?thesis using ctx unfolding echo_progress_def by blast
  qed
qed

lemma echo_wait_lemma:
  fixes E :: "('id, 'p1, 'p2, 'hs, 'ts, 'se, 'w) dkg_env" and s :: "('id, 'p1, 'p2, 'hs, 'ts, 'w) dkg_comms"
  assumes "snow_total (snow E)" and "has_cipher s" and "own_identifier s = Some me" and "session_id s = Some sid"
    and "\<And>args w. \<exists>ms w'. srv_receive (srv E) args w = (Ok ms, w')"
    and earlier: "dkg_recv_all (codec E) me (WaitingForRound1PackagesBroadcast pks r1 fmempty) earlier = (state s, Ok ())"
    and "distinct_ids pks" and own: "fmlookup pks mine = Some me" and dom: "fmdom r1 = fmran pks |-| {|me|}" and two: "2 \<le> map_len r1"
    and "senders = map msg_sender (earlier @ delivered (srv E) False sid n (world s))" and "0 < n"
    and "mine \<notin> set senders" and many: "\<And>pk. pk |\<in>| fmdom pks \<Longrightarrow> pk \<noteq> mine \<Longrightarrow> map_len r1 - 1 \<le> count_list senders pk"
    and "slow |\<in>| fmdom pks" and "count_list senders slow = map_len r1 - 1"
  shows "\<exists>r s'. receive_until E n has_round1_broadcast_packages s = (Some r, s') \<and> r \<noteq> Panic \<and>
    (r = Ok () \<longrightarrow> has_round1_broadcast_packages (state s'))"
proof -
  have "count_list senders mine = 0" using assms(13) by simp
  then have slow: "slow \<noteq> mine" using assms(16) two by auto
  have "fmdom r1 \<noteq> {||}" using two by (auto simp: fcard.rep_eq)
  then have "echo_pending pks r1 me {} (WaitingForRound1PackagesBroadcast pks r1 fmempty :: (comm_key, 'id, 'p1, 'p2) dkg_state)"
    by (auto simp: echo_pending_def echoes_complete_def Let_def)
  then have "echo_progress me pks mine r1 slow [] (WaitingForRound1PackagesBroadcast pks r1 fmempty :: (comm_key, 'id, 'p1, 'p2) dkg_state)"
    using assms(7,15) own dom slow by (simp add: echo_progress_def echoes_of_def echo_map_def)
  from echo_wait.accepted_all[OF this earlier]
  have start: "echo_progress me pks mine r1 slow (map msg_sender earlier) (state s)" by simp
  have fin: "has_round1_broadcast_packages st" if "echo_progress me pks mine r1 slow senders st" for st :: "(comm_key, 'id, 'p1, 'p2) dkg_state"
  proof -
    have "mine \<notin> set senders \<and> count_list senders slow \<le> map_len r1 - 1" using assms(13,16) by simp
    with that consider (echoing) bc where "st = WaitingForRound1PackagesBroadcast pks r1 bc" "echo_pending pks r1 me {} st"
        "\<And>pk i. fmlookup pks pk = Some i \<Longrightarrow> card (echoes_of bc i) = count_list senders pk"
      | (past) "has_round1_broadcast_packages st" unfolding echo_progress_def by blast
    then show ?thesis
    proof cases
      case echoing
      note pending = echo_pendingD[OF echoing(2)[unfolded echoing(1)]]
      have "i |\<in>| fmdom (echo_map bc org)" if r: "org |\<in>| fmdom r1" "i |\<in>| fmdom r1" "org \<noteq> i" for org i
      proof -
        obtain pk where pk: "fmlookup pks pk = Some i" "i \<noteq> me" using r(2) by (auto simp: dom fmlookup_ran_iff)
        then have "map_len r1 - 1 \<le> count_list senders pk" using many[OF fmdomI[OF pk(1)]] own by (cases "pk = mine") auto
        then have "card (fset (fmdom r1) - {i}) \<le> card (echoes_of bc i)" using echoing(3)[OF pk(1)] card_others[OF r(2)] by simp
        moreover have "echoes_of bc i \<subseteq> fset (fmdom r1) - {i}" by (rule echoes_of_others) (use pending(2) in blast)
        ultimately have "echoes_of bc i = fset (fmdom r1) - {i}" by (intro card_seteq) auto
        then show ?thesis using r by (auto simp: echoes_of_def)
      qed
      from full_echoes_complete[OF two this pending(2)] pending(1) show ?thesis by blast
    qed
  qed
  have "senders = map msg_sender earlier @ map msg_sender (delivered (srv E) False sid n (world s))" by (simp add: assms(11))
  from echo_wait.wait_returns[OF assms(1) refl assms(5,2-4) start assms(12), where finished = has_round1_broadcast_packages] fin[unfolded this]
  show ?thesis by blast
qed

section \<open>The waits end\<close>

text \<open>
  C11: the first wait of the key generation ends: if within \<open>n\<close> batches every other participant has
  sent something, and some participant has not sent more than one message, the wait returns
  within \<open>n\<close> rounds, with the packages or with an error, whatever was sent and in whatever
  batches. (When everybody is ahead it may not: see \<open>early_round2_hangs_round1\<close>.)
\<close>

theorem round1_wait_returns:
  fixes E :: "('id, 'p1, 'p2, 'hs, 'ts, 'se, 'w) dkg_env" and s :: "('id, 'p1, 'p2, 'hs, 'ts, 'w) dkg_comms"
  assumes "snow_total (snow E)" and "has_cipher s" and "own_identifier s = Some me" and "session_id s = Some sid"
    and "\<And>args w. \<exists>ms w'. srv_receive (srv E) args w = (Ok ms, w')"
    and "state s = WaitingForRound1Packages pks fmempty" and "distinct_ids pks" and "mine |\<in>| fmdom pks"
    and "senders = map msg_sender (delivered (srv E) False sid n (world s))"
    and "\<And>pk. pk |\<in>| fmdom pks \<Longrightarrow> pk \<in> set senders \<longleftrightarrow> pk \<noteq> mine"
    and "slow |\<in>| fmdom pks" and "count_list senders slow = 1"
  shows "\<exists>r s'. receive_until E n has_round1_packages s = (Some r, s') \<and> r \<noteq> Panic \<and>
    (r = Ok () \<longrightarrow> has_round1_packages (state s'))"
  by (rule round1_wait_lemma[OF assms])

text \<open>
  C12: the wait for the echoes ends: if up to the \<open>n\<close>-th batch every other participant has sent as
  many messages as there are others to echo, and some participant no more than these, the wait
  returns within \<open>n\<close> rounds, with the echo round over or with an error, whatever was sent and
  in whatever batches (\<open>earlier\<close> are the messages of the batch that ended round 1).
\<close>

theorem echo_wait_returns:
  fixes E :: "('id, 'p1, 'p2, 'hs, 'ts, 'se, 'w) dkg_env" and s :: "('id, 'p1, 'p2, 'hs, 'ts, 'w) dkg_comms"
  assumes "snow_total (snow E)" and "has_cipher s" and "own_identifier s = Some me" and "session_id s = Some sid"
    and "\<And>args w. \<exists>ms w'. srv_receive (srv E) args w = (Ok ms, w')"
    and "dkg_recv_all (codec E) me (WaitingForRound1PackagesBroadcast pks r1 fmempty) earlier = (state s, Ok ())"
    and "distinct_ids pks" and "fmlookup pks mine = Some me" and "fmdom r1 = fmran pks |-| {|me|}" and "2 \<le> map_len r1"
    and "senders = map msg_sender (earlier @ delivered (srv E) False sid n (world s))" and "0 < n"
    and "mine \<notin> set senders" and "\<And>pk. pk |\<in>| fmdom pks \<Longrightarrow> pk \<noteq> mine \<Longrightarrow> map_len r1 - 1 \<le> count_list senders pk"
    and "slow |\<in>| fmdom pks" and "count_list senders slow = map_len r1 - 1"
  shows "\<exists>r s'. receive_until E n has_round1_broadcast_packages s = (Some r, s') \<and> r \<noteq> Panic \<and>
    (r = Ok () \<longrightarrow> has_round1_broadcast_packages (state s'))"
  by (rule echo_wait_lemma[OF assms])

text \<open>
  C13: the last wait of the key generation ends: if within \<open>n\<close> batches every participant whose
  round-2 package is missing has sent something, the wait returns within \<open>n\<close> rounds, with the
  packages of all the others or with an error.
\<close>

theorem round2_wait_returns:
  fixes E :: "('id, 'p1, 'p2, 'hs, 'ts, 'se, 'w) dkg_env" and s :: "('id, 'p1, 'p2, 'hs, 'ts, 'w) dkg_comms"
  assumes "snow_total (snow E)" and "has_cipher s" and "own_identifier s = Some me" and "session_id s = Some sid"
    and "\<And>args w. \<exists>ms w'. srv_receive (srv E) args w = (Ok ms, w')"
    and "state s = WaitingForRound2Packages pks r1 r2" and "fmdom r2 |\<subset>| fmdom r1"
    and "\<And>id. id |\<in>| fmdom r1 |-| fmdom r2 \<Longrightarrow> \<exists>pk. fmlookup pks pk = Some id \<and>
      pk \<in> msg_sender ` set (delivered (srv E) False sid n (world s))"
  shows "\<exists>r s'. receive_until E n has_round2_packages s = (Some r, s') \<and> r \<noteq> Panic \<and>
    (r = Ok () \<longrightarrow> (\<exists>r2'. state s' = Round2PackagesReady pks r2' \<and> fmdom r2' = fmdom r1))"
  by (rule round2_wait_lemma[OF assms])

section \<open>Runs of two and of three participants\<close>

text \<open>The packages of round 1 in a batch each.\<close>

definition apart_env :: "(nat, nat, nat, unit, unit, unit, nat) dkg_env" where
  "apart_env = demo_dkg [[1], [2], [3]] (map (\<lambda>m. [m]) packages_batch)"

definition with_cipher :: "(nat, nat, nat, unit, unit, nat) dkg_comms" where
  "with_cipher = joined three_keys\<lparr>cipher_of := Some (plain_cipher [[1], [2], [3]])\<rparr>"

lemma apart_facts:
  "snow_total (snow apart_env)" "has_cipher with_cipher" "own_identifier with_cipher = Some 10"
  "session_id with_cipher = Some [7]" "\<exists>ms w'. srv_receive (srv apart_env) args w = (Ok ms, w')"
  "state with_cipher = WaitingForRound1Packages three_keys fmempty" "distinct_ids three_keys"
  "map msg_sender (delivered (srv apart_env) False [7] 2 (world with_cipher)) = [[2], [3]]"
  by (simp_all add: apart_env_def with_cipher_def joined_def demo_dkg_def demo_server_def snow_plain_total has_cipher_def
      plain_cipher_ok packages_batch_def eval_nat_numeral distinct_ids_def three_keys_def fmap_of_list.rep_eq)

lemma apart_run: "fst (receive_until apart_env 2 has_round1_packages with_cipher) = Some (Ok ())"
  by (simp add: apart_env_def with_cipher_def demo_dkg_defs joined_def demo_eval Let_def fcard.rep_eq packages_batch_def
      eval_nat_numeral plain_cipher_def)

lemma round1_wait_returns_witness:
  "\<exists>s'. receive_until apart_env 2 has_round1_packages with_cipher = (Some (Ok ()), s') \<and> has_round1_packages (state s')"
proof -
  have "\<exists>r s'. receive_until apart_env 2 has_round1_packages with_cipher = (Some r, s') \<and> r \<noteq> Panic \<and>
      (r = Ok () \<longrightarrow> has_round1_packages (state s'))"
    by (rule round1_wait_returns[OF apart_facts(1-4) apart_facts(5) apart_facts(6,7) _ apart_facts(8)[symmetric], where mine = "[1]" and slow = "[2]"])
      auto
  then show ?thesis using apart_run by auto
qed

definition echo_env :: "(nat, nat, nat, unit, unit, unit, nat) dkg_env" where
  "echo_env = demo_dkg [[1], [2], [3]] [echoes_batch]"

definition echo_start :: "(nat, nat, nat, unit, unit, nat) dkg_comms" where
  "echo_start = with_cipher\<lparr>state := WaitingForRound1PackagesBroadcast three_keys (fmupd 30 5 (fmupd 20 4 fmempty)) fmempty\<rparr>"

lemma echo_run_ends: "fst (receive_until echo_env 1 has_round1_broadcast_packages echo_start) = Some (Ok ())"
  by (simp add: echo_env_def echo_start_def with_cipher_def demo_dkg_defs joined_def demo_eval Let_def echoes_batch_def
      plain_cipher_def)

lemma echo_wait_returns_witness:
  "\<exists>s'. receive_until echo_env 1 has_round1_broadcast_packages echo_start = (Some (Ok ()), s') \<and>
    has_round1_broadcast_packages (state s')"
proof -
  let ?r1 = "fmupd 30 5 (fmupd 20 4 fmempty) :: (nat, nat) hash_map"
  have facts: "snow_total (snow echo_env)" "has_cipher echo_start" "own_identifier echo_start = Some 10"
    "session_id echo_start = Some [7]" "\<And>args w. \<exists>ms w'. srv_receive (srv echo_env) args w = (Ok ms, w')"
    "dkg_recv_all (codec echo_env) 10 (WaitingForRound1PackagesBroadcast three_keys ?r1 fmempty) [] = (state echo_start, Ok ())"
    and sent: "map msg_sender ([] @ delivered (srv echo_env) False [7] 1 (world echo_start)) = [[2], [3]]"
    by (simp_all add: echo_env_def echo_start_def with_cipher_def joined_def demo_dkg_def demo_server_def snow_plain_total
        has_cipher_def plain_cipher_ok echoes_batch_def)
  have dom: "fmdom ?r1 = fmran three_keys |-| {|10|}" by auto
  have "\<exists>r s'. receive_until echo_env 1 has_round1_broadcast_packages echo_start = (Some r, s') \<and> r \<noteq> Panic \<and>
      (r = Ok () \<longrightarrow> has_round1_broadcast_packages (state s'))"
    by (rule echo_wait_returns[OF facts apart_facts(7) three_keys_simps(1) dom _ sent[symmetric], where slow = "[2]"])
      (auto simp: fcard.rep_eq)
  then show ?thesis using echo_run_ends by auto
qed

definition last_env :: "(nat, nat, nat, unit, unit, unit, nat) dkg_env" where
  "last_env = demo_dkg [[1], [2]] [[], [\<lparr>msg_sender = [2], msg_bytes = [7, 0, 0]\<rparr>]]"

definition last_start :: "(nat, nat, nat, unit, unit, nat) dkg_comms" where
  "last_start = joined two_keys\<lparr>cipher_of := Some (plain_cipher [[1], [2]]),
     state := WaitingForRound2Packages two_keys (fmupd 20 4 fmempty) fmempty\<rparr>"

lemma last_run: "fst (receive_until last_env 2 has_round2_packages last_start) = Some (Ok ())"
  by (simp add: last_env_def last_start_def demo_dkg_defs joined_def demo_eval Let_def two_keys_def fmap_of_list.rep_eq
      eval_nat_numeral plain_cipher_def)

lemma round2_wait_returns_witness:
  "\<exists>s' r2. receive_until last_env 2 has_round2_packages last_start = (Some (Ok ()), s') \<and>
    state s' = Round2PackagesReady two_keys r2 \<and> fmdom r2 = {|20|}"
proof -
  have facts: "snow_total (snow last_env)" "has_cipher last_start" "own_identifier last_start = Some 10"
    "session_id last_start = Some [7]" "\<And>args w. \<exists>ms w'. srv_receive (srv last_env) args w = (Ok ms, w')"
    "state last_start = WaitingForRound2Packages two_keys (fmupd 20 4 fmempty) fmempty"
    "msg_sender ` set (delivered (srv last_env) False [7] 2 (world last_start)) = {[2]}"
    by (simp_all add: last_env_def last_start_def joined_def demo_dkg_def demo_server_def snow_plain_total has_cipher_def
        plain_cipher_ok eval_nat_numeral)
  have "fmdom (fmempty :: (nat, nat) fmap) |\<subset>| fmdom (fmupd 20 (4 :: nat) fmempty)" by auto
  moreover have "fmlookup two_keys [2] = Some 20" by (simp add: two_keys_def fmap_of_list.rep_eq)
  ultimately have "\<exists>r s'. receive_until last_env 2 has_round2_packages last_start = (Some r, s') \<and> r \<noteq> Panic \<and>
      (r = Ok () \<longrightarrow> (\<exists>r2. state s' = Round2PackagesReady two_keys r2 \<and> fmdom r2 = {|20|}))"
    using round2_wait_returns[OF facts(1-6), of 2] by (simp add: facts(7))
  then show ?thesis using last_run by auto
qed

end
