(* ===== verification/Files.thy ===== *)
theory Files
  imports Api
begin

text \<open>
  The operating system as the command line uses it, a record of calls on the world \<open>'w\<close>, and
  the atomic file writer \<^verbatim>\<open>mina-frost-client/src/cli/write_atomic.rs\<close>. A call that can fail
  tells whether it succeeded; \<open>'t\<close> are temporary files. Printing to the terminal is taken to
  succeed.
\<close>

section \<open>The system\<close>

record ('t, 'w) system_ext =
  config_local_dir :: "rstr option"
  join_path :: "rstr \<Rightarrow> rstr \<Rightarrow> rstr"
  is_absolute :: "rstr \<Rightarrow> bool"
  parent_of :: "rstr \<Rightarrow> rstr option"
  path_exists :: "rstr \<Rightarrow> 'w \<Rightarrow> bool"
  is_dir :: "rstr \<Rightarrow> 'w \<Rightarrow> bool"
  current_dir :: "'w \<Rightarrow> rstr option"
  create_dir_all :: "rstr \<Rightarrow> 'w \<Rightarrow> bool \<times> 'w"
  fs_read :: "rstr \<Rightarrow> 'w \<Rightarrow> bytes option"
  fs_write :: "rstr \<Rightarrow> bytes \<Rightarrow> 'w \<Rightarrow> bool \<times> 'w"
  tempfile_in :: "rstr \<Rightarrow> 'w \<Rightarrow> 't option \<times> 'w"
  temp_write_all :: "'t \<Rightarrow> bytes \<Rightarrow> 'w \<Rightarrow> bool \<times> 'w"
  temp_flush :: "'t \<Rightarrow> 'w \<Rightarrow> bool \<times> 'w"
  temp_persist :: "'t \<Rightarrow> rstr \<Rightarrow> 'w \<Rightarrow> bool \<times> 'w"
  stdin_text :: "'w \<Rightarrow> rstr option \<times> 'w"
  print_text :: "rstr \<Rightarrow> 'w \<Rightarrow> 'w"

datatype cli_error = Failure rstr | Outside

type_synonym ('w, 'a) cli = "('w, cli_error, 'a) io"

text \<open>A call that succeeds or fails, and one that returns something or fails.\<close>

definition attempt :: "('w \<Rightarrow> bool \<times> 'w) \<Rightarrow> ('w, unit) cli" where
  "attempt call w = (case call w of (fine, w) \<Rightarrow> (Some (if fine then Ok () else Err Outside), w))"

definition obtain_from :: "('w \<Rightarrow> 'a option \<times> 'w) \<Rightarrow> ('w, 'a) cli" where
  "obtain_from call w = (case call w of (r, w) \<Rightarrow> (Some (ok_or Outside r), w))"

definition print_out :: "('t, 'w) system_ext \<Rightarrow> rstr \<Rightarrow> ('w, unit) cli" where
  "print_out S text = io_set (print_text S text)"

definition or_fail :: "rstr \<Rightarrow> 'a option \<Rightarrow> ('w, 'a) cli" where
  "or_fail report v = io_pure (ok_or (Failure report) v)"

definition outside :: "'a option \<Rightarrow> ('w, 'a) cli" where
  "outside v = io_pure (ok_or Outside v)"

section \<open>Atomic writes\<close>

definition absolute_path :: "('t, 'w) system_ext \<Rightarrow> rstr \<Rightarrow> 'w \<Rightarrow> rstr option" where
  "absolute_path S src w =
     (if is_absolute S src then Some src
      else map_option (\<lambda>dir. join_path S dir src) (current_dir S w))"

definition check_path :: "('t, 'w) system_ext \<Rightarrow> rstr \<Rightarrow> ('w, rstr \<times> rstr) cli" where
  "check_path S src =
     io_bind (io_get (\<lambda>w. if is_dir S src w then Err (Failure (lit ''Path cannot be a directory.'')) else Ok ())) (\<lambda>_.
     io_bind (io_get (\<lambda>w. ok_or Outside (absolute_path S src w))) (\<lambda>src.
     io_bind (or_fail (lit ''Path must have a parent directory.'') (parent_of S src)) (\<lambda>parent.
     io_bind (attempt (create_dir_all S parent)) (\<lambda>_.
     io_pure (Ok (src, parent))))))"

definition write_file :: "('t, 'w) system_ext \<Rightarrow> rstr \<Rightarrow> bytes \<Rightarrow> ('w, unit) cli" where
  "write_file S src data =
     io_bind (check_path S src) (\<lambda>(dst, parent).
     io_bind (obtain_from (tempfile_in S parent)) (\<lambda>file.
     io_bind (attempt (temp_write_all S file data)) (\<lambda>_.
     io_bind (attempt (temp_flush S file)) (\<lambda>_.
     attempt (temp_persist S file dst)))))"

section \<open>What the system is relied on for\<close>

text \<open>
  \<open>place\<close> is the file a path names (symbolic links aside): a relative path names the same one as
  the path joined to the current directory, and two paths may name one file. \<open>files\<close> is what the
  files of a world hold, those of unfinished writers apart, and \<open>temps\<close> what a temporary file
  holds. Reading gives what the file holds; only writing and persisting change a named file, and
  persisting does so with what the temporary file holds, or not at all.
\<close>

definition files_laws ::
  "('t, 'w) system_ext \<Rightarrow> (rstr \<Rightarrow> 'f) \<Rightarrow> ('w \<Rightarrow> 'f \<Rightarrow> bytes option) \<Rightarrow> ('w \<Rightarrow> 't \<Rightarrow> bytes) \<Rightarrow> bool" where
  "files_laws S place files temps \<longleftrightarrow>
     (\<forall>p w dst. absolute_path S p w = Some dst \<longrightarrow> place dst = place p) \<and>
     (\<forall>p w. fs_read S p w = files w (place p)) \<and>
     (\<forall>p w. files w (place p) \<noteq> None \<longrightarrow> path_exists S p w) \<and>
     (\<forall>p w. files (snd (create_dir_all S p w)) = files w) \<and>
     (\<forall>p w. files (snd (tempfile_in S p w)) = files w) \<and>
     (\<forall>p w t. fst (tempfile_in S p w) = Some t \<longrightarrow> temps (snd (tempfile_in S p w)) t = []) \<and>
     (\<forall>t d w. files (snd (temp_write_all S t d w)) = files w \<and>
        (fst (temp_write_all S t d w) \<longrightarrow> temps (snd (temp_write_all S t d w)) t = temps w t @ d)) \<and>
     (\<forall>t w. files (snd (temp_flush S t w)) = files w \<and> temps (snd (temp_flush S t w)) t = temps w t) \<and>
     (\<forall>t p w. files (snd (temp_persist S t p w)) =
        (if fst (temp_persist S t p w) then (files w)(place p := Some (temps w t)) else files w)) \<and>
     (\<forall>p d w. fst (fs_write S p d w) \<longrightarrow> files (snd (fs_write S p d w)) = (files w)(place p := Some d)) \<and>
     (\<forall>x w. files (print_text S x w) = files w)"

lemma attempt_cases:
  obtains "attempt call w = (Some (Ok ()), snd (call w))" "fst (call w)"
  | "attempt call w = (Some (Err Outside), snd (call w))" "\<not> fst (call w)"
  by (cases "call w") (auto simp: attempt_def split: if_splits)

lemma check_path_cases:
  assumes "files_laws S place files temps"
  obtains dst parent w' where "check_path S src w = (Some (Ok (dst, parent)), w')" "files w' = files w"
    "place dst = place src"
  | e w' where "check_path S src w = (Some (Err e), w')" "files w' = files w"
proof -
  show thesis
  proof (cases "\<not> is_dir S src w \<and> (\<exists>dst parent. absolute_path S src w = Some dst \<and> parent_of S dst = Some parent)")
    case True
    then obtain dst parent where ok: "\<not> is_dir S src w" "absolute_path S src w = Some dst" "parent_of S dst = Some parent"
      by blast
    have made: "files (snd (create_dir_all S parent w)) = files w" using assms by (simp add: files_laws_def)
    have dst: "place dst = place src" using assms ok(2) by (simp add: files_laws_def)
    show thesis
    proof (cases rule: attempt_cases[of "create_dir_all S parent" w])
      case 1
      then have "check_path S src w = (Some (Ok (dst, parent)), snd (create_dir_all S parent w))"
        using ok by (simp add: check_path_def or_fail_def io_bind_def)
      with made dst show thesis by (intro that(1))
    next
      case 2
      then have "check_path S src w = (Some (Err Outside), snd (create_dir_all S parent w))"
        using ok by (simp add: check_path_def or_fail_def io_bind_def)
      with made show thesis by (intro that(2))
    qed
  next
    case False
    then have "\<exists>e. check_path S src w = (Some (Err e), w)"
      by (cases "absolute_path S src w"; cases "is_dir S src w")
        (auto simp: check_path_def or_fail_def io_bind_def split: option.splits)
    then show thesis using that(2) by blast
  qed
qed

lemma write_file_atomic_lemma:
  assumes "files_laws S place files temps"
  shows "(\<exists>w'. write_file S src data w = (Some (Ok ()), w') \<and> files w' = (files w)(place src := Some data)) \<or>
    (\<exists>e w'. write_file S src data w = (Some (Err e), w') \<and> files w' = files w)"
proof (cases rule: check_path_cases[OF assms, of src w])
  case (1 dst parent w1)
  obtain r w2 where temp: "tempfile_in S parent w1 = (r, w2)" by (cases "tempfile_in S parent w1")
  have w2: "files w2 = files w" using assms temp 1(2) unfolding files_laws_def by (metis snd_conv)
  show ?thesis
  proof (cases r)
    case None
    then show ?thesis using 1 temp w2 by (auto simp: write_file_def io_bind_def obtain_from_def)
  next
    case (Some t)
    have t: "temps w2 t = []" using assms temp Some unfolding files_laws_def by (metis fst_conv snd_conv)
    let ?w3 = "snd (temp_write_all S t data w2)"
    let ?w4 = "snd (temp_flush S t ?w3)"
    have w4: "files ?w3 = files w" "files ?w4 = files w" using assms w2 by (simp_all add: files_laws_def)
    have content: "fst (temp_write_all S t data w2) \<Longrightarrow> temps ?w4 t = data"
      using assms t by (simp add: files_laws_def)
    have persist: "files (snd (temp_persist S t dst ?w4)) =
        (if fst (temp_persist S t dst ?w4) then (files ?w4)(place src := Some (temps ?w4 t)) else files ?w4)"
      using assms 1(3) unfolding files_laws_def by metis
    show ?thesis
      using 1 temp Some w4 content persist
      by (cases rule: attempt_cases[of "temp_write_all S t data" w2];
          cases rule: attempt_cases[of "temp_flush S t" ?w3];
          cases rule: attempt_cases[of "temp_persist S t dst" ?w4])
        (simp_all add: write_file_def io_bind_def obtain_from_def)
  qed
next
  case (2 e w')
  then show ?thesis by (auto simp: write_file_def io_bind_def)
qed

text \<open>
  C25: a file is written whole or not at all: the writer never panics; when it succeeds the file the
  path names, relative or absolute, holds exactly the data and every other file is as before, and
  when it fails every file is as before.
\<close>

theorem write_file_atomic:
  assumes "files_laws S place files temps"
  shows "(\<exists>w'. write_file S src data w = (Some (Ok ()), w') \<and> files w' = (files w)(place src := Some data)) \<or>
    (\<exists>e w'. write_file S src data w = (Some (Err e), w') \<and> files w' = files w)"
  by (rule write_file_atomic_lemma[OF assms])

section \<open>An instance\<close>

text \<open>Files in a map, one temporary file, and what was printed.\<close>

record demo_disk =
  dd_files :: "rstr \<Rightarrow> bytes option"
  dd_temp :: bytes
  dd_printed :: "rstr list"

definition system_demo :: "(unit, demo_disk) system_ext" where
  "system_demo = \<lparr>config_local_dir = Some [47], join_path = (@), is_absolute = (\<lambda>p. True), parent_of = Some,
     path_exists = (\<lambda>p w. dd_files w p \<noteq> None), is_dir = (\<lambda>p w. False), current_dir = (\<lambda>w. None),
     create_dir_all = (\<lambda>p w. (True, w)), fs_read = (\<lambda>p w. dd_files w p),
     fs_write = (\<lambda>p d w. if p = [] then (False, w) else (True, w\<lparr>dd_files := (dd_files w)(p := Some d)\<rparr>)),
     tempfile_in = (\<lambda>p w. (Some (), w\<lparr>dd_temp := []\<rparr>)),
     temp_write_all = (\<lambda>t d w. (True, w\<lparr>dd_temp := dd_temp w @ d\<rparr>)), temp_flush = (\<lambda>t w. (True, w)),
     temp_persist = (\<lambda>t p w. (True, w\<lparr>dd_files := (dd_files w)(p := Some (dd_temp w))\<rparr>)),
     stdin_text = (\<lambda>w. (None, w)), print_text = (\<lambda>x w. w\<lparr>dd_printed := dd_printed w @ [x]\<rparr>)\<rparr>"

lemma system_demo_laws: "files_laws system_demo id dd_files (\<lambda>w t. dd_temp w)"
  by (simp add: files_laws_def system_demo_def absolute_path_def)

lemma write_file_atomic_witness:
  "\<exists>w'. write_file system_demo [1] [2] \<lparr>dd_files = (\<lambda>p. None), dd_temp = [9], dd_printed = []\<rparr> = (Some (Ok ()), w') \<and>
    dd_files w' [1] = Some [2]"
proof -
  let ?w = "\<lparr>dd_files = (\<lambda>p. None), dd_temp = [9], dd_printed = []\<rparr> :: demo_disk"
  have "\<exists>w'. write_file system_demo [1] [2] ?w = (Some (Ok ()), w')"
    by (simp add: write_file_def check_path_def attempt_def obtain_from_def or_fail_def absolute_path_def
        io_bind_def system_demo_def)
  then show ?thesis using write_file_atomic[OF system_demo_laws, of "[1]" "[2]" ?w] by fastforce
qed

end
