(* ===== verification/Address_Book.thy ===== *)
theory Address_Book
  imports Files Comms "HOL-Library.List_Lexorder"
begin

text \<open>
  The configuration file with the communication key, the address book and the groups, and the
  commands that manage it: \<^verbatim>\<open>mina-frost-client/src/cli/config.rs\<close>, \<^verbatim>\<open>contact.rs\<close>,
  \<^verbatim>\<open>group.rs\<close>, \<^verbatim>\<open>init.rs\<close>, \<^verbatim>\<open>ciphersuite_helper.rs\<close> and the commands of
  \<^verbatim>\<open>args.rs\<close>. TOML, postcard, Bech32 and hexadecimal codecs are parameters. A
  \<open>BTreeMap\<close> is a finite map whose entries are listed in the order of the keys.
\<close>

section \<open>Commands\<close>

datatype command =
    Init "rstr option"
  | Export rstr "rstr option"
  | Import rstr "rstr option"
  | Contacts "rstr option"
  | RemoveContact "rstr option" rstr
  | TrustedDealer "rstr list" rstr "rstr list" "rstr option" u16
  | Dkg "rstr option" rstr rstr u16 "rstr list"
  | Groups "rstr option"
  | RemoveGroup "rstr option" rstr
  | Sessions "rstr option" "rstr option" "rstr option" bool
  | Coordinator "rstr option" "rstr option" rstr "rstr list" rstr rstr rstr
  | Participant "rstr option" "rstr option" rstr rstr bool
  | GraphqlBuild rstr rstr
  | GraphqlBroadcast rstr rstr

section \<open>The configuration\<close>

record communication_key =
  ck_privkey :: bytes
  ck_pubkey :: comm_key

record contact =
  ct_version :: "u8 option"
  ct_name :: rstr
  ct_pubkey :: comm_key

record participant =
  pa_identifier :: bytes
  pa_pubkey :: comm_key

record frost_group =
  gr_description :: rstr
  gr_public_key_package :: bytes
  gr_key_package :: bytes
  gr_server_url :: "rstr option"
  gr_participant :: "(rstr, participant) fmap"

record config =
  cf_path :: "rstr option"
  cf_version :: u8
  cf_communication_key :: "communication_key option"
  cf_contact :: "(rstr, contact) fmap"
  cf_group :: "(rstr, frost_group) fmap"

definition config_default :: config where
  "config_default = \<lparr>cf_path = None, cf_version = 0, cf_communication_key = None,
     cf_contact = fmempty, cf_group = fmempty\<rparr>"

record ('id, 'kp, 'pkp, 'vk, 'w) client_ext =
  toml_encode :: "config \<Rightarrow> rstr option"
  toml_decode :: "rstr \<Rightarrow> config option"
  hex_encode :: "bytes \<Rightarrow> rstr"
  hex_decode :: "rstr \<Rightarrow> bytes option"
  write_contact :: "contact \<Rightarrow> bytes option"
  read_contact :: "bytes \<Rightarrow> contact option"
  bech32_encode :: "rstr \<Rightarrow> bytes \<Rightarrow> rstr option"
  bech32_decode :: "rstr \<Rightarrow> (rstr \<times> bytes) option"
  write_key_package :: "'kp \<Rightarrow> bytes option"
  read_key_package :: "bytes \<Rightarrow> 'kp option"
  write_public_key_package :: "'pkp \<Rightarrow> bytes option"
  read_public_key_package :: "bytes \<Rightarrow> 'pkp option"
  key_min_signers :: "'kp \<Rightarrow> u16"
  verifying_key :: "'pkp \<Rightarrow> 'vk"
  verifying_key_bytes :: "'vk \<Rightarrow> bytes option"
  verifying_key_address :: "'vk \<Rightarrow> rstr option"
  share_identifiers :: "'pkp \<Rightarrow> 'id list"
  write_identifier :: "'id \<Rightarrow> bytes"
  read_identifier :: "bytes \<Rightarrow> 'id option"
  generate_keypair :: "'w \<Rightarrow> (bytes \<times> comm_key) option \<times> 'w"

definition btree_values :: "('k :: linorder, 'v) fmap \<Rightarrow> 'v list" where
  "btree_values m = map snd (sorted_list_of_fmap m)"

definition contact_by_pubkey :: "config \<Rightarrow> comm_key \<Rightarrow> (cli_error, contact) outcome" where
  "contact_by_pubkey c pubkey =
     (if Some pubkey = map_option ck_pubkey (cf_communication_key c)
      then Ok \<lparr>ct_version = Some 0, ct_name = [], ct_pubkey = pubkey\<rparr>
      else ok_or (Failure (lit ''contact not found''))
        (find (\<lambda>ct. ct_pubkey ct = pubkey) (btree_values (cf_contact c))))"

definition participant_by_pubkey :: "frost_group \<Rightarrow> comm_key \<Rightarrow> (cli_error, participant) outcome" where
  "participant_by_pubkey g pubkey =
     ok_or (Failure (lit ''Participant not found''))
       (find (\<lambda>p. pa_pubkey p = pubkey) (btree_values (gr_participant g)))"

definition participant_identifier ::
  "('id, 'kp, 'pkp, 'vk, 'w) client_ext \<Rightarrow> participant \<Rightarrow> (cli_error, 'id) outcome" where
  "participant_identifier X p = ok_or Outside (read_identifier X (pa_identifier p))"

record group_info =
  gi_hex_verifying_key :: rstr
  gi_mina_verifying_key :: rstr
  gi_threshold :: nat
  gi_num_participants :: nat

definition group_info_of ::
  "('id, 'kp, 'pkp, 'vk, 'w) client_ext \<Rightarrow> bytes \<Rightarrow> bytes \<Rightarrow> (cli_error, group_info) outcome" where
  "group_info_of X encoded_key_package encoded_public_key_package =
     obind (ok_or Outside (read_key_package X encoded_key_package)) (\<lambda>kp.
     obind (ok_or Outside (read_public_key_package X encoded_public_key_package)) (\<lambda>pkp.
     obind (ok_or Outside (verifying_key_bytes X (verifying_key X pkp))) (\<lambda>vk.
     obind (ok_or Outside (verifying_key_address X (verifying_key X pkp))) (\<lambda>address.
     Ok \<lparr>gi_hex_verifying_key = hex_encode X vk, gi_mina_verifying_key = address,
       gi_threshold = unat (key_min_signers X kp), gi_num_participants = length (share_identifiers X pkp)\<rparr>))))"

definition group_summary ::
  "('id, 'kp, 'pkp, 'vk, 'w) client_ext \<Rightarrow> config \<Rightarrow> frost_group \<Rightarrow> (cli_error, rstr) outcome" where
  "group_summary X c g =
     obind (group_info_of X (gr_key_package g) (gr_public_key_package g)) (\<lambda>info.
     obind (omap_list (\<lambda>p. contact_by_pubkey c (pa_pubkey p)) (btree_values (gr_participant g))) (\<lambda>contacts.
     Ok (lit ''Group '' @ [34] @ gr_description g @ [34, 10] @
       lit ''Public key (hex format): '' @ gi_hex_verifying_key info @ [10] @
       lit ''Public key (mina format): '' @ gi_mina_verifying_key info @ [10] @
       lit ''Server URL: '' @ (case gr_server_url g of Some url \<Rightarrow> url | None \<Rightarrow> []) @ [10] @
       lit ''Threshold: '' @ show_nat (gi_threshold info) @ [10] @
       lit ''Participants: '' @ show_nat (gi_num_participants info) @ [10] @
       concat (map (\<lambda>ct. [9] @ ct_name ct @ [9, 40] @ hex_encode X (ct_pubkey ct) @ [41, 10]) contacts))))"

section \<open>Reading and writing\<close>

definition parse_path :: "('t, 'w) system_ext \<Rightarrow> rstr option \<Rightarrow> (cli_error, rstr) outcome" where
  "parse_path S path = (case path of
     Some p \<Rightarrow> Ok p
   | None \<Rightarrow> (case config_local_dir S of
       Some dir \<Rightarrow> Ok (join_path S (join_path S dir (lit ''frost'')) (lit ''credentials.toml''))
     | None \<Rightarrow> Panic))"

definition config_read ::
  "('t, 'w) system_ext \<Rightarrow> ('id, 'kp, 'pkp, 'vk, 'w) client_ext \<Rightarrow> rstr option \<Rightarrow> ('w, config) cli" where
  "config_read S X path =
     io_bind (io_pure (parse_path S path)) (\<lambda>path.
     io_get (\<lambda>w.
       if \<not> path_exists S path w then Ok (config_default\<lparr>cf_path := Some path\<rparr>)
       else obind (ok_or Outside (fs_read S path w)) (\<lambda>bytes.
            obind (if utf8_valid bytes then Ok bytes else Err Outside) (\<lambda>s.
            obind (ok_or Outside (toml_decode X s)) (\<lambda>config.
            Ok (config\<lparr>cf_path := Some path\<rparr>))))))"

definition config_write ::
  "('t, 'w) system_ext \<Rightarrow> ('id, 'kp, 'pkp, 'vk, 'w) client_ext \<Rightarrow> config \<Rightarrow> ('w, unit) cli" where
  "config_write S X c =
     io_bind (outside (toml_encode X c)) (\<lambda>s.
     io_bind (or_fail (lit ''path not specified'') (cf_path c)) (\<lambda>path.
     write_file S path s))"

section \<open>Contacts\<close>

definition CONTACT_HRP :: rstr where "CONTACT_HRP = lit ''minafrost''"

definition contact_summary :: "('id, 'kp, 'pkp, 'vk, 'w) client_ext \<Rightarrow> contact \<Rightarrow> rstr" where
  "contact_summary X c =
     lit ''Name: '' @ ct_name c @ [10] @ lit ''Public Key: '' @ hex_encode X (ct_pubkey c) @ [10]"

definition contact_as_text :: "('id, 'kp, 'pkp, 'vk, 'w) client_ext \<Rightarrow> contact \<Rightarrow> (cli_error, rstr) outcome" where
  "contact_as_text X c =
     obind (ok_or Outside (write_contact X c)) (\<lambda>bytes.
     ok_or Outside (bech32_encode X CONTACT_HRP bytes))"

definition contact_from_text :: "('id, 'kp, 'pkp, 'vk, 'w) client_ext \<Rightarrow> rstr \<Rightarrow> (cli_error, contact) outcome" where
  "contact_from_text X s =
     obind (ok_or Outside (bech32_decode X s)) (\<lambda>(hrp, bytes).
     if hrp \<noteq> CONTACT_HRP then Err (Failure (lit ''invalid contact format''))
     else obind (ok_or Outside (read_contact X bytes)) (\<lambda>c.
     if ct_version c \<noteq> Some 0 then Err (Failure (lit ''invalid contact version''))
     else Ok c))"

text \<open>What \<open>import\<close> makes of the configuration it has read.\<close>

definition add_contact ::
  "('id, 'kp, 'pkp, 'vk, 'w) client_ext \<Rightarrow> config \<Rightarrow> contact \<Rightarrow> (cli_error, contact \<times> config) outcome" where
  "add_contact X cfg c =
     (if ct_name c |\<in>| fmdom (cf_contact cfg)
      then Err (Failure (lit ''contact with name '' @ ct_name c @ lit '' already exists. Either remove the existing one, or ask the sender to change their display name when exporting''))
      else if \<exists>ct \<in> set (btree_values (cf_contact cfg)). ct_pubkey ct = ct_pubkey c
      then Err (Failure (lit ''pubkey '' @ hex_encode X (ct_pubkey c) @ lit '' already registered for '' @ ct_name c))
      else if map_option ck_pubkey (cf_communication_key cfg) = Some (ct_pubkey c)
      then Err (Failure (lit ''pubkey '' @ hex_encode X (ct_pubkey c) @ lit '' already registered for yourself''))
      else (let c = c\<lparr>ct_version := None\<rparr>
            in Ok (c, cfg\<lparr>cf_contact := fmupd (ct_name c) c (cf_contact cfg)\<rparr>)))"

fun contact_import ::
  "('t, 'w) system_ext \<Rightarrow> ('id, 'kp, 'pkp, 'vk, 'w) client_ext \<Rightarrow> command \<Rightarrow> ('w, unit) cli" where
  "contact_import S X (Import text_contact path) =
     io_bind (config_read S X path) (\<lambda>cfg.
     io_bind (io_pure (contact_from_text X text_contact)) (\<lambda>c.
     io_bind (io_pure (add_contact X cfg c)) (\<lambda>(c, cfg).
     io_bind (print_out S (lit ''Imported this contact:'' @ [10])) (\<lambda>_.
     io_bind (print_out S (contact_summary X c)) (\<lambda>_.
     config_write S X cfg)))))"
| "contact_import S X _ = io_pure Panic"

fun contact_export ::
  "('t, 'w) system_ext \<Rightarrow> ('id, 'kp, 'pkp, 'vk, 'w) client_ext \<Rightarrow> command \<Rightarrow> ('w, unit) cli" where
  "contact_export S X (Export name path) =
     io_bind (config_read S X path) (\<lambda>cfg.
     io_bind (or_fail (lit ''pubkey not generated yet'') (cf_communication_key cfg)) (\<lambda>key.
     let c = \<lparr>ct_version = Some 0, ct_name = name, ct_pubkey = ck_pubkey key\<rparr> in
     io_bind (print_out S (lit ''Exporting this information:'' @ [10])) (\<lambda>_.
     io_bind (print_out S (contact_summary X c)) (\<lambda>_.
     io_bind (print_out S (lit ''Check if contains the expected information. If it does, copy the following contact string and send to other participants you want to use FROST with:'' @ [10])) (\<lambda>_.
     io_bind (io_pure (contact_as_text X c)) (\<lambda>s.
     print_out S (s @ [10])))))))"
| "contact_export S X _ = io_pure Panic"

fun contact_list ::
  "('t, 'w) system_ext \<Rightarrow> ('id, 'kp, 'pkp, 'vk, 'w) client_ext \<Rightarrow> command \<Rightarrow> ('w, unit) cli" where
  "contact_list S X (Contacts path) =
     io_bind (config_read S X path) (\<lambda>cfg.
     io_for (\<lambda>c.
       io_bind (print_out S (contact_summary X c)) (\<lambda>_.
       io_bind (io_pure (contact_as_text X c)) (\<lambda>s.
       io_bind (print_out S (s @ [10])) (\<lambda>_.
       print_out S [10])))) (btree_values (cf_contact cfg)))"
| "contact_list S X _ = io_pure Panic"

definition remove_contact ::
  "('id, 'kp, 'pkp, 'vk, 'w) client_ext \<Rightarrow> config \<Rightarrow> rstr \<Rightarrow> (cli_error, config) outcome" where
  "remove_contact X cfg pubkey =
     (case find (\<lambda>(name, c). hex_encode X (ct_pubkey c) = pubkey) (sorted_list_of_fmap (cf_contact cfg)) of
        Some (name, c) \<Rightarrow> Ok (cfg\<lparr>cf_contact := fmdrop name (cf_contact cfg)\<rparr>)
      | None \<Rightarrow> Err (Failure (lit ''contact not found'')))"

fun contact_remove ::
  "('t, 'w) system_ext \<Rightarrow> ('id, 'kp, 'pkp, 'vk, 'w) client_ext \<Rightarrow> command \<Rightarrow> ('w, unit) cli" where
  "contact_remove S X (RemoveContact path pubkey) =
     io_bind (config_read S X path) (\<lambda>cfg.
     io_bind (io_pure (remove_contact X cfg pubkey)) (\<lambda>cfg.
     config_write S X cfg))"
| "contact_remove S X _ = io_pure Panic"

section \<open>Groups and initialisation\<close>

fun group_list ::
  "('t, 'w) system_ext \<Rightarrow> ('id, 'kp, 'pkp, 'vk, 'w) client_ext \<Rightarrow> command \<Rightarrow> ('w, unit) cli" where
  "group_list S X (Groups path) =
     io_bind (config_read S X path) (\<lambda>cfg.
     io_for (\<lambda>g.
       io_bind (io_pure (group_summary X cfg g)) (\<lambda>s.
       io_bind (print_out S s) (\<lambda>_.
       print_out S [10]))) (btree_values (cf_group cfg)))"
| "group_list S X _ = io_pure Panic"

fun group_remove ::
  "('t, 'w) system_ext \<Rightarrow> ('id, 'kp, 'pkp, 'vk, 'w) client_ext \<Rightarrow> command \<Rightarrow> ('w, unit) cli" where
  "group_remove S X (RemoveGroup path name) =
     io_bind (config_read S X path) (\<lambda>cfg.
     io_bind (or_fail (lit ''group not found'') (fmlookup (cf_group cfg) name)) (\<lambda>_.
     config_write S X (cfg\<lparr>cf_group := fmdrop name (cf_group cfg)\<rparr>)))"
| "group_remove S X _ = io_pure Panic"

definition ensure_keypair ::
  "('t, 'w) system_ext \<Rightarrow> ('id, 'kp, 'pkp, 'vk, 'w) client_ext \<Rightarrow> config \<Rightarrow> ('w, config) cli" where
  "ensure_keypair S X cfg =
     (case cf_communication_key cfg of
        Some _ \<Rightarrow> io_bind (print_out S (lit ''Skipping keypair generation; keypair already generated and stored'' @ [10])) (\<lambda>_.
          io_pure (Ok cfg))
      | None \<Rightarrow> io_bind (print_out S (lit ''Generating keypair... '' @ [10])) (\<lambda>_.
          io_bind (obtain_from (generate_keypair X)) (\<lambda>(privkey, pubkey).
          io_pure (Ok (cfg\<lparr>cf_communication_key := Some \<lparr>ck_privkey = privkey, ck_pubkey = pubkey\<rparr>\<rparr>)))))"

fun cli_init ::
  "('t, 'w) system_ext \<Rightarrow> ('id, 'kp, 'pkp, 'vk, 'w) client_ext \<Rightarrow> command \<Rightarrow> ('w, unit) cli" where
  "cli_init S X (Init path) =
     io_bind (config_read S X path) (\<lambda>cfg.
     io_bind (ensure_keypair S X cfg) (\<lambda>cfg.
     io_bind (case cf_path cfg of
         Some p \<Rightarrow> print_out S (lit ''Writing to config file at '' @ p @ lit ''...'' @ [10])
       | None \<Rightarrow> io_pure Panic) (\<lambda>_.
     io_bind (config_write S X cfg) (\<lambda>_.
     print_out S (lit ''Done.'' @ [10] @ lit ''WARNING: the config file will contain your private FROST shares in clear. Keep it safe and never share it with anyone. Future versions of this tool might encrypt the config file.'' @ [10])))))"
| "cli_init S X _ = io_pure Panic"

section \<open>The address book\<close>

text \<open>Contacts are filed under their names, no two share a public key, and the user is not one of them.\<close>

definition address_book_ok :: "config \<Rightarrow> bool" where
  "address_book_ok cfg \<longleftrightarrow>
     (\<forall>n c. fmlookup (cf_contact cfg) n = Some c \<longrightarrow> ct_name c = n \<and>
        map_option ck_pubkey (cf_communication_key cfg) \<noteq> Some (ct_pubkey c)) \<and>
     (\<forall>n c n' c'. fmlookup (cf_contact cfg) n = Some c \<and> fmlookup (cf_contact cfg) n' = Some c' \<and>
        ct_pubkey c = ct_pubkey c' \<longrightarrow> n = n')"

lemma sorted_list_of_fmap_empty [simp]: "sorted_list_of_fmap fmempty = []"
  by (simp add: sorted_list_of_fmap_def sorted_list_of_fset.rep_eq)

lemma set_btree_values: "v \<in> set (btree_values m) \<longleftrightarrow> (\<exists>k. fmlookup m k = Some v)"
  by (force simp: btree_values_def sorted_list_of_fmap_def fmlookup_dom_iff)

lemma find_btree_Some: "find P (btree_values m) = Some v \<Longrightarrow> P v \<and> (\<exists>k. fmlookup m k = Some v)"
  using set_btree_values[of v m] by (auto simp: find_Some_iff)

lemma find_btree_None: "find P (btree_values m) = None \<longleftrightarrow> (\<forall>k v. fmlookup m k = Some v \<longrightarrow> \<not> P v)"
  by (auto simp: find_None_iff set_btree_values)

lemma contact_by_pubkey_Ok:
  assumes "contact_by_pubkey cfg pk = Ok c"
  shows "ct_pubkey c = pk \<and>
    (map_option ck_pubkey (cf_communication_key cfg) = Some pk \<or> (\<exists>n. fmlookup (cf_contact cfg) n = Some c))"
proof (cases "map_option ck_pubkey (cf_communication_key cfg) = Some pk")
  case True
  then show ?thesis using assms by (auto simp: contact_by_pubkey_def simp del: map_option_eq_Some)
next
  case False
  then have "find (\<lambda>ct. ct_pubkey ct = pk) (btree_values (cf_contact cfg)) = Some c"
    using assms by (auto simp: contact_by_pubkey_def outcome_simps simp del: map_option_eq_Some)
  from find_btree_Some[OF this] show ?thesis by auto
qed

lemma contact_by_pubkey_contact:
  assumes "address_book_ok cfg" and "fmlookup (cf_contact cfg) n = Some c"
  shows "contact_by_pubkey cfg (ct_pubkey c) = Ok c"
proof -
  have "map_option ck_pubkey (cf_communication_key cfg) \<noteq> Some (ct_pubkey c)"
    using assms by (auto simp: address_book_ok_def)
  moreover obtain c' where c': "find (\<lambda>ct. ct_pubkey ct = ct_pubkey c) (btree_values (cf_contact cfg)) = Some c'"
    using find_btree_None[of "\<lambda>ct. ct_pubkey ct = ct_pubkey c" "cf_contact cfg"] assms(2)
    by (cases "find (\<lambda>ct. ct_pubkey ct = ct_pubkey c) (btree_values (cf_contact cfg))") auto
  moreover have "c' = c"
    using find_btree_Some[OF c'] assms unfolding address_book_ok_def by (metis option.inject)
  ultimately show ?thesis by (cases "cf_communication_key cfg") (auto simp: contact_by_pubkey_def)
qed

lemma add_contact_Ok:
  assumes "add_contact X cfg c = Ok (c', cfg')"
  shows "c' = c\<lparr>ct_version := None\<rparr>" and "cfg' = cfg\<lparr>cf_contact := fmupd (ct_name c) c' (cf_contact cfg)\<rparr>"
    and "fmlookup (cf_contact cfg) (ct_name c) = None"
    and "\<And>n d. fmlookup (cf_contact cfg) n = Some d \<Longrightarrow> ct_pubkey d \<noteq> ct_pubkey c"
    and "map_option ck_pubkey (cf_communication_key cfg) \<noteq> Some (ct_pubkey c)"
  using assms by (auto simp: add_contact_def Let_def set_btree_values fmdom_notD split: if_splits)

lemma address_book_okI:
  assumes "\<And>n c. fmlookup (cf_contact cfg) n = Some c \<Longrightarrow> ct_name c = n \<and>
      map_option ck_pubkey (cf_communication_key cfg) \<noteq> Some (ct_pubkey c)"
    and "\<And>n c n' c'. fmlookup (cf_contact cfg) n = Some c \<Longrightarrow> fmlookup (cf_contact cfg) n' = Some c' \<Longrightarrow>
      ct_pubkey c = ct_pubkey c' \<Longrightarrow> n = n'"
  shows "address_book_ok cfg"
  unfolding address_book_ok_def using assms by blast

lemma address_book_okD:
  assumes "address_book_ok cfg" and "fmlookup (cf_contact cfg) n = Some c"
  shows "ct_name c = n" and "map_option ck_pubkey (cf_communication_key cfg) \<noteq> Some (ct_pubkey c)"
    and "fmlookup (cf_contact cfg) n' = Some c' \<Longrightarrow> ct_pubkey c = ct_pubkey c' \<Longrightarrow> n = n'"
  using assms unfolding address_book_ok_def by blast+

lemma add_contact_address_book:
  assumes "add_contact X cfg c = Ok (c', cfg')" and "address_book_ok cfg"
  shows "address_book_ok cfg'"
proof -
  note added = add_contact_Ok[OF assms(1)]
  have own: "cf_communication_key cfg' = cf_communication_key cfg"
    and lookup: "\<And>n. fmlookup (cf_contact cfg') n = (if n = ct_name c then Some c' else fmlookup (cf_contact cfg) n)"
    and c': "ct_pubkey c' = ct_pubkey c" "ct_name c' = ct_name c"
    by (simp_all add: added(1,2))
  show ?thesis
  proof (rule address_book_okI)
    fix n d assume "fmlookup (cf_contact cfg') n = Some d"
    then show "ct_name d = n \<and> map_option ck_pubkey (cf_communication_key cfg') \<noteq> Some (ct_pubkey d)"
      using added(5) address_book_okD(1,2)[OF assms(2), of n d] unfolding own lookup
      by (cases "n = ct_name c") (use c' in auto)
  next
    fix n d n' d' assume "fmlookup (cf_contact cfg') n = Some d" "fmlookup (cf_contact cfg') n' = Some d'"
      "ct_pubkey d = ct_pubkey d'"
    then show "n = n'"
      using added(4)[of n d] added(4)[of n' d'] address_book_okD(3)[OF assms(2), of n d n' d'] unfolding lookup
      by (cases "n = ct_name c"; cases "n' = ct_name c") (use c' in auto)
  qed
qed

lemma remove_contact_address_book:
  assumes "remove_contact X cfg pubkey = Ok cfg'" and "address_book_ok cfg"
  shows "address_book_ok cfg'"
proof -
  from assms(1) obtain name where cfg': "cfg' = cfg\<lparr>cf_contact := fmdrop name (cf_contact cfg)\<rparr>"
    by (auto simp: remove_contact_def split: option.splits)
  then have own: "cf_communication_key cfg' = cf_communication_key cfg"
    and lookup: "\<And>n d. fmlookup (cf_contact cfg') n = Some d \<Longrightarrow> fmlookup (cf_contact cfg) n = Some d"
    by (auto split: if_splits)
  show ?thesis
    by (rule address_book_okI) (use address_book_okD[OF assms(2)] lookup own in \<open>simp_all, blast+\<close>)
qed

section \<open>What the codecs are relied on for\<close>

definition client_laws :: "('id, 'kp, 'pkp, 'vk, 'w) client_ext \<Rightarrow> bool" where
  "client_laws X \<longleftrightarrow>
     (\<forall>c s. toml_encode X c = Some s \<longrightarrow> utf8_valid s \<and> toml_decode X s = Some (c\<lparr>cf_path := None\<rparr>)) \<and>
     (\<forall>b. hex_decode X (hex_encode X b) = Some b) \<and>
     (\<forall>c b. write_contact X c = Some b \<longrightarrow> read_contact X b = Some c) \<and>
     (\<forall>b s. bech32_encode X CONTACT_HRP b = Some s \<longrightarrow> bech32_decode X s = Some (CONTACT_HRP, b)) \<and>
     (\<forall>k b. write_key_package X k = Some b \<longrightarrow> read_key_package X b = Some k) \<and>
     (\<forall>k b. write_public_key_package X k = Some b \<longrightarrow> read_public_key_package X b = Some k) \<and>
     (\<forall>i. read_identifier X (write_identifier X i) = Some i)"

theorem contact_roundtrip:
  assumes "client_laws X" and "contact_as_text X c = Ok s"
  shows "contact_from_text X s = (if ct_version c = Some 0 then Ok c else Err (Failure (lit ''invalid contact version'')))"
proof -
  from assms(2) obtain b where "write_contact X c = Some b" "bech32_encode X CONTACT_HRP b = Some s"
    by (auto simp: contact_as_text_def outcome_simps)
  then have "bech32_decode X s = Some (CONTACT_HRP, b)" "read_contact X b = Some c"
    using assms(1) unfolding client_laws_def by blast+
  then show ?thesis by (simp add: contact_from_text_def del: lit_simps)
qed

lemma config_read_keeps: "config_read S X path w = (r, w') \<Longrightarrow> w' = w"
  by (cases "parse_path S path") (auto simp: config_read_def)

lemma config_read_path: "config_read S X (Some p) w = (Some (Ok cfg), w') \<Longrightarrow> cf_path cfg = Some p"
  by (auto simp: config_read_def parse_path_def outcome_simps split: if_splits)

lemma config_write_read_later:
  assumes "files_laws S place files temps" and "client_laws X"
    and "cf_path cfg = Some p" and "config_write S X cfg w = (Some (Ok ()), w')" and "files w'' = files w'"
  shows "config_read S X (Some p) w'' = (Some (Ok cfg), w'')"
proof -
  from assms(3,4) obtain s where s: "toml_encode X cfg = Some s" and written: "write_file S p s w = (Some (Ok ()), w')"
    by (auto simp: config_write_def outside_def or_fail_def io_bind_Ok outcome_simps)
  from write_file_atomic_lemma[OF assms(1), of p s w] written assms(5) have "files w'' (place p) = Some s"
    by auto
  then have "path_exists S p w''" "fs_read S p w'' = Some s" using assms(1) by (auto simp: files_laws_def)
  moreover have "utf8_valid s" "toml_decode X s = Some (cfg\<lparr>cf_path := None\<rparr>)"
    using assms(2) s unfolding client_laws_def by blast+
  moreover have "cfg\<lparr>cf_path := None, cf_path := Some p\<rparr> = cfg" using assms(3) by simp
  ultimately show ?thesis by (simp add: config_read_def parse_path_def)
qed

lemma config_write_read:
  "files_laws S place files temps \<Longrightarrow> client_laws X \<Longrightarrow> cf_path cfg = Some p \<Longrightarrow>
    config_write S X cfg w = (Some (Ok ()), w') \<Longrightarrow> config_read S X (Some p) w' = (Some (Ok cfg), w')"
  by (rule config_write_read_later) simp_all

section \<open>Which files a command changes\<close>

text \<open>
  An operation that changes no file, and one that writes at most one, as the last thing that can
  fail.
\<close>

definition keeps :: "('w \<Rightarrow> 'f) \<Rightarrow> ('w, 'e, 'a) io \<Rightarrow> bool" where
  "keeps files run \<longleftrightarrow> (\<forall>w. files (snd (run w)) = files w)"

definition settles :: "('w \<Rightarrow> 'f \<Rightarrow> bytes option) \<Rightarrow> ('w, 'e, 'a) io \<Rightarrow> bool" where
  "settles files run \<longleftrightarrow> (\<forall>w. files (snd (run w)) = files w \<or>
     (\<exists>v. fst (run w) = Some (Ok v)) \<and> (\<exists>p data. files (snd (run w)) = (files w)(p := Some data)))"

named_theorems file_rules

lemma keeps_bind [file_rules]:
  assumes "keeps files run" and "\<And>x. keeps files (f x)" shows "keeps files (io_bind run f)"
  unfolding keeps_def
proof
  fix w
  obtain r w1 where "run w = (r, w1)" by (cases "run w")
  then show "files (snd (io_bind run f w)) = files w"
    using assms by (auto simp: keeps_def io_bind_def split: option.split outcome.split)
      (metis snd_conv)+
qed

definition fine :: "('w, 'e, 'a) io \<Rightarrow> 'w \<Rightarrow> bool" where
  "fine run w \<longleftrightarrow> (\<exists>v. fst (run w) = Some (Ok v))"

lemma io_bind_end:
  "(\<not> fine (io_bind run f) w \<or> fine run w) \<and>
    (fine run w \<longrightarrow> (\<exists>v. run w = (Some (Ok v), snd (run w)) \<and> io_bind run f w = f v (snd (run w)))) \<and>
    (\<not> fine run w \<longrightarrow> snd (io_bind run f w) = snd (run w))"
  by (cases "run w"; cases "fst (run w)")
    (auto simp: fine_def io_bind_def split: outcome.splits option.splits)

lemma settles_bind [file_rules]:
  assumes "keeps files run" and "\<And>x. settles files (f x)" shows "settles files (io_bind run f)"
  unfolding settles_def
proof
  fix w
  have w1: "files (snd (run w)) = files w" using assms(1) by (simp add: keeps_def)
  show "files (snd (io_bind run f w)) = files w \<or> (\<exists>v. fst (io_bind run f w) = Some (Ok v)) \<and>
      (\<exists>p data. files (snd (io_bind run f w)) = (files w)(p := Some data))"
  proof (cases "fine run w")
    case True
    then obtain v where "io_bind run f w = f v (snd (run w))" using io_bind_end[of run f w] by blast
    then show ?thesis using assms(2)[of v] w1 unfolding settles_def by metis
  qed (use io_bind_end[of run f w] w1 in simp)
qed

lemma settles_then_print:
  assumes "settles files run" and "\<And>x. \<exists>g. f x = io_set g \<and> (\<forall>w. files (g w) = files w)"
  shows "settles files (io_bind run f)"
  unfolding settles_def
proof
  fix w
  have run: "files (snd (run w)) = files w \<or> fine run w \<and> (\<exists>p data. files (snd (run w)) = (files w)(p := Some data))"
    using assms(1) unfolding settles_def fine_def by blast
  show "files (snd (io_bind run f w)) = files w \<or> (\<exists>v. fst (io_bind run f w) = Some (Ok v)) \<and>
      (\<exists>p data. files (snd (io_bind run f w)) = (files w)(p := Some data))"
  proof (cases "fine run w")
    case True
    then obtain v where v: "io_bind run f w = f v (snd (run w))" using io_bind_end[of run f w] by blast
    obtain g where "f v = io_set g" "\<And>w. files (g w) = files w" using assms(2) by blast
    then show ?thesis using v run by auto
  qed (use io_bind_end[of run f w] run in auto)
qed

lemma keeps_settles: "keeps files run \<Longrightarrow> settles files run"
  by (simp add: keeps_def settles_def)

lemma keeps_basic [file_rules]:
  "keeps files (io_pure r)" "keeps files (io_get g)" "keeps files (or_fail x v)" "keeps files (outside v)"
  by (auto simp: keeps_def or_fail_def outside_def io_pure_def io_get_def)

lemma settles_pure [file_rules]: "settles files (io_pure r)"
  by (rule keeps_settles) (rule file_rules)

lemma keeps_print [file_rules]: "files_laws S place files temps \<Longrightarrow> keeps files (print_out S s)"
  by (auto simp: keeps_def print_out_def io_set_def files_laws_def)

lemma keeps_for [file_rules]: "(\<And>x. keeps files (f x)) \<Longrightarrow> keeps files (io_for f xs)"
  by (induction xs) (auto intro!: file_rules)

lemma keeps_config_read [file_rules]: "keeps files (config_read S X path)"
  unfolding config_read_def by (intro file_rules)

lemma settles_write_file:
  assumes "files_laws S place files temps" shows "settles files (write_file S p data)"
  unfolding settles_def
proof
  fix w
  show "files (snd (write_file S p data w)) = files w \<or> (\<exists>v. fst (write_file S p data w) = Some (Ok v)) \<and>
      (\<exists>p' data'. files (snd (write_file S p data w)) = (files w)(p' := Some data'))"
    using write_file_atomic_lemma[OF assms, of p data w] by (elim disjE exE conjE) (simp_all, blast)
qed

lemma settles_config_write [file_rules]: "files_laws S place files temps \<Longrightarrow> settles files (config_write S X cfg)"
  unfolding config_write_def by (intro file_rules settles_write_file)

lemma keeps_obtain [file_rules]: "(\<And>w. files (snd (call w)) = files w) \<Longrightarrow> keeps files (obtain_from call)"
  by (auto simp: keeps_def obtain_from_def split: prod.split) (metis snd_conv)

lemma keeps_ensure_keypair [file_rules]:
  assumes "files_laws S place files temps" and "\<And>w. files (snd (generate_keypair X w)) = files w"
  shows "keeps files (ensure_keypair S X cfg)"
  unfolding ensure_keypair_def using assms
  by (auto intro!: file_rules split: option.split prod.split)

lemma settles_cli_init:
  assumes "files_laws S place files temps" and "\<And>w. files (snd (generate_keypair X w)) = files w"
  shows "settles files (cli_init S X c)"
proof (cases "(S, X, c)" rule: cli_init.cases)
  case (1 S' X' path)
  have ending: "settles files (io_bind (config_write S X cfg) (\<lambda>_. print_out S s))" for cfg s
    by (rule settles_then_print[OF settles_config_write[OF assms(1)]])
      (use assms(1) in \<open>auto simp: print_out_def files_laws_def\<close>)
  have shown: "keeps files (case v of Some p \<Rightarrow> print_out S (g p) | None \<Rightarrow> io_pure Panic)" for v g
    using assms(1) by (auto intro!: file_rules split: option.split)
  from 1 have "c = Init path" by simp
  then show ?thesis
    by (simp only: cli_init.simps) (rule settles_bind[OF keeps_config_read
        settles_bind[OF keeps_ensure_keypair[OF assms] settles_bind[OF shown ending]]])
qed (auto intro: file_rules)

lemma settles_commands:
  assumes "files_laws S place files temps"
  shows "settles files (contact_import S X c)" and "settles files (contact_remove S X c)"
    and "settles files (group_remove S X c)"
  by (cases c; auto intro!: file_rules assms split: prod.split)+

lemma keeps_commands:
  assumes "files_laws S place files temps"
  shows "keeps files (contact_export S X c)" and "keeps files (contact_list S X c)" and "keeps files (group_list S X c)"
  by (cases c; auto simp: Let_def intro!: file_rules assms)+

lemma files_kept:
  "keeps files run \<Longrightarrow> files (snd (run w)) = files w"
  "settles files run \<Longrightarrow> files (snd (run w)) = files w \<or>
    (\<exists>v. fst (run w) = Some (Ok v)) \<and> (\<exists>p data. files (snd (run w)) = (files w)(p := Some data))"
  by (simp_all add: keeps_def settles_def)

text \<open>
  C26: a command of the address book, of the groups or the initialisation that does not succeed
  leaves every file as it was; when it succeeds it has written at most one file; and exporting or
  listing changes no file.
\<close>

theorem commands_write_once:
  assumes "files_laws S place files temps" and "\<And>w. files (snd (generate_keypair X w)) = files w"
    and "run \<in> {contact_import S X c, contact_remove S X c, group_remove S X c, cli_init S X c}"
    and "quiet_run \<in> {contact_export S X d, contact_list S X d, group_list S X d}"
  shows "(files (snd (run w)) = files w \<or>
      fst (run w) = Some (Ok ()) \<and> (\<exists>p data. files (snd (run w)) = (files w)(p := Some data))) \<and>
    files (snd (quiet_run w)) = files w"
proof
  have "settles files run"
    using assms(3) settles_commands[OF assms(1), of X c] settles_cli_init[OF assms(1,2), of c] by auto
  from files_kept(2)[OF this, of w] show "files (snd (run w)) = files w \<or>
      fst (run w) = Some (Ok ()) \<and> (\<exists>p data. files (snd (run w)) = (files w)(p := Some data))" by simp
  have "keeps files quiet_run"
    using assms(4) keeps_commands[OF assms(1), of X d] by auto
  from files_kept(1)[OF this, of w] show "files (snd (quiet_run w)) = files w" .
qed

section \<open>Importing a contact\<close>

lemma contact_import_Ok:
  assumes "contact_import S X (Import text_contact path) w = (Some (Ok ()), w')"
  obtains cfg c c' cfg' w1 where "config_read S X path w = (Some (Ok cfg), w)"
    "contact_from_text X text_contact = Ok c" "add_contact X cfg c = Ok (c', cfg')"
    "w1 = print_text S (contact_summary X c') (print_text S (lit ''Imported this contact:'' @ [10]) w)"
    "config_write S X cfg' w1 = (Some (Ok ()), w')"
proof -
  from assms obtain cfg w0 where "config_read S X path w = (Some (Ok cfg), w0)"
    and rest: "io_bind (io_pure (contact_from_text X text_contact)) (\<lambda>c.
      io_bind (io_pure (add_contact X cfg c)) (\<lambda>(c, cfg).
      io_bind (print_out S (lit ''Imported this contact:'' @ [10])) (\<lambda>_.
      io_bind (print_out S (contact_summary X c)) (\<lambda>_. config_write S X cfg)))) w0 = (Some (Ok ()), w')"
    by (auto simp: io_bind_Ok simp del: lit_simps)
  moreover have "w0 = w" using config_read_keeps calculation(1) by fast
  moreover from rest obtain c c' cfg' where "contact_from_text X text_contact = Ok c"
    "add_contact X cfg c = Ok (c', cfg')"
    "config_write S X cfg' (print_text S (contact_summary X c') (print_text S (lit ''Imported this contact:'' @ [10]) w0)) =
      (Some (Ok ()), w')"
    by (auto simp: io_bind_Ok print_out_def simp del: lit_simps)
  ultimately show thesis using that by blast
qed

lemma config_write_one:
  assumes "files_laws S place files temps" and "cf_path cfg = Some p"
    and "config_write S X cfg w = (Some (Ok ()), w')"
  shows "\<exists>s. toml_encode X cfg = Some s \<and> files w' = (files w)(place p := Some s)"
proof -
  from assms(2,3) obtain s where s: "toml_encode X cfg = Some s" and written: "write_file S p s w = (Some (Ok ()), w')"
    by (auto simp: config_write_def outside_def or_fail_def io_bind_Ok outcome_simps)
  with write_file_atomic_lemma[OF assms(1), of p s w] written show ?thesis
    by auto
qed

lemma import_adds_contact_lemma:
  assumes "files_laws S place files temps" and "client_laws X"
    and "contact_import S X (Import text_contact (Some p)) w = (Some (Ok ()), w')"
  shows "\<exists>cfg c cfg'. config_read S X (Some p) w = (Some (Ok cfg), w) \<and> contact_from_text X text_contact = Ok c \<and>
    config_read S X (Some p) w' = (Some (Ok cfg'), w') \<and> (\<forall>f. f \<noteq> place p \<longrightarrow> files w' f = files w f) \<and>
    fmlookup (cf_contact cfg) (ct_name c) = None \<and>
    cfg' = cfg\<lparr>cf_contact := fmupd (ct_name c) (c\<lparr>ct_version := None\<rparr>) (cf_contact cfg)\<rparr> \<and>
    (address_book_ok cfg \<longrightarrow> address_book_ok cfg' \<and> contact_by_pubkey cfg' (ct_pubkey c) = Ok (c\<lparr>ct_version := None\<rparr>))"
proof -
  from assms(3) obtain cfg c c' cfg' w1 where read: "config_read S X (Some p) w = (Some (Ok cfg), w)"
    and c: "contact_from_text X text_contact = Ok c" and added: "add_contact X cfg c = Ok (c', cfg')"
    and w1: "w1 = print_text S (contact_summary X c') (print_text S (lit ''Imported this contact:'' @ [10]) w)"
    and stored: "config_write S X cfg' w1 = (Some (Ok ()), w')"
    by (rule contact_import_Ok)
  note new = add_contact_Ok[OF added]
  have path: "cf_path cfg' = Some p" using config_read_path[OF read] new(2) by simp
  have w1_files: "files w1 = files w" using assms(1) by (simp add: w1 files_laws_def del: lit_simps)
  have "\<forall>f. f \<noteq> place p \<longrightarrow> files w' f = files w f"
    using config_write_one[OF assms(1) path stored] w1_files by auto
  moreover have "address_book_ok cfg \<longrightarrow> contact_by_pubkey cfg' (ct_pubkey c') = Ok c'"
    using contact_by_pubkey_contact[of cfg' "ct_name c" c'] add_contact_address_book[OF added] new(2) by simp
  moreover have "ct_pubkey c' = ct_pubkey c" using new(1) by simp
  ultimately show ?thesis
    using read c config_write_read[OF assms(1,2) path stored] new(1-3) add_contact_address_book[OF added] by metis
qed

text \<open>
  C24: after a successful import, reading the configuration back gives the one read before with the
  contact added under a name that was free, and no other file changed; a consistent address book
  (contacts under their own names, no public key twice, never the user's own) stays consistent, and
  the contact is the one found by its public key.
\<close>

theorem import_adds_contact:
  assumes "files_laws S place files temps" and "client_laws X"
    and "contact_import S X (Import text_contact (Some p)) w = (Some (Ok ()), w')"
  shows "\<exists>cfg c cfg'. config_read S X (Some p) w = (Some (Ok cfg), w) \<and> contact_from_text X text_contact = Ok c \<and>
    config_read S X (Some p) w' = (Some (Ok cfg'), w') \<and> (\<forall>f. f \<noteq> place p \<longrightarrow> files w' f = files w f) \<and>
    fmlookup (cf_contact cfg) (ct_name c) = None \<and>
    cfg' = cfg\<lparr>cf_contact := fmupd (ct_name c) (c\<lparr>ct_version := None\<rparr>) (cf_contact cfg)\<rparr> \<and>
    (address_book_ok cfg \<longrightarrow> address_book_ok cfg' \<and> contact_by_pubkey cfg' (ct_pubkey c) = Ok (c\<lparr>ct_version := None\<rparr>))"
  by (rule import_adds_contact_lemma[OF assms])

section \<open>An instance\<close>

text \<open>Codecs that know one contact and the configuration that holds it.\<close>

definition demo_contact :: contact where
  "demo_contact = \<lparr>ct_version = Some 0, ct_name = [97], ct_pubkey = [1, 2]\<rparr>"

definition book_demo_config :: config where
  "book_demo_config = config_default\<lparr>cf_contact := fmupd [97] (demo_contact\<lparr>ct_version := None\<rparr>) fmempty\<rparr>"

definition client_demo :: "(bytes, bytes, bytes, bytes, demo_disk) client_ext" where
  "client_demo = \<lparr>toml_encode = (\<lambda>c. if c\<lparr>cf_path := None\<rparr> = book_demo_config then Some [67] else None),
     toml_decode = (\<lambda>s. if s = [67] then Some book_demo_config else None), hex_encode = id, hex_decode = Some,
     write_contact = (\<lambda>c. if c = demo_contact then Some [68] else None),
     read_contact = (\<lambda>b. if b = [68] then Some demo_contact else None),
     bech32_encode = (\<lambda>h b. if h = CONTACT_HRP then Some b else None), bech32_decode = (\<lambda>s. Some (CONTACT_HRP, s)),
     write_key_package = Some, read_key_package = Some, write_public_key_package = Some,
     read_public_key_package = Some, key_min_signers = (\<lambda>k. 2), verifying_key = id, verifying_key_bytes = Some,
     verifying_key_address = Some, share_identifiers = (\<lambda>k. []), write_identifier = id, read_identifier = Some,
     generate_keypair = (\<lambda>w. (Some ([1], [1]), w))\<rparr>"

definition empty_disk :: demo_disk where
  "empty_disk = \<lparr>dd_files = (\<lambda>p. None), dd_temp = [], dd_printed = []\<rparr>"

lemma client_demo_laws: "client_laws client_demo"
proof -
  have "utf8_valid [67]" by code_simp
  then show ?thesis by (auto simp: client_laws_def client_demo_def)
qed

lemma import_demo: "\<exists>w'. contact_import system_demo client_demo (Import [68] (Some [1])) empty_disk = (Some (Ok ()), w')"
  by (simp add: config_read_def parse_path_def contact_from_text_def add_contact_def config_write_def write_file_def
      check_path_def attempt_def obtain_from_def or_fail_def outside_def print_out_def absolute_path_def io_bind_def
      system_demo_def client_demo_def empty_disk_def book_demo_config_def demo_contact_def config_default_def Let_def
      btree_values_def sorted_list_of_fmap_def del: lit_simps)

lemma import_adds_contact_witness:
  "\<exists>w' cfg'. contact_import system_demo client_demo (Import [68] (Some [1])) empty_disk = (Some (Ok ()), w') \<and>
    config_read system_demo client_demo (Some [1]) w' = (Some (Ok cfg'), w') \<and>
    fmlookup (cf_contact cfg') [97] = Some (demo_contact\<lparr>ct_version := None\<rparr>)"
proof -
  from import_demo obtain w' where w': "contact_import system_demo client_demo (Import [68] (Some [1])) empty_disk = (Some (Ok ()), w')" ..
  have c: "contact_from_text client_demo [68] = Ok demo_contact"
    by (simp add: contact_from_text_def client_demo_def demo_contact_def del: lit_simps)
  from import_adds_contact[OF system_demo_laws client_demo_laws w'] c obtain cfg cfg' where
    "config_read system_demo client_demo (Some [1]) w' = (Some (Ok cfg'), w')"
    "cfg' = cfg\<lparr>cf_contact := fmupd (ct_name demo_contact) (demo_contact\<lparr>ct_version := None\<rparr>) (cf_contact cfg)\<rparr>"
    by auto
  then show ?thesis using w' by (simp add: demo_contact_def)
qed

lemma commands_write_once_witness:
  "contact_remove system_demo client_demo (RemoveContact (Some [1]) [7]) empty_disk =
      (Some (Err (Failure (lit ''contact not found''))), empty_disk) \<and>
    dd_files (snd (contact_remove system_demo client_demo (RemoveContact (Some [1]) [7]) empty_disk)) = (\<lambda>p. None) \<and>
    dd_files (snd (contact_list system_demo client_demo (Contacts None) empty_disk)) = (\<lambda>p. None)"
proof -
  have run: "contact_remove system_demo client_demo (RemoveContact (Some [1]) [7]) empty_disk =
      (Some (Err (Failure (lit ''contact not found''))), empty_disk)"
    by (simp add: config_read_def parse_path_def remove_contact_def io_bind_def system_demo_def client_demo_def
        empty_disk_def config_default_def del: lit_simps)
  have keypair: "\<And>w. dd_files (snd (generate_keypair client_demo w)) = dd_files w" by (simp add: client_demo_def)
  note both = commands_write_once[OF system_demo_laws keypair, of
      "contact_remove system_demo client_demo (RemoveContact (Some [1]) [7])" "RemoveContact (Some [1]) [7]"
      "contact_list system_demo client_demo (Contacts None)" "Contacts None" empty_disk]
  then have "dd_files (snd (contact_list system_demo client_demo (Contacts None) empty_disk)) = dd_files empty_disk"
    by simp
  moreover have "dd_files (snd (contact_remove system_demo client_demo (RemoveContact (Some [1]) [7]) empty_disk)) = dd_files empty_disk"
    using both run by fastforce
  ultimately show ?thesis using run by (simp add: empty_disk_def)
qed

end
