(* ===== verification/Participant_Comms.thy ===== *)
theory Participant_Comms
  imports Signing_Payload
begin

text \<open>
  The participant's run of a signing session: \<^verbatim>\<open>mina-frost-client/src/participant/comms/http.rs\<close>,
  the confirmation of \<^verbatim>\<open>participant/comms.rs\<close> and \<^verbatim>\<open>participant/sign.rs\<close>. The
  FROST nonces, commitments and shares, the parsing of UUIDs and the terminal are parameters;
  waiting for the signing package runs for a number of rounds that is an argument.
\<close>

section \<open>Configuration and environment\<close>

record 'kp part_config =
  pc_key_package :: 'kp
  pc_session_id :: rstr
  pc_comm_privkey :: "bytes option"
  pc_comm_pubkey :: "comm_key option"
  pc_coordinator_getter :: "(comm_key \<Rightarrow> comm_key option) option"

text \<open>
  Writing to the terminal tells whether it succeeded; reading a line gives nothing when it fails.
\<close>

record ('c, 's, 'sp, 'hs, 'ts, 'se, 'w) part_env = "('hs, 'ts, 'se, 'w) comms_env" +
  encode_commitments :: "'c list \<Rightarrow> bytes option"
  encode_shares :: "'s list \<Rightarrow> bytes option"
  decode_package :: "bytes \<Rightarrow> 'sp send_signing_package_args option"
  parse_uuid :: "rstr \<Rightarrow> uuid option"
  write_out :: "rstr \<Rightarrow> 'w \<Rightarrow> bool \<times> 'w"
  read_line :: "'w \<Rightarrow> rstr option \<times> 'w"
  debug_text :: "transaction_envelope \<Rightarrow> rstr"

record ('id, 'c, 's, 'sp, 'kp, 'nonces, 'w) frost_signer = "('id, 'c, 'sp) frost_package" +
  commit :: "'kp \<Rightarrow> 'w \<Rightarrow> ('nonces \<times> 'c) \<times> 'w"
  sign_share :: "'sp \<Rightarrow> 'nonces \<Rightarrow> 'kp \<Rightarrow> 's option"

type_synonym ('hs, 'ts, 'se, 'w, 'a) part_io = "(('hs, 'ts, 'w) comms, 'se comms_error, 'a) io"

definition part_comms_new ::
  "'kp part_config \<Rightarrow> ('c, 's, 'sp, 'hs, 'ts, 'se, 'w) part_env \<Rightarrow> 'w \<Rightarrow> ('hs, 'ts, 'w) comms" where
  "part_comms_new K E w = \<lparr>session_id = parse_uuid E (pc_session_id K), cipher_of = None, world = w\<rparr>"

section \<open>The signing package\<close>

fun await_package ::
  "('c, 's, 'sp, 'hs, 'ts, 'se, 'w) part_env \<Rightarrow> nat \<Rightarrow> ('hs, 'ts, 'se, 'w, 'sp send_signing_package_args) part_io" where
  "await_package E 0 = (\<lambda>s. (None, s))"
| "await_package E (Suc n) =
     io_bind (receive_step E False) (\<lambda>msgs. case msgs of
       [] \<Rightarrow> await_package E n
     | msg # _ \<Rightarrow>
         io_bind (decrypt_step E msg) (\<lambda>msg.
         io_pure (ok_or (SessionErr Serde) (decode_package E (msg_bytes msg)))))"

definition require_session :: "('hs, 'ts, 'se, 'w, uuid) part_io" where
  "require_session = io_get (\<lambda>s.
     ok_or (Report (lit ''session ID is required; use `-S` to specify it'')) (session_id s))"

definition privkey_and_getter ::
  "'kp part_config \<Rightarrow> ('hs, 'ts, 'se, 'w, bytes \<times> (comm_key \<Rightarrow> comm_key option)) part_io" where
  "privkey_and_getter K = io_pure (case (pc_comm_privkey K, pc_coordinator_getter K) of
     (Some privkey, Some getter) \<Rightarrow> Ok (privkey, getter)
   | _ \<Rightarrow> Err (Report (lit ''comm_privkey and comm_coordinator_pubkey_getter must be specified'')))"

definition get_signing_package ::
  "'kp part_config \<Rightarrow> ('c, 's, 'sp, 'hs, 'ts, 'se, 'w) part_env \<Rightarrow> nat \<Rightarrow> 'c \<Rightarrow>
    ('hs, 'ts, 'se, 'w, 'sp send_signing_package_args) part_io" where
  "get_signing_package K E n commitments =
     io_bind (log_in E (pc_comm_privkey K) (pc_comm_pubkey K)) (\<lambda>_.
     io_bind require_session (\<lambda>sid.
     io_bind (io_set (\<lambda>s. s\<lparr>session_id := Some sid\<rparr>)) (\<lambda>_.
     io_bind (privkey_and_getter K) (\<lambda>(privkey, getter).
     io_bind (ask (srv_get_session_info (srv E) sid)) (\<lambda>info.
     io_bind (need (lit ''The coordinator for the specified FROST session is not registered in the user's address book'')
       (getter (info_coordinator_pubkey info))) (\<lambda>coordinator.
     io_bind (set_cipher E privkey [coordinator]) (\<lambda>_.
     io_bind (send_step E None (encode_commitments E [commitments])) (\<lambda>_.
     await_package E n))))))))"

section \<open>Confirmation\<close>

definition write_line :: "('c, 's, 'sp, 'hs, 'ts, 'se, 'w) part_env \<Rightarrow> rstr \<Rightarrow> ('hs, 'ts, 'se, 'w, unit) part_io" where
  "write_line E text s = (case write_out E (text @ [10]) (world s) of
     (fine, w) \<Rightarrow> (Some (if fine then Ok () else Err IoErr), s\<lparr>world := w\<rparr>))"

definition ask_line :: "('c, 's, 'sp, 'hs, 'ts, 'se, 'w) part_env \<Rightarrow> ('hs, 'ts, 'se, 'w, rstr) part_io" where
  "ask_line E s = (case read_line E (world s) of (line, w) \<Rightarrow> (Some (ok_or IoErr line), s\<lparr>world := w\<rparr>))"

definition confirm_prompt :: "rstr \<Rightarrow> rstr" where
  "confirm_prompt shown = lit ''Message to be signed (json):'' @ 10 # shown @ 10 # lit ''Do you want to sign it? (y/n)'' @ [10]"

definition confirm_message ::
  "('c, 's, 'sp, 'hs, 'ts, 'se, 'w) part_env \<Rightarrow> ('r, 'rs) tx_env \<Rightarrow> ('id, 'c, 'sp, 'z) frost_package_scheme \<Rightarrow>
    'sp send_signing_package_args \<Rightarrow> bool \<Rightarrow> ('hs, 'ts, 'se, 'w, unit) part_io" where
  "confirm_message E X F args yes =
     (if yes then io_pure (Ok ()) else
      io_bind (need (lit ''No signing package found'')
        (case signing_package args of [] \<Rightarrow> None | p # _ \<Rightarrow> Some (package_message F p))) (\<lambda>payload.
      io_bind (io_pure (map_err (\<lambda>e. Report (lit ''failed to decode signing payload as TransactionEnvelope: '' @
          tx_error_text X payload e @
          lit ''. expected coordinator payload format is serialized TransactionEnvelope JSON bytes''))
        (envelope_deserialize X payload))) (\<lambda>transaction.
      io_bind (io_pure (map_err (\<lambda>_. IoErr) (display_envelope X (debug_text E) transaction))) (\<lambda>shown.
      io_bind (write_line E (confirm_prompt shown)) (\<lambda>_.
      io_bind (ask_line E) (\<lambda>sign_it.
      io_pure (if trim sign_it \<noteq> lit ''y'' then Err (Report (lit ''signing cancelled'')) else Ok ())))))))"

section \<open>Signing\<close>

definition part_cipher :: "('hs, 'ts, 'se, 'w, unit) part_io" where
  "part_cipher = io_get (\<lambda>s. case cipher_of s of Some _ \<Rightarrow> Ok () | None \<Rightarrow> Panic)"

definition send_signature_share ::
  "('c, 's, 'sp, 'hs, 'ts, 'se, 'w) part_env \<Rightarrow> 's \<Rightarrow> ('hs, 'ts, 'se, 'w, unit) part_io" where
  "send_signature_share E share =
     io_bind part_cipher (\<lambda>_.
     io_bind (send_step E None (encode_shares E [share])) (\<lambda>_.
     ask (srv_logout (srv E))))"

definition commit_step ::
  "('id, 'c, 's, 'sp, 'kp, 'nonces, 'w) frost_signer \<Rightarrow> 'kp \<Rightarrow> ('hs, 'ts, 'se, 'w, 'nonces \<times> 'c) part_io" where
  "commit_step F key_package s = (case commit F key_package (world s) of (r, w) \<Rightarrow> (Some (Ok r), s\<lparr>world := w\<rparr>))"

definition sign_confirmed ::
  "'kp part_config \<Rightarrow> ('c, 's, 'sp, 'hs, 'ts, 'se, 'w) part_env \<Rightarrow> ('r, 'rs) tx_env \<Rightarrow>
    ('id, 'c, 's, 'sp, 'kp, 'nonces, 'w) frost_signer \<Rightarrow> 'nonces \<Rightarrow> 'sp send_signing_package_args \<Rightarrow>
    ('hs, 'ts, 'se, 'w, unit) part_io" where
  "sign_confirmed K E X F nonces args =
     io_bind (io_pure (idx (signing_package args) 0)) (\<lambda>package.
     io_bind (signing_bytes_step X (package_message F package)) (\<lambda>pallas_message_bytes.
     io_bind (io_pure (ok_or Frost (sign_share F
       (package_new F (package_commitments F package) pallas_message_bytes) nonces (pc_key_package K)))) (\<lambda>share.
     io_bind (send_signature_share E share) (\<lambda>_.
     write_line E (lit ''Done'')))))"

definition sign ::
  "'kp part_config \<Rightarrow> ('c, 's, 'sp, 'hs, 'ts, 'se, 'w) part_env \<Rightarrow> ('r, 'rs) tx_env \<Rightarrow>
    ('id, 'c, 's, 'sp, 'kp, 'nonces, 'w) frost_signer \<Rightarrow> nat \<Rightarrow> bool \<Rightarrow> 'w \<Rightarrow>
    ('se comms_error, unit) outcome option \<times> ('hs, 'ts, 'w) comms" where
  "sign K E X F n yes w =
     io_bind (commit_step F (pc_key_package K)) (\<lambda>(nonces, commitments).
     io_bind (get_signing_package K E n commitments) (\<lambda>args.
     io_bind (confirm_message E X F args yes) (\<lambda>_.
     sign_confirmed K E X F nonces args))) (part_comms_new K E w)"

section \<open>What the world sees\<close>

text \<open>
  What a participant does to the outside, as a log that can be read off the world: requests to
  send a message, text shown and lines read. Nothing else the participant does is in the log.
\<close>

datatype event = Sent "(comm_key, uuid) send_args" | Shown rstr | Answered rstr

fun is_sent :: "event \<Rightarrow> bool" where
  "is_sent (Sent _) = True"
| "is_sent _ = False"

definition observes :: "('c, 's, 'sp, 'hs, 'ts, 'se, 'w) part_env \<Rightarrow> ('w \<Rightarrow> event list) \<Rightarrow> bool" where
  "observes E log \<longleftrightarrow>
     (\<forall>args w. log (snd (srv_send (srv E) args w)) = log w @ [Sent args]) \<and>
     (\<forall>text w. log (snd (write_out E text w)) = log w @ [Shown text]) \<and>
     (\<forall>w. log (snd (read_line E w)) = log w @ (case fst (read_line E w) of Some l \<Rightarrow> [Answered l] | None \<Rightarrow> [])) \<and>
     (\<forall>w. log (snd (srv_challenge (srv E) w)) = log w) \<and>
     (\<forall>args w. log (snd (srv_login (srv E) args w)) = log w) \<and>
     (\<forall>w. log (snd (srv_logout (srv E) w)) = log w) \<and>
     (\<forall>sid w. log (snd (srv_get_session_info (srv E) sid w)) = log w) \<and>
     (\<forall>args w. log (snd (srv_receive (srv E) args w)) = log w) \<and>
     (\<forall>key msg w. log (snd (xed_sign E key msg w)) = log w)"

fun returned :: "('e, 'a) outcome option \<Rightarrow> 'a option" where
  "returned (Some (Ok a)) = Some a"
| "returned _ = None"

text \<open>Whatever its outcome, what a computation adds to the log is as described.\<close>

definition emits ::
  "('w \<Rightarrow> event list) \<Rightarrow> (('hs, 'ts, 'w) comms, 'e, 'a) io \<Rightarrow> ('a option \<Rightarrow> event list \<Rightarrow> bool) \<Rightarrow> bool" where
  "emits log m Q \<longleftrightarrow> (\<forall>s r s'. m s = (r, s') \<longrightarrow>
     (\<exists>es. log (world s') = log (world s) @ es \<and> Q (returned r) es))"

abbreviation quiet :: "('w \<Rightarrow> event list) \<Rightarrow> (('hs, 'ts, 'w) comms, 'e, 'a) io \<Rightarrow> bool" where
  "quiet log m \<equiv> emits log m (\<lambda>_ es. es = [])"

named_theorems quiets

lemma emits_weaken: "emits log m P \<Longrightarrow> (\<And>r es. P r es \<Longrightarrow> Q r es) \<Longrightarrow> emits log m Q"
  unfolding emits_def by blast

lemma emits_bind:
  assumes "emits log m P" and "\<And>a. emits log (f a) (Q a)"
    and "\<And>es. P None es \<Longrightarrow> R None es"
    and "\<And>a es r es'. P (Some a) es \<Longrightarrow> Q a r es' \<Longrightarrow> R r (es @ es')"
  shows "emits log (io_bind m f) R"
  unfolding emits_def
proof (intro allI impI)
  fix s r s'
  assume run: "io_bind m f s = (r, s')"
  obtain q t where m: "m s = (q, t)" by (cases "m s")
  with assms(1) obtain es where es: "log (world t) = log (world s) @ es" "P (returned q) es"
    unfolding emits_def by blast
  show "\<exists>es. log (world s') = log (world s) @ es \<and> R (returned r) es"
  proof (cases "\<exists>a. q = Some (Ok a)")
    case True
    then obtain a where a: "q = Some (Ok a)" ..
    with run m have "f a t = (r, s')" by (simp add: io_bind_def)
    with assms(2)[of a] obtain es' where "log (world s') = log (world t) @ es'" "Q a (returned r) es'"
      unfolding emits_def by blast
    then show ?thesis using es a assms(4)[of a es "returned r" es'] by (auto intro!: exI[of _ "es @ es'"])
  next
    case False
    then have "returned q = None" by (cases q rule: returned.cases) auto
    moreover have "returned r = None" "s' = t"
      using run m False by (auto simp: io_bind_def split: option.splits outcome.splits)
    ultimately show ?thesis using es assms(3) by auto
  qed
qed

lemma quiet_bind [quiets]: "quiet log m \<Longrightarrow> (\<And>a. quiet log (f a)) \<Longrightarrow> quiet log (io_bind m f)"
  by (rule emits_bind[where P = "\<lambda>_ es. es = []" and Q = "\<lambda>_ _ es. es = []"]) auto

text \<open>Silence before a computation.\<close>

lemma emits_quiet_bind: "quiet log m \<Longrightarrow> (\<And>a. emits log (f a) Q) \<Longrightarrow> Q None [] \<Longrightarrow> emits log (io_bind m f) Q"
  by (rule emits_bind[where P = "\<lambda>_ es. es = []" and Q = "\<lambda>_. Q"]) auto

lemma quiet_pure [quiets]: "quiet log (io_pure r)"
  by (simp add: emits_def)

lemma emits_pure: "(\<And>a. r = Ok a \<Longrightarrow> Q (Some a) []) \<Longrightarrow> Q None [] \<Longrightarrow> emits log (io_pure r) Q"
  by (cases r) (auto simp: emits_def)

lemma emits_value: "emits log (io_pure r) (\<lambda>v es. es = [] \<and> (\<forall>a. v = Some a \<longrightarrow> r = Ok a))"
  by (cases r) (auto simp: emits_def)

lemma emits_pure_bind: "(\<And>a. r = Ok a \<Longrightarrow> emits log (f a) Q) \<Longrightarrow> Q None [] \<Longrightarrow> emits log (io_bind (io_pure r) f) Q"
  by (cases r) (auto simp: emits_def)

lemma quiet_get [quiets]: "quiet log (io_get f)"
  by (simp add: emits_def)

lemma quiet_set [quiets]: "(\<And>s. world (f s) = world s) \<Longrightarrow> quiet log (io_set f)"
  by (simp add: emits_def)

lemma quiet_ask [quiets]: "(\<And>w. log (snd (call w)) = log w) \<Longrightarrow> quiet log (ask call)"
  unfolding emits_def ask_def by (auto split: prod.splits) (metis snd_conv)

lemma quiet_need [quiets]: "quiet log (need report v)"
  unfolding need_def by (intro quiets)

lemma quiet_to_vec [quiets]: "quiet log (to_vec v)"
  unfolding to_vec_def by (intro quiets)

lemma quiet_encrypt [quiets]: "quiet log (encrypt_step E recipient payload)"
  by (auto simp: emits_def encrypt_step_def split: option.splits prod.splits)

lemma quiet_decrypt [quiets]: "quiet log (decrypt_step E msg)"
  by (auto simp: emits_def decrypt_step_def split: option.splits prod.splits)

lemma quiet_set_cipher [quiets]: "quiet log (set_cipher E privkey peers)"
  unfolding set_cipher_def by (intro quiets) simp

lemma quiet_the_session [quiets]: "quiet log the_session"
  unfolding the_session_def by (intro quiets)

lemma quiet_sign [quiets]: "observes E log \<Longrightarrow> quiet log (sign_step E key msg)"
  by (auto simp: emits_def sign_step_def private_key_sign_def observes_def split: prod.splits if_splits) (metis snd_conv)

lemma quiet_log_in [quiets]: "observes E log \<Longrightarrow> quiet log (log_in E privkey pubkey)"
  unfolding log_in_def by (intro quiets) (simp_all add: observes_def)

lemma quiet_receive [quiets]: "observes E log \<Longrightarrow> quiet log (receive_step E coordinator)"
  unfolding receive_step_def by (intro quiets) (simp add: observes_def)

lemma quiet_await [quiets]: "observes E log \<Longrightarrow> quiet log (await_package E n)"
proof (induction n)
  case (Suc n)
  then show ?case by (auto intro!: quiets split: list.split)
qed (simp add: emits_def)

section \<open>Nothing is signed unconfirmed\<close>

text \<open>A request that carries the encryption of a payload to the coordinator.\<close>

definition sends ::
  "('hs, 'ts, comm_key, 'se) snow_ext \<Rightarrow> bytes option \<Rightarrow> (comm_key, uuid) send_args \<Rightarrow> bool" where
  "sends N payload args \<longleftrightarrow> send_recipients args = [] \<and>
     (\<exists>bs c c'. payload = Some bs \<and> encrypt N c None bs = (Ok (send_msg args), c'))"

definition confirmed ::
  "('c, 's, 'sp, 'hs, 'ts, 'se, 'w) part_env \<Rightarrow> ('r, 'rs) tx_env \<Rightarrow> bytes \<Rightarrow> event list \<Rightarrow> bool" where
  "confirmed E X payload es \<longleftrightarrow> (\<exists>tx shown line. envelope_deserialize X payload = Ok tx \<and>
     display_envelope X (debug_text E) tx = Ok shown \<and>
     es = [Shown (confirm_prompt shown @ [10]), Answered line] \<and> trim line = lit ''y'')"

lemma emits_encrypt:
  "emits log (encrypt_step E recipient bs)
    (\<lambda>r es. es = [] \<and> (\<forall>msg. r = Some msg \<longrightarrow> (\<exists>c c'. encrypt (snow E) c recipient bs = (Ok msg, c'))))"
  unfolding emits_def
proof (intro allI impI)
  fix s r s'
  assume run: "encrypt_step E recipient bs s = (r, s')"
  show "\<exists>es. log (world s') = log (world s) @ es \<and> es = [] \<and>
      (\<forall>msg. returned r = Some msg \<longrightarrow> (\<exists>c c'. encrypt (snow E) c recipient bs = (Ok msg, c')))"
  proof (cases "cipher_of s")
    case None
    with run show ?thesis by (auto simp: encrypt_step_def)
  next
    case (Some c)
    obtain q c' where q: "encrypt (snow E) c recipient bs = (q, c')" by (cases "encrypt (snow E) c recipient bs")
    with run Some show ?thesis by (cases q) (auto simp: encrypt_step_def outcome_simps intro: exI[of _ c])
  qed
qed

lemma emits_send:
  assumes "observes E log"
  shows "emits log (send_step E None payload)
    (\<lambda>r es. es = [] \<and> r = None \<or> (\<exists>args. es = [Sent args] \<and> sends (snow E) payload args))"
proof -
  let ?request = "\<lambda>sid msg. \<lparr>send_session_id = sid, send_recipients = [], send_msg = msg\<rparr>"
  have request: "emits log (ask (srv_send (srv E) (?request sid msg))) (\<lambda>_ es. es = [Sent (?request sid msg)])" for sid msg
    using assms unfolding emits_def ask_def observes_def by (auto split: prod.splits) (metis snd_conv)
  have post: "emits log (io_bind the_session (\<lambda>sid. ask (srv_send (srv E) (?request sid msg))))
      (\<lambda>r es. es = [] \<and> r = None \<or> (\<exists>sid. es = [Sent (?request sid msg)]))" for msg
    by (rule emits_quiet_bind[OF quiet_the_session]) (auto intro: emits_weaken[OF request])
  have crypt: "emits log (io_bind (encrypt_step E None bs) (\<lambda>msg. io_bind the_session (\<lambda>sid. ask (srv_send (srv E) (?request sid msg)))))
      (\<lambda>r es. es = [] \<and> r = None \<or> (\<exists>args. es = [Sent args] \<and> sends (snow E) (Some bs) args))" for bs
    by (rule emits_bind[OF emits_encrypt post]) (auto simp: sends_def)
  show ?thesis
    unfolding send_step_def to_vec_def option.case
    by (rule emits_pure_bind) (auto simp: outcome_simps intro: crypt)
qed

lemma emits_write: "observes E log \<Longrightarrow> emits log (write_line E text) (\<lambda>_ es. es = [Shown (text @ [10])])"
  by (auto simp: emits_def write_line_def observes_def split: prod.splits) (metis snd_conv)

lemma emits_ask_line: "observes E log \<Longrightarrow>
    emits log (ask_line E) (\<lambda>r es. es = (case r of Some l \<Rightarrow> [Answered l] | None \<Rightarrow> []))"
  unfolding emits_def
proof (intro allI impI)
  fix s r s'
  assume "observes E log" and run: "ask_line E s = (r, s')"
  moreover obtain line w where line: "read_line E (world s) = (line, w)" by (cases "read_line E (world s)")
  ultimately have "log w = log (world s) @ (case line of Some l \<Rightarrow> [Answered l] | None \<Rightarrow> [])"
    unfolding observes_def by (metis fst_conv snd_conv)
  then show "\<exists>es. log (world s') = log (world s) @ es \<and> es = (case returned r of Some l \<Rightarrow> [Answered l] | None \<Rightarrow> [])"
    using run line by (cases line) (auto simp: ask_line_def)
qed

lemma emits_confirm:
  assumes "observes E log"
  shows "emits log (confirm_message E X F args yes) (\<lambda>r es. filter is_sent es = [] \<and>
    (if yes then es = [] else r \<noteq> None \<longrightarrow> (\<exists>p ps. signing_package args = p # ps \<and> confirmed E X (package_message F p) es)))"
proof (cases yes)
  case True
  then show ?thesis by (simp add: confirm_message_def emits_pure)
next
  case False
  let ?R = "\<lambda>r es. filter is_sent es = [] \<and>
    (r \<noteq> None \<longrightarrow> (\<exists>p ps. signing_package args = p # ps \<and> confirmed E X (package_message F p) es))"
  have asked: "emits log (io_bind (write_line E out) (\<lambda>_. io_bind (ask_line E) (\<lambda>line.
        io_pure (if trim line \<noteq> lit ''y'' then Err e else Ok ()))))
      (\<lambda>r es. filter is_sent es = [] \<and>
        (r \<noteq> None \<longrightarrow> (\<exists>line. es = [Shown (out @ [10]), Answered line] \<and> trim line = lit ''y'')))" for out e
  proof (rule emits_bind[OF emits_write[OF assms]])
    show "emits log (io_bind (ask_line E) (\<lambda>line. io_pure (if trim line \<noteq> lit ''y'' then Err e else Ok ())))
      (\<lambda>r es. filter is_sent es = [] \<and> (r \<noteq> None \<longrightarrow> (\<exists>line. es = [Answered line] \<and> trim line = lit ''y'')))"
      by (rule emits_bind[OF emits_ask_line[OF assms] emits_value]) (auto split: if_splits)
  qed auto
  show ?thesis
    unfolding confirm_message_def need_def using False
    by (auto intro!: emits_pure_bind emits_weaken[OF asked] simp: outcome_simps confirmed_def simp del: lit_simps split: list.splits)
qed

lemma emits_get_package:
  fixes E :: "('c, 's, 'sp, 'hs, 'ts, 'se, 'w) part_env"
  assumes "observes E log"
  shows "emits log (get_signing_package K E n commitments)
    (\<lambda>r es. es = [] \<and> r = None \<or> (\<exists>first. es = [Sent first]))"
proof -
  let ?R = "\<lambda>r es. es = [] \<and> r = None \<or> (\<exists>first. es = [Sent first])"
  have wait: "emits log (io_bind (send_step E None payload) (\<lambda>_. await_package E n)) ?R" for payload
    by (rule emits_bind[OF emits_send[OF assms] quiet_await[OF assms]]) auto
  have info: "quiet log (ask (srv_get_session_info (srv E) sid))" for sid
    using assms by (intro quiets) (simp add: observes_def)
  have set: "quiet log (io_set (\<lambda>s :: ('hs, 'ts, 'w) comms. s\<lparr>session_id := sid\<rparr>))" for sid by (intro quiets) simp
  have pair: "quiet log (privkey_and_getter K)" "quiet log require_session"
    unfolding privkey_and_getter_def require_session_def by (intro quiets)+
  show ?thesis
    unfolding get_signing_package_def
    by (auto intro!: emits_quiet_bind[OF quiet_log_in[OF assms]] emits_quiet_bind[OF pair(2)] emits_quiet_bind[OF set]
        emits_quiet_bind[OF pair(1)] emits_quiet_bind[OF info] emits_quiet_bind[OF quiet_need]
        emits_quiet_bind[OF quiet_set_cipher] wait simp del: lit_simps split: prod.split)
qed

definition signs ::
  "'kp part_config \<Rightarrow> ('c, 's, 'sp, 'hs, 'ts, 'se, 'w) part_env \<Rightarrow> ('r, 'rs) tx_env \<Rightarrow>
    ('id, 'c, 's, 'sp, 'kp, 'nonces, 'w) frost_signer \<Rightarrow> 'sp \<Rightarrow> (comm_key, uuid) send_args \<Rightarrow> bool" where
  "signs K E X F package args \<longleftrightarrow> (\<exists>wire nonces share. signing_bytes X (package_message F package) = Ok wire \<and>
     sign_share F (package_new F (package_commitments F package) wire) nonces (pc_key_package K) = Some share \<and>
     sends (snow E) (encode_shares E [share]) args)"

lemma emits_sign_confirmed:
  assumes "observes E log"
  shows "emits log (sign_confirmed K E X F nonces args) (\<lambda>_ es. filter is_sent es = [] \<or>
    (\<exists>p ps request rest. signing_package args = p # ps \<and> es = Sent request # rest \<and> filter is_sent rest = [] \<and>
      signs K E X F p request))"
proof -
  have cipher: "quiet log part_cipher" unfolding part_cipher_def by (intro quiets)
  have logout: "quiet log (ask (srv_logout (srv E)))" using assms by (intro quiets) (simp add: observes_def)
  have send: "emits log (send_signature_share E share)
      (\<lambda>r es. es = [] \<and> r = None \<or> (\<exists>request. es = [Sent request] \<and> sends (snow E) (encode_shares E [share]) request))" for share
    unfolding send_signature_share_def
    by (rule emits_quiet_bind[OF cipher emits_bind[OF emits_send[OF assms] logout]]) auto
  have last: "emits log (io_bind (send_signature_share E share) (\<lambda>_. write_line E out))
      (\<lambda>r es. es = [] \<or> (\<exists>request rest. es = Sent request # rest \<and> filter is_sent rest = [] \<and>
        sends (snow E) (encode_shares E [share]) request))" for share out
    by (rule emits_bind[OF send emits_write[OF assms]]) auto
  show ?thesis
    unfolding sign_confirmed_def signing_bytes_step_def
    by (intro emits_pure_bind; (rule emits_weaken[OF last])?)
      (auto simp: outcome_simps idx_def signs_def neq_Nil_conv split: if_splits)
qed

text \<open>
  C4: a participant sends nothing but its commitments unless what it signs was confirmed, or
  confirmation was waived with \<open>--yes\<close>. Whatever the server, the peers and the terminal do, and however the run ends: either at most one message was sent,
  or the second one is the encryption of a share over the signing bytes of a package's message,
  and unless confirmation was waived, that message's transaction was shown and the answer was \<open>y\<close>;
  with \<open>--yes\<close> nothing is shown or asked between the two.
\<close>


theorem nothing_signed_unconfirmed:
  fixes E :: "('c, 's, 'sp, 'hs, 'ts, 'se, 'w) part_env" and log :: "'w \<Rightarrow> event list"
    and F :: "('id, 'c, 's, 'sp, 'kp, 'nonces, 'w) frost_signer"
  assumes "observes E log" and "\<And>kp w. log (snd (commit F kp w)) = log w"
    and "sign K E X F n yes w = (r, s)"
  shows "\<exists>es. log (world s) = log w @ es \<and> (length (filter is_sent es) \<le> 1 \<or>
    (\<exists>first asked request rest package.
      es = Sent first # asked @ Sent request # rest \<and> filter is_sent rest = [] \<and>
      (if yes then asked = [] else confirmed E X (package_message F package) asked) \<and>
      signs K E X F package request))"
proof -
  let ?R = "\<lambda>_ es. length (filter is_sent es) \<le> 1 \<or> (\<exists>first asked request rest package.
      es = Sent first # asked @ Sent request # rest \<and> filter is_sent rest = [] \<and>
      (if yes then asked = [] else confirmed E X (package_message F package) asked) \<and>
      signs K E X F package request)"
  have commit: "quiet log (commit_step F kp)" for kp
    using assms(2) unfolding emits_def commit_step_def by (auto split: prod.splits) (metis snd_conv)
  have agreed: "emits log (io_bind (confirm_message E X F args yes) (\<lambda>_. sign_confirmed K E X F nonces args))
      (\<lambda>_ es. filter is_sent es = [] \<or> (\<exists>asked request rest package. es = asked @ Sent request # rest \<and>
        filter is_sent rest = [] \<and> (if yes then asked = [] else confirmed E X (package_message F package) asked) \<and>
        signs K E X F package request \<and> filter is_sent asked = []))" for nonces args
    by (rule emits_bind[OF emits_confirm[OF assms(1)] emits_sign_confirmed[OF assms(1)]])
      (cases yes; fastforce)+
  have "emits log (io_bind (commit_step F (pc_key_package K)) (\<lambda>(nonces, commitments).
      io_bind (get_signing_package K E n commitments) (\<lambda>args.
      io_bind (confirm_message E X F args yes) (\<lambda>_. sign_confirmed K E X F nonces args)))) ?R"
  proof (rule emits_quiet_bind[OF commit])
    fix q :: "'nonces \<times> 'c"
    show "emits log (case q of (nonces, commitments) \<Rightarrow> io_bind (get_signing_package K E n commitments) (\<lambda>args.
      io_bind (confirm_message E X F args yes) (\<lambda>_. sign_confirmed K E X F nonces args))) ?R"
      unfolding split_beta
    proof (rule emits_bind[OF emits_get_package[OF assms(1)] agreed], goal_cases)
      case (2 args es r es')
      from 2(1) obtain first where es: "es = [Sent first]" by auto
      from 2(2) show ?case
      proof (elim disjE exE conjE, goal_cases)
        case (2 asked request rest package)
        then show ?case using es by (intro disjI2 exI[of _ first] exI[of _ asked] exI[of _ request]
          exI[of _ rest] exI[of _ package]) simp
      qed (simp add: es)
    qed auto
  qed simp
  with assms(3) show ?thesis
    unfolding sign_def emits_def part_comms_new_def by fastforce
qed

section \<open>Where the package comes from\<close>

text \<open>A cipher that knows one peer only.\<close>

definition listens_to :: "comm_key \<Rightarrow> ('hs, 'ts, 'w) comms \<Rightarrow> bool" where
  "listens_to pk s \<longleftrightarrow> (\<exists>c. cipher_of s = Some c \<and> fmdom (recv_noise_map c) = {|pk|})"

lemma recv_map_kept:
  "fmdom (recv_noise_map (snd (encrypt N c recipient payload))) = fmdom (recv_noise_map c)"
  by (auto simp: encrypt_def split: outcome.split option.split prod.split)

lemma decrypt_known: "decrypt N c msg = (Ok m, c') \<Longrightarrow> msg_sender msg |\<in>| fmdom (recv_noise_map c)"
  by (auto simp: decrypt_def fmdomI split: option.splits)

lemma await_package_ensures:
  fixes E :: "('c, 's, 'sp, 'hs, 'ts, 'se, 'w) part_env"
  assumes "brings E genuine"
  shows "ensures (listens_to pk) (await_package E n)
    (\<lambda>args _. \<exists>m. genuine m \<and> msg_sender m = pk \<and> decode_package E (msg_bytes m) = Some args)"
proof (induction n)
  case 0
  then show ?case by (simp add: ensures_def)
next
  case (Suc n)
  show ?case
    unfolding ensures_def await_package.simps
  proof (intro allI impI)
    fix s args s'
    assume s: "listens_to pk s" and run: "io_bind (receive_step E False) (\<lambda>msgs. case msgs of
        [] \<Rightarrow> await_package E n
      | msg # _ \<Rightarrow> io_bind (decrypt_step E msg) (\<lambda>msg. io_pure (ok_or (SessionErr Serde) (decode_package E (msg_bytes msg))))) s =
      (Some (Ok args), s')"
    then obtain msgs t where t: "receive_step E False s = (Some (Ok msgs :: ('se comms_error, comm_key msg list) outcome), t)"
      and rest: "(case msgs of
        [] \<Rightarrow> await_package E n
      | msg # _ \<Rightarrow> io_bind (decrypt_step E msg) (\<lambda>msg. io_pure (ok_or (SessionErr Serde) (decode_package E (msg_bytes msg))))) t =
      (Some (Ok args), s')"
      unfolding io_bind_Ok by blast
    from t have same: "cipher_of t = cipher_of s"
      by (auto simp: receive_step_def the_session_def io_bind_Ok ask_Ok)
    have genuine: "\<forall>msg \<in> set msgs. \<forall>c m c'. decrypt (snow E) c msg = (Ok m, c') \<longrightarrow> genuine m"
      using ensuresD[OF receive_step_ensures[OF assms, of "\<lambda>_. True" False] TrueI t] .
    show "\<exists>m. genuine m \<and> msg_sender m = pk \<and> decode_package E (msg_bytes m) = Some args"
    proof (cases msgs)
      case Nil
      moreover have "listens_to pk t" using s same by (simp add: listens_to_def)
      ultimately show ?thesis using rest Suc.IH unfolding ensures_def by auto
    next
      case (Cons msg ms)
      from s same obtain c where c: "cipher_of t = Some c" "fmdom (recv_noise_map c) = {|pk|}"
        by (auto simp: listens_to_def)
      from rest Cons obtain m t' where m: "decrypt_step E msg t = (Some (Ok m :: ('se comms_error, comm_key msg) outcome), t')"
        and args: "decode_package E (msg_bytes m) = Some args" by (auto simp: io_bind_Ok outcome_simps)
      from m c(1) obtain c' where d: "decrypt (snow E) c msg = (Ok m, c')"
        by (auto simp: decrypt_step_def outcome_simps split: prod.splits)
      have "msg_sender m = pk" using decrypt_known[OF d] decrypt_sender[OF d] c(2) by simp
      then show ?thesis using genuine d args Cons by auto
    qed
  qed
qed

lemma send_listens:
  fixes E :: "('c, 's, 'sp, 'hs, 'ts, 'se, 'w) part_env"
  shows "ensures (listens_to pk) (send_step E None payload :: ('hs, 'ts, 'se, 'w, unit) part_io) (\<lambda>_. listens_to pk)"
proof -
  have encrypt: "ensures (listens_to pk) (encrypt_step E None bs :: ('hs, 'ts, 'se, 'w, bytes) part_io) (\<lambda>_. listens_to pk)" for bs
    unfolding ensures_def
  proof (intro allI impI)
    fix s a s'
    assume s: "listens_to pk s" and run: "encrypt_step E None bs s = (Some (Ok a) :: ('se comms_error, bytes) outcome option, s')"
    then obtain c where c: "cipher_of s = Some c" "fmdom (recv_noise_map c) = {|pk|}" by (auto simp: listens_to_def)
    then have "s' = s\<lparr>cipher_of := Some (snd (encrypt (snow E) c None bs))\<rparr>"
      using run by (auto simp: encrypt_step_def split: prod.splits)
    then show "listens_to pk s'" using c(2) by (simp add: listens_to_def recv_map_kept)
  qed
  have vec: "ensures (listens_to pk) (to_vec payload :: ('hs, 'ts, 'se, 'w, bytes) part_io) (\<lambda>_. listens_to pk)"
    by (simp add: to_vec_def ensures_def)
  have sid: "ensures (listens_to pk) (the_session :: ('hs, 'ts, 'se, 'w, uuid) part_io) (\<lambda>_. listens_to pk)"
    by (simp add: the_session_def ensures_def)
  have ask: "ensures (listens_to pk) (ask call :: ('hs, 'ts, 'se, 'w, unit) part_io) (\<lambda>_. listens_to pk)" for call
    by (auto simp: ensures_def ask_Ok listens_to_def)
  show ?thesis
    unfolding send_step_def option.case
    by (rule ensures_bind[OF vec] ensures_bind[OF encrypt] ensures_bind[OF sid] ask)+
qed

lemma package_from_coordinator_lemma:
  fixes E :: "('c, 's, 'sp, 'hs, 'ts, 'se, 'w) part_env"
  assumes "brings E genuine" and "get_signing_package K E n commitments s = (Some (Ok args), s')"
  shows "\<exists>sid getter info w w' m. session_id s = Some sid \<and> pc_coordinator_getter K = Some getter \<and>
    srv_get_session_info (srv E) sid w = (Ok info, w') \<and>
    getter (info_coordinator_pubkey info) = Some (msg_sender m) \<and>
    genuine m \<and> decode_package E (msg_bytes m) = Some args"
proof -
  from assms(2)[unfolded get_signing_package_def io_bind_Ok]
  obtain own s1 sid s2 u s3 q s4 where
    own: "log_in E (pc_comm_privkey K) (pc_comm_pubkey K) s = (Some (Ok own :: ('se comms_error, comm_key) outcome), s1)"
    and sid: "require_session s1 = (Some (Ok sid :: ('se comms_error, uuid) outcome), s2)"
    and u: "io_set (\<lambda>s. s\<lparr>session_id := Some sid\<rparr>) s2 = (Some (Ok u :: ('se comms_error, unit) outcome), s3)"
    and q: "privkey_and_getter K s3 = (Some (Ok q :: ('se comms_error, bytes \<times> (comm_key \<Rightarrow> comm_key option)) outcome), s4)"
    and rest: "(case q of (privkey, getter) \<Rightarrow>
      io_bind (ask (srv_get_session_info (srv E) sid)) (\<lambda>info.
      io_bind (need (lit ''The coordinator for the specified FROST session is not registered in the user's address book'')
        (getter (info_coordinator_pubkey info))) (\<lambda>coordinator.
      io_bind (set_cipher E privkey [coordinator]) (\<lambda>_.
      io_bind (send_step E None (encode_commitments E [commitments])) (\<lambda>_.
      await_package E n))))) s4 = (Some (Ok args), s')" by blast
  obtain privkey getter where pair: "q = (privkey, getter)" "pc_coordinator_getter K = Some getter"
    using q by (auto simp: privkey_and_getter_def split: option.splits)
  have "session_id s = Some sid" using sid frameD[OF frame_log_in own] by (auto simp: require_session_def outcome_simps)
  moreover from rest[unfolded pair prod.case io_bind_Ok] obtain info t1 pk t2 v t3 v' t4 where
    info: "ask (srv_get_session_info (srv E) sid) s4 = (Some (Ok info :: ('se comms_error, comm_key session_info_output) outcome), t1)"
    and pk: "need (lit ''The coordinator for the specified FROST session is not registered in the user's address book'')
      (getter (info_coordinator_pubkey info)) t1 = (Some (Ok pk :: ('se comms_error, comm_key) outcome), t2)"
    and cipher: "set_cipher E privkey [pk] t2 = (Some (Ok v :: ('se comms_error, unit) outcome), t3)"
    and send: "send_step E None (encode_commitments E [commitments]) t3 = (Some (Ok v' :: ('se comms_error, unit) outcome), t4)"
    and wait: "await_package E n t4 = (Some (Ok args), s')" by blast
  from cipher have "listens_to pk t3"
    by (auto simp: set_cipher_def io_bind_Ok outcome_simps listens_to_def dest: cipher_new_ok(3))
  then have "listens_to pk t4" using ensuresD[OF send_listens _ send] by blast
  from ensuresD[OF await_package_ensures[OF assms(1)] this wait] obtain m where
    "genuine m" "msg_sender m = pk" "decode_package E (msg_bytes m) = Some args" by blast
  moreover have "getter (info_coordinator_pubkey info) = Some pk" using pk by (simp add: need_def outcome_simps)
  ultimately show ?thesis using info pair(2) by (auto simp: ask_Ok)
qed

text \<open>
  A participant only ever signs what the coordinator sent: the package it works on was decrypted
  from a message of the coordinator of the session it asked for, and that coordinator is one the
  participant's address book knows.
\<close>

theorem package_from_coordinator:
  fixes E :: "('c, 's, 'sp, 'hs, 'ts, 'se, 'w) part_env"
  assumes "brings E genuine" and "get_signing_package K E n commitments s = (Some (Ok args), s')"
  shows "\<exists>sid getter info w w' m. session_id s = Some sid \<and> pc_coordinator_getter K = Some getter \<and>
    srv_get_session_info (srv E) sid w = (Ok info, w') \<and>
    getter (info_coordinator_pubkey info) = Some (msg_sender m) \<and>
    genuine m \<and> decode_package E (msg_bytes m) = Some args"
  by (rule package_from_coordinator_lemma[OF assms])

section \<open>An empty list of packages\<close>

text \<open>
  Without confirmation nothing looks at the list of packages before its first element is taken: a
  coordinator that sends an empty list makes the participant panic. With confirmation it is an error.
\<close>

theorem empty_packages_panic:
  assumes "signing_package args = []"
  shows "io_bind (confirm_message E X F args yes) (\<lambda>_. sign_confirmed K E X F nonces args) s =
    (Some (if yes then Panic else Err (Report (lit ''No signing package found''))), s)"
  using assms by (simp add: confirm_message_def sign_confirmed_def need_def idx_def outcome_simps del: lit_simps)

section \<open>A run\<close>

text \<open>
  The world of the run counts the rounds of polling and keeps the log; the coordinator sends one
  package, and the user answers \<open>y\<close>.
\<close>

definition part_demo :: "(bytes, bytes, (nat, bytes) fmap \<times> bytes, unit, unit, unit, nat \<times> event list) part_env" where
  "part_demo = \<lparr>srv = \<lparr>
     srv_challenge = (\<lambda>w. (Ok [], w)), srv_login = (\<lambda>_ w. (Ok [], w)), srv_logout = (\<lambda>w. (Ok (), w)),
     srv_create_new_session = (\<lambda>_ w. (Ok [7], w)), srv_list_sessions = (\<lambda>w. (Ok [[7]], w)),
     srv_get_session_info = (\<lambda>_ w. (Ok \<lparr>info_message_count = 1, info_pubkeys = [[2]], info_coordinator_pubkey = [1]\<rparr>, w)),
     srv_send = (\<lambda>args (k, l). (Ok (), k, l @ [Sent args])),
     srv_receive = (\<lambda>_ (k, l). (Ok (if k = 0 then [] else [\<lparr>msg_sender = [1], msg_bytes = [4]\<rparr>]), Suc k, l)),
     srv_close_session = (\<lambda>_ w. (Ok (), w))\<rparr>,
     snow = snow_plain, xed_sign = (\<lambda>_ _ w. ([], w)), key_order = (\<lambda>A. filter (\<lambda>k. k |\<in>| A) [[1]]),
     encode_commitments = (\<lambda>cs. Some (concat cs)), encode_shares = (\<lambda>ss. Some (concat ss)),
     decode_package = (\<lambda>bs. if bs = [4] then Some \<lparr>signing_package = [(fmempty, demo_payload)], aux_msg = []\<rparr> else None),
     parse_uuid = Some, write_out = (\<lambda>t (k, l). (True, k, l @ [Shown t])),
     read_line = (\<lambda>(k, l). (Some [121, 10], k, l @ [Answered [121, 10]])), debug_text = (\<lambda>_. [])\<rparr>"

definition part_demo_config :: "unit part_config" where
  "part_demo_config = \<lparr>pc_key_package = (), pc_session_id = [7], pc_comm_privkey = Some (replicate 32 0),
     pc_comm_pubkey = Some [2], pc_coordinator_getter = Some Some\<rparr>"

definition demo_signer :: "(nat, bytes, bytes, (nat, bytes) fmap \<times> bytes, unit, unit, nat \<times> event list) frost_signer" where
  "demo_signer = \<lparr>package_new = Pair, package_message = snd, package_commitments = fst,
     commit = (\<lambda>_ w. (((), [3]), w)), sign_share = (\<lambda>package _ _. Some (take 1 (snd package)))\<rparr>"

lemmas part_demo_defs = part_demo_def part_demo_config_def demo_signer_def snow_plain_def

lemma part_demo_observes: "observes part_demo snd"
  by (auto simp: observes_def part_demo_def split: prod.split)

lemma part_demo_brings: "brings part_demo (\<lambda>m. msg_sender m = [1])"
  unfolding brings_def
proof (intro allI impI ballI)
  fix args w ms w' msg c m c'
  assume "srv_receive (srv part_demo) args w = (Ok ms, w')" and "msg \<in> set ms"
    and "decrypt (snow part_demo) c msg = (Ok m, c')"
  then show "msg_sender m = [1]"
    using decrypt_sender[of "snow part_demo" c msg m c'] by (auto simp: part_demo_def split: prod.splits if_splits)
qed

lemma trim_answer: "trim [121, 10] = [121]"
  by code_simp

lemma demo_package:
  "\<exists>s'. get_signing_package part_demo_config part_demo 2 [3] (part_comms_new part_demo_config part_demo (0, [])) =
    (Some (Ok \<lparr>signing_package = [(fmempty, demo_payload)], aux_msg = []\<rparr>), s')"
  by (simp add: get_signing_package_def log_in_def sign_step_def private_key_sign_def require_session_def
      privkey_and_getter_def part_comms_new_def part_demo_defs step_eval numeral_2_eq_2 Let_def fcard.rep_eq)

lemma package_from_coordinator_witness:
  "\<exists>m :: comm_key msg. msg_sender m = [1] \<and>
    decode_package part_demo (msg_bytes m) = Some \<lparr>signing_package = [(fmempty, demo_payload)], aux_msg = []\<rparr>"
proof -
  obtain s' where "get_signing_package part_demo_config part_demo 2 [3] (part_comms_new part_demo_config part_demo (0, [])) =
      (Some (Ok \<lparr>signing_package = [(fmempty, demo_payload)], aux_msg = []\<rparr>), s')"
    using demo_package by blast
  from package_from_coordinator[OF part_demo_brings this] show ?thesis by blast
qed

lemma demo_sign_run:
  assumes "signing_bytes tx_demo demo_payload = Ok wire"
    and "display_envelope tx_demo (debug_text part_demo) (new_legacy Mainnet demo_delegation) = Ok shown"
  shows "\<exists>s. sign part_demo_config part_demo tx_demo demo_signer 2 False (0, []) = (Some (Ok ()), s) \<and>
    length (filter is_sent (snd (world s))) = 2"
  using assms demo_deserialize
  by (simp add: sign_def commit_step_def get_signing_package_def log_in_def sign_step_def private_key_sign_def
      require_session_def privkey_and_getter_def part_comms_new_def part_demo_defs step_eval confirm_message_def
      write_line_def ask_line_def sign_confirmed_def signing_bytes_step_def send_signature_share_def part_cipher_def
      outcome_simps idx_def trim_answer numeral_2_eq_2 Let_def fcard.rep_eq)

lemma nothing_signed_unconfirmed_witness:
  "\<exists>first asked request rest package. length (filter is_sent (Sent first # asked @ Sent request # rest)) = 2 \<and>
    confirmed part_demo tx_demo (package_message demo_signer package) asked \<and>
    signs part_demo_config part_demo tx_demo demo_signer package request"
proof -
  obtain wire shown where "signing_bytes tx_demo demo_payload = Ok wire"
    "display_envelope tx_demo (debug_text part_demo) (new_legacy Mainnet demo_delegation) = Ok shown"
    using demo_wire demo_display by blast
  from demo_sign_run[OF this] obtain s where
    run: "sign part_demo_config part_demo tx_demo demo_signer 2 False (0, []) = (Some (Ok ()), s)"
    and two: "length (filter is_sent (snd (world s))) = 2" by blast
  have "snd (snd (commit demo_signer kp w)) = snd w" for kp w by (simp add: demo_signer_def)
  from nothing_signed_unconfirmed[OF part_demo_observes this run] two show ?thesis by fastforce
qed

end
