(* ===== verification/Signing_Commands.thy ===== *)
theory Signing_Commands
  imports Address_Book Coordinator_Comms Participant_Comms
begin

text \<open>
  The commands that run a signing session: \<^verbatim>\<open>mina-frost-client/src/cli/coordinator.rs\<close> and
  \<^verbatim>\<open>cli/participant.rs\<close>. They read the configuration, look up the group and the signers,
  load the transaction, run the session and write the signed transaction. URLs are a parameter;
  the server is reached by the text of its address.
\<close>

section \<open>Servers and sessions\<close>

record 'url url_ext =
  url_parse :: "rstr \<Rightarrow> 'url option"
  url_host :: "'url \<Rightarrow> rstr option"
  url_port :: "'url \<Rightarrow> u16 option"

definition chosen_url :: "rstr option \<Rightarrow> frost_group \<Rightarrow> (cli_error, rstr) outcome" where
  "chosen_url server_url g = (case server_url of
     Some url \<Rightarrow> Ok url
   | None \<Rightarrow> ok_or (Failure (lit ''server-url required'')) (gr_server_url g))"

definition parse_server :: "'url url_ext \<Rightarrow> rstr \<Rightarrow> (cli_error, 'url) outcome" where
  "parse_server U server_url =
     ok_or (Failure (lit ''error parsing server-url'')) (url_parse U (lit ''https://'' @ server_url))"

definition host_and_port :: "'url url_ext \<Rightarrow> 'url \<Rightarrow> (cli_error, rstr \<times> u16) outcome" where
  "host_and_port U url =
     obind (ok_or (Failure (lit ''host missing in URL'')) (url_host U url)) (\<lambda>ip.
     case url_port U url of Some port \<Rightarrow> Ok (ip, port) | None \<Rightarrow> Panic)"

definition server_address :: "rstr \<times> u16 \<Rightarrow> rstr" where
  "server_address a = lit ''https://'' @ fst a @ [58] @ show_nat (unat (snd a))"

definition user_key :: "config \<Rightarrow> (cli_error, communication_key) outcome" where
  "user_key cfg = ok_or (Failure (lit ''user not initialized'')) (cf_communication_key cfg)"

definition group_of :: "config \<Rightarrow> rstr \<Rightarrow> (cli_error, frost_group) outcome" where
  "group_of cfg group_id = ok_or (Failure (lit ''Group not found'')) (fmlookup (cf_group cfg) group_id)"

text \<open>A session over the server as part of a command; whatever its error, the command reports it.\<close>

definition in_session ::
  "('w \<Rightarrow> ('e, 'a) outcome option \<times> ('hs, 'ts, 'w, 'z) comms_scheme) \<Rightarrow> ('w, 'a) cli" where
  "in_session run w = (case run w of (r, s) \<Rightarrow> (map_option (map_err (\<lambda>_. Outside)) r, world s))"

definition mina_failure :: "mina_tx_error \<Rightarrow> cli_error" where
  "mina_failure e = Failure (display_mina_tx_error e)"

section \<open>The coordinator's configuration\<close>

definition load_coordinator_config ::
  "('t, 'w) system_ext \<Rightarrow> ('id, 'kp, 'pkp, 'vk, 'w) client_ext \<Rightarrow> rstr option \<Rightarrow> rstr \<Rightarrow>
    ('w, config \<times> frost_group \<times> 'pkp) cli" where
  "load_coordinator_config S X config_path group_id =
     io_bind (config_read S X config_path) (\<lambda>user_config.
     io_bind (io_pure (group_of user_config group_id)) (\<lambda>group_config.
     io_bind (outside (read_public_key_package X (gr_public_key_package group_config))) (\<lambda>public_key_package.
     io_pure (Ok (user_config, group_config, public_key_package)))))"

definition parse_signer ::
  "('id, 'kp, 'pkp, 'vk, 'w) client_ext \<Rightarrow> frost_group \<Rightarrow> rstr \<Rightarrow> (cli_error, comm_key \<times> 'id) outcome" where
  "parse_signer X g s =
     obind (ok_or Outside (hex_decode X s)) (\<lambda>pubkey.
     obind (participant_by_pubkey g pubkey) (\<lambda>p.
     omap (Pair pubkey) (participant_identifier X p)))"

definition parse_signers ::
  "('id, 'kp, 'pkp, 'vk, 'w) client_ext \<Rightarrow> rstr list \<Rightarrow> frost_group \<Rightarrow> (cli_error, (comm_key, 'id) hash_map) outcome" where
  "parse_signers X signer_args g =
     omap (\<lambda>entries. fmap_of_list (rev entries)) (omap_list (parse_signer X g) signer_args)"

definition setup_coordinator_config ::
  "'url url_ext \<Rightarrow> 'pkp \<Rightarrow> (comm_key, 'id) hash_map \<Rightarrow> config \<Rightarrow> frost_group \<Rightarrow> rstr option \<Rightarrow> bytes \<Rightarrow>
    (cli_error, rstr \<times> ('id, 'pkp) coord_config) outcome" where
  "setup_coordinator_config U public_key_package signers user_config group_config server_url message =
     obind (chosen_url server_url group_config) (\<lambda>server_url.
     obind (parse_server U server_url) (\<lambda>url.
     obind (host_and_port U url) (\<lambda>address.
     obind (user_key user_config) (\<lambda>key.
     Ok (server_address address,
       \<lparr>cc_signers = signers, cc_num_signers = word_of_nat (map_len signers),
        cc_public_key_package = public_key_package, cc_message = message,
        cc_comm_privkey = Some (ck_privkey key), cc_comm_pubkey = Some (ck_pubkey key)\<rparr>)))))"

section \<open>The transaction\<close>

definition load_transaction_from_str ::
  "('r, 'sp) tx_env \<Rightarrow> rstr \<Rightarrow> network_id \<Rightarrow> (cli_error, transaction_envelope) outcome" where
  "load_transaction_from_str T transaction_str network_id =
     map_err (\<lambda>e. Failure (lit ''Failed to parse transaction from JSON: '' @ display_mina_tx_error e))
       (from_str_network T transaction_str network_id)"

definition read_text :: "('t, 'w) system_ext \<Rightarrow> rstr \<Rightarrow> ('w, rstr) cli" where
  "read_text S path = io_get (\<lambda>w.
     obind (ok_or Outside (fs_read S path w)) (\<lambda>bytes. if utf8_valid bytes then Ok bytes else Err Outside))"

definition load_transaction_from_json ::
  "('t, 'w) system_ext \<Rightarrow> ('r, 'sp) tx_env \<Rightarrow> rstr \<Rightarrow> network_id \<Rightarrow> ('w, transaction_envelope) cli" where
  "load_transaction_from_json S T path network_id =
     io_bind (read_text S path) (\<lambda>json_content.
     io_pure (load_transaction_from_str T json_content network_id))"

definition load_transaction_from_stdin ::
  "('t, 'w) system_ext \<Rightarrow> ('r, 'sp) tx_env \<Rightarrow> network_id \<Rightarrow> ('w, transaction_envelope) cli" where
  "load_transaction_from_stdin S T network_id =
     io_bind (obtain_from (stdin_text S)) (\<lambda>json_content.
     io_pure (load_transaction_from_str T json_content network_id))"

definition load_transaction ::
  "('t, 'w) system_ext \<Rightarrow> ('r, 'sp) tx_env \<Rightarrow> rstr \<Rightarrow> network_id \<Rightarrow> ('w, transaction_envelope) cli" where
  "load_transaction S T message_path network_id =
     (if message_path = lit ''-'' \<or> message_path = [] then
        io_bind (print_out S (lit ''The message to be signed (json string)'' @ [10])) (\<lambda>_.
        load_transaction_from_stdin S T network_id)
      else
        io_bind (print_out S (lit ''Reading message from '' @ message_path @ lit ''...'' @ [10])) (\<lambda>_.
        load_transaction_from_json S T message_path network_id))"

section \<open>The signed transaction\<close>

definition print_warnings :: "('t, 'w) system_ext \<Rightarrow> injection_result option \<Rightarrow> ('w, unit) cli" where
  "print_warnings S warnings_opt = (case warnings_opt of
     None \<Rightarrow> io_pure (Ok ())
   | Some ws \<Rightarrow>
       io_bind (print_out S (lit ''Warnings during transaction signature creation:'' @ [10])) (\<lambda>_.
       io_for (\<lambda>warning. print_out S (lit ''- '' @ display_injection_warning warning @ [10])) (warnings ws)))"

definition save_signature ::
  "('t, 'w) system_ext \<Rightarrow> ('r, 'sp) tx_env \<Rightarrow> ('el, 's) curve_ext \<Rightarrow> rstr \<Rightarrow> bytes \<Rightarrow> transaction_envelope \<Rightarrow> 'el \<Rightarrow>
    ('w, unit) cli" where
  "save_signature S T C signature_path sig_bytes transaction vk =
     io_bind (io_pure (map_err mina_failure
       (from_frost_signature_bytes C (sd_base58 (tx_serde T)) (tx_address T) vk sig_bytes transaction)))
       (\<lambda>(transaction_signature, warnings_opt).
     io_bind (print_warnings S warnings_opt) (\<lambda>_.
     io_bind (io_pure (map_err (\<lambda>e. mina_failure (DeSerializationError (tx_error_text T [] e)))
       (ser_transaction_signature T transaction_signature))) (\<lambda>j.
     let output_str = tx_pretty T j in
     if signature_path = lit ''-'' then print_out S (output_str @ [10])
     else io_bind (attempt (fs_write S signature_path output_str)) (\<lambda>_.
          print_out S (lit ''Signature saved to '' @ signature_path @ [10])))))"

definition save_error :: "cli_error \<Rightarrow> cli_error" where
  "save_error e = (case e of Failure report \<Rightarrow> mina_failure (SaveSignatureError report) | Outside \<Rightarrow> Outside)"

definition cli_map_err :: "('e \<Rightarrow> cli_error) \<Rightarrow> ('w, 'e, 'a) io \<Rightarrow> ('w, 'a) cli" where
  "cli_map_err f m w = (case m w of (r, w) \<Rightarrow> (map_option (map_err f) r, w))"

section \<open>The coordinator's command\<close>

fun coordinator_run ::
  "('t, 'w) system_ext \<Rightarrow> ('id, 'kp, 'pkp, 'el, 'w) client_ext \<Rightarrow> 'url url_ext \<Rightarrow> ('r, 'rs) tx_env \<Rightarrow>
    (rstr \<Rightarrow> ('c, 's, 'sp, 'hs, 'ts, 'se, 'w) coord_env) \<Rightarrow> ('id, 'c, 's, 'sp, 'pkp, 'sg) frost_signing \<Rightarrow> nat \<Rightarrow>
    command \<Rightarrow> ('w, bytes \<times> transaction_envelope \<times> 'el) cli" where
  "coordinator_run S X U T E F n (Coordinator config_path server_url group_id signers message network _) =
     io_bind (load_coordinator_config S X config_path group_id) (\<lambda>(user_config, group_config, public_key_package).
     io_bind (io_pure (parse_signers X signers group_config)) (\<lambda>signers.
     io_bind (io_pure (map_err (\<lambda>_. Outside) (network_id_try_from network))) (\<lambda>network_id.
     io_bind (load_transaction S T message network_id) (\<lambda>transaction.
     io_bind (io_pure (map_err (\<lambda>_. Outside) (envelope_serialize T transaction))) (\<lambda>message_bytes.
     io_bind (io_pure (setup_coordinator_config U public_key_package signers user_config group_config server_url
       message_bytes)) (\<lambda>(address, K).
     io_bind (in_session (coordinate_signing K (E address) T F n)) (\<lambda>sig_bytes.
     io_pure (Ok (sig_bytes, transaction, verifying_key X public_key_package)))))))))"
| "coordinator_run S X U T E F n _ = io_pure Panic"

fun coordinator_command ::
  "('t, 'w) system_ext \<Rightarrow> ('id, 'kp, 'pkp, 'el, 'w) client_ext \<Rightarrow> 'url url_ext \<Rightarrow> ('r, 'rs) tx_env \<Rightarrow>
    (rstr \<Rightarrow> ('c, 's, 'sp, 'hs, 'ts, 'se, 'w) coord_env) \<Rightarrow> ('id, 'c, 's, 'sp, 'pkp, 'sg) frost_signing \<Rightarrow>
    ('el, 'sc) curve_ext \<Rightarrow> nat \<Rightarrow> command \<Rightarrow> ('w, unit) cli" where
  "coordinator_command S X U T E F C n (Coordinator cp url g ss m nw signature_path) =
     io_bind (coordinator_run S X U T E F n (Coordinator cp url g ss m nw signature_path)) (\<lambda>(bytes, transaction, vk).
     cli_map_err save_error (save_signature S T C signature_path bytes transaction vk))"
| "coordinator_command S X U T E F C n _ = io_pure Panic"

section \<open>The participant's command\<close>

definition load_participant_config ::
  "('t, 'w) system_ext \<Rightarrow> ('id, 'kp, 'pkp, 'vk, 'w) client_ext \<Rightarrow> rstr option \<Rightarrow> rstr \<Rightarrow>
    ('w, config \<times> frost_group \<times> 'kp) cli" where
  "load_participant_config S X config_path group_id =
     io_bind (config_read S X config_path) (\<lambda>user_config.
     io_bind (io_pure (group_of user_config group_id)) (\<lambda>group_config.
     io_bind (outside (read_key_package X (gr_key_package group_config))) (\<lambda>key_package.
     io_pure (Ok (user_config, group_config, key_package)))))"

definition create_coordinator_pubkey_getter :: "(rstr, participant) fmap \<Rightarrow> comm_key \<Rightarrow> comm_key option" where
  "create_coordinator_pubkey_getter group_participants coordinator_pubkey =
     map_option pa_pubkey (find (\<lambda>p. pa_pubkey p = coordinator_pubkey) (btree_values group_participants))"

definition setup_participant_config ::
  "'url url_ext \<Rightarrow> config \<Rightarrow> frost_group \<Rightarrow> 'kp \<Rightarrow> rstr option \<Rightarrow> rstr \<Rightarrow>
    (cli_error, rstr \<times> 'kp part_config) outcome" where
  "setup_participant_config U user_config group_config key_package server_url session =
     obind (chosen_url server_url group_config) (\<lambda>server_url.
     obind (parse_server U server_url) (\<lambda>url.
     obind (host_and_port U url) (\<lambda>address.
     obind (user_key user_config) (\<lambda>key.
     Ok (server_address address,
       \<lparr>pc_key_package = key_package, pc_session_id = session, pc_comm_privkey = Some (ck_privkey key),
        pc_comm_pubkey = Some (ck_pubkey key),
        pc_coordinator_getter = Some (create_coordinator_pubkey_getter (gr_participant group_config))\<rparr>)))))"

fun participant_command ::
  "('t, 'w) system_ext \<Rightarrow> ('id, 'kp, 'pkp, 'vk, 'w) client_ext \<Rightarrow> 'url url_ext \<Rightarrow> ('r, 'rs) tx_env \<Rightarrow>
    (rstr \<Rightarrow> ('c, 's, 'sp, 'hs, 'ts, 'se, 'w) part_env) \<Rightarrow> ('id, 'c, 's, 'sp, 'kp, 'nonces, 'w) frost_signer \<Rightarrow> nat \<Rightarrow>
    command \<Rightarrow> ('w, unit) cli" where
  "participant_command S X U T E F n (Participant config_path server_url group_id session yes) =
     io_bind (load_participant_config S X config_path group_id) (\<lambda>(user_config, group_config, key_package).
     io_bind (io_pure (setup_participant_config U user_config group_config key_package server_url session))
       (\<lambda>(address, K).
     in_session (sign K (E address) T F n yes)))"
| "participant_command S X U T E F n _ = io_pure Panic"

section \<open>Whom a session is with\<close>

text \<open>The signers asked for on the command line, as the group's file lists them.\<close>

definition group_signers ::
  "('id, 'kp, 'pkp, 'vk, 'w) client_ext \<Rightarrow> frost_group \<Rightarrow> rstr list \<Rightarrow> (comm_key, 'id) hash_map \<Rightarrow> bool" where
  "group_signers X g signer_args signers \<longleftrightarrow>
     (\<forall>pk. pk |\<in>| fmdom signers \<longleftrightarrow> (\<exists>s \<in> set signer_args. hex_decode X s = Some pk)) \<and>
     (\<forall>pk i. fmlookup signers pk = Some i \<longrightarrow> (\<exists>k p. fmlookup (gr_participant g) k = Some p \<and>
        pa_pubkey p = pk \<and> read_identifier X (pa_identifier p) = Some i))"

lemma parse_signer_Ok:
  "parse_signer X g s = Ok (pk, i) \<Longrightarrow> hex_decode X s = Some pk \<and> (\<exists>k p. fmlookup (gr_participant g) k = Some p \<and>
    pa_pubkey p = pk \<and> read_identifier X (pa_identifier p) = Some i)"
  by (auto simp: parse_signer_def participant_by_pubkey_def participant_identifier_def outcome_simps dest!: find_btree_Some)

lemma omap_list_set:
  assumes "omap_list f xs = Ok ys"
  shows "y \<in> set ys \<Longrightarrow> \<exists>x \<in> set xs. f x = Ok y" and "x \<in> set xs \<Longrightarrow> \<exists>y \<in> set ys. f x = Ok y"
proof -
  have "(\<forall>y \<in> set ys. \<exists>x \<in> set xs. f x = Ok y) \<and> (\<forall>x \<in> set xs. \<exists>y \<in> set ys. f x = Ok y)"
    using assms by (induction xs arbitrary: ys) (simp, fastforce simp: outcome_simps)
  then show "y \<in> set ys \<Longrightarrow> \<exists>x \<in> set xs. f x = Ok y" and "x \<in> set xs \<Longrightarrow> \<exists>y \<in> set ys. f x = Ok y"
    by blast+
qed

lemma parse_signers_Ok:
  assumes "parse_signers X signer_args g = Ok signers"
  shows "group_signers X g signer_args signers"
proof -
  from assms obtain entries where entries: "omap_list (parse_signer X g) signer_args = Ok entries"
    "signers = fmap_of_list (rev entries)" by (auto simp: parse_signers_def outcome_simps)
  note args = omap_list_set(1)[OF entries(1)] and all = omap_list_set(2)[OF entries(1)]
  have dom: "pk |\<in>| fmdom signers \<longleftrightarrow> (\<exists>i. (pk, i) \<in> set entries)" for pk
    by (force simp: entries(2) fset_of_list.rep_eq)
  show ?thesis
    unfolding group_signers_def
  proof (intro conjI allI impI iffI)
    fix pk assume "pk |\<in>| fmdom signers"
    then show "\<exists>s \<in> set signer_args. hex_decode X s = Some pk" using args parse_signer_Ok unfolding dom by metis
  next
    fix pk assume "\<exists>s \<in> set signer_args. hex_decode X s = Some pk"
    then obtain s e where "hex_decode X s = Some pk" "e \<in> set entries" "parse_signer X g s = Ok e" using all by blast
    then show "pk |\<in>| fmdom signers" using parse_signer_Ok[of X g s "fst e" "snd e"] unfolding dom by (cases e) auto
  next
    fix pk i assume "fmlookup signers pk = Some i"
    then have "(pk, i) \<in> set entries" by (auto simp: entries(2) fmlookup_of_list dest: map_of_SomeD)
    then show "\<exists>k p. fmlookup (gr_participant g) k = Some p \<and> pa_pubkey p = pk \<and> read_identifier X (pa_identifier p) = Some i"
      using args parse_signer_Ok by metis
  qed
qed

lemma cli_map_err_Ok: "cli_map_err f m w = (Some (Ok v), w') \<longleftrightarrow> m w = (Some (Ok v), w')"
  by (auto simp: cli_map_err_def outcome_simps split: prod.splits)

lemma in_session_Ok: "in_session run w = (Some (Ok v), w') \<longleftrightarrow> (\<exists>s. run w = (Some (Ok v), s) \<and> w' = world s)"
  by (auto simp: in_session_def outcome_simps split: prod.splits)

lemma io_pure_Ok: "io_pure r w = (Some (Ok v), w') \<longleftrightarrow> r = Ok v \<and> w' = w"
  by auto

lemma coordinator_run_Ok:
  assumes "coordinator_run S X U T E F n (Coordinator cp url gid ss m nw out) w = (Some (Ok (sig_bytes, tx, vk)), w')"
  shows "\<exists>w1 cfg g pkp w2 signers network payload address K s.
    load_coordinator_config S X cp gid w = (Some (Ok (cfg, g, pkp)), w1) \<and>
    parse_signers X ss g = Ok signers \<and> network_id_try_from nw = Ok network \<and>
    load_transaction S T m network w1 = (Some (Ok tx), w2) \<and> envelope_serialize T tx = Ok payload \<and>
    setup_coordinator_config U pkp signers cfg g url payload = Ok (address, K) \<and>
    coordinate_signing K (E address) T F n w2 = (Some (Ok sig_bytes), s) \<and>
    vk = verifying_key X pkp \<and> w' = world s"
proof -
  from assms[unfolded coordinator_run.simps io_bind_Ok] obtain a w1 where
    load: "load_coordinator_config S X cp gid w = (Some (Ok a), w1)"
    and rest: "(case a of (cfg, g, pkp) \<Rightarrow>
      io_bind (io_pure (parse_signers X ss g)) (\<lambda>signers.
      io_bind (io_pure (map_err (\<lambda>_. Outside) (network_id_try_from nw))) (\<lambda>network_id.
      io_bind (load_transaction S T m network_id) (\<lambda>transaction.
      io_bind (io_pure (map_err (\<lambda>_. Outside) (envelope_serialize T transaction))) (\<lambda>message_bytes.
      io_bind (io_pure (setup_coordinator_config U pkp signers cfg g url message_bytes)) (\<lambda>(address, K).
      io_bind (in_session (coordinate_signing K (E address) T F n)) (\<lambda>sig_bytes.
      io_pure (Ok (sig_bytes, transaction, verifying_key X pkp))))))))) w1 = (Some (Ok (sig_bytes, tx, vk)), w')"
    by blast
  obtain cfg g pkp where a: "a = (cfg, g, pkp)" by (cases a)
  from rest[unfolded a prod.case io_bind_Ok io_pure_Ok] obtain signers network tx' w2 payload aK bs w3 where
    steps: "parse_signers X ss g = Ok signers" "map_err (\<lambda>_. Outside) (network_id_try_from nw) = Ok network"
    "load_transaction S T m network w1 = (Some (Ok tx'), w2)"
    "map_err (\<lambda>_. Outside) (envelope_serialize T tx') = Ok payload"
    "setup_coordinator_config U pkp signers cfg g url payload = Ok aK"
    and last: "(case aK of (address, K) \<Rightarrow> io_bind (in_session (coordinate_signing K (E address) T F n)) (\<lambda>sig_bytes.
      io_pure (Ok (sig_bytes, tx', verifying_key X pkp)))) w2 = (Some (Ok (sig_bytes, tx, vk)), w')"
    by blast
  obtain address K where aK: "aK = (address, K)" by (cases aK)
  from last[unfolded aK prod.case io_bind_Ok io_pure_Ok in_session_Ok] obtain s where
    "coordinate_signing K (E address) T F n w2 = (Some (Ok sig_bytes), s)" "tx' = tx" "vk = verifying_key X pkp" "w' = world s"
    by auto
  then show ?thesis using load steps unfolding a aK by (fastforce simp: outcome_simps)
qed

lemma coordinator_command_Ok:
  assumes "coordinator_command S X U T E F C n (Coordinator cp url gid ss m nw out) w = (Some (Ok ()), w')"
  obtains w1 cfg g pkp w2 signers network tx payload address K sig_bytes s where
    "load_coordinator_config S X cp gid w = (Some (Ok (cfg, g, pkp)), w1)"
    "parse_signers X ss g = Ok signers" "network_id_try_from nw = Ok network"
    "load_transaction S T m network w1 = (Some (Ok tx), w2)" "envelope_serialize T tx = Ok payload"
    "setup_coordinator_config U pkp signers cfg g url payload = Ok (address, K)"
    "coordinate_signing K (E address) T F n w2 = (Some (Ok sig_bytes), s)"
    "save_signature S T C out sig_bytes tx (verifying_key X pkp) (world s) = (Some (Ok ()), w')"
proof -
  from assms[unfolded coordinator_command.simps io_bind_Ok] obtain a w1 where
    run: "coordinator_run S X U T E F n (Coordinator cp url gid ss m nw out) w = (Some (Ok a), w1)"
    and rest: "(case a of (bytes, transaction, vk) \<Rightarrow> cli_map_err save_error (save_signature S T C out bytes transaction vk)) w1 =
      (Some (Ok ()), w')" by blast
  obtain bytes tx vk where a: "a = (bytes, tx, vk)" by (cases a)
  from rest[unfolded a prod.case cli_map_err_Ok] coordinator_run_Ok[OF run[unfolded a]] that show thesis by metis
qed

lemma keeps_print_warnings: "files_laws S place files temps \<Longrightarrow> keeps files (print_warnings S ws)"
  by (auto simp: print_warnings_def intro!: file_rules split: option.split)

lemma save_signature_Ok:
  assumes "files_laws S place files temps"
    and "save_signature S T C out sig_bytes tx vk w = (Some (Ok ()), w')"
  shows "\<exists>ts ws j. from_frost_signature_bytes C (sd_base58 (tx_serde T)) (tx_address T) vk sig_bytes tx = Ok (ts, ws) \<and>
    ser_transaction_signature T ts = Ok j \<and>
    files w' = (if out = lit ''-'' then files w else (files w)(place out := Some (tx_pretty T j)))"
proof -
  from assms(2) obtain ts ws w1 j where
    ts: "from_frost_signature_bytes C (sd_base58 (tx_serde T)) (tx_address T) vk sig_bytes tx = Ok (ts, ws)"
    "ser_transaction_signature T ts = Ok j" and w1: "print_warnings S ws w = (Some (Ok ()), w1)"
    and rest: "(if out = lit ''-'' then print_out S (tx_pretty T j @ [10])
      else io_bind (attempt (fs_write S out (tx_pretty T j))) (\<lambda>_.
        print_out S (lit ''Signature saved to '' @ out @ [10]))) w1 = (Some (Ok ()), w')"
    by (fastforce simp: save_signature_def Let_def io_bind_Ok outcome_simps simp del: lit_simps)
  have "files w1 = files w" using files_kept(1)[OF keeps_print_warnings[OF assms(1)], of ws w] w1 by simp
  moreover have "files (snd (print_out S x v)) = files v" for x v
    using files_kept(1)[OF keeps_print[OF assms(1)]] .
  moreover have "fst (fs_write S out d v) \<Longrightarrow> files (snd (fs_write S out d v)) = (files v)(place out := Some d)" for d v
    using assms(1) by (simp add: files_laws_def)
  ultimately have "files w' = (if out = lit ''-'' then files w else (files w)(place out := Some (tx_pretty T j)))"
    using rest
    by (cases rule: attempt_cases[of "fs_write S out (tx_pretty T j)" w1])
      (auto simp del: lit_simps split: if_splits dest!: arg_cong[of "print_out S _ _" _ snd])
  then show ?thesis using ts by blast
qed

lemma load_coordinator_Ok:
  assumes "load_coordinator_config S X cp gid w = (Some (Ok (cfg, g, pkp)), w1)"
  shows "w1 = w" and "config_read S X cp w = (Some (Ok cfg), w)" and "fmlookup (cf_group cfg) gid = Some g"
    and "read_public_key_package X (gr_public_key_package g) = Some pkp"
  using assms config_read_keeps[of S X cp w]
  by (auto simp: load_coordinator_config_def io_bind_Ok group_of_def outside_def outcome_simps simp del: lit_simps)

text \<open>The message a command is given: what is typed after the prompt, or the file.\<close>

definition message_text ::
  "('t, 'w) system_ext \<Rightarrow> (rstr \<Rightarrow> 'f) \<Rightarrow> ('w \<Rightarrow> 'f \<Rightarrow> bytes option) \<Rightarrow> rstr \<Rightarrow> 'w \<Rightarrow> rstr option" where
  "message_text S place files m w =
     (if m = lit ''-'' \<or> m = []
      then fst (stdin_text S (print_text S (lit ''The message to be signed (json string)'' @ [10]) w))
      else files w (place m))"

lemma load_transaction_Ok:
  assumes "files_laws S place files temps" and "load_transaction S T m network w = (Some (Ok tx), w')"
  obtains input where "message_text S place files m w = Some input" "from_str_network T input network = Ok tx"
proof (cases "m = lit ''-'' \<or> m = []")
  case True
  let ?w = "print_text S (lit ''The message to be signed (json string)'' @ [10]) w"
  from True assms(2) obtain input where "stdin_text S ?w = (Some input, w')" "from_str_network T input network = Ok tx"
    by (auto simp: load_transaction_def load_transaction_from_stdin_def load_transaction_from_str_def
        obtain_from_def print_out_def io_bind_Ok outcome_simps simp del: lit_simps split: prod.splits)
  with True show thesis by (intro that[of input]) (simp_all add: message_text_def del: lit_simps)
next
  case False
  let ?w = "print_text S (lit ''Reading message from '' @ m @ lit ''...'' @ [10]) w"
  from False assms(2) obtain input where "fs_read S m ?w = Some input" "from_str_network T input network = Ok tx"
    by (auto simp: load_transaction_def load_transaction_from_json_def load_transaction_from_str_def read_text_def
        print_out_def io_bind_Ok outcome_simps simp del: lit_simps split: if_splits)
  moreover have "files ?w = files w" "fs_read S m ?w = files ?w (place m)" using assms(1) by (simp_all add: files_laws_def)
  ultimately show thesis using False by (intro that[of input]) (simp_all add: message_text_def del: lit_simps)
qed

lemma setup_coordinator_Ok:
  assumes "setup_coordinator_config U pkp signers cfg g url payload = Ok (address, K)"
  shows "cc_signers K = signers" and "cc_num_signers K = word_of_nat (map_len signers)"
    and "cc_public_key_package K = pkp" and "cc_message K = payload"
    and "\<exists>key. cf_communication_key cfg = Some key \<and> cc_comm_privkey K = Some (ck_privkey key) \<and>
      cc_comm_pubkey K = Some (ck_pubkey key)"
  using assms by (auto simp: setup_coordinator_config_def user_key_def outcome_simps)

lemma coordinator_writes_lemma:
  assumes "files_laws S place files temps" and "out \<noteq> lit ''-''"
    and "coordinator_command S X U T E F C n (Coordinator cp url gid ss m nw out) w = (Some (Ok ()), w')"
  shows "\<exists>cfg g pkp network input tx payload address K w1 sig_bytes s ts ws j.
    config_read S X cp w = (Some (Ok cfg), w) \<and> fmlookup (cf_group cfg) gid = Some g \<and>
    read_public_key_package X (gr_public_key_package g) = Some pkp \<and>
    message_text S place files m w = Some input \<and> network_id_try_from nw = Ok network \<and> from_str_network T input network = Ok tx \<and>
    (case from_json T (de_transaction_signature T) (trim input) of
       Ok previous \<Rightarrow> tx = ts_payload previous | _ \<Rightarrow> te_network_id tx = network) \<and>
    envelope_serialize T tx = Ok payload \<and> cc_message K = payload \<and> cc_public_key_package K = pkp \<and>
    group_signers X g ss (cc_signers K) \<and> cc_num_signers K = word_of_nat (map_len (cc_signers K)) \<and>
    coordinate_signing K (E address) T F n w1 = (Some (Ok sig_bytes), s) \<and>
    from_frost_signature_bytes C (sd_base58 (tx_serde T)) (tx_address T) (verifying_key X pkp) sig_bytes tx = Ok (ts, ws) \<and>
    ser_transaction_signature T ts = Ok j \<and> files w' (place out) = Some (tx_pretty T j)"
proof -
  from assms(3) obtain w1 cfg g pkp w2 signers network tx payload address K sig_bytes s where
    load: "load_coordinator_config S X cp gid w = (Some (Ok (cfg, g, pkp)), w1)"
    and signers: "parse_signers X ss g = Ok signers" and network: "network_id_try_from nw = Ok network"
    and tx: "load_transaction S T m network w1 = (Some (Ok tx), w2)" and payload: "envelope_serialize T tx = Ok payload"
    and K: "setup_coordinator_config U pkp signers cfg g url payload = Ok (address, K)"
    and run: "coordinate_signing K (E address) T F n w2 = (Some (Ok sig_bytes), s)"
    and save: "save_signature S T C out sig_bytes tx (verifying_key X pkp) (world s) = (Some (Ok ()), w')"
    by (rule coordinator_command_Ok)
  note read = load_coordinator_Ok[OF load] and conf = setup_coordinator_Ok[OF K]
  obtain input where input: "from_str_network T input network = Ok tx" "message_text S place files m w = Some input"
    using load_transaction_Ok[OF assms(1) tx] read(1) by metis
  obtain ts ws j where ts: "from_frost_signature_bytes C (sd_base58 (tx_serde T)) (tx_address T) (verifying_key X pkp) sig_bytes tx = Ok (ts, ws)"
    "ser_transaction_signature T ts = Ok j" "files w' (place out) = Some (tx_pretty T j)"
    using save_signature_Ok[OF assms(1) save] assms(2) by (auto simp del: lit_simps)
  have "group_signers X g ss (cc_signers K)" using parse_signers_Ok[OF signers] conf(1) by simp
  moreover note from_str_network_network[OF input(1)]
  moreover have "cc_num_signers K = word_of_nat (map_len (cc_signers K))" using conf(1,2) by simp
  ultimately show ?thesis using read(2-4) input network payload conf(3,4) run ts by blast
qed

text \<open>
  C6: a coordinator's command that succeeds has done what it was asked: it signed the transaction it was
  given, for the network named on the command line (or, when the input is the output of an earlier
  session, the transaction of that session with its own network), with exactly the listed signers of the
  group, each under the identifier the group's file gives it, and what it wrote is that
  transaction with the session's signature under the group's key.
\<close>

theorem coordinator_writes_what_was_signed:
  assumes "files_laws S place files temps" and "out \<noteq> lit ''-''"
    and "coordinator_command S X U T E F C n (Coordinator cp url gid ss m nw out) w = (Some (Ok ()), w')"
  shows "\<exists>cfg g pkp network input tx payload address K w1 sig_bytes s ts ws j.
    config_read S X cp w = (Some (Ok cfg), w) \<and> fmlookup (cf_group cfg) gid = Some g \<and>
    read_public_key_package X (gr_public_key_package g) = Some pkp \<and>
    message_text S place files m w = Some input \<and> network_id_try_from nw = Ok network \<and> from_str_network T input network = Ok tx \<and>
    (case from_json T (de_transaction_signature T) (trim input) of
       Ok previous \<Rightarrow> tx = ts_payload previous | _ \<Rightarrow> te_network_id tx = network) \<and>
    envelope_serialize T tx = Ok payload \<and> cc_message K = payload \<and> cc_public_key_package K = pkp \<and>
    group_signers X g ss (cc_signers K) \<and> cc_num_signers K = word_of_nat (map_len (cc_signers K)) \<and>
    coordinate_signing K (E address) T F n w1 = (Some (Ok sig_bytes), s) \<and>
    from_frost_signature_bytes C (sd_base58 (tx_serde T)) (tx_address T) (verifying_key X pkp) sig_bytes tx = Ok (ts, ws) \<and>
    ser_transaction_signature T ts = Ok j \<and> files w' (place out) = Some (tx_pretty T j)"
  by (rule coordinator_writes_lemma[OF assms])

section \<open>Who may coordinate\<close>

lemma setup_participant_Ok:
  assumes "setup_participant_config U cfg g kp url session = Ok (address, K)"
  shows "pc_key_package K = kp" and "pc_session_id K = session"
    and "pc_coordinator_getter K = Some (create_coordinator_pubkey_getter (gr_participant g))"
  using assms by (auto simp: setup_participant_config_def outcome_simps)

lemma coordinator_pubkey_getter_Some:
  "create_coordinator_pubkey_getter ps pk = Some pk' \<Longrightarrow> pk' = pk \<and> (\<exists>k p. fmlookup ps k = Some p \<and> pa_pubkey p = pk)"
  by (auto simp: create_coordinator_pubkey_getter_def dest!: find_btree_Some)

text \<open>
  C14: a participant only works on signing packages of members of the group it was asked to sign for:
  with the configuration the command makes, a package it accepts came in a message of a
  participant that the group's file lists, whoever else is in the address book.
\<close>

theorem package_from_group_member:
  assumes "setup_participant_config U cfg g kp url session = Ok (address, K)"
    and "brings (E address) genuine"
    and "get_signing_package K (E address) n commitments s = (Some (Ok args), s')"
  shows "\<exists>k p m. fmlookup (gr_participant g) k = Some p \<and> msg_sender m = pa_pubkey p \<and> genuine m \<and>
    decode_package (E address) (msg_bytes m) = Some args"
  using package_from_coordinator_lemma[OF assms(2,3)] setup_participant_Ok(3)[OF assms(1)]
    coordinator_pubkey_getter_Some by fastforce

section \<open>A signature that is lost\<close>

text \<open>
  The default of \<open>--signature\<close> is the empty path, which no file has: a coordinator that is not
  told where to write the signature fails after the whole session has run.
\<close>

theorem default_signature_path_fails:
  assumes "\<And>d w. \<not> fst (fs_write S [] d w)"
  shows "fst (coordinator_command S X U T E F C n (Coordinator cp url gid ss m nw []) w) \<noteq> Some (Ok ())"
proof
  assume "fst (coordinator_command S X U T E F C n (Coordinator cp url gid ss m nw []) w) = Some (Ok ())"
  then obtain w' where "coordinator_command S X U T E F C n (Coordinator cp url gid ss m nw []) w = (Some (Ok ()), w')"
    by (metis prod.collapse)
  then obtain sig_bytes tx vk v where save: "save_signature S T C [] sig_bytes tx vk v = (Some (Ok ()), w')"
    by (rule coordinator_command_Ok)
  then obtain shown v1 v2 where "attempt (fs_write S [] shown) v1 = (Some (Ok ()), v2)"
    by (auto simp: save_signature_def Let_def io_bind_Ok)
  then show False using assms by (auto simp: attempt_def split: prod.splits if_splits) (metis fst_conv)
qed

section \<open>Instances\<close>

text \<open>A server whose state is the number of rounds, on a world that also has the disk.\<close>

type_synonym disk_world = "nat \<times> demo_disk"

definition on_disk :: "(demo_disk \<Rightarrow> 'a \<times> demo_disk) \<Rightarrow> disk_world \<Rightarrow> 'a \<times> disk_world" where
  "on_disk call w = (case call (snd w) of (r, d) \<Rightarrow> (r, fst w, d))"

definition on_net :: "(nat \<Rightarrow> 'a \<times> nat) \<Rightarrow> disk_world \<Rightarrow> 'a \<times> disk_world" where
  "on_net call w = (case call (fst w) of (r, k) \<Rightarrow> (r, k, snd w))"

definition disk_system :: "rstr \<Rightarrow> (unit, disk_world) system_ext" where
  "disk_system typed = \<lparr>config_local_dir = Some [47], join_path = (@), is_absolute = (\<lambda>p. True), parent_of = Some,
     path_exists = (\<lambda>p w. dd_files (snd w) p \<noteq> None), is_dir = (\<lambda>p w. False), current_dir = (\<lambda>w. None),
     create_dir_all = (\<lambda>p w. (True, w)), fs_read = (\<lambda>p w. dd_files (snd w) p),
     fs_write = (\<lambda>p d. on_disk (fs_write system_demo p d)), tempfile_in = (\<lambda>p. on_disk (tempfile_in system_demo p)),
     temp_write_all = (\<lambda>t d. on_disk (temp_write_all system_demo t d)), temp_flush = (\<lambda>t w. (True, w)),
     temp_persist = (\<lambda>t p. on_disk (temp_persist system_demo t p)),
     stdin_text = (\<lambda>w. (Some typed, w)), print_text = (\<lambda>x w. (fst w, print_text system_demo x (snd w)))\<rparr>"

lemma disk_system_laws: "files_laws (disk_system typed) id (dd_files \<circ> snd) (\<lambda>w t. dd_temp (snd w))"
  by (simp add: files_laws_def disk_system_def on_disk_def system_demo_def absolute_path_def)

definition disk_server :: "(nat, comm_key, uuid) server_ext \<Rightarrow> (disk_world, comm_key, uuid) server_ext" where
  "disk_server V = \<lparr>srv_challenge = on_net (srv_challenge V), srv_login = (\<lambda>a. on_net (srv_login V a)),
     srv_logout = on_net (srv_logout V), srv_create_new_session = (\<lambda>a. on_net (srv_create_new_session V a)),
     srv_list_sessions = on_net (srv_list_sessions V), srv_get_session_info = (\<lambda>a. on_net (srv_get_session_info V a)),
     srv_send = (\<lambda>a. on_net (srv_send V a)), srv_receive = (\<lambda>a. on_net (srv_receive V a)),
     srv_close_session = (\<lambda>a. on_net (srv_close_session V a))\<rparr>"

definition coord_disk_for ::
  "(bytes \<Rightarrow> 'c) \<Rightarrow> (bytes \<Rightarrow> 's) \<Rightarrow> ('c, 's, 'sp, unit, unit, unit, disk_world) coord_env" where
  "coord_disk_for c s = \<lparr>srv = disk_server (demo_server [[2]] [[commitment_msg], [share_msg]]), snow = snow_plain,
     xed_sign = (\<lambda>_ _ w. ([], w)), key_order = (\<lambda>A. filter (\<lambda>k. k |\<in>| A) [[2]]),
     session_codec = \<lparr>decode_commitments = (\<lambda>bs. Some [c bs]), decode_shares = (\<lambda>bs. Some [s bs])\<rparr>,
     encode_package = (\<lambda>_. Some [])\<rparr>"

abbreviation coord_disk :: "(bytes, bytes, (nat, bytes) fmap \<times> bytes, unit, unit, unit, disk_world) coord_env" where
  "coord_disk \<equiv> coord_disk_for id id"

definition demo_group :: frost_group where
  "demo_group = \<lparr>gr_description = [], gr_public_key_package = [1], gr_key_package = [1], gr_server_url = Some [115],
     gr_participant = fmupd [50] \<lparr>pa_identifier = [20], pa_pubkey = [2]\<rparr> fmempty\<rparr>"

definition group_config :: config where
  "group_config = config_default\<lparr>
     cf_communication_key := Some \<lparr>ck_privkey = replicate 32 0, ck_pubkey = [1]\<rparr>,
     cf_group := fmupd [5] demo_group fmempty\<rparr>"

definition client_for :: "'vk \<Rightarrow> (nat, unit, unit, 'vk, disk_world) client_ext" where
  "client_for vk = \<lparr>toml_encode = (\<lambda>c. None), toml_decode = (\<lambda>s. Some group_config), hex_encode = id, hex_decode = Some,
     write_contact = (\<lambda>c. None), read_contact = (\<lambda>b. None), bech32_encode = (\<lambda>h b. None), bech32_decode = (\<lambda>s. None),
     write_key_package = (\<lambda>_. Some [1]), read_key_package = (\<lambda>_. Some ()), write_public_key_package = (\<lambda>_. Some [1]),
     read_public_key_package = (\<lambda>_. Some ()), key_min_signers = (\<lambda>k. 2), verifying_key = (\<lambda>_. vk),
     verifying_key_bytes = (\<lambda>_. Some [5]), verifying_key_address = (\<lambda>_. Some [6]), share_identifiers = (\<lambda>k. [20]),
     write_identifier = (\<lambda>i. [word_of_nat i]), read_identifier = (\<lambda>b. case b of [i] \<Rightarrow> Some (unat i) | _ \<Rightarrow> None),
     generate_keypair = (\<lambda>w. (None, w))\<rparr>"

abbreviation group_client :: "(nat, unit, unit, unit, disk_world) client_ext" where
  "group_client \<equiv> client_for ()"

definition url_demo :: "rstr url_ext" where
  "url_demo = \<lparr>url_parse = Some, url_host = Some, url_port = (\<lambda>_. Some 443)\<rparr>"

definition curve_demo :: "(unit, unit) curve_ext" where
  "curve_demo = \<lparr>curve_affine = (\<lambda>_. pk_point demo_key), curve_x = (\<lambda>_. Some 3), fp_bigint = (\<lambda>_. sig_field sig_demo),
     scalar_bigint = (\<lambda>_. sig_scalar sig_demo), frost_sig_deserialize = (\<lambda>_. Ok ((), ()))\<rparr>"

definition signed_demo :: transaction_signature where
  "signed_demo = \<lparr>ts_public_key = demo_key, ts_signature = sig_demo, ts_payload = new_legacy Mainnet demo_delegation\<rparr>"

definition group_disk :: disk_world where
  "group_disk = (0, \<lparr>dd_files = (\<lambda>p. if p = [3] then Some [] else None), dd_temp = [], dd_printed = []\<rparr>)"

definition disk_coordinator :: "bytes \<Rightarrow> (nat, unit) coord_config" where
  "disk_coordinator payload = \<lparr>cc_signers = fmupd [2] 20 fmempty, cc_num_signers = 1, cc_public_key_package = (),
     cc_message = payload, cc_comm_privkey = Some (replicate 32 0), cc_comm_pubkey = Some [1]\<rparr>"

lemma group_run:
  assumes "signing_bytes T (package_message F (package_new F (fmupd 20 (c [4]) fmempty) payload)) = Ok wire"
    and "aggregate F (package_new F (fmupd 20 (c [4]) fmempty) wire) (fmupd 20 (s [5]) fmempty) () = Some sg"
    and "signature_bytes F sg = Some bs"
  shows "\<exists>t k. coordinate_signing (disk_coordinator payload) (coord_disk_for c s) T F 1 (0, d) = (Some (Ok bs), t) \<and> world t = (k, d)"
  using assms
  by (simp add: disk_coordinator_def coordinate_signing_def or_cleanup_def get_signing_commitments_def log_in_def
      send_signing_package_and_get_signature_shares_def send_package_def coord_cipher_def close_step_def
      coord_receive_until_def coord_batch_def coord_handle_def commitments_step_def signing_bytes_step_def
      coord_comms_new_def coordinator_new_def coord_demo_defs coord_disk_for_def disk_server_def on_net_def
      sign_step_def private_key_sign_def step_eval
      commitment_msg_def share_msg_def demo_columns outcome_simps Let_def fcard.rep_eq)

lemma group_setup:
  "dd_files d [3] = Some [] \<Longrightarrow> load_coordinator_config (disk_system typed) (client_for vk) (Some [3]) [5] (0, d) =
    (Some (Ok (group_config\<lparr>cf_path := Some [3]\<rparr>, demo_group, ())), 0, d)"
  "parse_signers (client_for vk) [[2]] demo_group = Ok (fmupd [2] 20 fmempty)"
  "network_id_try_from (lit ''mainnet'') = Ok Mainnet"
  "\<exists>address. setup_coordinator_config url_demo () (fmupd [2] 20 fmempty) (group_config\<lparr>cf_path := Some [3]\<rparr>) demo_group None payload =
    Ok (address, disk_coordinator payload)"
proof -
  have "utf8_valid []" by code_simp
  then show "dd_files d [3] = Some [] \<Longrightarrow> load_coordinator_config (disk_system typed) (client_for vk) (Some [3]) [5] (0, d) =
    (Some (Ok (group_config\<lparr>cf_path := Some [3]\<rparr>, demo_group, ())), 0, d)"
    by (simp add: load_coordinator_config_def config_read_def parse_path_def group_of_def outside_def disk_system_def
        client_for_def group_config_def)
  show "parse_signers (client_for vk) [[2]] demo_group = Ok (fmupd [2] 20 fmempty)"
    by (simp add: parse_signers_def parse_signer_def participant_by_pubkey_def participant_identifier_def client_for_def
        demo_group_def btree_values_def sorted_list_of_fmap_def sorted_list_of_fset.rep_eq)
  show "network_id_try_from (lit ''mainnet'') = Ok Mainnet" by code_simp
  show "\<exists>address. setup_coordinator_config url_demo () (fmupd [2] 20 fmempty) (group_config\<lparr>cf_path := Some [3]\<rparr>) demo_group None payload =
    Ok (address, disk_coordinator payload)"
    by (simp add: setup_coordinator_config_def chosen_url_def parse_server_def host_and_port_def user_key_def url_demo_def
        demo_group_def group_config_def fcard.rep_eq disk_coordinator_def)
qed

lemma signed_demo_good: "good_signature tx_demo signed_demo"
  using demo_envelope_legacy
  by (simp add: good_signature_def signed_demo_def tx_demo_def serde_demo_def address_demo_def demo_key_def)

lemma demo_from_frost:
  "from_frost_signature_bytes curve_demo (sd_base58 (tx_serde tx_demo)) (tx_address tx_demo) () wire
    (new_legacy Mainnet demo_delegation) = Ok (signed_demo, None)"
  by (simp add: from_frost_signature_bytes_def from_frost_signature_def pub_key_of_verifying_key_def translate_pk_def
      sig_of_frost_def new_with_zkapp_injection_def curve_demo_def signed_demo_def new_legacy_def envelope_new_def)

lemma demo_trim: "\<forall>j. trim (json_print (tx_json tx_demo) j) = json_print (tx_json tx_demo) j"
  by (simp add: tx_demo_def json_demo_def trim_ones)

lemma signature_saved:
  assumes "from_frost_signature_bytes V (sd_base58 (tx_serde T)) (tx_address T) vk bs tx = Ok (ts, None)"
    and "ser_transaction_signature T ts = Ok j"
  shows "\<exists>w'. save_signature (disk_system typed) T V [9] bs tx vk (k, d) = (Some (Ok ()), w')"
  using assms
  by (simp add: save_signature_def print_warnings_def Let_def attempt_def print_out_def io_bind_def
      disk_system_def on_disk_def system_demo_def)

lemma demo_saved:
  "\<exists>w'. save_signature (disk_system typed) tx_demo curve_demo [9] wire (new_legacy Mainnet demo_delegation) () (k, d) =
    (Some (Ok ()), w')"
proof -
  obtain j where "ser_transaction_signature tx_demo signed_demo = Ok j"
    using read_signed[OF tx_demo_laws signed_demo_good demo_trim] by blast
  then show ?thesis by (rule signature_saved[OF demo_from_frost])
qed

text \<open>A session of one signer on the transaction typed at the terminal, from its parts.\<close>

abbreviation disk_command :: command where
  "disk_command \<equiv> Coordinator (Some [3]) None [5] [[2]] [] (lit ''mainnet'') [9]"

lemma disk_session:
  fixes F :: "(nat, 'c, 's, 'sp, unit, 'sg) frost_signing"
  assumes "from_str_network T typed Mainnet = Ok tx" and "envelope_serialize T tx = Ok payload"
    and "signing_bytes T (package_message F (package_new F (fmupd 20 (c [4]) fmempty) payload)) = Ok wire"
    and "aggregate F (package_new F (fmupd 20 (c [4]) fmempty) wire) (fmupd 20 (s [5]) fmempty) () = Some sg"
    and "signature_bytes F sg = Some bs"
    and "from_frost_signature_bytes V (sd_base58 (tx_serde T)) (tx_address T) vk bs tx = Ok (ts, None)"
    and "ser_transaction_signature T ts = Ok j"
  shows "\<exists>w'. coordinator_command (disk_system typed) (client_for vk) url_demo T (\<lambda>_. coord_disk_for c s) F V 1 disk_command group_disk =
    (Some (Ok ()), w')"
proof -
  let ?S = "disk_system typed"
  let ?d = "print_text system_demo (lit ''The message to be signed (json string)'' @ [10]) (snd group_disk)"
  have tx: "load_transaction ?S T [] Mainnet group_disk = (Some (Ok tx), 0, ?d)"
    by (simp add: load_transaction_def load_transaction_from_stdin_def load_transaction_from_str_def assms(1) disk_system_def
        print_out_def obtain_from_def io_bind_def group_disk_def del: lit_simps)
  from group_run[where c = c and s = s and d = ?d, OF assms(3-5)] obtain t k where
    run: "coordinate_signing (disk_coordinator payload) (coord_disk_for c s) T F 1 (0, ?d) = (Some (Ok bs), t)" "world t = (k, ?d)"
    by blast
  obtain address where K: "setup_coordinator_config url_demo () (fmupd [2] 20 fmempty) (group_config\<lparr>cf_path := Some [3]\<rparr>) demo_group None payload =
    Ok (address, disk_coordinator payload)"
    using group_setup(4) by blast
  have start: "load_coordinator_config ?S (client_for vk) (Some [3]) [5] group_disk =
    (Some (Ok (group_config\<lparr>cf_path := Some [3]\<rparr>, demo_group, ())), group_disk)"
    using group_setup(1)[of "snd group_disk" typed vk] by (simp add: group_disk_def)
  have vk: "verifying_key (client_for vk) () = vk" by (simp add: client_for_def)
  show ?thesis
    using start tx assms(2) K run signature_saved[OF assms(6,7), of typed k ?d]
    by (auto simp: io_bind_def group_setup(2,3) vk in_session_def cli_map_err_def simp del: lit_simps)
qed

lemma coordinator_demo:
  obtains typed w' where "coordinator_command (disk_system typed) group_client url_demo tx_demo (\<lambda>_. coord_disk)
    demo_signing curve_demo 1 disk_command group_disk = (Some (Ok ()), w')"
proof -
  from read_signed[OF tx_demo_laws signed_demo_good demo_trim, of Mainnet] obtain j where
    j: "ser_transaction_signature tx_demo signed_demo = Ok j"
    "from_str_network tx_demo (json_print (tx_json tx_demo) j) Mainnet = Ok (new_legacy Mainnet demo_delegation)"
    by (simp add: signed_demo_def) blast
  have payload: "envelope_serialize tx_demo (new_legacy Mainnet demo_delegation) = Ok demo_payload"
    using envelope_back[OF tx_demo_laws(1) demo_envelope_legacy] by (auto simp: demo_payload_def obind_Ok_iff)
  obtain wire where wire: "signing_bytes tx_demo demo_payload = Ok wire" using demo_wire by blast
  show thesis
    using disk_session[where F = demo_signing and c = id and s = id and sg = wire, OF j(2) payload _ _ _ demo_from_frost j(1)] wire that
    by (simp add: demo_signing_def) blast
qed

lemma coordinator_writes_what_was_signed_witness:
  "\<exists>typed w' ts j. coordinator_command (disk_system typed) group_client url_demo tx_demo (\<lambda>_. coord_disk)
    demo_signing curve_demo 1 (Coordinator (Some [3]) None [5] [[2]] [] (lit ''mainnet'') [9]) group_disk = (Some (Ok ()), w') \<and>
    ser_transaction_signature tx_demo ts = Ok j \<and> dd_files (snd w') [9] = Some (tx_pretty tx_demo j)"
proof -
  obtain typed w' where run: "coordinator_command (disk_system typed) group_client url_demo tx_demo (\<lambda>_. coord_disk)
    demo_signing curve_demo 1 (Coordinator (Some [3]) None [5] [[2]] [] (lit ''mainnet'') [9]) group_disk = (Some (Ok ()), w')"
    by (rule coordinator_demo)
  have "[9] \<noteq> lit ''-''" by simp
  from coordinator_writes_what_was_signed[OF disk_system_laws this run] run show ?thesis unfolding comp_def id_apply by blast
qed

lemma default_signature_path_fails_witness:
  "fst (coordinator_command (disk_system []) group_client url_demo tx_demo (\<lambda>_. coord_disk)
    demo_signing curve_demo 1 (Coordinator (Some [3]) None [5] [[2]] [] (lit ''mainnet'') []) group_disk) \<noteq> Some (Ok ())"
  by (rule default_signature_path_fails) (simp add: disk_system_def on_disk_def system_demo_def)

text \<open>A participant whose group lists the coordinator.\<close>

definition member_config :: config where
  "member_config = config_default\<lparr>cf_communication_key := Some \<lparr>ck_privkey = replicate 32 0, ck_pubkey = [2]\<rparr>\<rparr>"

definition member_group :: frost_group where
  "member_group = demo_group\<lparr>gr_participant := fmupd [50] \<lparr>pa_identifier = [20], pa_pubkey = [1]\<rparr> fmempty\<rparr>"

lemma package_from_group_member_witness:
  "\<exists>(m :: comm_key msg) p. fmlookup (gr_participant member_group) [50] = Some p \<and> msg_sender m = pa_pubkey p \<and>
    decode_package part_demo (msg_bytes m) = Some \<lparr>signing_package = [(fmempty, demo_payload)], aux_msg = []\<rparr>"
proof -
  obtain address K where K: "setup_participant_config url_demo member_config member_group () None [7] = Ok (address, K)"
    by (simp add: setup_participant_config_def chosen_url_def parse_server_def host_and_port_def user_key_def url_demo_def
        member_config_def member_group_def demo_group_def)
  then have fields: "K = part_demo_config\<lparr>pc_coordinator_getter := Some (create_coordinator_pubkey_getter (gr_participant member_group))\<rparr>"
    by (auto simp: setup_participant_config_def user_key_def member_config_def part_demo_config_def outcome_simps)
  have getter: "create_coordinator_pubkey_getter (gr_participant member_group) [1] = Some [1]"
    by (simp add: create_coordinator_pubkey_getter_def member_group_def btree_values_def sorted_list_of_fmap_def
        sorted_list_of_fset.rep_eq)
  have "\<exists>s'. get_signing_package K part_demo 2 [3] (part_comms_new K part_demo (0, [])) =
    (Some (Ok \<lparr>signing_package = [(fmempty, demo_payload)], aux_msg = []\<rparr>), s')"
    by (simp add: fields getter get_signing_package_def log_in_def sign_step_def private_key_sign_def require_session_def
        privkey_and_getter_def part_comms_new_def part_demo_defs step_eval numeral_2_eq_2 Let_def fcard.rep_eq)
  then obtain s' where "get_signing_package K part_demo 2 [3] (part_comms_new K part_demo (0, [])) =
    (Some (Ok \<lparr>signing_package = [(fmempty, demo_payload)], aux_msg = []\<rparr>), s')" ..
  from package_from_group_member[where E = "\<lambda>_. part_demo", OF K part_demo_brings this] obtain k p and m :: "comm_key msg" where
    "fmlookup (gr_participant member_group) k = Some p" "msg_sender m = pa_pubkey p"
    "decode_package part_demo (msg_bytes m) = Some \<lparr>signing_package = [(fmempty, demo_payload)], aux_msg = []\<rparr>" by blast
  then show ?thesis by (auto simp: member_group_def split: if_splits)
qed

end
