(* ===== verification/Frost_Suite.thy ===== *)
theory Frost_Suite
  imports Pallas_Message
begin

text \<open>
  The ciphersuite, \<^verbatim>\<open>frost-bluepallas/src/lib.rs\<close>, \<^verbatim>\<open>hasher.rs\<close> and
  \<^verbatim>\<open>negate.rs\<close>: serialisation of scalars and points, the hash functions over
  length-prefixed segments, and the step that FROST calls before it commits to a group
  commitment, in which signers and coordinator negate their commitments when the y-coordinate is
  odd. The scalar field is a type \<open>'s\<close>, the group of Pallas points an additive group
  \<open>'g\<close>; \<open>arkworks\<close> and \<open>frost-core\<close> are parameters.
\<close>

section \<open>Scalars and points\<close>

record ('s, 'g) suite_ext =
  sc_inverse :: "'s \<Rightarrow> 's option"
  sc_bytes :: "'s \<Rightarrow> bytes"
  sc_parse :: "bytes \<Rightarrow> 's option"
  sc_of_base :: "fp \<Rightarrow> 's"
  pt_generator :: 'g
  pt_mul :: "'s \<Rightarrow> 'g \<Rightarrow> 'g"
  pt_affine :: "'g \<Rightarrow> affine"
  pt_bytes :: "'g \<Rightarrow> bytes"
  pt_parse :: "bytes \<Rightarrow> 'g option"

definition GROUP_SIZE :: nat where "GROUP_SIZE = 33"
definition FIELD_SIZE :: nat where "FIELD_SIZE = 32"

datatype field_error = MalformedScalar | InvalidZeroScalar
datatype group_error = MalformedElement | InvalidIdentityElement

text \<open>Writing into the front of a zeroed buffer fails when the bytes do not fit.\<close>

definition into_buffer :: "nat \<Rightarrow> bytes \<Rightarrow> bytes option" where
  "into_buffer n bs = (if length bs \<le> n then Some (bs @ replicate (n - length bs) 0) else None)"

definition scalar_invert :: "('s, 'g) suite_ext \<Rightarrow> 's \<Rightarrow> (field_error, 's) outcome" where
  "scalar_invert C x = ok_or InvalidZeroScalar (sc_inverse C x)"

definition scalar_serialize :: "('s, 'g) suite_ext \<Rightarrow> 's \<Rightarrow> (field_error, bytes) outcome" where
  "scalar_serialize C x = (case into_buffer FIELD_SIZE (sc_bytes C x) of Some buf \<Rightarrow> Ok buf | None \<Rightarrow> Panic)"

definition little_endian_serialize :: "('s, 'g) suite_ext \<Rightarrow> 's \<Rightarrow> (field_error, bytes) outcome" where
  "little_endian_serialize C x = scalar_serialize C x"

definition scalar_deserialize :: "('s, 'g) suite_ext \<Rightarrow> bytes \<Rightarrow> (field_error, 's) outcome" where
  "scalar_deserialize C buf = ok_or MalformedScalar (sc_parse C buf)"

definition group_serialize :: "('s, 'g :: ab_group_add) suite_ext \<Rightarrow> 'g \<Rightarrow> (group_error, bytes) outcome" where
  "group_serialize C element =
     (if element = 0 then Err InvalidIdentityElement
      else ok_or MalformedElement (into_buffer GROUP_SIZE (pt_bytes C element)))"

definition group_deserialize :: "('s, 'g :: ab_group_add) suite_ext \<Rightarrow> bytes \<Rightarrow> (group_error, 'g) outcome" where
  "group_deserialize C buf = (case pt_parse C buf of
     Some p \<Rightarrow> if p = 0 then Err InvalidIdentityElement else Ok p
   | None \<Rightarrow> Err MalformedElement)"

text \<open>Compressed forms have their documented sizes, and parsing inverts them.\<close>

definition codec_laws :: "('s, 'g) suite_ext \<Rightarrow> bool" where
  "codec_laws C \<longleftrightarrow>
     (\<forall>x. length (sc_bytes C x) = 32 \<and> sc_parse C (sc_bytes C x) = Some x) \<and>
     (\<forall>P. length (pt_bytes C P) = 33 \<and> pt_parse C (pt_bytes C P) = Some P)"

section \<open>Hashing\<close>

definition HASH_ELEMENT_STRING :: rstr where "HASH_ELEMENT_STRING = lit ''PallasHashElement''"
definition CONTEXT_STRING :: rstr where "CONTEXT_STRING = lit ''bluepallas''"

definition length_prefix :: "'a list \<Rightarrow> bytes" where
  "length_prefix xs = le_bytes 8 (unat (word_of_nat (length xs) :: u64))"

definition segments_to_roinput :: "'r roinput_ext \<Rightarrow> bytes list \<Rightarrow> 'r" where
  "segments_to_roinput R segments =
     foldl (\<lambda>roi segment. roi_append_bytes R (roi_append_bytes R roi (length_prefix segment)) segment)
       (roi_append_bytes R (roi_new R) (length_prefix segments)) segments"

definition hash_to_scalar ::
  "('s, 'g) suite_ext \<Rightarrow> 'r roinput_ext \<Rightarrow> 'r hasher_ext \<Rightarrow> bytes list \<Rightarrow> 's" where
  "hash_to_scalar C R H input =
     sc_of_base C (hash_legacy H (Some HASH_ELEMENT_STRING) (segments_to_roinput R input))"

definition hash_to_array ::
  "('s, 'g) suite_ext \<Rightarrow> 'r roinput_ext \<Rightarrow> 'r hasher_ext \<Rightarrow> bytes list \<Rightarrow> (field_error, bytes) outcome" where
  "hash_to_array C R H input = scalar_serialize C (hash_to_scalar C R H input)"

text \<open>The hash functions of the suite, by the segments they hash; \<open>H2\<close> is not implemented.\<close>

datatype suite_hash = For_rho | For_nonce | For_msg | For_com | For_dkg | For_id

fun hash_tag :: "suite_hash \<Rightarrow> rstr" where
  "hash_tag For_rho = lit ''rho''"
| "hash_tag For_nonce = lit ''nonce''"
| "hash_tag For_msg = lit ''msg''"
| "hash_tag For_com = lit ''com''"
| "hash_tag For_dkg = lit ''dkg''"
| "hash_tag For_id = lit ''id''"

lemma length_hash_tag: "length (hash_tag h) < 2 ^ 64"
  by (cases h) simp_all

definition hash_segments :: "suite_hash \<Rightarrow> bytes \<Rightarrow> bytes list" where
  "hash_segments h m = [CONTEXT_STRING, hash_tag h, m]"

definition H1 :: "('s, 'g) suite_ext \<Rightarrow> 'r roinput_ext \<Rightarrow> 'r hasher_ext \<Rightarrow> bytes \<Rightarrow> 's" where
  "H1 C R H m = hash_to_scalar C R H (hash_segments For_rho m)"

definition H2 :: "bytes \<Rightarrow> ('e, 's) outcome" where
  "H2 m = Panic"

definition H3 :: "('s, 'g) suite_ext \<Rightarrow> 'r roinput_ext \<Rightarrow> 'r hasher_ext \<Rightarrow> bytes \<Rightarrow> 's" where
  "H3 C R H m = hash_to_scalar C R H (hash_segments For_nonce m)"

definition H4 :: "('s, 'g) suite_ext \<Rightarrow> 'r roinput_ext \<Rightarrow> 'r hasher_ext \<Rightarrow> bytes \<Rightarrow> (field_error, bytes) outcome" where
  "H4 C R H m = hash_to_array C R H (hash_segments For_msg m)"

definition H5 :: "('s, 'g) suite_ext \<Rightarrow> 'r roinput_ext \<Rightarrow> 'r hasher_ext \<Rightarrow> bytes \<Rightarrow> (field_error, bytes) outcome" where
  "H5 C R H m = hash_to_array C R H (hash_segments For_com m)"

definition HDKG :: "('s, 'g) suite_ext \<Rightarrow> 'r roinput_ext \<Rightarrow> 'r hasher_ext \<Rightarrow> bytes \<Rightarrow> 's option" where
  "HDKG C R H m = Some (hash_to_scalar C R H (hash_segments For_dkg m))"

definition HID :: "('s, 'g) suite_ext \<Rightarrow> 'r roinput_ext \<Rightarrow> 'r hasher_ext \<Rightarrow> bytes \<Rightarrow> 's option" where
  "HID C R H m = Some (hash_to_scalar C R H (hash_segments For_id m))"

section \<open>Negation\<close>

record 's signing_nonces =
  hiding_nonce :: 's
  binding_nonce :: 's

record 'g signing_commitments =
  nc_hiding :: 'g
  nc_binding :: 'g

record ('id, 'g) signing_package =
  sp_commitments :: "('id, 'g signing_commitments) fmap"
  sp_message :: bytes

definition negate_nonces :: "'s :: ab_group_add signing_nonces \<Rightarrow> 's signing_nonces" where
  "negate_nonces n = \<lparr>hiding_nonce = - hiding_nonce n, binding_nonce = - binding_nonce n\<rparr>"

definition negate_commitments :: "'g :: ab_group_add signing_commitments \<Rightarrow> 'g signing_commitments" where
  "negate_commitments c = \<lparr>nc_hiding = - nc_hiding c, nc_binding = - nc_binding c\<rparr>"

definition negate_package :: "('id, 'g :: ab_group_add) signing_package \<Rightarrow> ('id, 'g) signing_package" where
  "negate_package p = \<lparr>sp_commitments = fmmap negate_commitments (sp_commitments p), sp_message = sp_message p\<rparr>"

section \<open>Before the commitment\<close>

text \<open>
  \<open>'b\<close> is frost-core's list of binding factors, \<open>'e\<close> its errors; the group commitment of a
  package under such a list is its function.
\<close>

type_synonym ('id, 'g, 'b, 'e) group_commitment = "('id, 'g) signing_package \<Rightarrow> 'b \<Rightarrow> ('e, 'g) outcome"

definition y_is_even :: "('s, 'g) suite_ext \<Rightarrow> 'g \<Rightarrow> bool" where
  "y_is_even C P \<longleftrightarrow> even (aff_y (pt_affine C P))"

definition pre_commitment_aggregate ::
  "('s, 'g :: ab_group_add) suite_ext \<Rightarrow> ('id, 'g, 'b, 'e) group_commitment \<Rightarrow> ('id, 'g) signing_package \<Rightarrow> 'b \<Rightarrow>
    ('e, ('id, 'g) signing_package) outcome" where
  "pre_commitment_aggregate C compute_group_commitment signing_package binding_factor_list =
     obind (compute_group_commitment signing_package binding_factor_list) (\<lambda>commit.
     if y_is_even C commit then Ok signing_package else Ok (negate_package signing_package))"

definition pre_commitment_sign ::
  "('s :: ab_group_add, 'g :: ab_group_add) suite_ext \<Rightarrow> ('id, 'g, 'b, 'e) group_commitment \<Rightarrow>
    ('id, 'g) signing_package \<Rightarrow> 's signing_nonces \<Rightarrow> 'b \<Rightarrow>
    ('e, ('id, 'g) signing_package \<times> 's signing_nonces) outcome" where
  "pre_commitment_sign C compute_group_commitment signing_package nonces binding_factor_list =
     obind (compute_group_commitment signing_package binding_factor_list) (\<lambda>commit.
     if y_is_even C commit then Ok (signing_package, nonces)
     else Ok (negate_package signing_package, negate_nonces nonces))"

section \<open>What is hashed\<close>

lemma length_prefix_inject:
  "length xs < 2 ^ 64 \<Longrightarrow> length ys < 2 ^ 64 \<Longrightarrow> length_prefix xs = length_prefix ys \<longleftrightarrow> length xs = length ys"
  by (simp add: length_prefix_def le_bytes_inject unsigned_of_nat take_bit_nat_eq_self)

lemma length_length_prefix [simp]: "length (length_prefix xs) = 8"
  by (simp add: length_prefix_def)

text \<open>The bytes of the segments, each after its length, and all after their number.\<close>

definition segments_bytes :: "bytes list \<Rightarrow> bytes" where
  "segments_bytes segments = length_prefix segments @ concat (map (\<lambda>s. length_prefix s @ s) segments)"

lemma observed_segments:
  assumes "roi_observed R fs bs"
  shows "bs (segments_to_roinput R segments) = bytes_lsb_bits (segments_bytes segments)"
proof -
  have step: "bs (roi_append_bytes R r x) = bs r @ bytes_lsb_bits x" for r x
    using assms by (simp add: roi_observed_def)
  have "bs (foldl (\<lambda>roi segment. roi_append_bytes R (roi_append_bytes R roi (length_prefix segment)) segment) r segments)
      = bs r @ bytes_lsb_bits (concat (map (\<lambda>s. length_prefix s @ s) segments))" for r
    by (induction segments arbitrary: r) (simp_all add: step bytes_lsb_bits_def)
  then show ?thesis
    using assms by (simp add: segments_to_roinput_def segments_bytes_def step roi_observed_def bytes_lsb_bits_def)
qed

lemma prefixed_inject:
  assumes "concat (map (\<lambda>s. length_prefix s @ s) xs) = concat (map (\<lambda>s. length_prefix s @ s) ys)"
    and "length xs = length ys" and "\<forall>s \<in> set xs \<union> set ys. length (s :: bytes) < 2 ^ 64"
  shows "xs = ys"
  using assms(2,1,3)
proof (induction xs ys rule: list_induct2)
  case (Cons x xs y ys)
  then have "length_prefix x = length_prefix y" by simp
  then have "length x = length y" using Cons.prems(2) length_prefix_inject[of x y] by simp
  with Cons.prems(1) have "x = y" "concat (map (\<lambda>s. length_prefix s @ s) xs) = concat (map (\<lambda>s. length_prefix s @ s) ys)"
    by simp_all
  with Cons show ?case by simp
qed simp

lemma segments_bytes_inject:
  assumes "segments_bytes xs = segments_bytes ys"
    and "length xs < 2 ^ 64" and "length ys < 2 ^ 64" and "\<forall>s \<in> set xs \<union> set ys. length s < 2 ^ 64"
  shows "xs = ys"
proof -
  from assms(1) have "length_prefix xs = length_prefix ys"
    and rest: "concat (map (\<lambda>s. length_prefix s @ s) xs) = concat (map (\<lambda>s. length_prefix s @ s) ys)"
    by (simp_all add: segments_bytes_def)
  then have "length xs = length ys" using length_prefix_inject[OF assms(2,3)] by simp
  from prefixed_inject[OF rest this assms(4)] show ?thesis .
qed

text \<open>
  C27: the suite's hash inputs are separated: two calls of its hash functions hash the same
  random-oracle input only if they are the same function on the same message, for messages of
  fewer than \<open>2 ^ 64\<close> bytes.
\<close>

theorem hash_inputs_separated:
  assumes "roi_observed R fs bs" and "length m < 2 ^ 64" and "length m' < 2 ^ 64"
    and "bs (segments_to_roinput R (hash_segments h m)) = bs (segments_to_roinput R (hash_segments h' m'))"
  shows "h = h' \<and> m = m'"
proof -
  note bits = assms(4)[unfolded observed_segments[OF assms(1)]]
  from bits have "segments_bytes (hash_segments h m) = segments_bytes (hash_segments h' m')"
    using arg_cong[OF bits, of length] by (subst (asm) bytes_lsb_bits_inject) simp_all
  then have "hash_segments h m = hash_segments h' m'"
    by (rule segments_bytes_inject) (use assms(2,3) in \<open>auto simp: hash_segments_def CONTEXT_STRING_def length_hash_tag[simplified]\<close>)
  then show ?thesis by (cases h; cases h') (simp_all add: hash_segments_def)
qed

lemma hash_inputs_separated_witness:
  "snd (segments_to_roinput roi_demo (hash_segments For_rho [1, 0])) \<noteq> snd (segments_to_roinput roi_demo (hash_segments For_rho [1]))"
  using hash_inputs_separated[OF roi_demo_observed, of "[1, 0]" "[1]" For_rho For_rho] by auto

section \<open>Round trips\<close>

theorem scalar_roundtrip:
  assumes "codec_laws C"
  shows "obind (scalar_serialize C x) (scalar_deserialize C) = Ok x"
  using assms by (simp add: codec_laws_def scalar_serialize_def scalar_deserialize_def into_buffer_def FIELD_SIZE_def outcome_simps)

theorem group_roundtrip:
  assumes "codec_laws C"
  shows "obind (group_serialize C P) (group_deserialize C) = (if P = 0 then Err InvalidIdentityElement else Ok P)"
  using assms by (simp add: codec_laws_def group_serialize_def group_deserialize_def into_buffer_def GROUP_SIZE_def outcome_simps)

lemma group_deserialize_nonzero: "group_deserialize C buf = Ok P \<Longrightarrow> P \<noteq> 0"
  by (auto simp: group_deserialize_def split: option.splits if_splits)

section \<open>Even commitments\<close>

text \<open>
  What is relied on: scalar multiplication is linear; of a point and its negation, other than the
  identity, one has an even y-coordinate, and the identity's coordinates are zero; and the group
  commitment is the sum of the hiding commitments and the weighted binding commitments, refused when
  a commitment is the identity or a factor is missing.
\<close>

definition curve_laws :: "('s :: comm_ring_1, 'g :: ab_group_add) suite_ext \<Rightarrow> bool" where
  "curve_laws C \<longleftrightarrow>
     (\<forall>a P Q. pt_mul C a (P + Q) = pt_mul C a P + pt_mul C a Q) \<and>
     (\<forall>a b P. pt_mul C (a + b) P = pt_mul C a P + pt_mul C b P) \<and>
     (\<forall>P. P \<noteq> 0 \<longrightarrow> y_is_even C (- P) = (\<not> y_is_even C P)) \<and> y_is_even C 0 \<and>
     (\<forall>P. aff_x (pt_affine C (- P)) = aff_x (pt_affine C P))"

definition usable :: "('b \<Rightarrow> 'id \<Rightarrow> 's option) \<Rightarrow> ('id, 'g :: zero) signing_package \<Rightarrow> 'b \<Rightarrow> bool" where
  "usable factor p b \<longleftrightarrow> (\<forall>i. case fmlookup (sp_commitments p) i of
     Some c \<Rightarrow> nc_hiding c \<noteq> 0 \<and> nc_binding c \<noteq> 0 \<and> factor b i \<noteq> None | None \<Rightarrow> True)"

definition commitment_sum ::
  "('s, 'g :: comm_monoid_add) suite_ext \<Rightarrow> ('b \<Rightarrow> 'id \<Rightarrow> 's option) \<Rightarrow> ('id, 'g) signing_package \<Rightarrow> 'b \<Rightarrow> 'g" where
  "commitment_sum C factor p b = (\<Sum>i \<in> fset (fmdom (sp_commitments p)).
     (case fmlookup (sp_commitments p) i of Some c \<Rightarrow> nc_hiding c + pt_mul C (the (factor b i)) (nc_binding c) | None \<Rightarrow> 0))"

definition sums_commitments ::
  "('s, 'g :: ab_group_add) suite_ext \<Rightarrow> ('b \<Rightarrow> 'id \<Rightarrow> 's option) \<Rightarrow> ('id, 'g, 'b, 'e) group_commitment \<Rightarrow> bool" where
  "sums_commitments C factor gc \<longleftrightarrow> (\<forall>p b.
     if usable factor p b then gc p b = Ok (commitment_sum C factor p b) else \<exists>e. gc p b = Err e)"

lemma mul_minus:
  assumes "curve_laws C"
  shows "pt_mul C a (- P) = - pt_mul C a P"
proof -
  have "pt_mul C a 0 + pt_mul C a 0 = pt_mul C a 0" using assms by (metis add_0 curve_laws_def)
  then have "pt_mul C a 0 = 0" by simp
  moreover have "pt_mul C a (- P) + pt_mul C a P = pt_mul C a 0" using assms by (metis add.left_inverse curve_laws_def)
  ultimately show ?thesis by (simp add: add_eq_0_iff)
qed

lemma usable_negate: "usable factor (negate_package p) b \<longleftrightarrow> usable factor p b"
  by (simp add: usable_def negate_package_def negate_commitments_def case_map_option o_def cong: option.case_cong)

lemma commitment_sum_negate:
  assumes "curve_laws C"
  shows "commitment_sum C factor (negate_package p) b = - commitment_sum C factor p b"
  unfolding commitment_sum_def sum_negf[symmetric]
  by (rule sum.cong) (auto simp: negate_package_def negate_commitments_def mul_minus[OF assms] split: option.split)

lemma group_commitment_negate:
  assumes "curve_laws C" and "sums_commitments C factor gc" and "gc p b = Ok R"
  shows "gc (negate_package p) b = Ok (- R)"
proof -
  have "usable factor p b" "R = commitment_sum C factor p b"
    using assms(2,3) unfolding sums_commitments_def by (metis outcome.distinct(1) outcome.inject(1))+
  then show ?thesis
    using assms(2) usable_negate[of factor p b] commitment_sum_negate[OF assms(1), of factor p b]
    unfolding sums_commitments_def by metis
qed

lemma even_or_negated:
  assumes "curve_laws C" and "\<not> y_is_even C R"
  shows "y_is_even C (- R)"
  using assms unfolding curve_laws_def by metis

text \<open>Nonces belong to a participant's commitments.\<close>

definition commits_to :: "('s, 'g) suite_ext \<Rightarrow> 's signing_nonces \<Rightarrow> 'g signing_commitments \<Rightarrow> bool" where
  "commits_to C n c \<longleftrightarrow> nc_hiding c = pt_mul C (hiding_nonce n) (pt_generator C) \<and>
     nc_binding c = pt_mul C (binding_nonce n) (pt_generator C)"

lemma minus_mul:
  assumes "curve_laws C"
  shows "pt_mul C (- a) P = - pt_mul C a P"
proof -
  have "pt_mul C 0 P + pt_mul C 0 P = pt_mul C 0 P" using assms by (metis add_0 curve_laws_def)
  then have "pt_mul C 0 P = 0" by simp
  moreover have "pt_mul C (- a) P + pt_mul C a P = pt_mul C 0 P" using assms by (metis add.left_inverse curve_laws_def)
  ultimately show ?thesis by (simp add: add_eq_0_iff)
qed

lemma commits_to_negate:
  "curve_laws C \<Longrightarrow> commits_to C n c \<Longrightarrow> commits_to C (negate_nonces n) (negate_commitments c)"
  by (simp add: commits_to_def negate_nonces_def negate_commitments_def minus_mul)

lemma pre_commitment_cases:
  assumes "curve_laws C" and "sums_commitments C factor gc"
    and "pre_commitment_aggregate C gc p b = Ok p'"
  obtains R where "gc p b = Ok R" "y_is_even C R" "p' = p"
  | R where "gc p b = Ok R" "\<not> y_is_even C R" "p' = negate_package p" "gc p' b = Ok (- R)" "y_is_even C (- R)"
      "aff_x (pt_affine C (- R)) = aff_x (pt_affine C R)"
proof -
  from assms(3) obtain R where R: "gc p b = Ok R" and p': "p' = (if y_is_even C R then p else negate_package p)"
    by (auto simp: pre_commitment_aggregate_def outcome_simps split: if_splits)
  show thesis
  proof (cases "y_is_even C R")
    case True
    with R p' show ?thesis by (intro that(1)) simp_all
  next
    case False
    have "gc (negate_package p) b = Ok (- R)" "y_is_even C (- R)" "aff_x (pt_affine C (- R)) = aff_x (pt_affine C R)"
      using group_commitment_negate[OF assms(1,2) R] even_or_negated[OF assms(1) False] assms(1)
      by (simp_all add: curve_laws_def)
    with R p' False show ?thesis by (intro that(2)) simp_all
  qed
qed

lemma pre_commitment_even:
  assumes "curve_laws C" and "sums_commitments C factor gc"
    and "pre_commitment_aggregate C gc p b = Ok p'" and "gc p' b = Ok R"
  shows "y_is_even C R"
  by (rule pre_commitment_cases[OF assms(1-3)]) (use assms(4) in auto)

text \<open>
  C8: signers and coordinator come to the same package: from a package and its binding factors every
  signer's preparation gives the package of the coordinator's, its group commitment has an even
  y-coordinate and the x-coordinate of the original one, and a signer's nonces still belong to
  the commitments the package has for it.
\<close>

theorem pre_commitment_agrees:
  assumes "curve_laws C" and "sums_commitments C factor gc"
    and "pre_commitment_aggregate C gc p b = Ok p'"
  shows "\<exists>R R'. gc p b = Ok R \<and> gc p' b = Ok R' \<and> y_is_even C R' \<and>
    aff_x (pt_affine C R') = aff_x (pt_affine C R) \<and> sp_message p' = sp_message p \<and>
    (\<forall>n. \<exists>n'. pre_commitment_sign C gc p n b = Ok (p', n') \<and>
      (\<forall>i c. fmlookup (sp_commitments p) i = Some c \<and> commits_to C n c \<longrightarrow>
        (\<exists>c'. fmlookup (sp_commitments p') i = Some c' \<and> commits_to C n' c')))"
proof (cases rule: pre_commitment_cases[OF assms])
  case (1 R)
  then show ?thesis by (auto simp: pre_commitment_sign_def)
next
  case (2 R)
  then have "pre_commitment_sign C gc p n b = Ok (p', negate_nonces n)" for n
    by (simp add: pre_commitment_sign_def)
  then show ?thesis using 2 commits_to_negate[OF assms(1)] by (auto simp: negate_package_def)
qed

section \<open>A Mina signature\<close>

text \<open>
  Aggregation is frost-core's. It prepares the package, takes the group commitment of the result,
  and returns a signature only if that verifies with the suite's challenge (which it checks).
\<close>

type_synonym ('s, 'g) frost_signature = "'g \<times> 's"

definition aggregates ::
  "('s, 'g :: ab_group_add) suite_ext \<Rightarrow> ('id, 'g, 'b, 'e) group_commitment \<Rightarrow> ('g \<Rightarrow> 'g \<Rightarrow> bytes \<Rightarrow> ('m, 's) outcome) \<Rightarrow>
    (('id, 'g) signing_package \<Rightarrow> 'shares \<Rightarrow> 'pkp \<Rightarrow> ('e, ('s, 'g) frost_signature) outcome) \<Rightarrow> ('pkp \<Rightarrow> 'g) \<Rightarrow> bool" where
  "aggregates C gc chal core_aggregate verifying_key \<longleftrightarrow> (\<forall>p shares pkp R z.
     core_aggregate p shares pkp = Ok (R, z) \<longrightarrow> (\<exists>b p' c.
       pre_commitment_aggregate C gc p b = Ok p' \<and> gc p' b = Ok R \<and>
       chal R (verifying_key pkp) (sp_message p) = Ok c \<and>
       pt_mul C z (pt_generator C) = R + pt_mul C c (verifying_key pkp)))"

text \<open>
  Mina's verification (\<open>mina_signer\<close>) of a signature \<open>(rx, z)\<close>: with the hash of the message,
  the key and \<open>rx\<close> as challenge, the point \<open>z G - c PK\<close> is not the identity, has an even
  y-coordinate, and its x-coordinate is \<open>rx\<close>.
\<close>

definition mina_verifies ::
  "('s, 'g :: ab_group_add) suite_ext \<Rightarrow> 'r roinput_ext \<Rightarrow> 'r hasher_ext \<Rightarrow> 'g \<Rightarrow> fp \<times> 's \<Rightarrow> 'r pallas_message \<Rightarrow> bool" where
  "mina_verifies C R H vk sg m \<longleftrightarrow>
     (let c = message_hash R H (sc_of_base C) \<lparr>pk_point = pt_affine C vk\<rparr> (fst sg) (pm_input m) (pm_network_id m) (pm_is_legacy m);
          P = pt_mul C (snd sg) (pt_generator C) - pt_mul C c vk
      in P \<noteq> 0 \<and> y_is_even C P \<and> aff_x (pt_affine C P) = fst sg)"

abbreviation suite_challenge ::
  "('s, 'g) suite_ext \<Rightarrow> 'r roinput_ext \<Rightarrow> 'r hasher_ext \<Rightarrow> 'g \<Rightarrow> 'g \<Rightarrow> bytes \<Rightarrow> (mina_tx_error, 's) outcome" where
  "suite_challenge C R H \<equiv> challenge R H (sc_of_base C) (pt_affine C)"

lemma aggregate_verifies:
  fixes C :: "('s :: comm_ring_1, 'g :: ab_group_add) suite_ext" and p :: "('id, 'g) signing_package"
  assumes "curve_laws C" and "sums_commitments C factor gc"
    and "aggregates C gc (suite_challenge C R H) core_aggregate verifying_key"
    and "roi_roundtrip R" and "network_string (pm_network_id m)" and "length (roi_serialize R (pm_input m)) < 2 ^ 32"
    and "Pallas_Message.serialize R m = Ok (sp_message p)"
    and "core_aggregate p shares pkp = Ok sg" and "group_serialize C (fst sg) = Ok bs"
  shows "\<exists>rz. translate_sig (pt_affine C) sg = Ok rz \<and> mina_verifies C R H (verifying_key pkp) rz m"
proof -
  obtain Q z where sg: "sg = (Q, z)" by (cases sg)
  from assms(3,8) obtain b p' c where p': "pre_commitment_aggregate C gc p b = Ok p'" "gc p' b = Ok Q"
    and c: "suite_challenge C R H Q (verifying_key pkp) (sp_message p) = Ok c"
    and eq: "pt_mul C z (pt_generator C) = Q + pt_mul C c (verifying_key pkp)"
    unfolding aggregates_def sg by metis
  have even: "y_is_even C Q" using pre_commitment_even[OF assms(1,2) p'] .
  have "Q \<noteq> 0" using assms(9) by (auto simp: sg group_serialize_def split: if_splits)
  moreover have "Pallas_Message.deserialize R (sp_message p) = Ok m"
    using deserialize_serialize[OF assms(4) _ assms(5,6)] assms(7)
    by (cases "network_header (pm_network_id m)") (auto simp: Pallas_Message.serialize_def Let_def)
  then have "c = message_hash R H (sc_of_base C) \<lparr>pk_point = pt_affine C (verifying_key pkp)\<rparr> (aff_x (pt_affine C Q))
      (pm_input m) (pm_network_id m) (pm_is_legacy m)"
    using c by (simp add: challenge_def translate_pk_def)
  ultimately show ?thesis
    using eq even by (simp add: sg translate_sig_def mina_verifies_def Let_def)
qed

text \<open>
  What the suite aggregates is a Mina signature: a signature over the bytes of a Pallas message
  that aggregation returns and that can be serialised translates to one that Mina's verification
  accepts for that message and the group's key.
\<close>

theorem aggregate_is_mina_signature:
  fixes C :: "('s :: comm_ring_1, 'g :: ab_group_add) suite_ext" and p :: "('id, 'g) signing_package"
  assumes "curve_laws C" and "sums_commitments C factor gc"
    and "aggregates C gc (suite_challenge C R H) core_aggregate verifying_key"
    and "roi_roundtrip R" and "network_string (pm_network_id m)" and "length (roi_serialize R (pm_input m)) < 2 ^ 32"
    and "Pallas_Message.serialize R m = Ok (sp_message p)"
    and "core_aggregate p shares pkp = Ok sg" and "group_serialize C (fst sg) = Ok bs"
  shows "\<exists>rz. translate_sig (pt_affine C) sg = Ok rz \<and> mina_verifies C R H (verifying_key pkp) rz m"
  by (rule aggregate_verifies[OF assms])

section \<open>An instance\<close>

text \<open>
  Integers in the place of points: the x-coordinate is the absolute value, and the y-coordinate is
  odd for the negative ones.
\<close>

definition int_curve :: "(int, int) suite_ext" where
  "int_curve = \<lparr>sc_inverse = Some, sc_bytes = (\<lambda>x. []), sc_parse = (\<lambda>bs. None), sc_of_base = int,
     pt_generator = 1, pt_mul = (*), pt_affine = (\<lambda>P. \<lparr>aff_x = nat \<bar>P\<bar>, aff_y = (if P < 0 then 1 else 0)\<rparr>),
     pt_bytes = (\<lambda>P. []), pt_parse = (\<lambda>bs. None)\<rparr>"

definition int_factor :: "int \<Rightarrow> nat \<Rightarrow> int option" where
  "int_factor b i = Some b"

definition int_commitment :: "(nat, int, int, unit) group_commitment" where
  "int_commitment p b = (if usable int_factor p b then Ok (commitment_sum int_curve int_factor p b) else Err ())"

lemma int_curve_laws: "curve_laws int_curve" "sums_commitments int_curve int_factor int_commitment"
  by (auto simp: curve_laws_def int_curve_def y_is_even_def sums_commitments_def int_commitment_def algebra_simps)

definition int_package :: "bytes \<Rightarrow> (nat, int) signing_package" where
  "int_package m = \<lparr>sp_commitments = fmupd 1 \<lparr>nc_hiding = - 3, nc_binding = 1\<rparr> fmempty, sp_message = m\<rparr>"

lemma int_commitment_eq: "int_commitment (int_package m) 1 = Ok (- 2)"
  by (simp add: int_commitment_def usable_def int_package_def int_factor_def commitment_sum_def int_curve_def)

lemma int_prepared: "pre_commitment_aggregate int_curve int_commitment (int_package m) 1 = Ok (negate_package (int_package m))"
  by (simp add: pre_commitment_aggregate_def int_commitment_eq y_is_even_def int_curve_def)

lemma pre_commitment_agrees_witness:
  "\<exists>R'. int_commitment (negate_package (int_package [])) 1 = Ok R' \<and> y_is_even int_curve R' \<and>
    (\<exists>n'. pre_commitment_sign int_curve int_commitment (int_package []) \<lparr>hiding_nonce = - 3, binding_nonce = 1\<rparr> 1 =
      Ok (negate_package (int_package []), n'))"
  using pre_commitment_agrees[OF int_curve_laws int_prepared] by blast

definition int_hasher :: "bytes hasher_ext" where
  "int_hasher = \<lparr>hash_legacy = (\<lambda>_ bs. length bs), hash_kimchi = (\<lambda>_ bs. length bs)\<rparr>"

definition int_aggregate ::
  "'r roinput_ext \<Rightarrow> 'r hasher_ext \<Rightarrow> (nat, int) signing_package \<Rightarrow> 'sh \<Rightarrow> unit \<Rightarrow> (unit, (int, int) frost_signature) outcome" where
  "int_aggregate R H p shares pkp =
     (case pre_commitment_aggregate int_curve int_commitment p 1 of
        Ok p' \<Rightarrow> (case int_commitment p' 1 of
          Ok P \<Rightarrow> (case suite_challenge int_curve R H P 7 (sp_message p) of
            Ok c \<Rightarrow> Ok (P, P + c * 7) | _ \<Rightarrow> Err ())
        | _ \<Rightarrow> Err ())
      | _ \<Rightarrow> Err ())"

lemma int_aggregates: "aggregates int_curve int_commitment (suite_challenge int_curve R H) (int_aggregate R H) (\<lambda>_. 7)"
  unfolding aggregates_def int_aggregate_def
  by (auto split: outcome.splits) (force simp: int_curve_def)

lemma aggregate_is_mina_signature_witness:
  "\<exists>bs z. Pallas_Message.serialize roi_bytes_demo (from_parts [1] Testnet True) = Ok bs \<and>
    int_aggregate roi_bytes_demo int_hasher (int_package bs) () () = Ok (2, z) \<and>
    mina_verifies int_curve roi_bytes_demo int_hasher 7 (2, z) (from_parts [1] Testnet True)"
proof -
  let ?m = "from_parts [1] Testnet True :: bytes pallas_message"
  have m: "network_string (pm_network_id ?m)" "length (roi_serialize roi_bytes_demo (pm_input ?m)) < 2 ^ 32"
    "network_header (pm_network_id ?m) = Ok [0]"
    by (simp_all add: from_parts_def roi_bytes_demo_def)
  obtain bs where bs: "Pallas_Message.serialize roi_bytes_demo ?m = Ok bs" "Pallas_Message.deserialize roi_bytes_demo bs = Ok ?m"
    using deserialize_serialize[OF roi_bytes_demo_laws(1) m(3) m(1,2)] by blast
  have "int_commitment (negate_package (int_package bs)) 1 = Ok 2"
    using group_commitment_negate[OF int_curve_laws int_commitment_eq] by simp
  moreover have "message_hash roi_bytes_demo int_hasher (sc_of_base int_curve) k rx [1] n l = 1" for k rx n l
    by (simp add: message_hash_def int_hasher_def int_curve_def roi_bytes_demo_def Let_def)
  then have "suite_challenge int_curve roi_bytes_demo int_hasher Q 7 bs = Ok 1" for Q
    using bs(2) by (simp add: challenge_def translate_pk_def from_parts_def)
  ultimately have sg: "int_aggregate roi_bytes_demo int_hasher (int_package bs) () () = Ok (2, 9)"
    using int_prepared[of bs] by (simp add: int_aggregate_def int_package_def)
  have "group_serialize int_curve (fst (2, 9 :: int)) = Ok (replicate 33 0)"
    by (simp add: group_serialize_def into_buffer_def GROUP_SIZE_def int_curve_def)
  from aggregate_is_mina_signature[OF int_curve_laws int_aggregates roi_bytes_demo_laws(1) m(1,2) _ sg this] bs(1) sg
  show ?thesis by (auto simp: int_package_def translate_sig_def int_curve_def)
qed

end
