(* ===== verification/Valid_Signatures.thy ===== *)
theory Valid_Signatures
  imports Signing_Commands Frost_Suite
begin

text \<open>
  From the coordinator's command line to Mina's verification: the layers of the three crates put
  together. The FROST functions of a session are those of frost-core over the ciphersuite, and
  the signature in the file the coordinator writes is one that Mina's verification accepts for
  the transaction the coordinator was given.
\<close>

section \<open>What connects the layers\<close>

text \<open>
  The FROST functions of a session are frost-core's: a signing package holds the message it was
  made for, and aggregation is the suite's.
\<close>

definition signs_with_suite ::
  "('id, 'g signing_commitments, 'sh, ('id, 'g) signing_package, 'pkp, ('s, 'g) frost_signature) frost_signing \<Rightarrow>
    (('id, 'g) signing_package \<Rightarrow> ('id, 'sh) fmap \<Rightarrow> 'pkp \<Rightarrow> ('e, ('s, 'g) frost_signature) outcome) \<Rightarrow> bool" where
  "signs_with_suite F core_aggregate \<longleftrightarrow>
     (\<forall>cs m. sp_message (package_new F cs m) = m) \<and> package_message F = sp_message \<and>
     (\<forall>p shares pkp sg. aggregate F p shares pkp = Some sg \<longrightarrow> core_aggregate p shares pkp = Ok sg)"

text \<open>
  The curve crates agree: the coordinates are those of the same affine point, and the bytes of a
  signature, which exist only when its point can be serialised, are read back as that signature.
\<close>

definition curve_agrees ::
  "('s, 'g :: ab_group_add) suite_ext \<Rightarrow> ('g, 's) curve_ext \<Rightarrow> (('s, 'g) frost_signature \<Rightarrow> bytes option) \<Rightarrow> bool" where
  "curve_agrees C V to_bytes \<longleftrightarrow> curve_affine V = pt_affine C \<and>
     (\<forall>P x. curve_x V P = Some x \<longrightarrow> x = aff_x (pt_affine C P)) \<and>
     (\<forall>sg bs. to_bytes sg = Some bs \<longrightarrow>
        frost_sig_deserialize V bs = Ok sg \<and> (\<exists>b. group_serialize C (fst sg) = Ok b))"

text \<open>A transaction that the formats can express, with a message that is not too long to be framed.\<close>

definition signable :: "('r, 'rs) tx_env \<Rightarrow> transaction_envelope \<Rightarrow> bool" where
  "signable T tx \<longleftrightarrow> good_envelope T tx \<and> network_string (te_network_id tx) \<and>
     (\<forall>m. to_pallas_message (sd_zk (tx_serde T)) tx = Ok m \<longrightarrow>
        length (roi_serialize (zk_roi (sd_zk (tx_serde T))) (pm_input m)) < 2 ^ 32)"

section \<open>The session's signature\<close>

lemma payload_signing_bytes:
  assumes "tx_laws T" and "good_envelope T tx" and "envelope_serialize T tx = Ok payload"
    and "signing_bytes T payload = Ok wire"
  obtains m where "to_pallas_message (sd_zk (tx_serde T)) tx = Ok m" "serialize (zk_roi (sd_zk (tx_serde T))) m = Ok wire"
proof -
  have "envelope_deserialize T payload = Ok tx" using envelope_back[OF assms(1,2)] assms(3) by simp
  with assms(4) that show thesis by (auto simp: signing_bytes_def Let_def outcome_simps)
qed

lemma from_frost_signature_fields:
  assumes "from_frost_signature_bytes V B A vk bs tx = Ok (ts, ws)" and "frost_sig_deserialize V bs = Ok sg"
  obtains x where "curve_x V (fst sg) = Some x"
    "ts_signature ts = \<lparr>sig_field = fp_bigint V x, sig_scalar = scalar_bigint V (snd sg)\<rparr>"
    "ts_public_key ts = \<lparr>pk_point = curve_affine V vk\<rparr>"
    "to_pallas_message Z (ts_payload ts) = to_pallas_message Z tx"
proof -
  from assms obtain x where x: "curve_x V (fst sg) = Some x" and ts: "(ts, ws) = new_with_zkapp_injection B A
      \<lparr>pk_point = curve_affine V vk\<rparr> \<lparr>sig_field = fp_bigint V x, sig_scalar = scalar_bigint V (snd sg)\<rparr> tx"
    by (auto simp: from_frost_signature_bytes_def from_frost_signature_def pub_key_of_verifying_key_def translate_pk_def
        sig_of_frost_def outcome_simps)
  have "ts_signature ts = \<lparr>sig_field = fp_bigint V x, sig_scalar = scalar_bigint V (snd sg)\<rparr>"
    "ts_public_key ts = \<lparr>pk_point = curve_affine V vk\<rparr>"
    using ts by (auto simp: new_with_zkapp_injection_def split: transaction_kind.splits prod.splits)
  moreover have "to_pallas_message Z (ts_payload ts) = to_pallas_message Z tx"
    using injected_message[of Z B A "\<lparr>pk_point = curve_affine V vk\<rparr>" _ tx] ts by (metis fst_conv)
  ultimately show thesis using that x by blast
qed

lemma session_signature_verifies:
  fixes C :: "('s :: comm_ring_1, 'g :: ab_group_add) suite_ext" and K :: "('id, 'pkp) coord_config"
    and F :: "('id, 'g signing_commitments, 'sh, ('id, 'g) signing_package, 'pkp, ('s, 'g) frost_signature) frost_signing"
    and T :: "('r, 'rs) tx_env"
  defines "Z \<equiv> sd_zk (tx_serde T)"
  assumes "curve_laws C" and "sums_commitments C factor gc"
    and "aggregates C gc (suite_challenge C (zk_roi Z) H) core_aggregate vk_of"
    and "signs_with_suite F core_aggregate" and "curve_agrees C V (signature_bytes F)"
    and "tx_laws T" and "roi_roundtrip (zk_roi Z)" and "signable T tx"
    and "envelope_serialize T tx = Ok (cc_message K)"
    and "coordinate_signing K E T F n w = (Some (Ok bs), s)"
    and "from_frost_signature_bytes V B A (vk_of (cc_public_key_package K)) bs tx = Ok (ts, ws)"
  shows "\<exists>m rz. to_pallas_message Z tx = Ok m \<and> to_pallas_message Z (ts_payload ts) = Ok m \<and>
    mina_verifies C (zk_roi Z) H (vk_of (cc_public_key_package K)) rz m \<and>
    ts_signature ts = \<lparr>sig_field = fp_bigint V (fst rz), sig_scalar = scalar_bigint V (snd rz)\<rparr> \<and>
    ts_public_key ts = \<lparr>pk_point = pt_affine C (vk_of (cc_public_key_package K))\<rparr>"
proof -
  note suite = assms(5)[unfolded signs_with_suite_def] and agrees = assms(6)[unfolded curve_agrees_def]
  from assms(11) obtain cs ss wire sg where
    wire: "signing_bytes T (package_message F (package_new F cs (cc_message K))) = Ok wire"
    and sg: "aggregate F (package_new F cs wire) ss (cc_public_key_package K) = Some sg"
    and bs: "signature_bytes F sg = Some bs"
    by (rule coordinate_signing_Ok)
  have "signing_bytes T (cc_message K) = Ok wire" using wire suite by simp
  with assms(7,9,10) obtain m where m: "to_pallas_message Z tx = Ok m" "serialize (zk_roi Z) m = Ok wire"
    using payload_signing_bytes[of T tx "cc_message K" wire] unfolding signable_def Z_def by blast
  have core: "core_aggregate (package_new F cs wire) ss (cc_public_key_package K) = Ok sg" and "sp_message (package_new F cs wire) = wire"
    using sg suite by blast+
  moreover obtain b where b: "group_serialize C (fst sg) = Ok b" using agrees bs by blast
  moreover have "pm_network_id m = te_network_id tx" using m(1) by (auto simp: to_pallas_message_def from_parts_def outcome_simps)
  then have "network_string (pm_network_id m)" "length (roi_serialize (zk_roi Z) (pm_input m)) < 2 ^ 32"
    using assms(9) m(1) unfolding signable_def Z_def by simp_all
  ultimately obtain rz where rz: "translate_sig (pt_affine C) sg = Ok rz"
    "mina_verifies C (zk_roi Z) H (vk_of (cc_public_key_package K)) rz m"
    using aggregate_verifies[OF assms(2-4,8)] m(2) by metis
  have "frost_sig_deserialize V bs = Ok sg" using agrees bs by blast
  from from_frost_signature_fields[OF assms(12) this, of Z] obtain x where x: "curve_x V (fst sg) = Some x"
    "ts_signature ts = \<lparr>sig_field = fp_bigint V x, sig_scalar = scalar_bigint V (snd sg)\<rparr>"
    "ts_public_key ts = \<lparr>pk_point = curve_affine V (vk_of (cc_public_key_package K))\<rparr>"
    "to_pallas_message Z (ts_payload ts) = to_pallas_message Z tx" by blast
  moreover have "x = fst rz" "snd sg = snd rz" using x(1) agrees rz(1) by (auto simp: translate_sig_def)
  ultimately show ?thesis using m(1) rz(2) agrees by (intro exI[of _ m] exI[of _ rz]) simp
qed

section \<open>The coordinator's file\<close>

text \<open>
  C1: the file a coordinator writes holds a valid Mina signature: whenever the coordinator's command
  succeeds on a signable transaction (one that the formats can express, whose network name is
  UTF-8 and whose message has fewer than \<open>2 ^ 32\<close> bytes), the file has the transaction it was given,
  signed by a signature that Mina's verification accepts for the signing message of that
  transaction and the public key of the group, and putting the signature into the transaction has
  not changed what is signed. The crates are taken to do what they document: curve and frost-core
  (a successful aggregation satisfies its own verification equation), addresses, JSON and files.
\<close>

theorem written_signature_is_valid:
  fixes C :: "('s :: comm_ring_1, 'g :: ab_group_add) suite_ext"
    and F :: "('id, 'g signing_commitments, 'sh, ('id, 'g) signing_package, 'pkp, ('s, 'g) frost_signature) frost_signing"
  assumes "curve_laws C" and "sums_commitments C factor gc"
    and "aggregates C gc (suite_challenge C (zk_roi (sd_zk (tx_serde T))) H) core_aggregate (verifying_key X)"
    and "signs_with_suite F core_aggregate" and "curve_agrees C V (signature_bytes F)"
    and "files_laws S place files temps" and "tx_laws T" and "roi_roundtrip (zk_roi (sd_zk (tx_serde T)))"
    and "message_text S place files m w = Some input" and "network_id_try_from nw = Ok network"
    and "from_str_network T input network = Ok tx" and "signable T tx" and "out \<noteq> lit ''-''"
    and "coordinator_command S X U T E F V n (Coordinator cp url gid ss m nw out) w = (Some (Ok ()), w')"
  shows "\<exists>cfg g pkp msg rz ts j.
    config_read S X cp w = (Some (Ok cfg), w) \<and> fmlookup (cf_group cfg) gid = Some g \<and>
    read_public_key_package X (gr_public_key_package g) = Some pkp \<and>
    to_pallas_message (sd_zk (tx_serde T)) tx = Ok msg \<and>
    mina_verifies C (zk_roi (sd_zk (tx_serde T))) H (verifying_key X pkp) rz msg \<and>
    ts_signature ts = \<lparr>sig_field = fp_bigint V (fst rz), sig_scalar = scalar_bigint V (snd rz)\<rparr> \<and>
    ts_public_key ts = \<lparr>pk_point = pt_affine C (verifying_key X pkp)\<rparr> \<and>
    to_pallas_message (sd_zk (tx_serde T)) (ts_payload ts) = Ok msg \<and>
    ser_transaction_signature T ts = Ok j \<and> files w' (place out) = Some (tx_pretty T j)"
proof -
  from coordinator_writes_lemma[OF assms(6,13,14)] obtain cfg g pkp payload address K w1 sig_bytes s ts ws j where
    group: "config_read S X cp w = (Some (Ok cfg), w)" "fmlookup (cf_group cfg) gid = Some g"
      "read_public_key_package X (gr_public_key_package g) = Some pkp"
    and payload: "envelope_serialize T tx = Ok payload" "cc_message K = payload" "cc_public_key_package K = pkp"
    and run: "coordinate_signing K (E address) T F n w1 = (Some (Ok sig_bytes), s)"
    and ts: "from_frost_signature_bytes V (sd_base58 (tx_serde T)) (tx_address T) (verifying_key X pkp) sig_bytes tx = Ok (ts, ws)"
    and written: "ser_transaction_signature T ts = Ok j" "files w' (place out) = Some (tx_pretty T j)"
    using assms(9-11) by auto
  from session_signature_verifies[OF assms(1-5,7,8,12) payload(1)[folded payload(2)] run ts[folded payload(3)]]
  show ?thesis using group written unfolding payload(3) by blast
qed

section \<open>An instance\<close>

text \<open>
  Integers in the place of points, as in the instance of the suite, messages with a serialisation,
  and a hasher that always gives one. The only signer has the commitments of \<open>int_package\<close>, and
  the only signature with a byte form is the one of this session.
\<close>

definition tx_wire :: "(fp list \<times> bool list, fp list) tx_env" where
  "tx_wire = tx_demo\<lparr>tx_serde := serde_demo\<lparr>sd_zk := zk_wire_demo\<rparr>\<rparr>"

definition one_hasher :: "(fp list \<times> bool list) hasher_ext" where
  "one_hasher = \<lparr>hash_legacy = (\<lambda>_ _. 1), hash_kimchi = (\<lambda>_ _. 1)\<rparr>"

definition int_signing :: "(nat, int signing_commitments, unit, (nat, int) signing_package, unit, (int, int) frost_signature) frost_signing" where
  "int_signing = \<lparr>package_new = (\<lambda>cs m. \<lparr>sp_commitments = cs, sp_message = m\<rparr>), package_message = sp_message,
     package_commitments = sp_commitments,
     aggregate = (\<lambda>p shares pkp. case int_aggregate roi_wire_demo one_hasher p shares pkp of Ok sg \<Rightarrow> Some sg | _ \<Rightarrow> None),
     signature_bytes = (\<lambda>sg. if sg = (2, 9) then Some [1] else None)\<rparr>"

definition int_curve_crate :: "(int, int) curve_ext" where
  "int_curve_crate = \<lparr>curve_affine = pt_affine int_curve, curve_x = (\<lambda>P. Some (nat \<bar>P\<bar>)), fp_bigint = (\<lambda>_. sig_field sig_demo),
     scalar_bigint = (\<lambda>_. sig_scalar sig_demo), frost_sig_deserialize = (\<lambda>_. Ok (2, 9))\<rparr>"

lemma tx_wire_laws: "tx_laws tx_wire" "bigint_laws (tx_bigint tx_wire)"
  using tx_demo_laws serde_demo_laws
  by (auto simp: tx_laws_def tx_wire_def tx_demo_def serde_laws_def zk_wire_demo_def good_field_def good_key_def serde_demo_def)

lemma int_agrees: "signs_with_suite int_signing (int_aggregate roi_wire_demo one_hasher)"
  "curve_agrees int_curve int_curve_crate (signature_bytes int_signing)"
proof -
  show "signs_with_suite int_signing (int_aggregate roi_wire_demo one_hasher)"
    by (auto simp: signs_with_suite_def int_signing_def split: outcome.splits)
  show "curve_agrees int_curve int_curve_crate (signature_bytes int_signing)"
    by (auto simp: curve_agrees_def int_signing_def int_curve_crate_def int_curve_def group_serialize_def into_buffer_def
        GROUP_SIZE_def split: if_splits)
qed

abbreviation wire_tx :: transaction_envelope where
  "wire_tx \<equiv> new_legacy Mainnet demo_delegation"

definition wire_signed :: transaction_signature where
  "wire_signed = \<lparr>ts_public_key = \<lparr>pk_point = pt_affine int_curve 7\<rparr>, ts_signature = sig_demo, ts_payload = wire_tx\<rparr>"

lemma wire_envelope: "good_envelope tx_wire wire_tx"
  using demo_envelope_legacy by (simp add: good_envelope_def tx_wire_def tx_demo_def new_legacy_def envelope_new_def serde_demo_def)

lemma wire_message:
  "to_pallas_message (sd_zk (tx_serde tx_wire)) wire_tx = Ok (from_parts (legacy_to_roinput roi_wire_demo demo_delegation) Mainnet True)"
  by (simp add: to_pallas_message_def to_roinput_def new_legacy_def envelope_new_def is_legacy_def tx_wire_def zk_wire_demo_def)

lemma wire_signable: "signable tx_wire wire_tx"
  unfolding signable_def
  by (simp add: wire_envelope wire_message)
    (simp add: new_legacy_def envelope_new_def from_parts_def tx_wire_def zk_wire_demo_def length_demo_input
      demo_delegation_def new_delegation_def address_demo_def demo_key_def MEMO_BYTES_def)

lemma wire_signed_good: "good_signature tx_wire wire_signed"
  using wire_envelope
  by (simp add: good_signature_def wire_signed_def tx_wire_def tx_demo_def serde_demo_def address_demo_def int_curve_def)

lemma wire_from_frost:
  "from_frost_signature_bytes int_curve_crate (sd_base58 (tx_serde tx_wire)) (tx_address tx_wire) 7 [1] wire_tx = Ok (wire_signed, None)"
  by (simp add: from_frost_signature_bytes_def from_frost_signature_def pub_key_of_verifying_key_def translate_pk_def
      sig_of_frost_def new_with_zkapp_injection_def int_curve_crate_def wire_signed_def new_legacy_def envelope_new_def)

lemma wire_aggregate:
  fixes wire :: bytes
  assumes "Pallas_Message.deserialize roi_wire_demo wire = Ok m"
  shows "aggregate int_signing (package_new int_signing (fmupd 20 \<lparr>nc_hiding = - 3, nc_binding = 1\<rparr> fmempty) wire) shares () = Some (2, 9)"
proof -
  let ?p = "\<lparr>sp_commitments = fmupd 20 \<lparr>nc_hiding = - 3, nc_binding = 1\<rparr> fmempty, sp_message = wire\<rparr> :: (nat, int) signing_package"
  have odd: "int_commitment ?p 1 = Ok (- 2)"
    by (simp add: int_commitment_def usable_def int_factor_def commitment_sum_def int_curve_def)
  have "int_commitment (negate_package ?p) 1 = Ok 2"
    using group_commitment_negate[OF int_curve_laws odd] by simp
  moreover have "pre_commitment_aggregate int_curve int_commitment ?p 1 = Ok (negate_package ?p)"
    by (simp add: pre_commitment_aggregate_def odd y_is_even_def int_curve_def)
  moreover have "suite_challenge int_curve roi_wire_demo one_hasher Q 7 wire = Ok 1" for Q
    using assms by (simp add: challenge_def translate_pk_def message_hash_def one_hasher_def int_curve_def Let_def)
  ultimately have "int_aggregate roi_wire_demo one_hasher ?p shares () = Ok (2, 9)" by (simp add: int_aggregate_def)
  then show ?thesis by (simp add: int_signing_def)
qed

lemma wire_run:
  obtains j w' where "from_str_network tx_wire (json_print (tx_json tx_wire) j) Mainnet = Ok wire_tx"
    "coordinator_command (disk_system (json_print (tx_json tx_wire) j)) (client_for 7) url_demo tx_wire
      (\<lambda>_. coord_disk_for (\<lambda>_. \<lparr>nc_hiding = - 3, nc_binding = 1\<rparr>) (\<lambda>_. ())) int_signing int_curve_crate 1 disk_command group_disk =
      (Some (Ok ()), w')"
proof -
  have trim: "\<forall>j. trim (json_print (tx_json tx_wire) j) = json_print (tx_json tx_wire) j"
    using demo_trim by (simp add: tx_wire_def)
  from read_signed[OF tx_wire_laws wire_signed_good trim, of Mainnet] obtain j where
    j: "ser_transaction_signature tx_wire wire_signed = Ok j"
    "from_str_network tx_wire (json_print (tx_json tx_wire) j) Mainnet = Ok wire_tx"
    by (simp add: wire_signed_def) blast
  from envelope_back[OF tx_wire_laws(1) wire_envelope] obtain payload where
    payload: "envelope_serialize tx_wire wire_tx = Ok payload" "envelope_deserialize tx_wire payload = Ok wire_tx"
    by (auto simp: obind_Ok_iff)
  let ?m = "from_parts (legacy_to_roinput roi_wire_demo demo_delegation) Mainnet True"
  have "length (roi_serialize roi_wire_demo (pm_input ?m)) < 2 ^ 32"
    using wire_signable by (simp add: signable_def wire_message) (simp add: tx_wire_def zk_wire_demo_def)
  then obtain wire where wire: "Pallas_Message.serialize roi_wire_demo ?m = Ok wire" "Pallas_Message.deserialize roi_wire_demo wire = Ok ?m"
    using deserialize_serialize[OF roi_wire_demo_laws(2), of ?m "[1]"] by (auto simp: from_parts_def)
  have "zk_roi (sd_zk (tx_serde tx_wire)) = roi_wire_demo" by (simp add: tx_wire_def zk_wire_demo_def)
  then have "signing_bytes tx_wire payload = Ok wire"
    by (simp add: signing_bytes_def Let_def payload(2) wire_message wire(1))
  moreover have "package_message int_signing (package_new int_signing cs m) = m" for cs m by (simp add: int_signing_def)
  moreover have "signature_bytes int_signing (2, 9) = Some [1]" by (simp add: int_signing_def)
  ultimately show thesis
    using disk_session[where F = int_signing and c = "\<lambda>_. \<lparr>nc_hiding = - 3, nc_binding = 1\<rparr>" and s = "\<lambda>_. ()" and sg = "(2, 9)",
        OF j(2) payload(1) _ wire_aggregate[OF wire(2)] _ wire_from_frost j(1)] that[OF j(2)] by auto
qed

lemma written_signature_is_valid_witness:
  "\<exists>typed w' rz msg ts j. coordinator_command (disk_system typed) (client_for 7) url_demo tx_wire
      (\<lambda>_. coord_disk_for (\<lambda>_. \<lparr>nc_hiding = - 3, nc_binding = 1\<rparr>) (\<lambda>_. ())) int_signing int_curve_crate 1 disk_command group_disk =
      (Some (Ok ()), w') \<and>
    to_pallas_message (sd_zk (tx_serde tx_wire)) wire_tx = Ok msg \<and>
    mina_verifies int_curve (zk_roi (sd_zk (tx_serde tx_wire))) one_hasher 7 rz msg \<and>
    ser_transaction_signature tx_wire ts = Ok j \<and> dd_files (snd w') [9] = Some (tx_pretty tx_wire j)"
proof -
  obtain j w' where run: "from_str_network tx_wire (json_print (tx_json tx_wire) j) Mainnet = Ok wire_tx"
    "coordinator_command (disk_system (json_print (tx_json tx_wire) j)) (client_for 7) url_demo tx_wire
      (\<lambda>_. coord_disk_for (\<lambda>_. \<lparr>nc_hiding = - 3, nc_binding = 1\<rparr>) (\<lambda>_. ())) int_signing int_curve_crate 1 disk_command group_disk =
      (Some (Ok ()), w')"
    by (rule wire_run)
  have key: "verifying_key (client_for 7) = (\<lambda>_. 7)" by (simp add: client_for_def)
  have R: "zk_roi (sd_zk (tx_serde tx_wire)) = roi_wire_demo" by (simp add: tx_wire_def zk_wire_demo_def)
  have input: "message_text (disk_system typed) id (dd_files \<circ> snd) [] group_disk = Some typed" for typed
    by (simp add: message_text_def disk_system_def)
  have suite: "aggregates int_curve int_commitment (suite_challenge int_curve (zk_roi (sd_zk (tx_serde tx_wire))) one_hasher)
      (int_aggregate roi_wire_demo one_hasher) (verifying_key (client_for 7))"
    using int_aggregates by (simp only: key R)
  have roi: "roi_roundtrip (zk_roi (sd_zk (tx_serde tx_wire)))" using roi_wire_demo_laws(2) by (simp only: R)
  have "[9] \<noteq> lit ''-''" by simp
  from written_signature_is_valid[OF int_curve_laws suite int_agrees disk_system_laws tx_wire_laws(1) roi input group_setup(3) run(1)
      wire_signable this run(2)] run(2)
  show ?thesis unfolding key comp_def id_apply by blast
qed

end
