(* ===== verification/Signing_Utilities.thy ===== *)
theory Signing_Utilities
  imports Frost_Suite Api
begin

text \<open>
  Signing with all shares in one place, \<^verbatim>\<open>frost-bluepallas/src/signing_utilities.rs\<close>, and the
  trusted dealer's key generation of \<^verbatim>\<open>mina-frost-client/src/trusted_dealer\<close>. The functions of
  frost-core are parameters; randomness comes from the world \<open>'w\<close>, and \<open>in_order\<close> lists a set
  of identifiers in the order of a \<open>BTreeMap\<close>.
\<close>

section \<open>frost-core\<close>

record ('id, 'share, 'kp, 'pkp, 'n, 'c, 'sp, 'ss, 'sg, 'sk, 'vk, 'e, 'w) frost_core =
  key_package :: "'share \<Rightarrow> ('e, 'kp) outcome"
  identifier_of :: "u16 \<Rightarrow> 'id option"
  in_order :: "'id fset \<Rightarrow> 'id list"
  core_commit :: "'kp \<Rightarrow> 'w \<Rightarrow> ('n \<times> 'c) \<times> 'w"
  core_package :: "('id, 'c) fmap \<Rightarrow> bytes \<Rightarrow> 'sp"
  core_sign :: "'sp \<Rightarrow> 'n \<Rightarrow> 'kp \<Rightarrow> ('e, 'ss) outcome"
  core_aggregate :: "'sp \<Rightarrow> ('id, 'ss) fmap \<Rightarrow> 'pkp \<Rightarrow> ('e, 'sg) outcome"
  verifying_shares :: "'pkp \<Rightarrow> nat"
  verifying_key_of :: "'pkp \<Rightarrow> 'vk"
  core_deal :: "u16 \<Rightarrow> u16 \<Rightarrow> 'w \<Rightarrow> ('e, ('id, 'share) fmap \<times> 'pkp) outcome \<times> 'w"
  core_split :: "'sk \<Rightarrow> u16 \<Rightarrow> u16 \<Rightarrow> 'w \<Rightarrow> ('e, ('id, 'share) fmap \<times> 'pkp) outcome \<times> 'w"

datatype 'e frost_error = MalformedIdentifier | Core 'e

definition lists_in_order :: "('id fset \<Rightarrow> 'id list) \<Rightarrow> bool" where
  "lists_in_order order \<longleftrightarrow> (\<forall>A. fset_of_list (order A) = A \<and> distinct (order A))"

section \<open>Signing from packages\<close>

definition convert_shares ::
  "('id, 'share, 'kp, 'pkp, 'n, 'c, 'sp, 'ss, 'sg, 'sk, 'vk, 'e, 'w) frost_core \<Rightarrow> ('id, 'share) fmap \<Rightarrow>
    ('e frost_error, ('id, 'kp) fmap) outcome" where
  "convert_shares F shares = omap fmap_of_list (omap_list (\<lambda>i.
     omap (Pair i) (map_err Core (key_package F (the (fmlookup shares i))))) (in_order F (fmdom shares)))"

definition at_key :: "('id, 'v) fmap \<Rightarrow> 'id \<Rightarrow> ('e, 'v) outcome" where
  "at_key m i = (case fmlookup m i of Some v \<Rightarrow> Ok v | None \<Rightarrow> Panic)"

text \<open>Round 1 for the participants with the given numbers; one nonce and commitment each.\<close>

fun round_one ::
  "('id, 'share, 'kp, 'pkp, 'n, 'c, 'sp, 'ss, 'sg, 'sk, 'vk, 'e, 'w) frost_core \<Rightarrow> ('id, 'kp) fmap \<Rightarrow> nat list \<Rightarrow>
    ('id, 'n) fmap \<times> ('id, 'c) fmap \<Rightarrow> ('w, 'e frost_error, ('id, 'n) fmap \<times> ('id, 'c) fmap) io" where
  "round_one F kps [] maps = io_pure (Ok maps)"
| "round_one F kps (i # is) maps =
     io_bind (io_pure (ok_or MalformedIdentifier (identifier_of F (word_of_nat i)))) (\<lambda>identifier.
     io_bind (io_pure (at_key kps identifier)) (\<lambda>kp.
     io_bind (\<lambda>w. case core_commit F kp w of (r, w) \<Rightarrow> (Some (Ok r), w)) (\<lambda>(nonces, commitments).
     round_one F kps is (fmupd identifier nonces (fst maps), fmupd identifier commitments (snd maps)))))"

definition round_two ::
  "('id, 'share, 'kp, 'pkp, 'n, 'c, 'sp, 'ss, 'sg, 'sk, 'vk, 'e, 'w) frost_core \<Rightarrow> ('id, 'kp) fmap \<Rightarrow> ('id, 'n) fmap \<Rightarrow> 'sp \<Rightarrow>
    ('e frost_error, ('id, 'ss) fmap) outcome" where
  "round_two F kps nonces_map package = omap fmap_of_list (omap_list (\<lambda>i.
     obind (at_key kps i) (\<lambda>kp.
     obind (at_key nonces_map i) (\<lambda>nonces.
     omap (Pair i) (map_err Core (core_sign F package nonces kp))))) (in_order F (fmdom nonces_map)))"

definition sign_from_packages ::
  "('id, 'share, 'kp, 'pkp, 'n, 'c, 'sp, 'ss, 'sg, 'sk, 'vk, 'e, 'w) frost_core \<Rightarrow> bytes \<Rightarrow> ('id, 'share) fmap \<Rightarrow> 'pkp \<Rightarrow>
    ('w, 'e frost_error, 'sg \<times> 'vk) io" where
  "sign_from_packages F message shares pubkey_package =
     (let min_signers = min (verifying_shares F pubkey_package) 3 in
      io_bind (io_pure (convert_shares F shares)) (\<lambda>key_packages.
      io_bind (round_one F key_packages [1..<Suc min_signers] (fmempty, fmempty)) (\<lambda>(nonces_map, commitments_map).
      let package = core_package F commitments_map message in
      io_bind (io_pure (round_two F key_packages nonces_map package)) (\<lambda>signature_shares.
      io_bind (io_pure (map_err Core (core_aggregate F package signature_shares pubkey_package))) (\<lambda>sg.
      io_pure (Ok (sg, verifying_key_of F pubkey_package)))))))"

definition generate_signature_random ::
  "('id, 'share, 'kp, 'pkp, 'n, 'c, 'sp, 'ss, 'sg, 'sk, 'vk, 'e, 'w) frost_core \<Rightarrow> bytes \<Rightarrow>
    ('w, 'e frost_error, 'sg \<times> 'vk) io" where
  "generate_signature_random F message =
     io_bind (\<lambda>w. case core_deal F 5 3 w of (r, w) \<Rightarrow> (Some (map_err Core r), w)) (\<lambda>(shares, pubkey_package).
     sign_from_packages F message shares pubkey_package)"

definition generate_signature_from_sk ::
  "('id, 'share, 'kp, 'pkp, 'n, 'c, 'sp, 'ss, 'sg, 'sk, 'vk, 'e, 'w) frost_core \<Rightarrow> bytes \<Rightarrow> 'sk \<Rightarrow>
    ('w, 'e frost_error, 'sg \<times> 'vk) io" where
  "generate_signature_from_sk F message signing_key =
     io_bind (\<lambda>w. case core_split F signing_key 5 3 w of (r, w) \<Rightarrow> (Some (map_err Core r), w)) (\<lambda>(shares, pubkey_package).
     sign_from_packages F message shares pubkey_package)"

section \<open>The trusted dealer\<close>

record dealer_config =
  td_min_signers :: u16
  td_max_signers :: u16

definition dealer_validate :: "dealer_config \<Rightarrow> (rstr, unit) outcome" where
  "dealer_validate c =
     (if td_min_signers c < 2 then Err (lit ''Minimum signers must be at least 2'')
      else if td_max_signers c < 2 then Err (lit ''Maximum signers must be at least 2'')
      else if td_min_signers c > td_max_signers c then Err (lit ''Minimum signers cannot exceed maximum signers'')
      else Ok ())"

definition dealer_config_new :: "u16 \<Rightarrow> u16 \<Rightarrow> (rstr, dealer_config) outcome" where
  "dealer_config_new threshold num_signers =
     (let c = \<lparr>td_min_signers = threshold, td_max_signers = num_signers\<rparr> in
      omap (\<lambda>_. c) (dealer_validate c))"

definition dealer_keygen ::
  "('id, 'share, 'kp, 'pkp, 'n, 'c, 'sp, 'ss, 'sg, 'sk, 'vk, 'e, 'w) frost_core \<Rightarrow> dealer_config \<Rightarrow>
    ('w, 'e, ('id, 'share) fmap \<times> 'pkp) io" where
  "dealer_keygen F c =
     io_bind (\<lambda>w. case core_deal F (td_max_signers c) (td_min_signers c) w of (r, w) \<Rightarrow> (Some r, w)) (\<lambda>(shares, pubkeys).
     io_bind (io_pure (omap_list (\<lambda>i. key_package F (the (fmlookup shares i))) (in_order F (fmdom shares)))) (\<lambda>_.
     io_pure (Ok (shares, pubkeys))))"

theorem dealer_config_new_Ok_iff:
  "dealer_config_new t n = Ok c \<longleftrightarrow> 2 \<le> t \<and> t \<le> n \<and> c = \<lparr>td_min_signers = t, td_max_signers = n\<rparr>"
  by (auto simp: dealer_config_new_def dealer_validate_def Let_def outcome_simps not_less split: if_splits)

section \<open>Who signs\<close>

abbreviation ids_of :: "('id, 'share, 'kp, 'pkp, 'n, 'c, 'sp, 'ss, 'sg, 'sk, 'vk, 'e, 'w) frost_core \<Rightarrow> nat list \<Rightarrow> 'id list" where
  "ids_of F is \<equiv> map (\<lambda>i. the (identifier_of F (word_of_nat i))) is"

lemma round_one_Ok:
  "round_one F kps is maps w = (Some (Ok maps'), w') \<Longrightarrow>
    fmdom (fst maps') = fmdom (fst maps) |\<union>| fset_of_list (ids_of F is) \<and>
    fmdom (snd maps') = fmdom (snd maps) |\<union>| fset_of_list (ids_of F is)"
proof (induction "is" arbitrary: maps w)
  case (Cons i "is")
  from Cons.prems obtain ident kp where ident: "identifier_of F (word_of_nat i) = Some ident"
    and run: "io_bind (\<lambda>w. case core_commit F kp w of (r, w) \<Rightarrow> (Some (Ok r), w)) (\<lambda>(nonces, commitments).
      round_one F kps is (fmupd ident nonces (fst maps), fmupd ident commitments (snd maps))) w = (Some (Ok maps'), w')"
    by (auto simp: io_bind_Ok[of "io_pure r" for r] outcome_simps)
  obtain n c w1 where "core_commit F kp w = ((n, c), w1)" by (cases "core_commit F kp w") auto
  with run have rest: "round_one F kps is (fmupd ident n (fst maps), fmupd ident c (snd maps)) w1 = (Some (Ok maps'), w')"
    by (simp add: io_bind_def)
  from Cons.IH[OF rest] ident show ?case by auto
qed auto

lemma keyed_list:
  assumes "omap_list f xs = Ok kvs" and "\<And>x kv. f x = Ok kv \<Longrightarrow> fst kv = x"
  shows "fmdom (fmap_of_list kvs) = fset_of_list xs"
proof -
  have "map fst kvs = xs" using assms(1)
  proof (induction xs arbitrary: kvs)
    case (Cons x xs)
    then show ?case using assms(2) by (auto simp: outcome_simps)
  qed simp
  then show ?thesis by (auto simp: fset_of_list_map[symmetric])
qed

text \<open>
  However many signers a group has and whatever its threshold, this helper signs with at most
  three of them: with the participants numbered from one to three, or to the number of shares.
\<close>

theorem signs_with_at_most_three:
  fixes F :: "('id, 'share, 'kp, 'pkp, 'n, 'c, 'sp, 'ss, 'sg, 'sk, 'vk, 'e, 'w) frost_core"
  assumes "lists_in_order (in_order F)"
    and "sign_from_packages F message shares pkp w = (Some (Ok (sg, vk)), w')"
  shows "\<exists>commitments signature_shares. vk = verifying_key_of F pkp \<and>
    core_aggregate F (core_package F commitments message) signature_shares pkp = Ok sg \<and>
    fmdom signature_shares = fmdom commitments \<and>
    fmdom commitments = fset_of_list (ids_of F [1..<Suc (min (verifying_shares F pkp) 3)]) \<and>
    fcard (fmdom commitments) \<le> 3"
proof -
  let ?ids = "ids_of F [1..<Suc (min (verifying_shares F pkp) 3)]"
  from assms(2) obtain kps maps w1 ss where
    maps: "round_one F kps [1..<Suc (min (verifying_shares F pkp) 3)] (fmempty, fmempty) w = (Some (Ok maps), w1)"
    and ss: "round_two F kps (fst maps) (core_package F (snd maps) message) = Ok ss"
    and sg: "core_aggregate F (core_package F (snd maps) message) ss pkp = Ok sg" "vk = verifying_key_of F pkp"
    by (auto simp: sign_from_packages_def Let_def io_bind_Ok outcome_simps split_beta)
  have dom: "fmdom (fst maps) = fset_of_list ?ids" "fmdom (snd maps) = fset_of_list ?ids"
    using round_one_Ok[OF maps] by simp_all
  from ss obtain kvs where kvs: "ss = fmap_of_list kvs" "omap_list (\<lambda>i. obind (at_key kps i) (\<lambda>kp. obind (at_key (fst maps) i) (\<lambda>nonces.
      omap (Pair i) (map_err Core (core_sign F (core_package F (snd maps) message) nonces kp)))))
      (in_order F (fmdom (fst maps))) = Ok kvs"
    by (auto simp: round_two_def outcome_simps)
  have "fmdom ss = fset_of_list (in_order F (fmdom (fst maps)))"
    unfolding kvs(1) by (rule keyed_list[OF kvs(2)]) (auto simp: outcome_simps)
  then have "fmdom ss = fmdom (snd maps)" using assms(1) dom by (simp add: lists_in_order_def)
  moreover have "fcard (fset_of_list ?ids) \<le> 3"
    unfolding fcard.rep_eq fset_of_list.rep_eq by (rule order_trans[OF card_length]) (simp del: upt_Suc)
  ultimately show ?thesis using sg dom by metis
qed

end
