(* ===== verification/Group_Commands.thy ===== *)
theory Group_Commands
  imports Signing_Commands Signing_Utilities Dkg_Comms
begin

text \<open>
  The commands that make a group: the distributed key generation of
  \<^verbatim>\<open>mina-frost-client/src/cli/dkg.rs\<close> and the trusted dealer of
  \<^verbatim>\<open>cli/trusted_dealer.rs\<close>. Both record the group in configuration files.
\<close>

section \<open>Distributed key generation\<close>

definition setup_dkg_config ::
  "('t, 'w) system_ext \<Rightarrow> ('id, 'kp, 'pkp, 'vk, 'w) client_ext \<Rightarrow> 'url url_ext \<Rightarrow> rstr option \<Rightarrow> rstr \<Rightarrow> u16 \<Rightarrow>
    rstr list \<Rightarrow> ('w, rstr \<times> dkg_config) cli" where
  "setup_dkg_config S X U config_path server_url threshold others =
     io_bind (config_read S X config_path) (\<lambda>cfg. io_pure (
     obind (parse_server U server_url) (\<lambda>url.
     obind (user_key cfg) (\<lambda>key.
     obind (omap_list (\<lambda>s. ok_or Outside (hex_decode X s)) others) (\<lambda>pks.
     let pks = (if pks \<noteq> [] \<and> ck_pubkey key \<notin> set pks then pks @ [ck_pubkey key] else pks) in
     obind (host_and_port U url) (\<lambda>address.
     Ok (server_address address,
       \<lparr>comm_privkey = Some (ck_privkey key), comm_pubkey = Some (ck_pubkey key),
        participant_getter = Some (\<lambda>pk. case contact_by_pubkey cfg pk of Ok c \<Rightarrow> Some (ct_pubkey c) | _ \<Rightarrow> None),
        min_signers = threshold, participants = pks\<rparr>)))))))"

text \<open>The map of public keys, turned around; \<open>order\<close> is the order in which it is iterated.\<close>

definition identifier_to_pubkey ::
  "(comm_key fset \<Rightarrow> comm_key list) \<Rightarrow> (comm_key, 'id) hash_map \<Rightarrow> ('id, comm_key) hash_map" where
  "identifier_to_pubkey order pubkey_map =
     fmap_of_list (rev (map (\<lambda>(pk, i). (i, pk)) (entries_by order pubkey_map)))"

definition group_participant :: "('id, 'kp, 'pkp, 'vk, 'w) client_ext \<Rightarrow> 'id \<Rightarrow> comm_key \<Rightarrow> rstr \<times> participant" where
  "group_participant X i pk =
     (hex_encode X (write_identifier X i), \<lparr>pa_identifier = write_identifier X i, pa_pubkey = pk\<rparr>)"

definition create_participants_map ::
  "('id, 'kp, 'pkp, 'vk, 'w) client_ext \<Rightarrow> (comm_key fset \<Rightarrow> comm_key list) \<Rightarrow> 'pkp \<Rightarrow> (comm_key, 'id) hash_map \<Rightarrow>
    (cli_error, (rstr, participant) fmap) outcome" where
  "create_participants_map X order public_key_package pubkey_map =
     omap (\<lambda>entries. fmap_of_list (rev entries)) (omap_list (\<lambda>i.
       omap (group_participant X i)
         (ok_or (Failure (lit ''missing pubkey'')) (fmlookup (identifier_to_pubkey order pubkey_map) i)))
       (share_identifiers X public_key_package))"

definition update_config_with_group ::
  "('t, 'w) system_ext \<Rightarrow> ('id, 'kp, 'pkp, 'vk, 'w) client_ext \<Rightarrow> rstr option \<Rightarrow> rstr \<Rightarrow> rstr \<Rightarrow> 'kp \<Rightarrow> 'pkp \<Rightarrow>
    (rstr, participant) fmap \<Rightarrow> ('w, unit) cli" where
  "update_config_with_group S X config_path description server_url kp pkp members =
     io_bind (outside (write_key_package X kp)) (\<lambda>key_package.
     io_bind (outside (write_public_key_package X pkp)) (\<lambda>public_key_package.
     let g = \<lparr>gr_description = description, gr_public_key_package = public_key_package,
              gr_key_package = key_package, gr_server_url = Some server_url, gr_participant = members\<rparr> in
     io_bind (config_read S X config_path) (\<lambda>cfg.
     io_bind (outside (verifying_key_bytes X (verifying_key X pkp))) (\<lambda>vk.
     let cfg = cfg\<lparr>cf_group := fmupd (hex_encode X vk) g (cf_group cfg)\<rparr> in
     io_bind (config_write S X cfg) (\<lambda>_.
     case cf_path cfg of
       Some path \<Rightarrow> print_out S (lit ''Group created; information written to '' @ path @ [10])
     | None \<Rightarrow> io_pure Panic)))))"

fun dkg_command ::
  "('t, 'w) system_ext \<Rightarrow> ('id, 'kp, 'pkp, 'vk, 'w) client_ext \<Rightarrow> 'url url_ext \<Rightarrow>
    (rstr \<Rightarrow> ('id, 'p1, 'p2, 'hs, 'ts, 'se, 'w) dkg_env) \<Rightarrow> ('id, 'p1, 'p2, 's1, 's2, 'kp \<times> 'pkp, 'w) frost_dkg \<Rightarrow> nat \<Rightarrow>
    command \<Rightarrow> ('w, unit) cli" where
  "dkg_command S X U E F n (Dkg config_path description server_url threshold others) =
     io_bind (setup_dkg_config S X U config_path server_url threshold others) (\<lambda>(address, K).
     io_bind (in_session (keygen K (E address) F n)) (\<lambda>((kp, pkp), pubkey_map).
     io_bind (io_pure (create_participants_map X (key_order (E address)) pkp pubkey_map)) (\<lambda>members.
     update_config_with_group S X config_path description server_url kp pkp members)))"
| "dkg_command S X U E F n _ = io_pure Panic"

section \<open>The trusted dealer\<close>

text \<open>One round per share, path and name, as far as all three go.\<close>

fun extract_participant_info ::
  "('t, 'w) system_ext \<Rightarrow> ('id, 'kp, 'pkp, 'vk, 'w) client_ext \<Rightarrow> ('id \<times> rstr \<times> rstr) list \<Rightarrow>
    (rstr, participant) fmap \<times> contact list \<Rightarrow> ('w, (rstr, participant) fmap \<times> contact list) cli" where
  "extract_participant_info S X [] acc = io_pure (Ok acc)"
| "extract_participant_info S X ((i, path, name) # rest) (members, contacts) =
     io_bind (config_read S X (Some path)) (\<lambda>cfg.
     io_bind (or_fail (lit ''config not initialized'') (cf_communication_key cfg)) (\<lambda>key.
     let (k, p) = group_participant X i (ck_pubkey key) in
     extract_participant_info S X rest (fmupd k p members,
       contacts @ [\<lparr>ct_version = None, ct_name = name, ct_pubkey = ck_pubkey key\<rparr>])))"

definition add_group :: "rstr \<Rightarrow> frost_group \<Rightarrow> contact list \<Rightarrow> config \<Rightarrow> config" where
  "add_group key g contacts cfg =
     cfg\<lparr>cf_group := fmupd key g (cf_group cfg),
       cf_contact := fold (\<lambda>c m. fmupd (ct_name c) c m) contacts (cf_contact cfg)\<rparr>"

definition update_config_files ::
  "('t, 'w) system_ext \<Rightarrow> ('id, 'kp, 'pkp, 'vk, 'w) client_ext \<Rightarrow>
    ('id, 'share, 'kp, 'pkp, 'n, 'c, 'sp, 'ss, 'sg, 'sk, 'vk, 'e, 'w) frost_core \<Rightarrow> ('share \<times> rstr) list \<Rightarrow> 'pkp \<Rightarrow> rstr \<Rightarrow>
    (rstr, participant) fmap \<Rightarrow> contact list \<Rightarrow> rstr option \<Rightarrow> ('w, unit) cli" where
  "update_config_files S X F shares_and_paths pkp description members contacts server_url =
     io_for (\<lambda>(share, path).
       io_bind (config_read S X (Some path)) (\<lambda>cfg.
       io_bind (io_pure (map_err (\<lambda>_. Outside) (key_package F share))) (\<lambda>kp.
       io_bind (outside (write_key_package X kp)) (\<lambda>kp_bytes.
       io_bind (outside (write_public_key_package X pkp)) (\<lambda>pkp_bytes.
       let g = \<lparr>gr_description = description, gr_public_key_package = pkp_bytes,
                gr_key_package = kp_bytes, gr_server_url = server_url, gr_participant = members\<rparr> in
       io_bind (outside (verifying_key_bytes X (verifying_key X pkp))) (\<lambda>vk.
       config_write S X (add_group (hex_encode X vk) g contacts cfg))))))) shares_and_paths"

fun trusted_dealer_command ::
  "('t, 'w) system_ext \<Rightarrow> ('id, 'kp, 'pkp, 'vk, 'w) client_ext \<Rightarrow>
    ('id, 'share, 'kp, 'pkp, 'n, 'c, 'sp, 'ss, 'sg, 'sk, 'vk, 'e, 'w) frost_core \<Rightarrow> command \<Rightarrow> ('w, unit) cli" where
  "trusted_dealer_command S X F (TrustedDealer config_paths description names server_url threshold) =
     (let num_signers = word_of_nat (length names) :: u16 in
      io_bind (print_out S (lit ''IMPORTANT: This command is for testing and demonstration purposes only. In production, use DKG.'' @ [10])) (\<lambda>_.
      io_bind (print_out S (lit ''Running Trusted Dealer with '' @ show_nat (unat num_signers) @
        lit '' participants and threshold '' @ show_nat (unat threshold) @ [10])) (\<lambda>_.
      io_bind (io_pure (
        if length config_paths \<noteq> unat num_signers
        then Err (Failure (lit ''The `config` option must specify `num_signers` different config files''))
        else if threshold > num_signers
        then Err (Failure (lit ''Threshold cannot be greater than the number of signers''))
        else map_err Failure (dealer_config_new threshold num_signers))) (\<lambda>dealer.
      io_bind (cli_map_err (\<lambda>_. Outside) (dealer_keygen F dealer)) (\<lambda>(shares, pkp).
      let ids = in_order F (fmdom shares) in
      io_bind (extract_participant_info S X (zip ids (zip config_paths names)) (fmempty, [])) (\<lambda>(members, contacts).
      update_config_files S X F (zip (map (\<lambda>i. the (fmlookup shares i)) ids) config_paths) pkp description members
        contacts server_url))))))"
| "trusted_dealer_command S X F _ = io_pure Panic"

section \<open>From key generation to signing\<close>

lemma entries_by_set:
  assumes "\<And>A. fset_of_list (order A) = A"
  shows "(k, v) \<in> set (entries_by order m) \<longleftrightarrow> fmlookup m k = Some v"
proof -
  have "set (order (fmdom m)) = fset (fmdom m)" using assms[of "fmdom m"] by (metis fset_of_list.rep_eq)
  then show ?thesis by (auto simp: entries_by_def fmlookup_dom_iff image_iff)
qed

lemma identifier_to_pubkey_lookup:
  assumes "\<And>A. fset_of_list (order A) = A"
    and "\<And>pk pk' i. fmlookup m pk = Some i \<Longrightarrow> fmlookup m pk' = Some i \<Longrightarrow> pk = pk'"
  shows "fmlookup (identifier_to_pubkey order m) i = Some pk \<longleftrightarrow> fmlookup m pk = Some i"
proof -
  let ?es = "rev (map (\<lambda>(pk, i). (i, pk)) (entries_by order m))"
  have mem: "(i, pk) \<in> set ?es \<longleftrightarrow> fmlookup m pk = Some i" for i pk
    using entries_by_set[OF assms(1), of pk i m] by (auto simp: image_iff) force
  show ?thesis
  proof
    assume "fmlookup (identifier_to_pubkey order m) i = Some pk"
    then show "fmlookup m pk = Some i" using mem by (auto simp: identifier_to_pubkey_def fmlookup_of_list dest: map_of_SomeD)
  next
    assume pk: "fmlookup m pk = Some i"
    then obtain pk' where "map_of ?es i = Some pk'" using mem[of i pk] by (metis map_of_eq_None_iff fst_conv image_eqI option.exhaust)
    then show "fmlookup (identifier_to_pubkey order m) i = Some pk"
      using mem[of i pk'] pk assms(2) by (auto simp: identifier_to_pubkey_def fmlookup_of_list dest: map_of_SomeD)
  qed
qed

definition one_key_each :: "(comm_key, 'id) hash_map \<Rightarrow> bool" where
  "one_key_each m \<longleftrightarrow> (\<forall>pk pk' i. fmlookup m pk = Some i \<and> fmlookup m pk' = Some i \<longrightarrow> pk = pk')"

lemma group_participant_inj:
  assumes "client_laws X" and "fst (group_participant X i pk) = fst (group_participant X j pk')"
  shows "i = j"
proof -
  have "hex_decode X (hex_encode X (write_identifier X i)) = hex_decode X (hex_encode X (write_identifier X j))"
    using assms(2) by (simp add: group_participant_def)
  then have "write_identifier X i = write_identifier X j" using assms(1) by (simp add: client_laws_def)
  then show "i = j" using assms(1) unfolding client_laws_def by (metis option.inject)
qed

lemma participants_map_lookup:
  assumes "client_laws X" and "\<And>A. fset_of_list (order A) = A" and "one_key_each m"
    and "create_participants_map X order pkp m = Ok members"
  shows "fmlookup members k = Some p \<longleftrightarrow> (\<exists>i pk. i \<in> set (share_identifiers X pkp) \<and> fmlookup m pk = Some i \<and>
    group_participant X i pk = (k, p))"
proof -
  have key: "fmlookup (identifier_to_pubkey order m) i = Some pk \<longleftrightarrow> fmlookup m pk = Some i" for i pk
    by (rule identifier_to_pubkey_lookup[OF assms(2)]) (use assms(3) in \<open>auto simp: one_key_each_def\<close>)
  from assms(4) obtain es where es: "omap_list (\<lambda>i. omap (group_participant X i)
      (ok_or (Failure (lit ''missing pubkey'')) (fmlookup (identifier_to_pubkey order m) i))) (share_identifiers X pkp) = Ok es"
    and members: "members = fmap_of_list (rev es)"
    by (auto simp: create_participants_map_def outcome_simps simp del: lit_simps)
  have one: "omap (group_participant X i) (ok_or (Failure (lit ''missing pubkey''))
      (fmlookup (identifier_to_pubkey order m) i)) = Ok e \<longleftrightarrow> (\<exists>pk. fmlookup m pk = Some i \<and> group_participant X i pk = e)" for i e
    unfolding key[symmetric] by (cases "fmlookup (identifier_to_pubkey order m) i") auto
  have mem: "(k, p) \<in> set es \<longleftrightarrow> (\<exists>i pk. i \<in> set (share_identifiers X pkp) \<and> fmlookup m pk = Some i \<and>
      group_participant X i pk = (k, p))" for k p
  proof
    assume "(k, p) \<in> set es"
    with omap_list_set(1)[OF es this] show "\<exists>i pk. i \<in> set (share_identifiers X pkp) \<and> fmlookup m pk = Some i \<and>
      group_participant X i pk = (k, p)" unfolding one by blast
  next
    assume "\<exists>i pk. i \<in> set (share_identifiers X pkp) \<and> fmlookup m pk = Some i \<and> group_participant X i pk = (k, p)"
    then obtain i pk where i: "i \<in> set (share_identifiers X pkp)" "fmlookup m pk = Some i" "group_participant X i pk = (k, p)"
      by blast
    from omap_list_set(2)[OF es i(1)] obtain pk' where "fmlookup m pk' = Some i" "group_participant X i pk' \<in> set es"
      unfolding one by blast
    moreover have "pk' = pk" using calculation(1) i(2) assms(3) by (auto simp: one_key_each_def)
    ultimately show "(k, p) \<in> set es" using i(3) by simp
  qed
  have unique: "p = p'" if "(k, p) \<in> set es" "(k, p') \<in> set es" for k p p'
    using that assms(3) group_participant_inj[OF assms(1)] unfolding mem one_key_each_def by (metis fst_conv prod.inject)
  show ?thesis
  proof
    assume "fmlookup members k = Some p"
    then have "(k, p) \<in> set es" by (auto simp: members fmlookup_of_list dest: map_of_SomeD)
    then show "\<exists>i pk. i \<in> set (share_identifiers X pkp) \<and> fmlookup m pk = Some i \<and> group_participant X i pk = (k, p)"
      unfolding mem .
  next
    assume "\<exists>i pk. i \<in> set (share_identifiers X pkp) \<and> fmlookup m pk = Some i \<and> group_participant X i pk = (k, p)"
    then have kp: "(k, p) \<in> set es" unfolding mem .
    then obtain p' where p': "map_of (rev es) k = Some p'"
      by (metis fst_conv image_eqI map_of_eq_None_iff option.exhaust set_rev)
    then have "(k, p') \<in> set es" by (metis map_of_SomeD set_rev)
    with unique[OF kp this] p' show "fmlookup members k = Some p" by (simp add: members fmlookup_of_list)
  qed
qed

lemma signer_of_member:
  assumes "client_laws X" and "\<And>A. fset_of_list (order A) = A" and "one_key_each m"
    and "create_participants_map X order pkp m = Ok (gr_participant g)"
    and "set (share_identifiers X pkp) = {i. \<exists>pk. fmlookup m pk = Some i}"
  shows "parse_signer X g (hex_encode X pk) =
    (case fmlookup m pk of Some i \<Rightarrow> Ok (pk, i) | None \<Rightarrow> Err (Failure (lit ''Participant not found'')))"
proof -
  note lookup = participants_map_lookup[OF assms(1-4)]
  have hex: "hex_decode X (hex_encode X pk) = Some pk" and ident: "\<And>i. read_identifier X (write_identifier X i) = Some i"
    using assms(1) by (auto simp: client_laws_def)
  let ?find = "find (\<lambda>p. pa_pubkey p = pk) (btree_values (gr_participant g))"
  show ?thesis
  proof (cases "fmlookup m pk")
    case None
    then have "?find = None" unfolding find_btree_None lookup by (auto simp: group_participant_def)
    with None hex show ?thesis by (simp add: parse_signer_def participant_by_pubkey_def del: lit_simps)
  next
    case (Some i)
    have "fmlookup (gr_participant g) (fst (group_participant X i pk)) = Some (snd (group_participant X i pk))"
      unfolding lookup using Some assms(5) by (auto intro!: exI[of _ i] exI[of _ pk])
    then have "?find \<noteq> None" unfolding find_btree_None by (auto simp: group_participant_def) (metis participant.select_convs(2))
    then obtain p where p: "?find = Some p" by blast
    from find_btree_Some[OF p] obtain k where "pa_pubkey p = pk" "fmlookup (gr_participant g) k = Some p" by blast
    then obtain j pk' where "fmlookup m pk' = Some j" "group_participant X j pk' = (k, p)" "pa_pubkey p = pk"
      unfolding lookup by blast
    then have "pa_identifier p = write_identifier X i" using Some by (auto simp: group_participant_def)
    with p hex ident Some show ?thesis
      by (simp add: parse_signer_def participant_by_pubkey_def participant_identifier_def)
  qed
qed

lemma io_bindE:
  assumes "io_bind m f s = (Some (Ok b), t)"
  obtains a s' where "m s = (Some (Ok a), s')" "f a s' = (Some (Ok b), t)"
  using assms unfolding io_bind_Ok by blast

lemma update_config_with_group_Ok:
  assumes "files_laws S place files temps" and "client_laws X"
    and "update_config_with_group S X (Some p) description url kp pkp members w = (Some (Ok ()), w')"
  shows "\<exists>cfg vk g. config_read S X (Some p) w = (Some (Ok cfg), w) \<and> verifying_key_bytes X (verifying_key X pkp) = Some vk \<and>
    config_read S X (Some p) w' = (Some (Ok (cfg\<lparr>cf_group := fmupd (hex_encode X vk) g (cf_group cfg)\<rparr>)), w') \<and>
    gr_participant g = members \<and> gr_server_url g = Some url \<and>
    read_key_package X (gr_key_package g) = Some kp \<and> read_public_key_package X (gr_public_key_package g) = Some pkp"
proof -
  from assms(3)[unfolded update_config_with_group_def Let_def outside_def] obtain kpb pkpb cfg w1 vk u w2 where
    coded: "ok_or Outside (write_key_package X kp) = Ok kpb" "ok_or Outside (write_public_key_package X pkp) = Ok pkpb"
    and read: "config_read S X (Some p) w = (Some (Ok cfg), w1)"
    and vk: "ok_or Outside (verifying_key_bytes X (verifying_key X pkp)) = Ok vk"
    and stored: "config_write S X (cfg\<lparr>cf_group := fmupd (hex_encode X vk) \<lparr>gr_description = description,
      gr_public_key_package = pkpb, gr_key_package = kpb, gr_server_url = Some url, gr_participant = members\<rparr> (cf_group cfg)\<rparr>) w1 =
      (Some (Ok u), w2)"
    and shown: "(case cf_path (cfg\<lparr>cf_group := fmupd (hex_encode X vk) \<lparr>gr_description = description,
      gr_public_key_package = pkpb, gr_key_package = kpb, gr_server_url = Some url, gr_participant = members\<rparr> (cf_group cfg)\<rparr>) of
        Some path \<Rightarrow> print_out S (lit ''Group created; information written to '' @ path @ [10])
      | None \<Rightarrow> io_pure Panic) w2 = (Some (Ok ()), w')"
    by (elim io_bindE, unfold io_pure_Ok, clarify) (rule that, assumption+)
  from coded vk have written: "write_key_package X kp = Some kpb" "write_public_key_package X pkp = Some pkpb"
    and vk: "verifying_key_bytes X (verifying_key X pkp) = Some vk" by (simp_all add: outcome_simps)
  have w1: "w1 = w" using config_read_keeps[OF read] .
  have path: "cf_path cfg = Some p" using config_read_path[OF read] .
  let ?g = "\<lparr>gr_description = description,
      gr_public_key_package = pkpb, gr_key_package = kpb, gr_server_url = Some url, gr_participant = members\<rparr>"
  let ?cfg = "cfg\<lparr>cf_group := fmupd (hex_encode X vk) ?g (cf_group cfg)\<rparr>"
  have "w' = print_text S (lit ''Group created; information written to '' @ p @ [10]) w2"
    using shown by (simp add: path print_out_def del: lit_simps)
  then have "files w' = files w2" using assms(1) by (simp add: files_laws_def del: lit_simps)
  then have "config_read S X (Some p) w' = (Some (Ok ?cfg), w')"
    by (intro config_write_read_later[OF assms(1,2) _ stored[unfolded unit_eq[of u]]]) (simp_all add: path)
  moreover have "read_key_package X kpb = Some kp" "read_public_key_package X pkpb = Some pkp"
    using assms(2) written unfolding client_laws_def by blast+
  ultimately show ?thesis using read vk by (intro exI[of _ cfg] exI[of _ vk] exI[of _ ?g]) (simp add: w1)
qed

lemma dkg_command_Ok:
  assumes "dkg_command S X U E F n (Dkg cp description url t others) w = (Some (Ok ()), w')"
  obtains address K w1 kp pkp m s members where
    "setup_dkg_config S X U cp url t others w = (Some (Ok (address, K)), w1)"
    "keygen K (E address) F n w1 = (Some (Ok ((kp, pkp), m)), s)"
    "create_participants_map X (key_order (E address)) pkp m = Ok members"
    "update_config_with_group S X cp description url kp pkp members (world s) = (Some (Ok ()), w')"
proof -
  from assms obtain aK w1 where first: "setup_dkg_config S X U cp url t others w = (Some (Ok aK), w1)"
    and rest: "(case aK of (address, K) \<Rightarrow> io_bind (in_session (keygen K (E address) F n)) (\<lambda>((kp, pkp), pubkey_map).
      io_bind (io_pure (create_participants_map X (key_order (E address)) pkp pubkey_map)) (\<lambda>members.
      update_config_with_group S X cp description url kp pkp members))) w1 = (Some (Ok ()), w')"
    unfolding dkg_command.simps by (elim io_bindE)
  obtain address K where aK: "aK = (address, K)" by (cases aK)
  from rest[unfolded aK prod.case] obtain r w2 where second: "in_session (keygen K (E address) F n) w1 = (Some (Ok r), w2)"
    and last: "(\<lambda>((kp, pkp), pubkey_map). io_bind (io_pure (create_participants_map X (key_order (E address)) pkp pubkey_map)) (\<lambda>members.
      update_config_with_group S X cp description url kp pkp members)) r w2 = (Some (Ok ()), w')"
    by (elim io_bindE)
  obtain kp pkp m where r: "r = ((kp, pkp), m)" by (metis prod.collapse)
  from last[unfolded r prod.case] obtain members where
    "create_participants_map X (key_order (E address)) pkp m = Ok members"
    "update_config_with_group S X cp description url kp pkp members w2 = (Some (Ok ()), w')"
    by (auto simp: io_bind_Ok)
  moreover obtain s where "keygen K (E address) F n w1 = (Some (Ok ((kp, pkp), m)), s)" "w2 = world s"
    using second[unfolded r in_session_Ok] by blast
  ultimately show thesis using that first unfolding aK by blast
qed

lemma setup_dkg_config_Ok:
  assumes "setup_dkg_config S X U cp url t others w = (Some (Ok (address, K)), w')"
  obtains cfg key where "config_read S X cp w = (Some (Ok cfg), w)" "cf_communication_key cfg = Some key" "w' = w"
    "comm_pubkey K = Some (ck_pubkey key)" "min_signers K = t"
    "others \<noteq> [] \<Longrightarrow> ck_pubkey key \<in> set (participants K)" "others = [] \<Longrightarrow> participants K = []"
    "\<And>s. s \<in> set others \<Longrightarrow> \<exists>pk \<in> set (participants K). hex_decode X s = Some pk"
proof -
  from assms obtain cfg w1 where read: "config_read S X cp w = (Some (Ok cfg), w1)"
    and rest: "obind (parse_server U url) (\<lambda>url.
     obind (user_key cfg) (\<lambda>key.
     obind (omap_list (\<lambda>s. ok_or Outside (hex_decode X s)) others) (\<lambda>pks.
     let pks = (if pks \<noteq> [] \<and> ck_pubkey key \<notin> set pks then pks @ [ck_pubkey key] else pks) in
     obind (host_and_port U url) (\<lambda>address.
     Ok (server_address address,
       \<lparr>comm_privkey = Some (ck_privkey key), comm_pubkey = Some (ck_pubkey key),
        participant_getter = Some (\<lambda>pk. case contact_by_pubkey cfg pk of Ok c \<Rightarrow> Some (ct_pubkey c) | _ \<Rightarrow> None),
        min_signers = t, participants = pks\<rparr>))))) = Ok (address, K)" and w': "w' = w1"
    unfolding setup_dkg_config_def io_bind_Ok io_pure_Ok by blast
  have w1: "w1 = w" using config_read_keeps[OF read] .
  from rest obtain key pks where key: "cf_communication_key cfg = Some key"
    and pks: "omap_list (\<lambda>s. ok_or Outside (hex_decode X s)) others = Ok pks"
    and K: "comm_pubkey K = Some (ck_pubkey key)" "min_signers K = t"
      "participants K = (if pks \<noteq> [] \<and> ck_pubkey key \<notin> set pks then pks @ [ck_pubkey key] else pks)"
    by (auto simp: user_key_def Let_def outcome_simps)
  have "others = [] \<longleftrightarrow> pks = []" using pks by (cases others) (auto simp: outcome_simps)
  moreover have "\<exists>pk \<in> set (participants K). hex_decode X s = Some pk" if "s \<in> set others" for s
    using omap_list_set(2)[OF pks that] by (auto simp: K(3) outcome_simps)
  ultimately show thesis using that read[unfolded w1] key K w' w1 by auto
qed

text \<open>
  C7: a key generation that succeeds leaves a group to sign with: both signing commands find it in the
  configuration under the hexadecimal group key, with exactly the key packages of the key
  generation, and the coordinator's list of signers gives every participant of the key
  generation the identifier it has there, and refuses everybody else.
\<close>

theorem generated_group_can_sign:
  assumes "files_laws S place files temps" and "client_laws X"
    and "\<And>a A. fset_of_list (key_order (E a) A) = A"
    and "dkg_command S X U E F n (Dkg (Some p) description url t others) w = (Some (Ok ()), w')"
  shows "\<exists>address K w1 kp pkp m s vk cfg g.
    setup_dkg_config S X U (Some p) url t others w = (Some (Ok (address, K)), w1) \<and>
    keygen K (E address) F n w1 = (Some (Ok ((kp, pkp), m)), s) \<and>
    verifying_key_bytes X (verifying_key X pkp) = Some vk \<and>
    load_coordinator_config S X (Some p) (hex_encode X vk) w' = (Some (Ok (cfg, g, pkp)), w') \<and>
    load_participant_config S X (Some p) (hex_encode X vk) w' = (Some (Ok (cfg, g, kp)), w') \<and>
    gr_server_url g = Some url \<and>
    (one_key_each m \<and> set (share_identifiers X pkp) = {i. \<exists>pk. fmlookup m pk = Some i} \<longrightarrow>
      (\<forall>pk. parse_signer X g (hex_encode X pk) =
        (case fmlookup m pk of Some i \<Rightarrow> Ok (pk, i) | None \<Rightarrow> Err (Failure (lit ''Participant not found'')))))"
proof -
  from assms(4) obtain address K w1 kp pkp m s members where
    first: "setup_dkg_config S X U (Some p) url t others w = (Some (Ok (address, K)), w1)"
    and gen: "keygen K (E address) F n w1 = (Some (Ok ((kp, pkp), m)), s)"
    and members: "create_participants_map X (key_order (E address)) pkp m = Ok members"
    and update: "update_config_with_group S X (Some p) description url kp pkp members (world s) = (Some (Ok ()), w')"
    by (rule dkg_command_Ok)
  from update_config_with_group_Ok[OF assms(1,2) update] obtain cfg vk g where
    vk: "verifying_key_bytes X (verifying_key X pkp) = Some vk"
    and read: "config_read S X (Some p) w' = (Some (Ok (cfg\<lparr>cf_group := fmupd (hex_encode X vk) g (cf_group cfg)\<rparr>)), w')"
    and g: "gr_participant g = members" "gr_server_url g = Some url"
    "read_key_package X (gr_key_package g) = Some kp" "read_public_key_package X (gr_public_key_package g) = Some pkp"
    by blast
  let ?cfg = "cfg\<lparr>cf_group := fmupd (hex_encode X vk) g (cf_group cfg)\<rparr>"
  have "load_coordinator_config S X (Some p) (hex_encode X vk) w' = (Some (Ok (?cfg, g, pkp)), w')"
    "load_participant_config S X (Some p) (hex_encode X vk) w' = (Some (Ok (?cfg, g, kp)), w')"
    using read g(3,4) by (simp_all add: load_coordinator_config_def load_participant_config_def group_of_def outside_def)
  moreover have "one_key_each m \<and> set (share_identifiers X pkp) = {i. \<exists>pk. fmlookup m pk = Some i} \<longrightarrow>
      (\<forall>pk. parse_signer X g (hex_encode X pk) =
        (case fmlookup m pk of Some i \<Rightarrow> Ok (pk, i) | None \<Rightarrow> Err (Failure (lit ''Participant not found''))))"
    using signer_of_member[where order = "key_order (E address)", OF assms(2,3), of m pkp g] members g(1) by simp
  ultimately show ?thesis using first gen vk g(2) by blast
qed

section \<open>What the dealer writes into the address books\<close>

lemma fold_contacts:
  "distinct (map ct_name cs) \<Longrightarrow> c \<in> set cs \<Longrightarrow> fmlookup (fold (\<lambda>c m. fmupd (ct_name c) c m) cs m) (ct_name c) = Some c"
proof (induction cs arbitrary: m)
  case (Cons d cs)
  have other: "n \<notin> ct_name ` set cs \<Longrightarrow> fmlookup (fold (\<lambda>c m. fmupd (ct_name c) c m) cs m) n = fmlookup m n" for n m
    by (induction cs arbitrary: m) auto
  show ?case using Cons other by (cases "c = d") auto
qed simp

lemma extract_participant_info_Ok:
  assumes "extract_participant_info S X rows (members, contacts) w = (Some (Ok (members', contacts')), w')"
  shows "w' = w \<and> set contacts \<subseteq> set contacts' \<and> (\<forall>(i, path, name) \<in> set rows. \<exists>cfg key.
    config_read S X (Some path) w = (Some (Ok cfg), w) \<and> cf_communication_key cfg = Some key \<and>
    \<lparr>ct_version = None, ct_name = name, ct_pubkey = ck_pubkey key\<rparr> \<in> set contacts')"
  using assms
proof (induction rows arbitrary: members contacts w)
  case (Cons row rows)
  obtain i path name where row: "row = (i, path, name)" by (cases row)
  from Cons.prems[unfolded row extract_participant_info.simps] obtain cfg w1 key w2 where
    read: "config_read S X (Some path) w = (Some (Ok cfg), w1)"
    and key: "or_fail (lit ''config not initialized'') (cf_communication_key cfg) w1 = (Some (Ok key), w2)"
    and rest: "(let (k, p) = group_participant X i (ck_pubkey key) in
     extract_participant_info S X rows (fmupd k p members,
       contacts @ [\<lparr>ct_version = None, ct_name = name, ct_pubkey = ck_pubkey key\<rparr>])) w2 =
      (Some (Ok (members', contacts')), w')" by (elim io_bindE)
  have w: "w1 = w" "w2 = w" and key: "cf_communication_key cfg = Some key"
    using config_read_keeps[OF read] key by (auto simp: or_fail_def outcome_simps simp del: lit_simps)
  obtain k p where kp: "group_participant X i (ck_pubkey key) = (k, p)" by (cases "group_participant X i (ck_pubkey key)")
  from Cons.IH[OF rest[unfolded kp Let_def prod.case w]] read key show ?case by (auto simp: row w)
qed simp

text \<open>
  The dealer puts every participant into every address book, the owner included, whom \<open>import\<close>
  would have refused.
\<close>

theorem dealer_lists_owner:
  assumes "extract_participant_info S X rows (fmempty, []) w = (Some (Ok (members, contacts)), w')"
    and "(i, path, name) \<in> set rows" and "config_read S X (Some path) w = (Some (Ok cfg), w)"
    and "distinct (map ct_name contacts)"
  shows "\<not> address_book_ok (add_group group_key g contacts cfg)"
proof -
  from extract_participant_info_Ok[OF assms(1)] assms(2,3) obtain key where key: "cf_communication_key cfg = Some key"
    "\<lparr>ct_version = None, ct_name = name, ct_pubkey = ck_pubkey key\<rparr> \<in> set contacts" by fastforce
  from fold_contacts[OF assms(4) key(2)] have
    "fmlookup (cf_contact (add_group group_key g contacts cfg)) name = Some \<lparr>ct_version = None, ct_name = name, ct_pubkey = ck_pubkey key\<rparr>"
    by (simp add: add_group_def)
  from address_book_okD(2)[OF _ this] key(1) show ?thesis by (auto simp: add_group_def)
qed

section \<open>A run of two participants\<close>

definition dkg_disk :: "(nat, nat, nat, unit, unit, unit, disk_world) dkg_env" where
  "dkg_disk = \<lparr>srv = disk_server (demo_server [[1], [2]]
       [[\<lparr>msg_sender = [2], msg_bytes = [4]\<rparr>], [\<lparr>msg_sender = [2], msg_bytes = [7, 0, 0]\<rparr>]]), snow = snow_plain,
     xed_sign = (\<lambda>_ _ w. ([], w)), key_order = sorted_list_of_fset,
     codec = demo3_codec, encode_round1 = (\<lambda>p. Some [word_of_nat p]),
     encode_echo = (\<lambda>(i, p). Some [word_of_nat i, word_of_nat p]),
     encode_round2 = (\<lambda>p. Some [word_of_nat p, 0, 0]),
     derive = (\<lambda>bs. Some (10 * unat (last bs))), id_order = sorted_list_of_fset\<rparr>"

definition demo_frost :: "(nat, nat, nat, unit, unit, unit \<times> unit, disk_world) frost_dkg" where
  "demo_frost = \<lparr>part1 = (\<lambda>_ _ _ w. (Some ((), 9), w)), part2 = (\<lambda>_ _. Some ((), fmupd 20 3 fmempty)),
     part3 = (\<lambda>_ _ _. Some ((), ()))\<rparr>"

definition before_dkg :: config where
  "before_dkg = config_default\<lparr>cf_communication_key := Some \<lparr>ck_privkey = replicate 32 0, ck_pubkey = [1]\<rparr>,
     cf_contact := fmupd [98] \<lparr>ct_version = None, ct_name = [98], ct_pubkey = [2]\<rparr> fmempty\<rparr>"

definition generated_group :: frost_group where
  "generated_group = \<lparr>gr_description = [100], gr_public_key_package = [1], gr_key_package = [1], gr_server_url = Some [115],
     gr_participant = fmupd (replicate 20 1) \<lparr>pa_identifier = replicate 20 1, pa_pubkey = [2]\<rparr>
       (fmupd (replicate 10 1) \<lparr>pa_identifier = replicate 10 1, pa_pubkey = [1]\<rparr> fmempty)\<rparr>"

definition after_dkg :: config where
  "after_dkg = before_dkg\<lparr>cf_group := fmupd [5] generated_group fmempty\<rparr>"

definition dkg_client :: "(nat, unit, unit, unit, disk_world) client_ext" where
  "dkg_client = group_client\<lparr>toml_encode := (\<lambda>c. if c\<lparr>cf_path := None\<rparr> = after_dkg then Some [67] else None),
     toml_decode := (\<lambda>s. Some (if s = [67] then after_dkg else before_dkg)), share_identifiers := (\<lambda>_. [10, 20]),
     write_identifier := (\<lambda>i. replicate i 1), read_identifier := (\<lambda>b. Some (length b))\<rparr>"

lemma dkg_client_laws: "client_laws dkg_client"
proof -
  have "utf8_valid [67]" by code_simp
  then show ?thesis by (simp add: client_laws_def dkg_client_def client_for_def)
qed

lemma sorted_keys: "sorted_list_of_fset {|[1], [2 :: u8]|} = [[1], [2]]"
  by (simp add: sorted_list_of_fset.rep_eq)

lemma dkg_disk_run:
  assumes "cf_communication_key cfg = Some \<lparr>ck_privkey = replicate 32 0, ck_pubkey = [1]\<rparr>"
    and "getter [1] = Some [1]" and "getter [2] = Some [2]"
  shows "\<exists>s k. keygen \<lparr>comm_privkey = Some (replicate 32 0), comm_pubkey = Some [1], participant_getter = Some getter,
      min_signers = 2, participants = []\<rparr> dkg_disk demo_frost 1 (0, d) =
    (Some (Ok (((), ()), fmap_of_list [([1], 10), ([2], 20)])), s) \<and> world s = (k, d)"
  using assms
  by (simp add: keygen_def or_cleanup_def keygen_rounds_def demo_frost_def part1_step_def cleanup_on_error_def
        dkg_disk_def disk_server_def on_net_def demo_server_def snow_plain_def demo3_codec_def
        get_identifier_and_max_signers_def log_in_def sign_step_def
        private_key_sign_def choose_session_def dkg_comms_new_def derive_pubkeys_def
        derive_identifier_def set_state_pubkeys_def dkg_default_def get_round1_packages_def get_round2_packages_def
        get_pubkey_identifier_map_def echo_round_def round1_packages_step_def the_cipher_def demo_eval sorted_keys
        Let_def fcard.rep_eq)

lemma dkg_command_run:
  obtains w' address K s where
    "setup_dkg_config (disk_system []) dkg_client url_demo (Some [3]) [115] 2 [] group_disk = (Some (Ok (address, K)), group_disk)"
    "keygen K dkg_disk demo_frost 1 group_disk = (Some (Ok (((), ()), fmap_of_list [([1], 10), ([2], 20)])), s)"
    "dkg_command (disk_system []) dkg_client url_demo (\<lambda>_. dkg_disk) demo_frost 1
    (Dkg (Some [3]) [100] [115] 2 []) group_disk = (Some (Ok ()), w')"
proof -
  let ?S = "disk_system []" and ?d = "snd group_disk" and ?cfg = "before_dkg\<lparr>cf_path := Some [3]\<rparr>"
  let ?m = "fmap_of_list [([1], 10), ([2], 20)] :: (comm_key, nat) hash_map"
  let ?getter = "\<lambda>pk. case contact_by_pubkey ?cfg pk of Ok c \<Rightarrow> Some (ct_pubkey c) | _ \<Rightarrow> None"
  have "utf8_valid []" by code_simp
  then have read: "config_read ?S dkg_client (Some [3]) (k, ?d) = (Some (Ok ?cfg), k, ?d)" for k
    by (simp add: config_read_def parse_path_def disk_system_def dkg_client_def client_for_def group_disk_def)
  obtain address where first: "setup_dkg_config ?S dkg_client url_demo (Some [3]) [115] 2 [] group_disk =
    (Some (Ok (address, \<lparr>comm_privkey = Some (replicate 32 0), comm_pubkey = Some [1], participant_getter = Some ?getter,
      min_signers = 2, participants = []\<rparr>)), group_disk)"
    using read[of 0] by (simp add: setup_dkg_config_def io_bind_def parse_server_def host_and_port_def user_key_def url_demo_def
        before_dkg_def group_disk_def)
  have "contact_by_pubkey ?cfg [1] = Ok \<lparr>ct_version = Some 0, ct_name = [], ct_pubkey = [1]\<rparr>"
    "contact_by_pubkey ?cfg [2] = Ok \<lparr>ct_version = None, ct_name = [98], ct_pubkey = [2]\<rparr>"
    by (simp_all add: contact_by_pubkey_def before_dkg_def btree_values_def sorted_list_of_fmap_def sorted_list_of_fset.rep_eq)
  then have getter: "?getter [1] = Some [1]" "?getter [2] = Some [2]" by simp_all
  have "cf_communication_key ?cfg = Some \<lparr>ck_privkey = replicate 32 0, ck_pubkey = [1]\<rparr>" by (simp add: before_dkg_def)
  from dkg_disk_run[OF this getter, of ?d] obtain s k where
    second: "keygen \<lparr>comm_privkey = Some (replicate 32 0), comm_pubkey = Some [1], participant_getter = Some ?getter,
      min_signers = 2, participants = []\<rparr> dkg_disk demo_frost 1 group_disk = (Some (Ok (((), ()), ?m)), s)"
    and s: "world s = (k, ?d)" unfolding group_disk_def by auto
  have members: "create_participants_map dkg_client (key_order dkg_disk) () ?m = Ok (gr_participant generated_group)"
    by (simp add: create_participants_map_def identifier_to_pubkey_def entries_by_def dkg_disk_def sorted_keys
        group_participant_def dkg_client_def client_for_def generated_group_def)
  have "\<exists>w'. update_config_with_group ?S dkg_client (Some [3]) [100] [115] () () (gr_participant generated_group) (k, ?d) =
      (Some (Ok ()), w')"
    using read[of k]
    by (simp add: update_config_with_group_def Let_def config_write_def write_file_def check_path_def attempt_def
        obtain_from_def or_fail_def outside_def print_out_def absolute_path_def io_bind_def disk_system_def system_demo_def
        on_disk_def dkg_client_def client_for_def after_dkg_def before_dkg_def generated_group_def config_default_def
        del: lit_simps)
  then obtain w' where "update_config_with_group ?S dkg_client (Some [3]) [100] [115] () () (gr_participant generated_group) (k, ?d) =
      (Some (Ok ()), w')" ..
  then have "dkg_command ?S dkg_client url_demo (\<lambda>_. dkg_disk) demo_frost 1 (Dkg (Some [3]) [100] [115] 2 []) group_disk =
    (Some (Ok ()), w')"
    using first second s members by (simp add: in_session_def io_bind_def)
  with that first second show thesis by blast
qed

lemma generated_group_can_sign_witness:
  "\<exists>w' cfg g. load_coordinator_config (disk_system []) dkg_client (Some [3]) [5] w' = (Some (Ok (cfg, g, ())), w') \<and>
    parse_signer dkg_client g [2] = Ok ([2], 20) \<and>
    parse_signer dkg_client g [3] = Err (Failure (lit ''Participant not found''))"
proof -
  define m where "m = (fmap_of_list [([1], 10), ([2], 20)] :: (comm_key, nat) hash_map)"
  obtain w' address K s where setup_run:
    "setup_dkg_config (disk_system []) dkg_client url_demo (Some [3]) [115] 2 [] group_disk = (Some (Ok (address, K)), group_disk)"
    and gen: "keygen K dkg_disk demo_frost 1 group_disk = (Some (Ok (((), ()), m)), s)"
    and run: "dkg_command (disk_system []) dkg_client url_demo (\<lambda>_. dkg_disk) demo_frost 1
      (Dkg (Some [3]) [100] [115] 2 []) group_disk = (Some (Ok ()), w')" unfolding m_def by (rule dkg_command_run)
  have order: "\<And>A. fset_of_list (key_order dkg_disk A) = A"
    by (simp add: dkg_disk_def fset_inject[symmetric] fset_of_list.rep_eq sorted_list_of_fset.rep_eq)
  from generated_group_can_sign[where E = "\<lambda>_. dkg_disk", OF disk_system_laws dkg_client_laws order run]
  obtain address' K' w1 kp pkp m' s' vk cfg g where same:
    "setup_dkg_config (disk_system []) dkg_client url_demo (Some [3]) [115] 2 [] group_disk = (Some (Ok (address', K')), w1)"
    "keygen K' dkg_disk demo_frost 1 w1 = (Some (Ok ((kp, pkp), m')), s')"
    and load: "verifying_key_bytes dkg_client (verifying_key dkg_client pkp) = Some vk"
    "load_coordinator_config (disk_system []) dkg_client (Some [3]) (hex_encode dkg_client vk) w' = (Some (Ok (cfg, g, pkp)), w')"
    and signers: "one_key_each m' \<and> set (share_identifiers dkg_client pkp) = {i. \<exists>pk. fmlookup m' pk = Some i} \<longrightarrow>
      (\<forall>pk. parse_signer dkg_client g (hex_encode dkg_client pk) =
        (case fmlookup m' pk of Some i \<Rightarrow> Ok (pk, i) | None \<Rightarrow> Err (Failure (lit ''Participant not found''))))"
    by blast
  have m': "m' = m" using same setup_run gen by simp
  have look: "fmlookup m pk = (if pk = [1] then Some 10 else if pk = [2] then Some 20 else None)" for pk by (simp add: m_def)
  have "one_key_each m" unfolding one_key_each_def look by (auto split: if_splits)
  moreover have "set (share_identifiers dkg_client ()) = {i. \<exists>pk. fmlookup m pk = Some i}"
  proof -
    have "i \<in> {10, 20}" if "fmlookup m pk = Some i" for pk i using that unfolding look by (simp split: if_splits)
    moreover have "fmlookup m [1] = Some 10" "fmlookup m [2] = Some 20" by (simp_all add: look)
    ultimately have "{i. \<exists>pk. fmlookup m pk = Some i} = {10, 20}" by blast
    then show ?thesis by (simp add: dkg_client_def)
  qed
  ultimately have *: "parse_signer dkg_client g pk =
      (case fmlookup m pk of Some i \<Rightarrow> Ok (pk, i) | None \<Rightarrow> Err (Failure (lit ''Participant not found'')))" for pk
    using signers unfolding m' by (simp add: dkg_client_def client_for_def del: lit_simps)
  then have "parse_signer dkg_client g [2] = Ok ([2], 20)"
    "parse_signer dkg_client g [3] = Err (Failure (lit ''Participant not found''))" by (simp_all add: look del: lit_simps)
  moreover have "hex_encode dkg_client vk = [5]" using load(1) by (simp add: dkg_client_def client_for_def)
  ultimately show ?thesis using load(2) by (intro exI[of _ w'] exI[of _ cfg] exI[of _ g]) (simp del: lit_simps)
qed

end
