(* ===== verification/Cli_Main.thy ===== *)
theory Cli_Main
  imports Group_Commands
begin

text \<open>
  The remaining commands and the dispatch between all of them: listing and closing sessions
  (\<^verbatim>\<open>mina-frost-client/src/cli/session.rs\<close>), the GraphQL commands (\<^verbatim>\<open>cli/graphql.rs\<close>)
  and \<^verbatim>\<open>main.rs\<close>. The HTTP request of the broadcast, the text of a status and the text of a
  UUID are parameters.
\<close>

section \<open>Sessions\<close>

definition call_server :: "('w \<Rightarrow> ('e, 'a) outcome \<times> 'w) \<Rightarrow> ('w, 'a) cli" where
  "call_server f w = (case f w of (r, w) \<Rightarrow> (Some (map_err (\<lambda>_. Outside) r), w))"

definition sessions_url :: "config \<Rightarrow> rstr option \<Rightarrow> rstr option \<Rightarrow> (cli_error, rstr) outcome" where
  "sessions_url cfg server_url group_id = (case server_url of
     Some url \<Rightarrow> Ok url
   | None \<Rightarrow> (case group_id of
       Some g \<Rightarrow> obind (group_of cfg g) (\<lambda>g.
         ok_or (Failure (lit ''the group specified does not have an associated server URL'')) (gr_server_url g))
     | None \<Rightarrow> Err (Failure (lit ''must specify either server_url or group''))))"

definition contact_line ::
  "('id, 'kp, 'pkp, 'vk, 'w) client_ext \<Rightarrow> (cli_error, contact) outcome \<Rightarrow> rstr" where
  "contact_line X p = (case p of
     Ok c \<Rightarrow> [9] @ ct_name c @ [9, 40] @ hex_encode X (ct_pubkey c) @ [41, 10]
   | _ \<Rightarrow> [9] @ lit ''(Unknown contact)'' @ [10])"

definition session_report ::
  "('id, 'kp, 'pkp, 'vk, 'w) client_ext \<Rightarrow> (uuid \<Rightarrow> rstr) \<Rightarrow> config \<Rightarrow> uuid \<Rightarrow> comm_key session_info_output \<Rightarrow> rstr list" where
  "session_report X uuid_text cfg sid r =
     (let coordinator = contact_by_pubkey cfg (info_coordinator_pubkey r);
          members = map (contact_by_pubkey cfg) (info_pubkeys r) in
      [lit ''Session with ID '' @ uuid_text sid @ [10],
       lit ''Coordinator: '' @ (case coordinator of Ok c \<Rightarrow> ct_name c | _ \<Rightarrow> lit ''(Unknown contact)'') @ [10],
       lit ''Signers: '' @ show_nat (length members) @ [10]] @
      map (contact_line X) members @ [[10]])"

definition list_session ::
  "('t, 'w) system_ext \<Rightarrow> ('id, 'kp, 'pkp, 'vk, 'w) client_ext \<Rightarrow> ('w, comm_key, uuid) server_ext \<Rightarrow>
    (uuid \<Rightarrow> rstr) \<Rightarrow> config \<Rightarrow> bool \<Rightarrow> uuid \<Rightarrow> ('w, unit) cli" where
  "list_session S X V uuid_text cfg close_all sid =
     io_bind (call_server (srv_get_session_info V sid)) (\<lambda>r.
     io_bind (io_for (print_out S) (session_report X uuid_text cfg sid r)) (\<lambda>_.
     if close_all then call_server (srv_close_session V sid) else io_pure (Ok ())))"

fun session_list ::
  "('t, 'w) system_ext \<Rightarrow> ('id, 'kp, 'pkp, 'vk, 'w) client_ext \<Rightarrow> (rstr \<Rightarrow> ('w, comm_key, uuid) server_ext) \<Rightarrow>
    (bytes \<Rightarrow> bytes \<Rightarrow> 'w \<Rightarrow> bytes \<times> 'w) \<Rightarrow> (uuid \<Rightarrow> rstr) \<Rightarrow> command \<Rightarrow> ('w, unit) cli" where
  "session_list S X V signer uuid_text (Sessions path server_url group_id close_all) =
     io_bind (config_read S X path) (\<lambda>cfg.
     io_bind (io_pure (sessions_url cfg server_url group_id)) (\<lambda>server_url.
     io_bind (io_pure (user_key cfg)) (\<lambda>key.
     let V = V (lit ''https://'' @ server_url) in
     io_bind (call_server (srv_challenge V)) (\<lambda>challenge.
     io_bind (call_server (private_key_sign signer (ck_privkey key) challenge :: 'w \<Rightarrow> (unit cipher_error, bytes) outcome \<times> 'w))
       (\<lambda>signature.
     io_bind (call_server (srv_login V
       \<lparr>login_challenge = challenge, login_pubkey = ck_pubkey key, login_signature = signature\<rparr>)) (\<lambda>_.
     io_bind (call_server (srv_list_sessions V)) (\<lambda>session_ids.
     if session_ids = [] then print_out S (lit ''No active sessions.'' @ [10])
     else io_for (list_session S X V uuid_text cfg close_all) session_ids)))))))"
| "session_list S X V signer uuid_text _ = io_pure Panic"

section \<open>GraphQL\<close>

fun graphql_build_command ::
  "('t, 'w) system_ext \<Rightarrow> ('r, 'sp) tx_env \<Rightarrow> command \<Rightarrow> ('w, unit) cli" where
  "graphql_build_command S T (GraphqlBuild input_path output_path) =
     io_bind (read_text S input_path) (\<lambda>file_content.
     io_bind (io_pure (map_err (\<lambda>_. Outside) (from_json T (de_transaction_signature T) file_content))) (\<lambda>tx_sig.
     io_bind (io_pure (unwrap (signature_to_graphql_query_json T tx_sig))) (\<lambda>graphql_json.
     attempt (fs_write S output_path graphql_json))))"
| "graphql_build_command S T _ = io_pure Panic"

text \<open>A response has a status and a body, which may fail to arrive.\<close>

record 'w broadcast_ext =
  post_json :: "rstr \<Rightarrow> rstr \<Rightarrow> 'w \<Rightarrow> (nat \<times> rstr option) option \<times> 'w"
  status_text :: "nat \<Rightarrow> rstr"

fun graphql_broadcast_command ::
  "('t, 'w) system_ext \<Rightarrow> 'w broadcast_ext \<Rightarrow> command \<Rightarrow> ('w, unit) cli" where
  "graphql_broadcast_command S B (GraphqlBroadcast graphql_path endpoint) =
     io_bind (read_text S graphql_path) (\<lambda>graphql_json.
     io_bind (print_out S (lit ''Using GraphQL endpoint: '' @ endpoint @ [10])) (\<lambda>_.
     io_bind (obtain_from (post_json B endpoint graphql_json)) (\<lambda>(status, body).
     if \<not> (200 \<le> status \<and> status < 300) then
       io_bind (outside body) (\<lambda>body.
       io_pure (Err (Failure (lit ''GraphQL broadcast failed ('' @ status_text B status @ lit ''): '' @ body))))
     else
       io_bind (print_out S (lit ''GraphQL broadcast succeeded.'' @ [10])) (\<lambda>_.
       io_bind (outside body) (\<lambda>body.
       print_out S (lit ''Response: '' @ body @ [10]))))))"
| "graphql_broadcast_command S B _ = io_pure Panic"

section \<open>The program\<close>

text \<open>
  The commands by their constructor. The protocols get their server by its address (\<open>co\<close>, \<open>pa\<close>,
  \<open>dk\<close>) and their FROST operations (\<open>fco\<close>, \<open>fpa\<close>, \<open>fdk\<close>, and \<open>fde\<close> for the dealer); \<open>n\<close> bounds the rounds of
  polling.
\<close>

definition run_command where
  "run_command S X U T C B V signer uuid_text co fco pa fpa dk fdk fde n c = (case c of
     Init _ \<Rightarrow> cli_init S X c
   | Export _ _ \<Rightarrow> contact_export S X c
   | Import _ _ \<Rightarrow> contact_import S X c
   | Contacts _ \<Rightarrow> contact_list S X c
   | RemoveContact _ _ \<Rightarrow> contact_remove S X c
   | Groups _ \<Rightarrow> group_list S X c
   | RemoveGroup _ _ \<Rightarrow> group_remove S X c
   | Sessions _ _ _ _ \<Rightarrow> session_list S X V signer uuid_text c
   | TrustedDealer _ _ _ _ _ \<Rightarrow> trusted_dealer_command S X fde c
   | Dkg _ _ _ _ _ \<Rightarrow> dkg_command S X U dk fdk n c
   | Coordinator _ _ _ _ _ _ _ \<Rightarrow> coordinator_command S X U T co fco C n c
   | Participant _ _ _ _ _ \<Rightarrow> participant_command S X U T pa fpa n c
   | GraphqlBuild _ _ \<Rightarrow> graphql_build_command S T c
   | GraphqlBroadcast _ _ \<Rightarrow> graphql_broadcast_command S B c)"

section \<open>From the signed file to the request\<close>

lemma graphql_build_lemma:
  assumes "files_laws S place files temps" and "tx_laws T" and "bigint_laws (tx_bigint T)" and "good_signature T ts"
    and "json_reads (tx_json T) (tx_pretty T)" and "\<And>j. utf8_valid (tx_pretty T j)"
    and "ser_transaction_signature T ts = Ok j" and "files w (place inp) = Some (tx_pretty T j)"
  shows "graphql_build_command S T (GraphqlBuild inp out) w =
    (case signature_to_graphql_query_json T ts of
       Ok q \<Rightarrow> attempt (fs_write S out q) w
     | _ \<Rightarrow> (Some Panic, w))"
proof -
  have "fs_read S inp w = Some (tx_pretty T j)" using assms(1,8) by (simp add: files_laws_def)
  moreover have "from_json T (de_transaction_signature T) (tx_pretty T j) = Ok ts"
    using transaction_signature_written[OF assms(2-4)] assms(7) json_reads_within[OF assms(5) at_depth_signature assms(7)]
    by (simp add: from_json_def)
  ultimately show ?thesis
    using assms(6)[of j]
    by (cases "signature_to_graphql_query_json T ts") (simp_all add: read_text_def io_bind_def)
qed

text \<open>
  C21: what the coordinator writes is what the GraphQL command reads: built from the file a
  coordinator's signature was saved to, for a transaction that the formats can express, the request is the one for the transaction that was signed, with the
  signature of the session.
\<close>

theorem signed_file_becomes_request:
  assumes "files_laws S place files temps" and "tx_laws T" and "bigint_laws (tx_bigint T)"
    and "json_reads (tx_json T) (tx_pretty T)" and "\<And>j. utf8_valid (tx_pretty T j)"
    and "save_signature S T C out sig_bytes tx vk w = (Some (Ok ()), w')" and "out \<noteq> lit ''-''"
    and "from_frost_signature_bytes C (sd_base58 (tx_serde T)) (tx_address T) vk sig_bytes tx = Ok (ts, ws)"
    and "good_signature T ts" and "signature_to_graphql_query_json T ts = Ok q"
    and "graphql_build_command S T (GraphqlBuild out request) w' = (Some (Ok ()), w'')"
  shows "files w'' (place request) = Some q \<and> (\<forall>f. f \<noteq> place request \<longrightarrow> files w'' f = files w' f)"
proof -
  from save_signature_Ok[OF assms(1,6)] assms(7,8) obtain j where
    j: "ser_transaction_signature T ts = Ok j" "files w' (place out) = Some (tx_pretty T j)" by (auto simp del: lit_simps)
  from graphql_build_lemma[OF assms(1-3,9,4,5) j] assms(10,11) have "attempt (fs_write S request q) w' = (Some (Ok ()), w'')"
    by simp
  moreover have "fst (fs_write S request q w') \<Longrightarrow> files (snd (fs_write S request q w')) = (files w')(place request := Some q)"
    using assms(1) by (simp add: files_laws_def)
  ultimately show ?thesis
    by (cases rule: attempt_cases[of "fs_write S request q" w']) auto
qed

lemma signed_file_becomes_request_witness:
  "\<exists>w' w'' q. graphql_build_command (disk_system []) tx_demo (GraphqlBuild [9] [8]) w' = (Some (Ok ()), w'') \<and>
    signature_to_graphql_query_json tx_demo signed_demo = Ok q \<and> dd_files (snd w'') [8] = Some q"
proof -
  let ?S = "disk_system []"
  obtain w' where save: "save_signature ?S tx_demo curve_demo [9] [] (new_legacy Mainnet demo_delegation) () group_disk =
      (Some (Ok ()), w')"
    using demo_saved[of "[]" "[]" 0 "snd group_disk"] by (auto simp: group_disk_def)
  have parse: "json_reads (tx_json tx_demo) (tx_pretty tx_demo)"
    using json_demo_laws by (simp add: tx_demo_def json_laws_def)
  have utf8: "utf8_valid (tx_pretty tx_demo j)" for j
    by (simp add: tx_demo_def json_demo_def utf8_valid_ascii ascii_def)
  obtain q where q: "signature_to_graphql_query_json tx_demo signed_demo = Ok q"
    by (cases "is_delegation demo_delegation") (simp_all add: signature_to_graphql_query_json_def to_graphql_query_json_def
        signed_demo_def new_legacy_def envelope_new_def Let_def)
  have nine: "[9] \<noteq> lit ''-''" by simp
  from save_signature_Ok[OF disk_system_laws save] nine obtain j where
    j: "ser_transaction_signature tx_demo signed_demo = Ok j" "(dd_files \<circ> snd) w' (id [9]) = Some (tx_pretty tx_demo j)"
    by (auto simp: demo_from_frost)
  have "graphql_build_command ?S tx_demo (GraphqlBuild [9] [8]) w' = attempt (fs_write ?S [8] q) w'"
    using graphql_build_lemma[OF disk_system_laws tx_demo_laws signed_demo_good parse utf8 j] q by simp
  then obtain w'' where run: "graphql_build_command ?S tx_demo (GraphqlBuild [9] [8]) w' = (Some (Ok ()), w'')"
    by (simp add: attempt_def disk_system_def on_disk_def system_demo_def)
  from signed_file_becomes_request[OF disk_system_laws tx_demo_laws parse utf8 save nine demo_from_frost signed_demo_good q run]
  have "dd_files (snd w'') [8] = Some q" by simp
  with q run show ?thesis by blast
qed

end
