(* ===== verification/Book_Refinement.thy ===== *)
theory Book_Refinement
  imports Cli_Main
begin

text \<open>
  The commands that manage the configuration file, as operations on an abstract address book: the
  user's key, the public keys of the contacts by their names, and the groups. The file is one
  implementation of it (\<^verbatim>\<open>mina-frost-client/src/cli/\<close> \<^verbatim>\<open>config.rs\<close>, \<^verbatim>\<open>contact.rs\<close>,
  \<^verbatim>\<open>group.rs\<close>, \<^verbatim>\<open>init.rs\<close>): whatever commands are given, with whatever results, it is a
  simulation. The simulation itself is a locale.
\<close>

section \<open>Simulation of command sequences\<close>

primrec do_all :: "('c \<Rightarrow> 'w \<Rightarrow> 'r \<times> 'w) \<Rightarrow> 'c list \<Rightarrow> 'w \<Rightarrow> 'r list \<times> 'w" where
  "do_all run [] w = ([], w)"
| "do_all run (c # cs) w = (case run c w of (r, w) \<Rightarrow> (case do_all run cs w of (rs, w) \<Rightarrow> (r # rs, w)))"

text \<open>What the operations that succeeded make of the abstract state, if it allows them.\<close>

fun succeed_all :: "('r \<Rightarrow> bool) \<Rightarrow> ('c \<Rightarrow> 'a \<Rightarrow> 'a option) \<Rightarrow> 'c list \<Rightarrow> 'r list \<Rightarrow> 'a \<Rightarrow> 'a option" where
  "succeed_all good spec (c # cs) (r # rs) a =
     (if good r then Option.bind (spec c a) (succeed_all good spec cs rs) else succeed_all good spec cs rs a)"
| "succeed_all good spec _ _ a = Some a"

locale simulation =
  fixes run :: "'c \<Rightarrow> 'w \<Rightarrow> 'r \<times> 'w"
    and allowed :: "'c \<Rightarrow> bool"
    and good :: "'r \<Rightarrow> bool"
    and spec :: "'c \<Rightarrow> 'a \<Rightarrow> 'a option"
    and implements :: "'w \<Rightarrow> 'a \<Rightarrow> bool"
  assumes success: "implements w a \<Longrightarrow> allowed c \<Longrightarrow> run c w = (r, w') \<Longrightarrow> good r \<Longrightarrow>
      \<exists>a'. spec c a = Some a' \<and> implements w' a'"
    and failure: "implements w a \<Longrightarrow> allowed c \<Longrightarrow> run c w = (r, w') \<Longrightarrow> \<not> good r \<Longrightarrow> implements w' a"
begin

lemma simulates:
  "implements w a \<Longrightarrow> (\<And>c. c \<in> set cs \<Longrightarrow> allowed c) \<Longrightarrow> do_all run cs w = (rs, w') \<Longrightarrow>
    \<exists>a'. succeed_all good spec cs rs a = Some a' \<and> implements w' a'"
proof (induction cs arbitrary: w a rs)
  case (Cons c cs)
  obtain r w1 where r: "run c w = (r, w1)" by (cases "run c w")
  obtain rs' where rest: "do_all run cs w1 = (rs', w')" "rs = r # rs'"
    using Cons.prems(3) r by (auto split: prod.splits)
  have "\<exists>a1. (if good r then spec c a else Some a) = Some a1 \<and> implements w1 a1"
    using success[OF Cons.prems(1) _ r] failure[OF Cons.prems(1) _ r] Cons.prems(2) by simp
  then obtain a1 where "(if good r then spec c a else Some a) = Some a1" "implements w1 a1" by blast
  then show ?case
    using Cons.IH[of w1 a1 rs'] Cons.prems(2) rest by (auto split: if_splits)
qed simp

end

section \<open>The abstract address book\<close>

record book =
  own_key :: comm_key
  known :: "(rstr, comm_key) fmap"
  groups :: "(rstr, frost_group) fmap"

definition book_of :: "config \<Rightarrow> book option" where
  "book_of cfg = map_option (\<lambda>key. \<lparr>own_key = ck_pubkey key, known = fmmap ct_pubkey (cf_contact cfg), groups = cf_group cfg\<rparr>)
     (cf_communication_key cfg)"

definition forget :: "('id, 'kp, 'pkp, 'vk, 'w) client_ext \<Rightarrow> rstr \<Rightarrow> (rstr, comm_key) fmap \<Rightarrow> (rstr, comm_key) fmap" where
  "forget X hex m = fmfilter (\<lambda>n. map_option (hex_encode X) (fmlookup m n) \<noteq> Some hex) m"

text \<open>A contact is learnt under a new name with a new key, forgotten by the hexadecimal form of its key.\<close>

fun book_step :: "('id, 'kp, 'pkp, 'vk, 'w) client_ext \<Rightarrow> command \<Rightarrow> book \<Rightarrow> book option" where
  "book_step X (Import s _) B =
     (case contact_from_text X s of
        Ok c \<Rightarrow> if ct_name c |\<in>| fmdom (known B) \<or> ct_pubkey c |\<in>| finsert (own_key B) (fmran (known B)) then None
          else Some (B\<lparr>known := fmupd (ct_name c) (ct_pubkey c) (known B)\<rparr>)
      | _ \<Rightarrow> None)"
| "book_step X (RemoveContact _ hex) B =
     (if forget X hex (known B) = known B then None else Some (B\<lparr>known := forget X hex (known B)\<rparr>))"
| "book_step X (RemoveGroup _ g) B =
     (if g |\<in>| fmdom (groups B) then Some (B\<lparr>groups := fmdrop g (groups B)\<rparr>) else None)"
| "book_step X _ B = Some B"

text \<open>The commands that manage the file at \<open>p\<close>.\<close>

fun manages :: "rstr \<Rightarrow> command \<Rightarrow> bool" where
  "manages p (Init path) \<longleftrightarrow> path = Some p"
| "manages p (Export _ path) \<longleftrightarrow> path = Some p"
| "manages p (Import _ path) \<longleftrightarrow> path = Some p"
| "manages p (Contacts path) \<longleftrightarrow> path = Some p"
| "manages p (RemoveContact path _) \<longleftrightarrow> path = Some p"
| "manages p (Groups path) \<longleftrightarrow> path = Some p"
| "manages p (RemoveGroup path _) \<longleftrightarrow> path = Some p"
| "manages p _ \<longleftrightarrow> False"

text \<open>The file holds a consistent configuration that stands for the book.\<close>

definition book_file ::
  "('t, 'w) system_ext \<Rightarrow> (rstr \<Rightarrow> 'f) \<Rightarrow> ('w \<Rightarrow> 'f \<Rightarrow> bytes option) \<Rightarrow> ('id, 'kp, 'pkp, 'vk, 'w) client_ext \<Rightarrow> rstr \<Rightarrow>
    'w \<Rightarrow> book \<Rightarrow> bool" where
  "book_file S place files X p w B \<longleftrightarrow> files w (place p) \<noteq> None \<and>
     (\<exists>cfg. config_read S X (Some p) w = (Some (Ok cfg), w) \<and> address_book_ok cfg \<and> book_of cfg = Some B)"


lemma config_read_again:
  assumes "files_laws S place files temps" and "files w (place p) \<noteq> None" and "files w' = files w"
    and "config_read S X (Some p) w = (Some (Ok cfg), w)"
  shows "config_read S X (Some p) w' = (Some (Ok cfg), w')"
proof -
  have "path_exists S p v" "fs_read S p v = files w (place p)" if "files v = files w" for v
    using assms(1,2) that by (simp_all add: files_laws_def)
  then show ?thesis using assms(3,4) by (auto simp: config_read_def parse_path_def)
qed

lemma book_file_kept:
  "files_laws S place files temps \<Longrightarrow> book_file S place files X p w B \<Longrightarrow> files w' = files w \<Longrightarrow>
    book_file S place files X p w' B"
  unfolding book_file_def using config_read_again by metis

lemma book_file_written:
  assumes "files_laws S place files temps" and "client_laws X" and "cf_path cfg = Some p"
    and "config_write S X cfg w = (Some (Ok ()), w1)" and "files w' = files w1"
    and "address_book_ok cfg" and "book_of cfg = Some B"
  shows "book_file S place files X p w' B"
proof -
  have "files w1 (place p) \<noteq> None" using config_write_one[OF assms(1,3,4)] by auto
  then show ?thesis
    using config_write_read_later[OF assms(1-5)] assms(5-7) unfolding book_file_def by auto
qed

section \<open>Each command\<close>

lemma address_book_ok_cong:
  "cf_contact a = cf_contact b \<Longrightarrow> cf_communication_key a = cf_communication_key b \<Longrightarrow> address_book_ok a = address_book_ok b"
  by (simp only: address_book_ok_def)

lemma hex_inj: "client_laws X \<Longrightarrow> hex_encode X a = hex_encode X b \<longleftrightarrow> a = b"
  unfolding client_laws_def by (metis option.inject)

lemma add_contact_step:
  assumes "add_contact X cfg c = Ok (c', cfg')" and "contact_from_text X s = Ok c" and "book_of cfg = Some B"
  shows "\<exists>B'. book_step X (Import s path) B = Some B' \<and> book_of cfg' = Some B'"
proof -
  note added = add_contact_Ok[OF assms(1)]
  from assms(3) obtain key where key: "cf_communication_key cfg = Some key"
    and B: "B = \<lparr>own_key = ck_pubkey key, known = fmmap ct_pubkey (cf_contact cfg), groups = cf_group cfg\<rparr>"
    by (auto simp: book_of_def)
  have "ct_pubkey c |\<notin>| fmran (known B)"
    using added(4) by (fastforce simp: B fmlookup_ran_iff)
  moreover have "ct_pubkey c \<noteq> own_key B" using added(5) key by (auto simp: B)
  moreover have "ct_name c |\<notin>| fmdom (known B)" using added(3) by (simp add: B fmlookup_dom_iff)
  moreover have "book_of cfg' = Some (B\<lparr>known := fmupd (ct_name c) (ct_pubkey c) (known B)\<rparr>)"
    by (simp add: book_of_def key B added(1,2)) (rule fmap_ext, simp)
  ultimately show ?thesis using assms(2) by simp
qed

lemma remove_contact_step:
  assumes "client_laws X" and "remove_contact X cfg hex = Ok cfg'" and "address_book_ok cfg" and "book_of cfg = Some B"
  shows "\<exists>B'. book_step X (RemoveContact path hex) B = Some B' \<and> book_of cfg' = Some B'"
proof -
  from assms(4) obtain key where key: "cf_communication_key cfg = Some key"
    and B: "B = \<lparr>own_key = ck_pubkey key, known = fmmap ct_pubkey (cf_contact cfg), groups = cf_group cfg\<rparr>"
    by (auto simp: book_of_def)
  from assms(2) obtain name c where found: "List.find (\<lambda>(name, c). hex_encode X (ct_pubkey c) = hex) (sorted_list_of_fmap (cf_contact cfg)) = Some (name, c)"
    and cfg': "cfg' = cfg\<lparr>cf_contact := fmdrop name (cf_contact cfg)\<rparr>"
    by (auto simp: remove_contact_def split: option.splits)
  have c: "fmlookup (cf_contact cfg) name = Some c" "hex_encode X (ct_pubkey c) = hex"
    using find_Some_iff[THEN iffD1, OF found] nth_mem[of _ "sorted_list_of_fmap (cf_contact cfg)"]
    by (fastforce simp: sorted_list_of_fmap_def fmlookup_dom_iff)+
  have other: "hex_encode X (ct_pubkey d) \<noteq> hex" if "fmlookup (cf_contact cfg) n = Some d" "n \<noteq> name" for n d
    using address_book_okD(3)[OF assms(3) that(1) c(1)] that(2) hex_inj[OF assms(1)] c(2) by metis
  let ?kept = "forget X hex (known B)"
  have kept: "?kept = fmmap ct_pubkey (fmdrop name (cf_contact cfg))"
    by (rule fmap_ext) (use c other in \<open>auto simp: forget_def B option.map_comp split: option.splits\<close>)
  have "fmlookup ?kept name \<noteq> fmlookup (known B) name" unfolding kept using c by (simp add: B)
  then have "?kept \<noteq> known B" by metis
  moreover have "book_of cfg' = Some (B\<lparr>known := ?kept\<rparr>)" unfolding kept by (simp add: book_of_def key B cfg')
  ultimately show ?thesis by simp
qed


lemma settled_io:
  assumes "settles files run" and "run w = (r, w')" and "r \<noteq> Some (Ok ())"
  shows "files w' = files w"
  using files_kept(2)[OF assms(1), of w] assms(2,3) by auto

text \<open>A management command that does not succeed leaves the book; one that does makes the step.\<close>

definition does_step ::
  "('t, 'w) system_ext \<Rightarrow> (rstr \<Rightarrow> 'f) \<Rightarrow> ('w \<Rightarrow> 'f \<Rightarrow> bytes option) \<Rightarrow> ('id, 'kp, 'pkp, 'vk, 'w) client_ext \<Rightarrow> rstr \<Rightarrow>
    command \<Rightarrow> ('w, unit) cli \<Rightarrow> bool" where
  "does_step S place files X p c run \<longleftrightarrow> (\<forall>w B r w'. book_file S place files X p w B \<longrightarrow> run w = (r, w') \<longrightarrow>
     (if r = Some (Ok ()) then \<exists>B'. book_step X c B = Some B' \<and> book_file S place files X p w' B'
      else book_file S place files X p w' B))"

lemma settles_does_step:
  assumes "files_laws S place files temps" and "settles files run"
    and "\<And>w w' B cfg. book_file S place files X p w B \<Longrightarrow> config_read S X (Some p) w = (Some (Ok cfg), w) \<Longrightarrow>
      address_book_ok cfg \<Longrightarrow> book_of cfg = Some B \<Longrightarrow> run w = (Some (Ok ()), w') \<Longrightarrow>
      \<exists>B'. book_step X c B = Some B' \<and> book_file S place files X p w' B'"
  shows "does_step S place files X p c run"
  unfolding does_step_def
proof (intro allI impI)
  fix w B r w'
  assume book: "book_file S place files X p w B" and run: "run w = (r, w')"
  show "if r = Some (Ok ()) then \<exists>B'. book_step X c B = Some B' \<and> book_file S place files X p w' B'
      else book_file S place files X p w' B"
  proof (cases "r = Some (Ok ())")
    case True
    from book obtain cfg where "config_read S X (Some p) w = (Some (Ok cfg), w)" "address_book_ok cfg" "book_of cfg = Some B"
      unfolding book_file_def by blast
    from assms(3)[OF book this] run True show ?thesis by simp
  next
    case False
    with book_file_kept[OF assms(1) book settled_io[OF assms(2) run]] show ?thesis by simp
  qed
qed

lemma keeps_does_step:
  assumes "files_laws S place files temps" and "keeps files run" and "\<And>B. book_step X c B = Some B"
  shows "does_step S place files X p c run"
  by (rule settles_does_step[OF assms(1) keeps_settles[OF assms(2)]])
    (use assms(3) files_kept(1)[OF assms(2)] book_file_kept[OF assms(1)] in \<open>metis snd_conv\<close>)

lemma import_does_step:
  assumes "files_laws S place files temps" and "client_laws X"
  shows "does_step S place files X p (Import s (Some p)) (contact_import S X (Import s (Some p)))"
proof (rule settles_does_step[OF assms(1) settles_commands(1)[OF assms(1)]])
  fix w w' B cfg
  assume read: "config_read S X (Some p) w = (Some (Ok cfg), w)" and ok: "address_book_ok cfg"
    and B: "book_of cfg = Some B" and "contact_import S X (Import s (Some p)) w = (Some (Ok ()), w')"
  from this(4) obtain c c' cfg' w1 where c: "contact_from_text X s = Ok c" and added: "add_contact X cfg c = Ok (c', cfg')"
    and stored: "config_write S X cfg' w1 = (Some (Ok ()), w')"
    by (rule contact_import_Ok) (use read in auto)
  have "cf_path cfg' = Some p" using config_read_path[OF read] add_contact_Ok(2)[OF added] by simp
  from book_file_written[OF assms this stored refl add_contact_address_book[OF added ok]] add_contact_step[OF added c B]
  show "\<exists>B'. book_step X (Import s (Some p)) B = Some B' \<and> book_file S place files X p w' B'" by blast
qed

lemma remove_does_step:
  assumes "files_laws S place files temps" and "client_laws X"
  shows "does_step S place files X p (RemoveContact (Some p) hex) (contact_remove S X (RemoveContact (Some p) hex))"
proof (rule settles_does_step[OF assms(1) settles_commands(2)[OF assms(1)]])
  fix w w' B cfg
  assume read: "config_read S X (Some p) w = (Some (Ok cfg), w)" and ok: "address_book_ok cfg"
    and B: "book_of cfg = Some B" and "contact_remove S X (RemoveContact (Some p) hex) w = (Some (Ok ()), w')"
  from this(4) read obtain cfg' where removed: "remove_contact X cfg hex = Ok cfg'"
    and stored: "config_write S X cfg' w = (Some (Ok ()), w')"
    by (auto simp: io_bind_Ok)
  have "cf_path cfg' = Some p"
    using config_read_path[OF read] removed by (auto simp: remove_contact_def split: option.splits)
  from book_file_written[OF assms this stored refl remove_contact_address_book[OF removed ok]]
    remove_contact_step[OF assms(2) removed ok B]
  show "\<exists>B'. book_step X (RemoveContact (Some p) hex) B = Some B' \<and> book_file S place files X p w' B'" by blast
qed

lemma group_remove_does_step:
  assumes "files_laws S place files temps" and "client_laws X"
  shows "does_step S place files X p (RemoveGroup (Some p) g) (group_remove S X (RemoveGroup (Some p) g))"
proof (rule settles_does_step[OF assms(1) settles_commands(3)[OF assms(1)]])
  fix w w' B cfg
  assume read: "config_read S X (Some p) w = (Some (Ok cfg), w)" and ok: "address_book_ok cfg"
    and B: "book_of cfg = Some B" and "group_remove S X (RemoveGroup (Some p) g) w = (Some (Ok ()), w')"
  let ?cfg = "cfg\<lparr>cf_group := fmdrop g (cf_group cfg)\<rparr>"
  from \<open>group_remove _ _ _ _ = _\<close> read have g: "g |\<in>| fmdom (cf_group cfg)"
    and stored: "config_write S X ?cfg w = (Some (Ok ()), w')"
    by (auto simp: io_bind_Ok or_fail_def outcome_simps fmlookup_dom_iff)
  have path: "cf_path ?cfg = Some p" using config_read_path[OF read] by simp
  have ok': "address_book_ok ?cfg" using ok by (subst address_book_ok_cong[of _ cfg]) simp_all
  obtain B' where "book_step X (RemoveGroup (Some p) g) B = Some B'" "book_of ?cfg = Some B'"
    using B g by (auto simp: book_of_def)
  with book_file_written[OF assms path stored refl ok'] 
  show "\<exists>B'. book_step X (RemoveGroup (Some p) g) B = Some B' \<and> book_file S place files X p w' B'" by blast
qed

lemma init_does_step:
  assumes "files_laws S place files temps" and "client_laws X" and "\<And>w. files (snd (generate_keypair X w)) = files w"
  shows "does_step S place files X p (Init (Some p)) (cli_init S X (Init (Some p)))"
proof (rule settles_does_step[OF assms(1) settles_cli_init[OF assms(1,3)]])
  fix w w' B cfg
  assume read: "config_read S X (Some p) w = (Some (Ok cfg), w)" and ok: "address_book_ok cfg"
    and B: "book_of cfg = Some B" and run: "cli_init S X (Init (Some p)) w = (Some (Ok ()), w')"
  from B obtain key where key: "cf_communication_key cfg = Some key" by (auto simp: book_of_def)
  have path: "cf_path cfg = Some p" using config_read_path[OF read] .
  from run read obtain w1 w2 where stored: "config_write S X cfg w1 = (Some (Ok ()), w2)"
    and shown: "\<exists>x. w' = print_text S x w2"
    by (auto simp: io_bind_Ok ensure_keypair_def key path print_out_def simp del: lit_simps)
  from shown have "files w' = files w2" using assms(1) by (auto simp: files_laws_def)
  from book_file_written[OF assms(1,2) path stored this ok B]
  show "\<exists>B'. book_step X (Init (Some p)) B = Some B' \<and> book_file S place files X p w' B'" by simp
qed


section \<open>Sequences of commands\<close>

definition book_world ::
  "('t, 'w) system_ext \<Rightarrow> (rstr \<Rightarrow> 'f) \<Rightarrow> ('w \<Rightarrow> 'f \<Rightarrow> bytes option) \<Rightarrow> ('w \<Rightarrow> 't \<Rightarrow> bytes) \<Rightarrow>
    ('id, 'kp, 'pkp, 'vk, 'w) client_ext \<Rightarrow> rstr \<Rightarrow> 'w \<Rightarrow> book \<Rightarrow> bool" where
  "book_world S place files temps X p w B \<longleftrightarrow> files_laws S place files temps \<and> client_laws X \<and>
     (\<forall>w. files (snd (generate_keypair X w)) = files w) \<and> book_file S place files X p w B"

lemma run_command_does_step:
  assumes "files_laws S place files temps" and "client_laws X" and "\<And>w. files (snd (generate_keypair X w)) = files w"
    and "manages p c"
  shows "does_step S place files X p c (run_command S X U T C N V signer uuid_text co fco pa fpa dk fdk fde n c)"
  using assms(4)
  by (cases "(p, c)" rule: manages.cases)
    (auto simp: run_command_def simp del: contact_import.simps contact_remove.simps group_remove.simps cli_init.simps
        contact_export.simps contact_list.simps group_list.simps
      intro: import_does_step[OF assms(1,2)] remove_does_step[OF assms(1,2)] group_remove_does_step[OF assms(1,2)]
        init_does_step[OF assms(1-3)] keeps_does_step[OF assms(1) keeps_commands(1)[OF assms(1)]]
        keeps_does_step[OF assms(1) keeps_commands(2)[OF assms(1)]] keeps_does_step[OF assms(1) keeps_commands(3)[OF assms(1)]])

interpretation managed: simulation
    "run_command S X U T C N V signer uuid_text co fco pa fpa dk fdk fde n" "manages p" "\<lambda>r. r = Some (Ok ())" "book_step X"
    "book_world S place files temps X p"
  for S :: "('t, 'w) system_ext" and X :: "('id, 'kp, 'pkp, 'el, 'w) client_ext" and place :: "rstr \<Rightarrow> 'f" and files temps
    and U :: "'url url_ext" and T :: "('r, 'sp) tx_env" and C :: "('el, 's) curve_ext" and N V signer uuid_text
    and co fco pa fpa dk fdk fde n p
proof unfold_locales
  fix w w' :: 'w and B c r
  let ?run = "run_command S X U T C N V signer uuid_text co fco pa fpa dk fdk fde n c"
  assume world: "book_world S place files temps X p w B" and c: "manages p c" and run: "?run w = (r, w')"
  from world have laws: "files_laws S place files temps" "client_laws X" "\<And>w. files (snd (generate_keypair X w)) = files w"
    and book: "book_file S place files X p w B" unfolding book_world_def by blast+
  have step: "if r = Some (Ok ()) then \<exists>B'. book_step X c B = Some B' \<and> book_file S place files X p w' B'
      else book_file S place files X p w' B"
    using run_command_does_step[OF laws c] book run unfolding does_step_def by blast
  show "r = Some (Ok ()) \<Longrightarrow> \<exists>B'. book_step X c B = Some B' \<and> book_world S place files temps X p w' B'"
    using step laws by (simp add: book_world_def)
  show "r \<noteq> Some (Ok ()) \<Longrightarrow> book_world S place files temps X p w' B"
    using step laws by (simp add: book_world_def)
qed

text \<open>
  C23: the configuration file is an address book: whatever management commands are given and
  whichever of them succeed, the file then holds a consistent configuration that stands for the
  abstract book after exactly the steps of those that succeeded, all of which it allows. So a
  command the book does not allow (a name or a key twice, one's own key, an unknown contact or
  group) never succeeds, and one that fails changes nothing, in any order of commands.
\<close>

theorem commands_refine_book:
  assumes "files_laws S place files temps" and "client_laws X" and "\<And>w. files (snd (generate_keypair X w)) = files w"
    and "\<And>c. c \<in> set cs \<Longrightarrow> manages p c"
    and "files w (place p) \<noteq> None" and "config_read S X (Some p) w = (Some (Ok cfg), w)"
    and "address_book_ok cfg" and "book_of cfg = Some B"
    and "do_all (run_command S X U T C N V signer uuid_text co fco pa fpa dk fdk fde n) cs w = (rs, w')"
  shows "\<exists>cfg' B'. config_read S X (Some p) w' = (Some (Ok cfg'), w') \<and> address_book_ok cfg' \<and> book_of cfg' = Some B' \<and>
    succeed_all (\<lambda>r. r = Some (Ok ())) (book_step X) cs rs B = Some B'"
proof -
  have "book_world S place files temps X p w B"
    using assms(1-3,5-8) by (auto simp: book_world_def book_file_def)
  from managed.simulates[OF this assms(4,9)] show ?thesis
    unfolding book_world_def book_file_def by blast
qed

section \<open>An instance\<close>

text \<open>A user with the key 9, who may know the contact of \<open>demo_contact\<close>.\<close>

definition keyed_config :: "(rstr, contact) fmap \<Rightarrow> config" where
  "keyed_config m = config_default\<lparr>cf_communication_key := Some \<lparr>ck_privkey = [8], ck_pubkey = [9]\<rparr>, cf_contact := m\<rparr>"

definition keyed_known :: "(rstr, contact) fmap" where
  "keyed_known = fmupd [97] (demo_contact\<lparr>ct_version := None\<rparr>) fmempty"

definition keyed_client :: "(bytes, bytes, bytes, bytes, demo_disk) client_ext" where
  "keyed_client = client_demo\<lparr>
     toml_encode := (\<lambda>c. if c\<lparr>cf_path := None\<rparr> = keyed_config keyed_known then Some [67]
       else if c\<lparr>cf_path := None\<rparr> = keyed_config fmempty then Some [66] else None),
     toml_decode := (\<lambda>s. if s = [67] then Some (keyed_config keyed_known)
       else if s = [66] then Some (keyed_config fmempty) else None)\<rparr>"

lemma keyed_client_laws: "client_laws keyed_client"
proof -
  have "utf8_valid [67]" "utf8_valid [66]" by code_simp+
  then show ?thesis by (auto simp: client_laws_def keyed_client_def client_demo_def split: if_splits)
qed

definition keyed_disk :: "bytes \<Rightarrow> rstr list \<Rightarrow> bytes \<Rightarrow> demo_disk" where
  "keyed_disk b shown temp = \<lparr>dd_files = (\<lambda>p. None)([1] := Some b), dd_temp = temp, dd_printed = shown\<rparr>"


lemma keyed_book: "book_of (keyed_config m) = Some \<lparr>own_key = [9], known = fmmap ct_pubkey m, groups = fmempty\<rparr>"
  by (simp add: book_of_def keyed_config_def config_default_def)

lemma keyed_read:
  "config_read system_demo keyed_client (Some [1]) (keyed_disk [66] x t) =
    (Some (Ok (keyed_config fmempty\<lparr>cf_path := Some [1]\<rparr>)), keyed_disk [66] x t)"
  "config_read system_demo keyed_client (Some [1]) (keyed_disk [67] x t) =
    (Some (Ok (keyed_config keyed_known\<lparr>cf_path := Some [1]\<rparr>)), keyed_disk [67] x t)"
proof -
  have "utf8_valid [67]" "utf8_valid [66]" by code_simp+
  then show "config_read system_demo keyed_client (Some [1]) (keyed_disk [66] x t) =
      (Some (Ok (keyed_config fmempty\<lparr>cf_path := Some [1]\<rparr>)), keyed_disk [66] x t)"
    "config_read system_demo keyed_client (Some [1]) (keyed_disk [67] x t) =
      (Some (Ok (keyed_config keyed_known\<lparr>cf_path := Some [1]\<rparr>)), keyed_disk [67] x t)"
    by (simp_all add: config_read_def parse_path_def system_demo_def keyed_client_def keyed_disk_def)
qed

lemma keyed_write:
  "config_write system_demo keyed_client (keyed_config keyed_known\<lparr>cf_path := Some [1]\<rparr>) (keyed_disk b x t) =
    (Some (Ok ()), keyed_disk [67] x [67])"
  "config_write system_demo keyed_client (keyed_config fmempty\<lparr>cf_path := Some [1]\<rparr>) (keyed_disk b x t) =
    (Some (Ok ()), keyed_disk [66] x [66])"
proof -
  have "keyed_config fmempty \<noteq> keyed_config keyed_known"
    by (simp add: keyed_config_def keyed_known_def config_default_def)
  then show "config_write system_demo keyed_client (keyed_config keyed_known\<lparr>cf_path := Some [1]\<rparr>) (keyed_disk b x t) =
    (Some (Ok ()), keyed_disk [67] x [67])"
  "config_write system_demo keyed_client (keyed_config fmempty\<lparr>cf_path := Some [1]\<rparr>) (keyed_disk b x t) =
    (Some (Ok ()), keyed_disk [66] x [66])"
    by (simp_all add: config_write_def write_file_def check_path_def attempt_def obtain_from_def or_fail_def outside_def
        absolute_path_def io_bind_def system_demo_def keyed_client_def keyed_disk_def keyed_config_def config_default_def)
qed

text \<open>Import a contact, import it again, remove it.\<close>

definition keyed_commands :: "command list" where
  "keyed_commands = [Import [68] (Some [1]), Import [68] (Some [1]), RemoveContact (Some [1]) [1, 2]]"


lemma keyed_contact: "contact_from_text keyed_client [68] = Ok demo_contact"
  by (simp add: contact_from_text_def keyed_client_def client_demo_def demo_contact_def del: lit_simps)

lemma keyed_print: "print_text system_demo s (keyed_disk b x t) = keyed_disk b (x @ [s]) t"
  by (simp add: system_demo_def keyed_disk_def)

lemma keyed_import:
  "\<exists>x. contact_import system_demo keyed_client (Import [68] (Some [1])) (keyed_disk [66] [] t) = (Some (Ok ()), keyed_disk [67] x [67])"
  "\<exists>e. contact_import system_demo keyed_client (Import [68] (Some [1])) (keyed_disk [67] x t) = (Some (Err e), keyed_disk [67] x t)"
proof -
  have "add_contact keyed_client (keyed_config fmempty\<lparr>cf_path := Some [1]\<rparr>) demo_contact =
      Ok (demo_contact\<lparr>ct_version := None\<rparr>, keyed_config keyed_known\<lparr>cf_path := Some [1]\<rparr>)"
    by (simp add: add_contact_def keyed_config_def keyed_known_def demo_contact_def config_default_def btree_values_def Let_def)
  then show "\<exists>x. contact_import system_demo keyed_client (Import [68] (Some [1])) (keyed_disk [66] [] t) =
      (Some (Ok ()), keyed_disk [67] x [67])"
    by (simp add: io_bind_def keyed_read keyed_contact print_out_def keyed_print keyed_write del: lit_simps) blast
  have "add_contact keyed_client (keyed_config keyed_known\<lparr>cf_path := Some [1]\<rparr>) demo_contact =
      Err (Failure (lit ''contact with name '' @ [97] @ lit '' already exists. Either remove the existing one, or ask the sender to change their display name when exporting''))"
    by (simp add: add_contact_def keyed_config_def keyed_known_def demo_contact_def del: lit_simps)
  then show "\<exists>e. contact_import system_demo keyed_client (Import [68] (Some [1])) (keyed_disk [67] x t) =
      (Some (Err e), keyed_disk [67] x t)"
    by (simp add: io_bind_def keyed_read keyed_contact del: lit_simps)
qed

lemma keyed_remove:
  "contact_remove system_demo keyed_client (RemoveContact (Some [1]) [1, 2]) (keyed_disk [67] x t) = (Some (Ok ()), keyed_disk [66] x [66])"
proof -
  have "fmdrop [97] keyed_known = fmempty" by (rule fmap_ext) (simp add: keyed_known_def)
  moreover have "sorted_list_of_fmap keyed_known = [([97], demo_contact\<lparr>ct_version := None\<rparr>)]"
    by (simp add: sorted_list_of_fmap_def keyed_known_def sorted_list_of_fset.rep_eq)
  ultimately have "remove_contact keyed_client (keyed_config keyed_known\<lparr>cf_path := Some [1]\<rparr>) [1, 2] =
      Ok (keyed_config fmempty\<lparr>cf_path := Some [1]\<rparr>)"
    by (simp add: remove_contact_def keyed_config_def keyed_client_def client_demo_def demo_contact_def)
  then show ?thesis by (simp add: io_bind_def keyed_read keyed_write)
qed

lemma commands_refine_book_witness:
  "\<forall>(U :: unit url_ext) (T :: (nat, nat) tx_env) (C :: (bytes, nat) curve_ext) N V signer uuid_text co fco pa fpa dk fdk fde n.
    \<exists>e x cfg. do_all (run_command system_demo keyed_client U T C N V signer uuid_text co fco pa fpa dk fdk fde n)
        keyed_commands (keyed_disk [66] [] []) = ([Some (Ok ()), Some (Err e), Some (Ok ())], keyed_disk [66] x [66]) \<and>
      config_read system_demo keyed_client (Some [1]) (keyed_disk [66] x [66]) = (Some (Ok cfg), keyed_disk [66] x [66]) \<and>
      book_of cfg = Some \<lparr>own_key = [9], known = fmempty, groups = fmempty\<rparr>"
proof (intro allI)
  fix U :: "unit url_ext" and T :: "(nat, nat) tx_env" and C :: "(bytes, nat) curve_ext"
    and N V signer uuid_text co fco pa fpa dk fdk fde n
  let ?run = "run_command system_demo keyed_client U T C N V signer uuid_text co fco pa fpa dk fdk fde n"
  obtain x where first: "contact_import system_demo keyed_client (Import [68] (Some [1])) (keyed_disk [66] [] []) =
      (Some (Ok ()), keyed_disk [67] x [67])" using keyed_import(1) by blast
  obtain e where second: "contact_import system_demo keyed_client (Import [68] (Some [1])) (keyed_disk [67] x [67]) =
      (Some (Err e), keyed_disk [67] x [67])" using keyed_import(2) by blast
  have run: "do_all ?run keyed_commands (keyed_disk [66] [] []) =
      ([Some (Ok ()), Some (Err e), Some (Ok ())], keyed_disk [66] x [66])"
    by (simp add: keyed_commands_def run_command_def first second keyed_remove
        del: contact_import.simps contact_remove.simps)
  let ?cfg = "keyed_config fmempty\<lparr>cf_path := Some [1]\<rparr>"
  have book: "book_of ?cfg = Some \<lparr>own_key = [9], known = fmempty, groups = fmempty\<rparr>"
    by (simp add: book_of_def keyed_config_def config_default_def)
  have keypair: "\<And>w. dd_files (snd (generate_keypair keyed_client w)) = dd_files w"
    by (simp add: keyed_client_def client_demo_def)
  have managed: "\<And>c. c \<in> set keyed_commands \<Longrightarrow> manages [1] c" by (auto simp: keyed_commands_def)
  have there: "dd_files (keyed_disk [66] [] []) (id [1]) \<noteq> None" by (simp add: keyed_disk_def)
  have ok: "address_book_ok ?cfg" by (simp add: address_book_ok_def keyed_config_def)
  from commands_refine_book[OF system_demo_laws keyed_client_laws keypair managed there keyed_read(1) ok book run]
  obtain cfg' B' where "config_read system_demo keyed_client (Some [1]) (keyed_disk [66] x [66]) = (Some (Ok cfg'), keyed_disk [66] x [66])"
    "book_of cfg' = Some B'"
    "succeed_all (\<lambda>r. r = Some (Ok ())) (book_step keyed_client) keyed_commands [Some (Ok ()), Some (Err e), Some (Ok ())]
      \<lparr>own_key = [9], known = fmempty, groups = fmempty\<rparr> = Some B'" by blast
  moreover have "B' = \<lparr>own_key = [9], known = fmempty, groups = fmempty\<rparr>"
    using calculation(1,2) keyed_read(1)[of x "[66]"] book by simp
  ultimately show "\<exists>e x cfg. do_all ?run keyed_commands (keyed_disk [66] [] []) =
        ([Some (Ok ()), Some (Err e), Some (Ok ())], keyed_disk [66] x [66]) \<and>
      config_read system_demo keyed_client (Some [1]) (keyed_disk [66] x [66]) = (Some (Ok cfg), keyed_disk [66] x [66]) \<and>
      book_of cfg = Some \<lparr>own_key = [9], known = fmempty, groups = fmempty\<rparr>"
    using run by blast
qed

end
