(* ===== verification/Spec2Isabelle.thy ===== *)
theory Spec2Isabelle
  imports Coordinator_Progress Dkg_Progress Valid_Signatures Book_Refinement
begin

text \<open>
  Verification library for the Mina multi-signature tooling: FROST threshold signatures over the
  Pallas curve for Mina transactions. The repository has three crates, and so has the model.

  \<^bold>\<open>The program.\<close> \<^verbatim>\<open>mina-tx\<close> reads a transaction, legacy or zkApp, with its network into
  an envelope, makes the bytes to be signed of it (a Pallas message holding the random-oracle
  input; of a zkApp command that input is its two commitments), and puts a signature into it.
  \<^verbatim>\<open>frost-bluepallas\<close> is the FROST ciphersuite: its hash functions, and the normalisation to
  an even group commitment that makes a FROST signature a Mina signature. \<^verbatim>\<open>mina-frost-client\<close>
  is the command line: an address book and groups in a configuration file, key generation (by a
  dealer, or distributed over a server) and signing sessions between a coordinator and
  participants, whose messages the server relays and Noise encrypts.

  \<^bold>\<open>Conventions\<close> (\<open>Mina_Prelude\<close>, \<open>External_Code\<close>, \<open>Collector\<close>, \<open>Api\<close>). A fallible
  function has the outcome \<open>Ok\<close>, \<open>Err\<close> or \<open>Panic\<close>; \<open>unwrap\<close>, indexing and slice copies
  panic where Rust does. Strings are UTF-8 bytes, \<open>uN\<close> is \<open>N word\<close>, \<open>usize\<close> is
  \<open>nat\<close>, maps are \<open>fmap\<close> with their iteration order a parameter where it is seen. Code
  that is not in the repository (curve arithmetic, Poseidon, SHA-256, frost-core, snow, HTTP, TOML,
  postcard, JSON text, the operating system) is a record of functions that the definitions take as
  an argument; what a theorem relies on is a named predicate on that record, and a witness
  instantiates it. Computations with effects are state passing, with no result while they wait:
  a polling loop takes the number of its rounds, and theorems hold for every number of rounds;
  that a loop returns is stated with the batches the server delivers
  (\<open>Coordinator_Progress\<close>, \<open>Dkg_Progress\<close>), that it never does for every number of rounds.
\<close>

text \<open>
  \<^bold>\<open>Transactions\<close> (\<^verbatim>\<open>mina-tx/src\<close>).
  \<open>Network_Id\<close> (\<^verbatim>\<open>transactions/network_id.rs\<close>): networks and their domain strings; as the
  hasher pads them they are shown to be separated for short names, apart from the one pair that
  shares a domain, and to collide for others. \<open>Base58\<close>, \<open>Signatures\<close>,
  \<open>Mina_Errors\<close>: the text forms of signatures and the errors. \<open>Pallas_Message\<close>
  (\<^verbatim>\<open>pallas_message.rs\<close>, \<^verbatim>\<open>bluepallas_compat.rs\<close>): the byte format of the signed message, the
  exact inputs its parser accepts and those on which it panics, and the challenge.
  \<open>Zkapp_Types\<close>, \<open>Zk_Hash\<close>, \<open>Packing\<close>, \<open>Packable_Types\<close>, \<open>Zk_Commit\<close>
  (\<^verbatim>\<open>zkapp_tx.rs\<close>, \<^verbatim>\<open>zkapp_tx/\<close> \<^verbatim>\<open>constants.rs\<close>, \<^verbatim>\<open>packing.rs\<close>, \<^verbatim>\<open>commit.rs\<close>):
  the zkApp command and its commitments; \<open>Packable_Binding\<close> states what packing commits to as a
  locale that every packable type interprets, and \<open>Zk_Binding\<close> that the commitment of a command
  binds its content unless hash queries collide. \<open>Signature_Injection\<close>
  (\<^verbatim>\<open>signature_injection.rs\<close>): which authorisations a signature is written to, and that the
  commitment stays. \<open>Legacy_Tx\<close> (\<^verbatim>\<open>legacy_tx.rs\<close>), \<open>Json\<close>, \<open>Zkapp_Serde\<close>
  (\<^verbatim>\<open>zkapp_serde.rs\<close>): the two JSON forms, with round trips; \<open>Json_Depth\<close>: what is written
  nests too little to reach the depth at which the JSON parser stops; \<open>Transactions\<close>
  (\<^verbatim>\<open>transactions.rs\<close>, \<^verbatim>\<open>graphql.rs\<close>): envelopes, reading of unsigned and signed files, the
  signed bytes, GraphQL requests.

  \<^bold>\<open>Ciphersuite\<close> (\<^verbatim>\<open>frost-bluepallas/src\<close>). \<open>Frost_Suite\<close> (\<^verbatim>\<open>lib.rs\<close>,
  \<^verbatim>\<open>hasher.rs\<close>, \<^verbatim>\<open>negate.rs\<close>): separation of the hash inputs, agreement of signers and
  coordinator on the normalised package, and that what is aggregated verifies as a Mina signature.
  \<open>Signing_Utilities\<close> (\<^verbatim>\<open>signing_utilities.rs\<close> and the dealer's
  \<^verbatim>\<open>trusted_dealer/keygen.rs\<close>): signing with all shares in one place.

  \<^bold>\<open>Protocols\<close> (\<^verbatim>\<open>mina-frost-client/src\<close>). \<open>Collector\<close> is the pattern of every round, a locale:
  acceptable messages fill a map until it is complete. \<open>Coordinator_Session\<close> and
  \<open>Dkg_Session\<close> (\<^verbatim>\<open>session.rs\<close>) interpret it for the state machines of signing and of
  key generation with its echo broadcast. \<open>Api\<close> (\<^verbatim>\<open>api.rs\<close>, \<^verbatim>\<open>client.rs\<close>) is the server's
  interface, \<open>Cipher\<close> (\<^verbatim>\<open>cipher.rs\<close>) the Noise sessions, refined to an abstract link, and
  \<open>Comms\<close> what the three protocols share. \<open>Coordinator_Comms\<close> with \<open>Signing_Payload\<close>
  (\<^verbatim>\<open>coordinator/\<close>), \<open>Participant_Comms\<close> (\<^verbatim>\<open>participant/\<close>) and \<open>Dkg_Comms\<close>
  (\<^verbatim>\<open>dkg/\<close>) run the protocols over the server: what is aggregated, what is signed and only after
  confirmation, agreement of the key generation, which runs hang, and that errors close the session.
  \<open>Deliveries\<close> is what the server sends in a number of batches; in its terms
  \<open>Coordinator_Progress\<close> shows that the coordinator's two waits end, and \<open>Dkg_Progress\<close> the three
  of the key generation, each with a locale for what its rounds have in common.

  \<^bold>\<open>Commands\<close> (\<^verbatim>\<open>mina-frost-client/src/cli\<close>). \<open>Files\<close> (\<^verbatim>\<open>write_atomic.rs\<close>) is the system
  interface and the atomic writer; \<open>Address_Book\<close> (\<^verbatim>\<open>config.rs\<close>, \<^verbatim>\<open>contact.rs\<close>,
  \<^verbatim>\<open>group.rs\<close>, \<^verbatim>\<open>init.rs\<close>, \<^verbatim>\<open>ciphersuite_helper.rs\<close>) the configuration and its commands;
  \<open>Signing_Commands\<close> (\<^verbatim>\<open>coordinator.rs\<close>, \<^verbatim>\<open>participant.rs\<close>), \<open>Group_Commands\<close>
  (\<^verbatim>\<open>dkg.rs\<close>, \<^verbatim>\<open>trusted_dealer.rs\<close>) and \<open>Cli_Main\<close> (\<^verbatim>\<open>session.rs\<close>, \<^verbatim>\<open>graphql.rs\<close>,
  \<^verbatim>\<open>main.rs\<close>) the commands from the command line to the files they write. The theorems there
  compose the layers: a generated group can sign, a coordinator's file holds the signature of the
  transaction it was given, and the GraphQL request is made of that file. \<open>Valid_Signatures\<close>
  goes through all three crates: that file reads back as a signature which Mina's verification
  accepts for the transaction of the input file and the key of the group. \<open>Book_Refinement\<close> states
  what the management commands amount to, in any sequence: an abstract address book that the
  configuration file implements.
\<close>

text \<open>
  \<^bold>\<open>What the groups of lemmas show.\<close> For each state machine: an invariant, what its result is
  made of, and when it advances. For each format: a round trip, and the exact condition of errors
  and panics where foreign input reaches them. For each protocol run: what holds of a successful run
  (\<open>ensures\<close>), what steps leave alone (\<open>frame\<close>), what an error does. For each command that
  writes: which file changes, and to what.

  \<^bold>\<open>Bounds.\<close> Lists whose length is written into four or eight bytes are assumed shorter than
  \<open>2 ^ 32\<close> and \<open>2 ^ 64\<close>; network names are as short as their length byte demands. The number
  of rounds of a polling loop is arbitrary everywhere; in the demonstration runs one to five rounds
  are enough since their servers deliver in as many batches.

  \<^bold>\<open>Not modelled.\<close> The type aliases and one-line calls of frost-core in
  \<^verbatim>\<open>frost-bluepallas/src/keys.rs\<close> and \<^verbatim>\<open>lib.rs\<close>, whose content is frost-core's; pretty-printing
  of zkApp parts for display (\<^verbatim>\<open>zkapp_display.rs\<close> apart from the command itself), as it is the
  JSON text of the serialisers; the definitions of the command-line parser beyond the commands it
  yields; test vectors, the script that generates them, tests and examples. Time (the sleep
  between polls), the terminal's output stream failing, the panic hook and zeroisation of secrets
  have no counterpart. Readers work on JSON values: duplicate or unknown fields are treated as
  serde's derived code treats them, the text of a parse error is a parameter, and the buffering
  serde does for untagged data is taken not to change what is read.
\<close>

end
